(* ===== verification/Prelude.thy ===== *)
theory Prelude
  imports Main "HOL-Library.AList" "HOL-Library.List_Lexorder" "HOL-Library.Char_ord"
begin

text \<open>
  What the components of the development share: the named collections of simplification rules,
  Python dictionaries as association lists in insertion order (with the interface their clients
  rely on stated as a locale), sorted views of sets and dictionaries as the source builds them with
  \<^verbatim>\<open>sorted(set(a) - set(b))\<close>, \<^verbatim>\<open>max(..., key=...)\<close>, and results of operations that raise.
  Strings are lists of characters ordered by code point, as Python orders \<^verbatim>\<open>str\<close>
  (code points up to 255, the range of \<^typ>\<open>char\<close>).
\<close>

named_theorems dict_simps \<open>rules about dictionaries kept as association lists\<close>
named_theorems view_simps \<open>rules about sorted views of collections\<close>

section \<open>Results of operations that raise\<close>

text \<open>\<open>Inl e\<close> is an exception with payload \<open>e\<close>, \<open>Inr x\<close> a normal return.\<close>

definition sbind :: "'e + 'a \<Rightarrow> ('a \<Rightarrow> 'e + 'b) \<Rightarrow> 'e + 'b" where
  "sbind r f = (case r of Inl e \<Rightarrow> Inl e | Inr x \<Rightarrow> f x)"

lemma sbind_simps [simp]:
  "sbind (Inl e) f = Inl e"
  "sbind (Inr x) f = f x"
  by (simp_all add: sbind_def)

lemma sbind_eq_Inr [simp]: "sbind r f = Inr y \<longleftrightarrow> (\<exists>x. r = Inr x \<and> f x = Inr y)"
  by (cases r) simp_all

lemma sbind_eq_Inl: "sbind r f = Inl e \<longleftrightarrow> r = Inl e \<or> (\<exists>x. r = Inr x \<and> f x = Inl e)"
  by (cases r) simp_all

definition raise_if :: "bool \<Rightarrow> 'e \<Rightarrow> 'e + unit" where
  "raise_if b e = (if b then Inl e else Inr ())"

lemma raise_if_eq_Inr [simp]: "raise_if b e = Inr u \<longleftrightarrow> \<not> b"
  by (simp add: raise_if_def)

lemma raise_if_simps [simp]:
  "raise_if True e = Inl e"
  "raise_if False e = Inr ()"
  by (simp_all add: raise_if_def)

text \<open>A list comprehension or loop whose body may raise stops at the first exception.\<close>

fun smap :: "('a \<Rightarrow> 'e + 'b) \<Rightarrow> 'a list \<Rightarrow> 'e + 'b list" where
  "smap f [] = Inr []"
| "smap f (x # xs) = sbind (f x) (\<lambda>y. sbind (smap f xs) (\<lambda>ys. Inr (y # ys)))"

lemma smap_eq_Inr_iff: "smap f xs = Inr ys \<longleftrightarrow> list_all2 (\<lambda>x y. f x = Inr y) xs ys"
proof (induction xs arbitrary: ys)
  case (Cons x xs)
  then show ?case by (cases ys) auto
qed auto

lemma smap_map_Inr: "(\<And>x. x \<in> set xs \<Longrightarrow> f x = Inr (g x)) \<Longrightarrow> smap f xs = Inr (map g xs)"
  by (induction xs) auto

lemma sbind_cong:
  "r = r' \<Longrightarrow> (\<And>x. r' = Inr x \<Longrightarrow> f x = f' x) \<Longrightarrow> sbind r f = sbind r' f'"
  by (cases r') auto

lemma smap_cong:
  "xs = ys \<Longrightarrow> (\<And>y. y \<in> set ys \<Longrightarrow> f y = g y) \<Longrightarrow> smap f xs = smap g ys"
proof (induction xs arbitrary: ys)
  case (Cons x xs)
  then show ?case by (cases "g x") auto
qed simp

text \<open>A sequence of checks, each of which may raise: the first complaint ends it.\<close>

fun checks :: "('e + unit) list \<Rightarrow> 'e + unit" where
  "checks [] = Inr ()"
| "checks (c # cs) = sbind c (\<lambda>_. checks cs)"

lemma checks_append [simp]: "checks (cs @ ds) = sbind (checks cs) (\<lambda>_. checks ds)"
  by (induction cs) (auto simp: sbind_def split: sum.splits)

lemma checks_Inr [simp]: "checks cs = Inr u \<longleftrightarrow> list_all (\<lambda>c. c = Inr ()) cs"
  by (induction cs) auto

text \<open>\<^verbatim>\<open>any(p(x) for x in xs)\<close> where the test may raise: evaluation stops at the first success.\<close>

fun any_of :: "('a \<Rightarrow> 'e + bool) \<Rightarrow> 'a list \<Rightarrow> 'e + bool" where
  "any_of p [] = Inr False"
| "any_of p (x # xs) = sbind (p x) (\<lambda>b. if b then Inr True else any_of p xs)"

lemma any_of_Inr: "(\<And>x. x \<in> set xs \<Longrightarrow> p x = Inr (q x)) \<Longrightarrow> any_of p xs = Inr (list_ex q xs)"
  by (induction xs) auto

section \<open>Dictionaries\<close>

text \<open>
  What the code relies on of a dictionary: a stored value is read back, a new key goes last and a
  known key keeps its place. The clients build dictionaries by comprehension over a list; what such
  a dictionary holds is proved once from the interface.
\<close>

locale py_dict =
  fixes empty_dict :: 'd
    and get :: "'d \<Rightarrow> 'k \<Rightarrow> 'v option"
    and put :: "'k \<Rightarrow> 'v \<Rightarrow> 'd \<Rightarrow> 'd"
    and keys :: "'d \<Rightarrow> 'k list"
  assumes get_empty: "get empty_dict k = None"
    and get_put: "get (put k v d) k' = (if k' = k then Some v else get d k')"
    and keys_empty: "keys empty_dict = []"
    and keys_put: "keys (put k v d) = (if k \<in> set (keys d) then keys d else keys d @ [k])"
begin

lemma get_fold_put:
  "get (foldl (\<lambda>d kv. put (fst kv) (snd kv) d) d kvs) k
     = (case map_of (rev kvs) k of Some v \<Rightarrow> Some v | None \<Rightarrow> get d k)"
  by (induction kvs arbitrary: d) (auto simp: get_put map_add_def split: option.splits)

lemma keys_fold_put:
  "set (keys (foldl (\<lambda>d kv. put (fst kv) (snd kv) d) d kvs)) = set (keys d) \<union> fst ` set kvs"
  by (induction kvs arbitrary: d) (auto simp: keys_put)

lemma distinct_keys_fold_put:
  "distinct (keys d) \<Longrightarrow> distinct (keys (foldl (\<lambda>d kv. put (fst kv) (snd kv) d) d kvs))"
  by (induction kvs arbitrary: d) (auto simp: keys_put)

lemma get_build:
  "get (foldl (\<lambda>d kv. put (fst kv) (snd kv) d) empty_dict kvs) k = map_of (rev kvs) k"
  by (simp add: get_fold_put get_empty split: option.splits)

lemma keys_build:
  "set (keys (foldl (\<lambda>d kv. put (fst kv) (snd kv) d) empty_dict kvs)) = fst ` set kvs"
  by (simp add: keys_fold_put keys_empty)

lemma distinct_keys_build:
  "distinct (keys (foldl (\<lambda>d kv. put (fst kv) (snd kv) d) empty_dict kvs))"
  by (simp add: distinct_keys_fold_put keys_empty)

end

type_synonym ('k, 'v) dict = "('k \<times> 'v) list"

abbreviation dict_put :: "'k \<Rightarrow> 'v \<Rightarrow> ('k, 'v) dict \<Rightarrow> ('k, 'v) dict" where
  "dict_put \<equiv> AList.update"

abbreviation dict_keys :: "('k, 'v) dict \<Rightarrow> 'k list" where
  "dict_keys d \<equiv> map fst d"

interpretation alist: py_dict "[] :: ('k, 'v) dict" map_of dict_put dict_keys
  by unfold_locales (auto simp: update_conv' update_keys)

text \<open>\<^verbatim>\<open>{k: v for ...}\<close>: the last binding of a key wins, the first one fixes its place.\<close>

definition dict_of :: "('k \<times> 'v) list \<Rightarrow> ('k, 'v) dict" where
  "dict_of kvs = foldl (\<lambda>d kv. dict_put (fst kv) (snd kv) d) [] kvs"

lemma map_of_dict_of [dict_simps]: "map_of (dict_of kvs) = map_of (rev kvs)"
  by (rule ext) (simp add: dict_of_def alist.get_build)

lemma keys_dict_of [dict_simps]: "fst ` set (dict_of kvs) = fst ` set kvs"
  using alist.keys_build [of kvs] by (simp add: dict_of_def)

lemma distinct_dict_of [dict_simps, simp]: "distinct (map fst (dict_of kvs))"
  using alist.distinct_keys_build [of kvs] by (simp add: dict_of_def)

lemma dict_put_fresh: "k \<notin> fst ` set d \<Longrightarrow> dict_put k v d = d @ [(k, v)]"
  by (induction d) auto

lemma foldl_put_fresh:
  "distinct (map fst kvs) \<Longrightarrow> fst ` set kvs \<inter> fst ` set d = {} \<Longrightarrow>
   foldl (\<lambda>d kv. dict_put (fst kv) (snd kv) d) d kvs = d @ kvs"
proof (induction kvs arbitrary: d)
  case (Cons kv kvs)
  have "fst kv \<notin> fst ` set d" using Cons.prems by auto
  then have "dict_put (fst kv) (snd kv) d = d @ [kv]"
    by (simp add: dict_put_fresh)
  with Cons show ?case by auto
qed simp

lemma dict_of_distinct [dict_simps]: "distinct (map fst kvs) \<Longrightarrow> dict_of kvs = kvs"
  by (simp add: dict_of_def foldl_put_fresh)

lemma dict_put_map:
  "distinct ns \<Longrightarrow> dict_put k v (map (\<lambda>n. (n, f n)) ns)
     = map (\<lambda>n. (n, if n = k then v else f n)) (if k \<in> set ns then ns else ns @ [k])"
  by (induction ns) auto

lemma map_of_map_pairs: "map_of (map (\<lambda>n. (n, f n)) ns) k = (if k \<in> set ns then Some (f k) else None)"
  by (induction ns) auto

text \<open>\<^verbatim>\<open>{f(x): x for x in xs}\<close>\<close>

definition dict_by :: "('a \<Rightarrow> 'k) \<Rightarrow> 'a list \<Rightarrow> ('k, 'a) dict" where
  "dict_by f xs = dict_of (map (\<lambda>x. (f x, x)) xs)"

lemma keys_dict_by [dict_simps]: "fst ` set (dict_by f xs) = f ` set xs"
  by (simp add: dict_by_def keys_dict_of image_image)

lemma map_of_rev_pairs: "map_of (map (\<lambda>x. (f x, x)) xs) k = Some x \<Longrightarrow> x \<in> set xs \<and> f x = k"
  by (induction xs) (auto split: if_splits)

lemma map_of_dict_by_Some [dict_simps]: "map_of (dict_by f xs) k = Some x \<Longrightarrow> x \<in> set xs \<and> f x = k"
  using map_of_rev_pairs [of f "rev xs" k x]
  by (simp add: dict_by_def map_of_dict_of rev_map)

lemma map_of_dict_by_None [dict_simps]: "map_of (dict_by f xs) k = None \<longleftrightarrow> k \<notin> f ` set xs"
  by (simp add: dict_by_def map_of_dict_of rev_map map_of_eq_None_iff image_image)

lemma map_of_dict_by_distinct:
  assumes "distinct (map f xs)" and "x \<in> set xs"
  shows "map_of (dict_by f xs) (f x) = Some x"
proof -
  have "map_of (dict_by f xs) (f x) \<noteq> None"
    using assms(2) by (simp add: map_of_dict_by_None)
  then obtain y where y: "map_of (dict_by f xs) (f x) = Some y" by blast
  then have "y \<in> set xs" and "f y = f x" by (auto dest: map_of_dict_by_Some)
  with assms have "y = x" by (auto simp: distinct_map inj_on_def)
  with y show ?thesis by simp
qed

lemma map_of_rev_distinct: "distinct (dict_keys d) \<Longrightarrow> map_of (rev d) = map_of d"
proof (rule ext)
  fix k assume "distinct (dict_keys d)"
  then have "map_of (rev d) k = Some v \<longleftrightarrow> map_of d k = Some v" for v
    by (simp add: map_of_eq_Some_iff rev_map [symmetric])
  then show "map_of (rev d) k = map_of d k" by (metis option.exhaust)
qed

section \<open>Sorted views\<close>

text \<open>\<^verbatim>\<open>sorted(set(xs))\<close>, \<^verbatim>\<open>sorted(set(xs) - set(ys))\<close> and
  \<^verbatim>\<open>sorted(set(xs) & set(ys))\<close>\<close>

definition sorted_set :: "'a::linorder list \<Rightarrow> 'a list" where
  "sorted_set xs = sort (remdups xs)"

definition sorted_diff :: "'a::linorder list \<Rightarrow> 'a list \<Rightarrow> 'a list" where
  "sorted_diff xs ys = sorted_set (filter (\<lambda>x. x \<notin> set ys) xs)"

definition sorted_inter :: "'a::linorder list \<Rightarrow> 'a list \<Rightarrow> 'a list" where
  "sorted_inter xs ys = sorted_set (filter (\<lambda>x. x \<in> set ys) xs)"

lemma set_sorted_set [view_simps, simp]: "set (sorted_set xs) = set xs"
  by (simp add: sorted_set_def)

lemma set_sorted_diff [view_simps, simp]: "set (sorted_diff xs ys) = set xs - set ys"
  by (auto simp: sorted_diff_def)

lemma set_sorted_inter [view_simps, simp]: "set (sorted_inter xs ys) = set xs \<inter> set ys"
  by (auto simp: sorted_inter_def)

lemma sorted_sorted_set [simp]: "sorted (sorted_set xs)"
  by (simp add: sorted_set_def)

lemma distinct_sorted_set [simp]: "distinct (sorted_set xs)"
  by (simp add: sorted_set_def)

lemma sorted_set_cong: "set xs = set ys \<Longrightarrow> sorted_set xs = sorted_set ys"
  by (rule sorted_distinct_set_unique) simp_all

lemma sorted_set_id: "sorted xs \<Longrightarrow> distinct xs \<Longrightarrow> sorted_set xs = xs"
  by (rule sorted_distinct_set_unique) simp_all

text \<open>\<^verbatim>\<open>max(xs, key=f, default=None)\<close>: the first element of maximal key.\<close>

fun max_from :: "('a \<Rightarrow> 'b::linorder) \<Rightarrow> 'a \<Rightarrow> 'a list \<Rightarrow> 'a" where
  "max_from f m [] = m"
| "max_from f m (x # xs) = max_from f (if f m < f x then x else m) xs"

fun max_by :: "('a \<Rightarrow> 'b::linorder) \<Rightarrow> 'a list \<Rightarrow> 'a option" where
  "max_by f [] = None"
| "max_by f (x # xs) = Some (max_from f x xs)"

lemma max_from_in: "max_from f m xs \<in> insert m (set xs)"
  by (induction f m xs rule: max_from.induct) auto

lemma max_from_ge: "y \<in> insert m (set xs) \<Longrightarrow> f y \<le> f (max_from f m xs)"
proof (induction f m xs arbitrary: y rule: max_from.induct)
  case (2 f m x xs)
  let ?m = "if f m < f x then x else m"
  have step: "f z \<le> f (max_from f ?m xs)" if "z \<in> insert ?m (set xs)" for z
    using 2 that by blast
  have "f y \<le> f ?m \<or> y \<in> set xs" using "2.prems" by auto
  moreover have "f ?m \<le> f (max_from f ?m xs)" using step by blast
  ultimately show ?case using step [of y] by auto
qed simp

lemma max_by_None [simp]: "max_by f xs = None \<longleftrightarrow> xs = []"
  by (cases xs) auto

lemma max_by_in: "max_by f xs = Some m \<Longrightarrow> m \<in> set xs"
  using max_from_in [of f "hd xs" "tl xs"] by (cases xs) auto

lemma max_by_ge: "max_by f xs = Some m \<Longrightarrow> y \<in> set xs \<Longrightarrow> f y \<le> f m"
  using max_from_ge [of y "hd xs" "tl xs" f] by (cases xs) auto

text \<open>\<^verbatim>\<open>next((x for x in xs if p(x)), None)\<close> is \<^const>\<open>List.find\<close>.\<close>

lemma find_Some_D: "List.find p xs = Some x \<Longrightarrow> x \<in> set xs \<and> p x"
  by (induction xs) (auto split: if_splits)

lemma max_from_snoc:
  "max_from f m (xs @ [x]) = (if f (max_from f m xs) < f x then x else max_from f m xs)"
  by (induction f m xs rule: max_from.induct) auto

lemma max_by_snoc:
  "max_by f (xs @ [x]) =
     (case max_by f xs of None \<Rightarrow> Some x | Some m \<Rightarrow> Some (if f m < f x then x else m))"
  by (cases xs) (simp_all add: max_from_snoc)

text \<open>The elements of a list at their first occurrence, as \<^verbatim>\<open>dict.fromkeys\<close> keeps them.\<close>

definition firsts :: "'a list \<Rightarrow> 'a list" where
  "firsts xs = rev (remdups (rev xs))"

lemma firsts_simps [simp]:
  "firsts [] = []"
  "firsts (xs @ [x]) = (if x \<in> set xs then firsts xs else firsts xs @ [x])"
  by (simp_all add: firsts_def)

lemma set_firsts [simp]: "set (firsts xs) = set xs"
  by (simp add: firsts_def)

lemma distinct_firsts [simp]: "distinct (firsts xs)"
  by (simp add: firsts_def)

lemma firsts_id: "distinct xs \<Longrightarrow> firsts xs = xs"
  by (simp add: firsts_def distinct_remdups_id)

lemma sorted_set_Nil [simp]: "sorted_set xs = [] \<longleftrightarrow> xs = []"
  by (metis set_empty set_sorted_set)

lemma sorted_diff_Nil [simp]: "sorted_diff xs ys = [] \<longleftrightarrow> set xs \<subseteq> set ys"
  by (metis Diff_eq_empty_iff set_empty set_sorted_diff)

section \<open>Some element of a built list\<close>

lemma list_ex_map [view_simps]: "list_ex P (map f xs) \<longleftrightarrow> list_ex (\<lambda>x. P (f x)) xs"
  by (induction xs) auto

lemma list_ex_concat [view_simps]: "list_ex P (concat xss) \<longleftrightarrow> list_ex (list_ex P) xss"
  by (induction xss) auto

lemma list_ex_const [view_simps]: "list_ex (\<lambda>_. b) xs \<longleftrightarrow> xs \<noteq> [] \<and> b"
  by (induction xs) auto

lemma list_ex_if [view_simps]: "list_ex P (if b then xs else ys) \<longleftrightarrow> (if b then list_ex P xs else list_ex P ys)"
  by simp

end
