(* ===== verification/Py_String.thy ===== *)
theory Py_String
  imports Prelude
begin

text \<open>
  The string operations of Python that the source uses: decimal numerals (\<^verbatim>\<open>str(n)\<close>,
  \<^verbatim>\<open>isdigit\<close>, \<^verbatim>\<open>int(text)\<close>), \<^verbatim>\<open>partition\<close>, \<^verbatim>\<open>rpartition\<close>, \<^verbatim>\<open>split\<close>, \<^verbatim>\<open>join\<close>,
  \<^verbatim>\<open>find\<close>, \<^verbatim>\<open>replace\<close>, and the character classes of its regular expressions, with the
  round trips the parsers rest on.
\<close>

named_theorems string_simps \<open>rules about splitting and rendering strings\<close>

section \<open>Decimal numerals\<close>

definition code :: "char \<Rightarrow> nat" where
  "code c = of_char c"

definition digit_char :: "nat \<Rightarrow> char" where
  "digit_char n = char_of (48 + n)"

definition is_decimal :: "char \<Rightarrow> bool" where
  "is_decimal c \<longleftrightarrow> 48 \<le> code c \<and> code c \<le> 57"

text \<open>\<^verbatim>\<open>isdigit\<close> also holds of the superscripts 1, 2 and 3 of Latin-1, which \<^verbatim>\<open>int\<close> rejects.\<close>

definition is_digit :: "char \<Rightarrow> bool" where
  "is_digit c \<longleftrightarrow> is_decimal c \<or> code c \<in> {178, 179, 185}"

definition digit_val :: "char \<Rightarrow> nat" where
  "digit_val c = code c - 48"

fun nat_str :: "nat \<Rightarrow> string" where
  "nat_str n = (if n < 10 then [digit_char n] else nat_str (n div 10) @ [digit_char (n mod 10)])"

declare nat_str.simps [simp del]

definition nat_of_digits :: "string \<Rightarrow> nat" where
  "nat_of_digits s = foldl (\<lambda>a c. 10 * a + digit_val c) 0 s"

definition int_str :: "int \<Rightarrow> string" where
  "int_str i = (if i < 0 then ''-'' @ nat_str (nat (- i)) else nat_str (nat i))"

lemma code_digit_char [simp]: "n < 10 \<Longrightarrow> code (digit_char n) = 48 + n"
  by (simp add: code_def digit_char_def)

lemma is_decimal_digit_char [simp]: "n < 10 \<Longrightarrow> is_decimal (digit_char n)"
  by (simp add: is_decimal_def)

lemma digit_val_digit_char [simp]: "n < 10 \<Longrightarrow> digit_val (digit_char n) = n"
  by (simp add: digit_val_def)

lemma nat_str_decimal: "c \<in> set (nat_str n) \<Longrightarrow> is_decimal c"
proof (induction n rule: nat_str.induct)
  case (1 n)
  show ?case
  proof (cases "n < 10")
    case True
    with "1.prems" show ?thesis by (simp add: nat_str.simps [of n])
  next
    case False
    with "1.prems" have "c \<in> set (nat_str (n div 10)) \<or> c = digit_char (n mod 10)"
      by (auto simp: nat_str.simps [of n])
    with False "1.IH" show ?thesis by auto
  qed
qed

lemma nat_str_nonempty [simp]: "nat_str n \<noteq> []"
  by (simp add: nat_str.simps [of n])

lemma nat_of_digits_nat_str [simp]: "nat_of_digits (nat_str n) = n"
proof (induction n rule: nat_str.induct)
  case (1 n)
  show ?case
  proof (cases "n < 10")
    case True
    then show ?thesis by (simp add: nat_str.simps [of n] nat_of_digits_def)
  next
    case False
    with "1.IH" have "nat_of_digits (nat_str (n div 10)) = n div 10" by simp
    with False show ?thesis by (simp add: nat_str.simps [of n] nat_of_digits_def)
  qed
qed

lemma nat_str_inject [simp]: "nat_str m = nat_str n \<longleftrightarrow> m = n"
  using nat_of_digits_nat_str by metis

lemma decimal_not_minus: "is_decimal c \<Longrightarrow> c \<noteq> CHR ''-''"
  by (auto simp: is_decimal_def code_def)

lemma int_str_nonneg: "0 \<le> i \<Longrightarrow> int_str i = nat_str (nat i)"
  by (simp add: int_str_def)

lemma int_str_chars: "c \<in> set (int_str i) \<Longrightarrow> is_decimal c \<or> c = CHR ''-''"
  by (auto simp: int_str_def nat_str_decimal split: if_splits)

lemma nat_str_not_minus: "CHR ''-'' # s \<noteq> nat_str n"
  using nat_str_decimal [of "CHR ''-''" n] decimal_not_minus
  by (metis list.set_intros(1))

lemma int_str_inject [simp]: "int_str i = int_str j \<longleftrightarrow> i = j"
  by (auto simp: int_str_def nat_str_not_minus nat_str_not_minus [symmetric] split: if_splits)

lemma int_str_nonempty [simp]: "int_str i \<noteq> []"
  by (simp add: int_str_def)

text \<open>\<^verbatim>\<open>text.isdigit()\<close> and \<^verbatim>\<open>int(text)\<close> on such a text.\<close>

definition py_isdigit :: "string \<Rightarrow> bool" where
  "py_isdigit s \<longleftrightarrow> s \<noteq> [] \<and> list_all is_digit s"

definition py_int_digits :: "string \<Rightarrow> int option" where
  "py_int_digits s = (if s \<noteq> [] \<and> list_all is_decimal s then Some (int (nat_of_digits s)) else None)"

lemma py_isdigit_nat_str [simp]: "py_isdigit (nat_str n)"
  by (auto simp: py_isdigit_def list_all_iff is_digit_def nat_str_decimal)

lemma py_int_digits_nat_str [simp]: "py_int_digits (nat_str n) = Some (int n)"
  by (auto simp: py_int_digits_def list_all_iff nat_str_decimal)

lemma py_int_digits_nonneg: "py_int_digits s = Some i \<Longrightarrow> 0 \<le> i"
  by (auto simp: py_int_digits_def split: if_splits)

fun starts_with :: "string \<Rightarrow> string \<Rightarrow> bool" where
  "starts_with s [] = True"
| "starts_with [] (p # ps) = False"
| "starts_with (c # s) (p # ps) = (c = p \<and> starts_with s ps)"

text \<open>
  \<^verbatim>\<open>int(text)\<close> in general: surrounding white space, a sign, and digits with single underscores
  between them.
\<close>

definition is_space :: "char \<Rightarrow> bool" where
  "is_space c \<longleftrightarrow> code c \<in> {9, 10, 11, 12, 13, 28, 29, 30, 31, 32, 133, 160}"

definition strip :: "string \<Rightarrow> string" where
  "strip s = rev (dropWhile is_space (rev (dropWhile is_space s)))"

fun int_digits :: "string \<Rightarrow> string option" where
  "int_digits [] = None"
| "int_digits [c] = (if is_decimal c then Some [c] else None)"
| "int_digits (c # d # s) =
     (if \<not> is_decimal c then None
      else if d = CHR ''_'' then map_option ((#) c) (int_digits s)
      else map_option ((#) c) (int_digits (d # s)))"

definition py_int :: "string \<Rightarrow> int option" where
  "py_int s =
     (let t = strip s in
      if starts_with t ''-'' then map_option (\<lambda>ds. - int (nat_of_digits ds)) (int_digits (tl t))
      else if starts_with t ''+'' then map_option (\<lambda>ds. int (nat_of_digits ds)) (int_digits (tl t))
      else map_option (\<lambda>ds. int (nat_of_digits ds)) (int_digits t))"

section \<open>Splitting and joining\<close>

text \<open>\<^verbatim>\<open>s.partition(c)\<close> as the text before, whether the separator occurs, and the text after.\<close>

definition partition1 :: "char \<Rightarrow> string \<Rightarrow> string \<times> bool \<times> string" where
  "partition1 c s = (takeWhile (\<lambda>x. x \<noteq> c) s, c \<in> set s, drop 1 (dropWhile (\<lambda>x. x \<noteq> c) s))"

text \<open>\<^verbatim>\<open>s.rpartition(c)\<close> splits at the last occurrence; without one the third part is the text.\<close>

definition rpartition1 :: "char \<Rightarrow> string \<Rightarrow> string \<times> bool \<times> string" where
  "rpartition1 c s =
     (if c \<in> set s
      then (rev (drop 1 (dropWhile (\<lambda>x. x \<noteq> c) (rev s))), True, rev (takeWhile (\<lambda>x. x \<noteq> c) (rev s)))
      else ([], False, s))"

text \<open>\<^verbatim>\<open>s.split(c)\<close> and \<^verbatim>\<open>c.join(parts)\<close>\<close>

fun split_on :: "char \<Rightarrow> string \<Rightarrow> string list" where
  "split_on c [] = [[]]"
| "split_on c (x # s) =
     (if x = c then [] # split_on c s
      else case split_on c s of [] \<Rightarrow> [[x]] | p # ps \<Rightarrow> (x # p) # ps)"

fun join :: "string \<Rightarrow> string list \<Rightarrow> string" where
  "join sep [] = []"
| "join sep [p] = p"
| "join sep (p # q # ps) = p @ sep @ join sep (q # ps)"

lemma takeWhile_eq_all: "c \<notin> set a \<Longrightarrow> takeWhile (\<lambda>x. x \<noteq> c) (a @ c # b) = a"
  by (induction a) auto

lemma dropWhile_eq_rest: "c \<notin> set a \<Longrightarrow> dropWhile (\<lambda>x. x \<noteq> c) (a @ c # b) = c # b"
  by (induction a) auto

lemma partition1_append [string_simps]:
  "c \<notin> set a \<Longrightarrow> partition1 c (a @ c # b) = (a, True, b)"
  by (simp add: partition1_def takeWhile_eq_all dropWhile_eq_rest)

lemma partition1_absent [string_simps]: "c \<notin> set a \<Longrightarrow> partition1 c a = (a, False, [])"
proof -
  assume "c \<notin> set a"
  then have "takeWhile (\<lambda>x. x \<noteq> c) a = a" and "dropWhile (\<lambda>x. x \<noteq> c) a = []"
    by (auto simp: takeWhile_eq_all_conv dropWhile_eq_Nil_conv)
  with \<open>c \<notin> set a\<close> show ?thesis
    by (simp add: partition1_def del: dropWhile_eq_Nil_conv)
qed

lemma partition1_found:
  assumes "partition1 c s = (a, True, b)"
  shows "s = a @ c # b" and "c \<notin> set a"
proof -
  from assms have "c \<in> set s" by (simp add: partition1_def)
  then obtain u v where s: "s = u @ c # v" and u: "c \<notin> set u" by (meson split_list_first)
  with assms have "a = u \<and> b = v" by (simp add: partition1_append)
  with s u show "s = a @ c # b" and "c \<notin> set a" by simp_all
qed

lemma rpartition1_append [string_simps]:
  "c \<notin> set b \<Longrightarrow> rpartition1 c (a @ c # b) = (a, True, b)"
  using takeWhile_eq_all [of c "rev b" "rev a"] dropWhile_eq_rest [of c "rev b" "rev a"]
  by (simp add: rpartition1_def)

lemma rpartition1_absent [string_simps]: "c \<notin> set s \<Longrightarrow> rpartition1 c s = ([], False, s)"
  by (simp add: rpartition1_def)

lemma rpartition1_found:
  assumes "rpartition1 c s = (a, True, b)"
  shows "s = a @ c # b" and "c \<notin> set b"
proof -
  from assms have "c \<in> set s" by (auto simp: rpartition1_def split: if_splits)
  then obtain u v where s: "s = u @ c # v" and v: "c \<notin> set v" by (meson split_list_last)
  with assms have "a = u \<and> b = v" by (simp add: rpartition1_append)
  with s v show "s = a @ c # b" and "c \<notin> set b" by simp_all
qed

lemma split_on_nonempty [simp]: "split_on c s \<noteq> []"
  by (induction c s rule: split_on.induct) (auto split: list.splits)

lemma split_on_no_sep: "p \<in> set (split_on c s) \<Longrightarrow> c \<notin> set p"
proof (induction c s arbitrary: p rule: split_on.induct)
  case (2 c x s)
  then show ?case by (cases "split_on c s") (auto split: if_splits)
qed simp

lemma join_split_on [string_simps]: "join [c] (split_on c s) = s"
proof (induction c s rule: split_on.induct)
  case (2 c x s)
  obtain p ps where ps: "split_on c s = p # ps"
    using split_on_nonempty [of c s] by (cases "split_on c s") auto
  with 2 show ?case by (cases ps) auto
qed simp

lemma split_on_absent: "c \<notin> set p \<Longrightarrow> split_on c p = [p]"
  by (induction p) auto

lemma split_on_append: "c \<notin> set p \<Longrightarrow> split_on c (p @ c # s) = p # split_on c s"
  by (induction p) auto

lemma split_on_join [string_simps]:
  "ps \<noteq> [] \<Longrightarrow> (\<And>p. p \<in> set ps \<Longrightarrow> c \<notin> set p) \<Longrightarrow> split_on c (join [c] ps) = ps"
proof (induction "[c]" ps rule: join.induct)
  case (3 p q ps)
  then show ?case by (simp add: split_on_append)
qed (auto simp: split_on_absent)

section \<open>Searching and replacing\<close>

text \<open>The text before the first occurrence of \<open>p\<close>, the whole text when there is none.\<close>

fun before_first :: "string \<Rightarrow> string \<Rightarrow> string" where
  "before_first p s =
     (if starts_with s p then [] else case s of [] \<Rightarrow> [] | c # t \<Rightarrow> c # before_first p t)"

declare before_first.simps [simp del]

text \<open>\<^verbatim>\<open>s.replace(old, new)\<close> for a non-empty \<open>old\<close>: non-overlapping, from the left.\<close>

function replace_str :: "string \<Rightarrow> string \<Rightarrow> string \<Rightarrow> string" where
  "replace_str old new s =
     (case s of [] \<Rightarrow> []
      | c # t \<Rightarrow> if old \<noteq> [] \<and> starts_with s old then new @ replace_str old new (drop (length old) s)
               else c # replace_str old new t)"
  by pat_completeness auto
termination
  by (relation "measure (\<lambda>(old, new, s). length s)") auto

declare replace_str.simps [simp del]

section \<open>Character classes\<close>

definition is_name_start :: "char \<Rightarrow> bool" where
  "is_name_start c \<longleftrightarrow> 65 \<le> code c \<and> code c \<le> 90 \<or> 97 \<le> code c \<and> code c \<le> 122 \<or> code c = 95"

definition is_word :: "char \<Rightarrow> bool" where
  "is_word c \<longleftrightarrow> is_name_start c \<or> is_decimal c"

text \<open>\<^verbatim>\<open>[A-Za-z_][A-Za-z0-9_]*\<close>, matched in full.\<close>

definition is_identifier :: "string \<Rightarrow> bool" where
  "is_identifier s = (case s of [] \<Rightarrow> False | c # t \<Rightarrow> is_name_start c \<and> list_all is_word t)"

lemma code_literals [simp]:
  "code (CHR ''.'') = 46" "code (CHR ''@'') = 64" "code (CHR ''#'') = 35"
  "code (CHR ''-'') = 45" "code (CHR ''_'') = 95"
  "code (CHR 0x5B) = 91" "code (CHR 0x5D) = 93" "code (CHR 0x7B) = 123" "code (CHR 0x7D) = 125"
  by (simp_all add: code_def)

lemma identifier_word: "is_identifier s \<Longrightarrow> c \<in> set s \<Longrightarrow> is_word c"
  by (auto simp: is_identifier_def is_word_def list_all_iff split: list.splits)

lemma word_not_punctuation:
  "is_word c \<Longrightarrow> c \<noteq> CHR ''.'' \<and> c \<noteq> CHR ''@'' \<and> c \<noteq> CHR ''#'' \<and> c \<noteq> CHR ''-''"
  by (auto simp: is_word_def is_name_start_def is_decimal_def)

lemma nat_str_not_word_sep: "c \<in> set (nat_str n) \<Longrightarrow> is_word c"
  by (simp add: is_word_def nat_str_decimal)

end
