(* ===== verification/Identity.thy ===== *)
theory Identity
  imports Py_String
begin

text \<open>
  \<^verbatim>\<open>cli/src/modelable/identity.py\<close>: typed identities of declarations, exact versions and semantic
  paths, their canonical rendering, and the parsers that accept the canonical spelling only. Each
  \<^verbatim>\<open>ValueError\<close> of the source is a value of \<open>identity_error\<close>. The main facts say which texts
  each parser accepts, and that rendering and parsing are inverse.
\<close>

datatype identity_error =
    InvalidDomain string
  | InvalidName string
  | NegativeVersion
  | InvalidIdentity string
  | InvalidNumeral string
  | NonCanonicalIdentity string
  | InvalidPath string
  | EmptyPath
  | InvalidSegment
  | NonCanonicalPath string

text \<open>
  The contract of a canonical notation: a parser accepts a text as a value exactly when the value
  is valid and renders to that text. Each notation of this theory is an instance; clients rely on
  the consequences only.
\<close>

locale canonical_notation =
  fixes parse :: "string \<Rightarrow> 'e + 'a"
    and valid :: "'a \<Rightarrow> bool"
    and render :: "'a \<Rightarrow> 'e + string"
  assumes parse_iff: "parse s = Inr x \<longleftrightarrow> valid x \<and> render x = Inr s"
begin

lemma parse_render: "valid x \<Longrightarrow> render x = Inr s \<Longrightarrow> parse s = Inr x"
  by (simp add: parse_iff)

lemma one_spelling: "parse s = Inr x \<Longrightarrow> parse t = Inr x \<Longrightarrow> s = t"
  by (simp add: parse_iff)

lemma render_inject: "valid x \<Longrightarrow> valid y \<Longrightarrow> render x = Inr s \<Longrightarrow> render y = Inr s \<Longrightarrow> x = y"
  by (metis parse_iff sum.inject(2))

end

section \<open>Declaration identities\<close>

record decl_id =
  did_domain :: string
  did_name :: string

record declaration_version =
  dv_declaration :: decl_id
  dv_version :: int

text \<open>\<^verbatim>\<open>_DOMAIN\<close>: \<^verbatim>\<open>[A-Za-z_][A-Za-z0-9_-]*\<close>\<close>

definition is_domain_name :: "string \<Rightarrow> bool" where
  "is_domain_name s =
     (case s of [] \<Rightarrow> False | c # t \<Rightarrow> is_name_start c \<and> list_all (\<lambda>x. is_word x \<or> x = CHR ''-'') t)"

text \<open>The constructors with the checks of \<^verbatim>\<open>__post_init__\<close>.\<close>

definition mk_declaration_id :: "string \<Rightarrow> string \<Rightarrow> identity_error + decl_id" where
  "mk_declaration_id d n =
     (if \<not> is_domain_name d then Inl (InvalidDomain d)
      else if \<not> is_identifier n then Inl (InvalidName n)
      else Inr \<lparr>did_domain = d, did_name = n\<rparr>)"

definition render_did :: "decl_id \<Rightarrow> string" where
  "render_did i = did_domain i @ ''.'' @ did_name i"

definition mk_declaration_version :: "decl_id \<Rightarrow> int \<Rightarrow> identity_error + declaration_version" where
  "mk_declaration_version i v =
     (if v < 0 then Inl NegativeVersion else Inr \<lparr>dv_declaration = i, dv_version = v\<rparr>)"

definition dv_identity :: "declaration_version \<Rightarrow> string" where
  "dv_identity d = render_did (dv_declaration d) @ ''@'' @ int_str (dv_version d)"

definition declaration_id :: "string \<Rightarrow> string \<Rightarrow> int \<Rightarrow> identity_error + string" where
  "declaration_id d n v =
     sbind (mk_declaration_id d n) (\<lambda>i.
     sbind (mk_declaration_version i v) (\<lambda>dv. Inr (dv_identity dv)))"

text \<open>The shared head of \<^verbatim>\<open>parse_declaration_id\<close> and \<^verbatim>\<open>parse_semantic_path\<close>.\<close>

definition split_identity :: "string \<Rightarrow> identity_error + (string \<times> string \<times> int)" where
  "split_identity value =
     (let (domain_name, at, version_text) = rpartition1 (CHR ''@'') value;
          (domain, dot, name) = partition1 (CHR ''.'') domain_name
      in if \<not> at \<or> \<not> dot \<or> \<not> py_isdigit version_text then Inl (InvalidIdentity value)
         else case py_int_digits version_text of
             None \<Rightarrow> Inl (InvalidNumeral version_text)
           | Some v \<Rightarrow> Inr (domain, name, v))"

definition parse_declaration_id :: "string \<Rightarrow> identity_error + (string \<times> string \<times> int)" where
  "parse_declaration_id value =
     sbind (split_identity value) (\<lambda>(domain, name, v).
     sbind (declaration_id domain name v) (\<lambda>canonical.
       if canonical \<noteq> value then Inl (NonCanonicalIdentity value) else Inr (domain, name, v)))"

definition parse_declaration_version :: "string \<Rightarrow> identity_error + declaration_version" where
  "parse_declaration_version value =
     sbind (parse_declaration_id value) (\<lambda>(domain, name, v).
     sbind (mk_declaration_id domain name) (\<lambda>i. mk_declaration_version i v))"

section \<open>Semantic paths\<close>

record sem_path =
  sp_declaration :: string
  sp_segments :: "string list"

definition container_marks :: "string list" where
  "container_marks = [''[]'', ''{}'', ''{key}'']"

text \<open>
  \<^verbatim>\<open>_PATH_SEGMENT\<close>: an identifier with an optional container mark, or a mark alone.
\<close>

definition is_path_segment :: "string \<Rightarrow> bool" where
  "is_path_segment s \<longleftrightarrow>
     s \<in> set container_marks \<or> is_identifier s
     \<or> list_ex (\<lambda>m. length m \<le> length s \<and> drop (length s - length m) s = m
                    \<and> is_identifier (take (length s - length m) s)) container_marks"

definition render_sp :: "sem_path \<Rightarrow> identity_error + string" where
  "render_sp p =
     (if sp_segments p = [] then Inl EmptyPath
      else if list_ex (\<lambda>s. \<not> is_path_segment s) (sp_segments p) then Inl InvalidSegment
      else Inr (sp_declaration p @ ''#'' @ join ''.'' (sp_segments p)))"

definition parse_semantic_path :: "string \<Rightarrow> identity_error + sem_path" where
  "parse_semantic_path value =
     (let (declaration, sep, path) = partition1 (CHR ''#'') value
      in if \<not> sep \<or> declaration = [] \<or> path = [] then Inl (InvalidPath value)
         else sbind (split_identity declaration) (\<lambda>(domain, name, v).
              sbind (declaration_id domain name v) (\<lambda>canonical.
                let result = \<lparr>sp_declaration = canonical, sp_segments = split_on (CHR ''.'') path\<rparr>
                in sbind (render_sp result) (\<lambda>text.
                   if text \<noteq> value then Inl (NonCanonicalPath value) else Inr result))))"

definition semantic_path :: "string \<Rightarrow> string list \<Rightarrow> identity_error + string" where
  "semantic_path declaration segments =
     sbind (parse_declaration_id declaration) (\<lambda>_.
       render_sp \<lparr>sp_declaration = declaration, sp_segments = segments\<rparr>)"

text \<open>An exact reference: a declaration, or a path inside one.\<close>

record declaration_reference =
  dr_declaration :: declaration_version
  dr_segments :: "string list"

definition render_ref :: "declaration_reference \<Rightarrow> identity_error + string" where
  "render_ref r =
     (if dr_segments r = [] then Inr (dv_identity (dr_declaration r))
      else render_sp \<lparr>sp_declaration = dv_identity (dr_declaration r), sp_segments = dr_segments r\<rparr>)"

definition parse_ref :: "string \<Rightarrow> identity_error + declaration_reference" where
  "parse_ref value =
     (if CHR ''#'' \<in> set value
      then sbind (parse_semantic_path value) (\<lambda>p.
           sbind (parse_declaration_version (sp_declaration p)) (\<lambda>d.
             Inr \<lparr>dr_declaration = d, dr_segments = sp_segments p\<rparr>))
      else sbind (parse_declaration_version value) (\<lambda>d. Inr \<lparr>dr_declaration = d, dr_segments = []\<rparr>))"

section \<open>Which texts the parsers accept\<close>

lemma domain_name_chars:
  assumes "is_domain_name d" and "c \<in> set d"
  shows "c \<noteq> CHR ''.''" and "c \<noteq> CHR ''@''" and "c \<noteq> CHR ''#''"
  using assms
  by (auto simp: is_domain_name_def is_word_def is_name_start_def is_decimal_def list_all_iff
           split: list.splits)

lemma identifier_chars:
  assumes "is_identifier n" and "c \<in> set n"
  shows "c \<noteq> CHR ''.''" and "c \<noteq> CHR ''@''" and "c \<noteq> CHR ''#''"
  using identifier_word [OF assms] word_not_punctuation by blast+

lemma numeral_chars:
  assumes "0 \<le> v" and "c \<in> set (int_str v)"
  shows "c \<noteq> CHR ''.''" and "c \<noteq> CHR ''@''" and "c \<noteq> CHR ''#''"
  using assms nat_str_not_word_sep [of c "nat v"] word_not_punctuation [of c]
  by (auto simp: int_str_nonneg)

lemma declaration_id_eq_Inr:
  "declaration_id d n v = Inr s \<longleftrightarrow>
     is_domain_name d \<and> is_identifier n \<and> 0 \<le> v \<and> s = d @ ''.'' @ n @ ''@'' @ int_str v"
  by (auto simp: declaration_id_def mk_declaration_id_def mk_declaration_version_def
        dv_identity_def render_did_def)

lemma split_identity_render:
  assumes "is_domain_name d" and "is_identifier n" and "0 \<le> v"
  shows "split_identity (d @ ''.'' @ n @ ''@'' @ int_str v) = Inr (d, n, v)"
proof -
  have at: "CHR ''@'' \<notin> set (int_str v)" using numeral_chars [OF assms(3)] by blast
  have dot: "CHR ''.'' \<notin> set d" using domain_name_chars [OF assms(1)] by blast
  have "rpartition1 (CHR ''@'') ((d @ ''.'' @ n) @ CHR ''@'' # int_str v)
          = (d @ ''.'' @ n, True, int_str v)"
    using at by (rule rpartition1_append)
  moreover have "partition1 (CHR ''.'') (d @ CHR ''.'' # n) = (d, True, n)"
    using dot by (rule partition1_append)
  ultimately show ?thesis
    using assms(3) by (simp add: split_identity_def int_str_nonneg)
qed

lemma parse_declaration_id_round:
  "parse_declaration_id s = Inr (d, n, v) \<longleftrightarrow>
     is_domain_name d \<and> is_identifier n \<and> 0 \<le> v \<and> s = d @ ''.'' @ n @ ''@'' @ int_str v"
proof
  assume "parse_declaration_id s = Inr (d, n, v)"
  then have "declaration_id d n v = Inr s"
    by (auto simp: parse_declaration_id_def split: if_splits)
  then show "is_domain_name d \<and> is_identifier n \<and> 0 \<le> v \<and> s = d @ ''.'' @ n @ ''@'' @ int_str v"
    by (simp add: declaration_id_eq_Inr)
next
  assume *: "is_domain_name d \<and> is_identifier n \<and> 0 \<le> v \<and> s = d @ ''.'' @ n @ ''@'' @ int_str v"
  then have "split_identity s = Inr (d, n, v)" using split_identity_render [of d n v] by simp
  moreover from * have "declaration_id d n v = Inr s" by (simp add: declaration_id_eq_Inr)
  ultimately show "parse_declaration_id s = Inr (d, n, v)"
    by (simp add: parse_declaration_id_def)
qed

lemma parse_declaration_version_iff:
  "parse_declaration_version s = Inr dv \<longleftrightarrow>
     is_domain_name (did_domain (dv_declaration dv)) \<and> is_identifier (did_name (dv_declaration dv))
     \<and> 0 \<le> dv_version dv \<and> s = dv_identity dv"
proof
  assume "parse_declaration_version s = Inr dv"
  then show "is_domain_name (did_domain (dv_declaration dv)) \<and> is_identifier (did_name (dv_declaration dv))
     \<and> 0 \<le> dv_version dv \<and> s = dv_identity dv"
    by (auto simp: parse_declaration_version_def parse_declaration_id_round mk_declaration_id_def
          mk_declaration_version_def dv_identity_def render_did_def split: if_splits)
next
  assume *: "is_domain_name (did_domain (dv_declaration dv)) \<and> is_identifier (did_name (dv_declaration dv))
     \<and> 0 \<le> dv_version dv \<and> s = dv_identity dv"
  then have "parse_declaration_id s
      = Inr (did_domain (dv_declaration dv), did_name (dv_declaration dv), dv_version dv)"
    by (simp add: parse_declaration_id_round dv_identity_def render_did_def)
  with * show "parse_declaration_version s = Inr dv"
    by (simp add: parse_declaration_version_def mk_declaration_id_def mk_declaration_version_def)
qed

definition valid_declaration_version :: "declaration_version \<Rightarrow> bool" where
  "valid_declaration_version dv \<longleftrightarrow>
     is_domain_name (did_domain (dv_declaration dv)) \<and> is_identifier (did_name (dv_declaration dv))
     \<and> 0 \<le> dv_version dv"

lemma identity_chars:
  assumes "valid_declaration_version dv"
  shows "CHR ''#'' \<notin> set (dv_identity dv)"
proof -
  have "CHR ''#'' \<notin> set (did_domain (dv_declaration dv))"
    and "CHR ''#'' \<notin> set (did_name (dv_declaration dv))"
    and "CHR ''#'' \<notin> set (int_str (dv_version dv))"
    using assms domain_name_chars(3) identifier_chars(3) numeral_chars(3)
    unfolding valid_declaration_version_def by blast+
  then show ?thesis by (simp add: dv_identity_def render_did_def)
qed

lemma segment_no_dot:
  assumes "is_path_segment s"
  shows "CHR ''.'' \<notin> set s"
proof -
  have marks: "CHR ''.'' \<notin> set m" if "m \<in> set container_marks" for m
    using that by (auto simp: container_marks_def)
  from assms consider (mark) "s \<in> set container_marks" | (ident) "is_identifier s"
    | (both) m where "m \<in> set container_marks" "drop (length s - length m) s = m"
        "is_identifier (take (length s - length m) s)"
    by (auto simp: is_path_segment_def list_ex_iff)
  then show ?thesis
  proof cases
    case mark
    then show ?thesis by (rule marks)
  next
    case ident
    then show ?thesis using identifier_chars(1) by blast
  next
    case both
    have "set s = set (take (length s - length m) s) \<union> set (drop (length s - length m) s)"
      by (metis append_take_drop_id set_append)
    with both marks identifier_chars(1) [OF both(3)] show ?thesis by auto
  qed
qed

lemma render_sp_eq_Inr:
  "render_sp p = Inr s \<longleftrightarrow>
     sp_segments p \<noteq> [] \<and> list_all is_path_segment (sp_segments p)
     \<and> s = sp_declaration p @ ''#'' @ join ''.'' (sp_segments p)"
  by (auto simp: render_sp_def list_all_iff list_ex_iff)

lemma split_identity_not_hash:
  assumes "sbind (split_identity s) (\<lambda>(d, n, v). declaration_id d n v) = Inr s"
  obtains dv where "valid_declaration_version dv" and "s = dv_identity dv"
    and "parse_declaration_version s = Inr dv"
proof -
  from assms obtain d n v where "declaration_id d n v = Inr s" by auto
  then have *: "is_domain_name d \<and> is_identifier n \<and> 0 \<le> v \<and> s = d @ ''.'' @ n @ ''@'' @ int_str v"
    by (simp add: declaration_id_eq_Inr)
  define dv where "dv = \<lparr>dv_declaration = \<lparr>did_domain = d, did_name = n\<rparr>, dv_version = v\<rparr>"
  from * have "valid_declaration_version dv" "s = dv_identity dv"
    by (simp_all add: dv_def valid_declaration_version_def dv_identity_def render_did_def)
  then show thesis
    using that [of dv] by (simp add: parse_declaration_version_iff valid_declaration_version_def)
qed

lemma join_nonempty_segments:
  assumes "ps \<noteq> []" and "list_all is_path_segment ps"
  shows "join ''.'' ps \<noteq> []"
proof -
  have "\<not> is_path_segment []"
    by (simp add: is_path_segment_def is_identifier_def container_marks_def)
  with assms show ?thesis by (cases ps rule: list.exhaust; cases "tl ps") auto
qed

lemma parse_semantic_path_render:
  assumes "valid_declaration_version dv" and "segs \<noteq> []" and "list_all is_path_segment segs"
  shows "parse_semantic_path (dv_identity dv @ ''#'' @ join ''.'' segs)
           = Inr \<lparr>sp_declaration = dv_identity dv, sp_segments = segs\<rparr>"
proof -
  let ?d = "dv_identity dv" and ?p = "join ''.'' segs"
  have part: "partition1 (CHR ''#'') (?d @ CHR ''#'' # ?p) = (?d, True, ?p)"
    using identity_chars [OF assms(1)] by (rule partition1_append)
  have segs: "split_on (CHR ''.'') ?p = segs"
    using assms(2,3) segment_no_dot by (intro split_on_join) (auto simp: list_all_iff)
  obtain d n v where dv: "dv = \<lparr>dv_declaration = \<lparr>did_domain = d, did_name = n\<rparr>, dv_version = v\<rparr>"
    by (metis (full_types) decl_id.surjective declaration_version.surjective old.unit.exhaust)
  have id: "?d = d @ ''.'' @ n @ ''@'' @ int_str v"
    by (simp add: dv dv_identity_def render_did_def)
  have ok: "is_domain_name d" "is_identifier n" "0 \<le> v"
    using assms(1) by (simp_all add: valid_declaration_version_def dv)
  have "split_identity ?d = Inr (d, n, v)"
    unfolding id using ok by (rule split_identity_render)
  moreover have "declaration_id d n v = Inr ?d"
    unfolding declaration_id_eq_Inr using ok id by blast
  ultimately show ?thesis
    using part segs join_nonempty_segments [OF assms(2,3)] assms(2,3)
    by (auto simp: parse_semantic_path_def render_sp_def Let_def list_all_iff list_ex_iff id)
qed

lemma parse_semantic_path_canonical:
  assumes "parse_semantic_path s = Inr p"
  obtains dv where "valid_declaration_version dv" and "sp_declaration p = dv_identity dv"
    and "render_sp p = Inr s"
proof -
  obtain decl sep path where part: "partition1 (CHR ''#'') s = (decl, sep, path)"
    by (metis prod_cases3)
  from assms part obtain d n v where
      "declaration_id d n v = Inr (sp_declaration p)" and "render_sp p = Inr s"
    by (auto simp: parse_semantic_path_def Let_def split: if_splits)
  moreover define dv where "dv = \<lparr>dv_declaration = \<lparr>did_domain = d, did_name = n\<rparr>, dv_version = v\<rparr>"
  ultimately show thesis
    using that [of dv]
    by (simp add: declaration_id_eq_Inr valid_declaration_version_def dv_identity_def render_did_def)
qed

lemma parse_ref_round:
  "parse_ref s = Inr r \<longleftrightarrow>
     valid_declaration_version (dr_declaration r) \<and> render_ref r = Inr s"
proof
  assume parsed: "parse_ref s = Inr r"
  show "valid_declaration_version (dr_declaration r) \<and> render_ref r = Inr s"
  proof (cases "CHR ''#'' \<in> set s")
    case True
    with parsed obtain p where p: "parse_semantic_path s = Inr p" "dr_segments r = sp_segments p"
        "parse_declaration_version (sp_declaration p) = Inr (dr_declaration r)"
      by (auto simp: parse_ref_def)
    from p(1) obtain dv where "render_sp p = Inr s"
      by (rule parse_semantic_path_canonical)
    with p(2,3) show ?thesis
      by (auto simp: render_ref_def parse_declaration_version_iff valid_declaration_version_def
            render_sp_eq_Inr)
  next
    case False
    with parsed show ?thesis
      by (auto simp: parse_ref_def render_ref_def parse_declaration_version_iff
            valid_declaration_version_def)
  qed
next
  assume *: "valid_declaration_version (dr_declaration r) \<and> render_ref r = Inr s"
  then have dv: "parse_declaration_version (dv_identity (dr_declaration r)) = Inr (dr_declaration r)"
    by (simp add: parse_declaration_version_iff valid_declaration_version_def)
  show "parse_ref s = Inr r"
  proof (cases "dr_segments r = []")
    case True
    with * dv identity_chars [of "dr_declaration r"] show ?thesis
      by (auto simp: parse_ref_def render_ref_def)
  next
    case False
    with * have "s = dv_identity (dr_declaration r) @ ''#'' @ join ''.'' (dr_segments r)"
      and "list_all is_path_segment (dr_segments r)"
      by (simp_all add: render_ref_def render_sp_eq_Inr)
    with * False dv parse_semantic_path_render [of "dr_declaration r" "dr_segments r"]
    show ?thesis by (simp add: parse_ref_def)
  qed
qed

section \<open>The notations as instances of the contract\<close>

interpretation version_notation: canonical_notation
    parse_declaration_version valid_declaration_version "\<lambda>dv. Inr (dv_identity dv)"
  by unfold_locales (auto simp: parse_declaration_version_iff valid_declaration_version_def)

interpretation reference_notation: canonical_notation
    parse_ref "\<lambda>r. valid_declaration_version (dr_declaration r)" render_ref
  by unfold_locales (rule parse_ref_round)

text \<open>
  C24. References round trip: a text parses as an exact reference (declaration or semantic path) if
  and only if the reference is well formed and renders to exactly that text, so no reference has
  two spellings.
\<close>

theorem parse_ref_iff:
  "parse_ref s = Inr r \<longleftrightarrow>
     valid_declaration_version (dr_declaration r) \<and> render_ref r = Inr s"
  by (rule reference_notation.parse_iff)

text \<open>
  The declaration-identity parser accepts exactly the canonical texts: a text is parsed to
  domain, name and version if and only if these are well formed (domain name, identifier,
  non-negative version) and the text is their rendering, digits without leading zeros.
\<close>

theorem parse_declaration_id_iff:
  "parse_declaration_id s = Inr (d, n, v) \<longleftrightarrow>
     is_domain_name d \<and> is_identifier n \<and> 0 \<le> v \<and> s = d @ ''.'' @ n @ ''@'' @ int_str v"
  by (rule parse_declaration_id_round)

end
