(* ===== verification/Ir.thy ===== *)
theory Ir
  imports Py_String
begin

text \<open>
  \<^verbatim>\<open>cli/src/modelable/parser/ir.py\<close>: the intermediate representation every component works on.
  Tagged unions are datatypes with the source's constructors, other classes are records (a field
  definition is a datatype, since object types hold field definitions). Dictionaries are association
  lists in insertion order. Default values of constructors are left to the code that builds the
  values. A float is kept as the text Python prints for it.
\<close>

section \<open>Annotations\<close>

datatype classification_level = OpenLevel | Internal | Confidential | Restricted | Secret

fun level_str :: "classification_level \<Rightarrow> string" where
  "level_str OpenLevel = ''open''"
| "level_str Internal = ''internal''"
| "level_str Confidential = ''confidential''"
| "level_str Restricted = ''restricted''"
| "level_str Secret = ''secret''"

definition all_levels :: "classification_level list" where
  "all_levels = [OpenLevel, Internal, Confidential, Restricted, Secret]"

text \<open>\<^verbatim>\<open>ClassificationLevel(text)\<close>, \<^const>\<open>None\<close> where it raises \<^verbatim>\<open>ValueError\<close>\<close>

definition level_of :: "string \<Rightarrow> classification_level option" where
  "level_of s = List.find (\<lambda>l. level_str l = s) all_levels"

record wire_target_hint =
  wh_encoding :: "string option"
  wh_type :: "string option"
  wh_case :: "string option"
  wh_overrides :: "(string, string) dict"
  wh_field_case :: "string option"

datatype annotation =
    AnnKey
  | AnnPii
  | AnnClassification string
  | AnnDeprecated string
  | AnnOwner string
  | AnnServer
  | AnnWire "(string, wire_target_hint) dict"
  | AnnPitCutoff string
  | AnnLatestBefore string
  | AnnLatestOnly
  | AnnCustom string "string option"

fun ann_kind :: "annotation \<Rightarrow> string" where
  "ann_kind AnnKey = ''key''"
| "ann_kind AnnPii = ''pii''"
| "ann_kind (AnnClassification _) = ''classification''"
| "ann_kind (AnnDeprecated _) = ''deprecated''"
| "ann_kind (AnnOwner _) = ''owner''"
| "ann_kind AnnServer = ''server''"
| "ann_kind (AnnWire _) = ''wire''"
| "ann_kind (AnnPitCutoff _) = ''pit_cutoff''"
| "ann_kind (AnnLatestBefore _) = ''latest_before''"
| "ann_kind AnnLatestOnly = ''latest_only''"
| "ann_kind (AnnCustom _ _) = ''custom''"

text \<open>\<^verbatim>\<open>AnnWire._validate_targets\<close>: \<^const>\<open>Some\<close> of the complaint where it raises.\<close>

datatype wire_error = NoWireTarget | EmptyWireTarget string

definition wire_hint_empty :: "wire_target_hint \<Rightarrow> bool" where
  "wire_hint_empty h \<longleftrightarrow>
     wh_encoding h = None \<and> wh_type h = None \<and> wh_case h = None \<and> wh_overrides h = []
     \<and> wh_field_case h = None"

definition wire_targets_error :: "(string, wire_target_hint) dict \<Rightarrow> wire_error option" where
  "wire_targets_error ts =
     (if ts = [] then Some NoWireTarget
      else map_option (\<lambda>t. EmptyWireTarget (fst t)) (List.find (\<lambda>t. wire_hint_empty (snd t)) ts))"

section \<open>Field types\<close>

datatype prim_kind =
    KString | KInt | KFloat | KBool | KDate | KTime | KTimestamp | KUuid | KDuration | KBinary | KJson
  | KU8 | KU16 | KU32 | KU64 | KU128 | KI8 | KI16 | KI32 | KI64 | KI128

fun prim_str :: "prim_kind \<Rightarrow> string" where
  "prim_str KString = ''string''"
| "prim_str KInt = ''int''"
| "prim_str KFloat = ''float''"
| "prim_str KBool = ''bool''"
| "prim_str KDate = ''date''"
| "prim_str KTime = ''time''"
| "prim_str KTimestamp = ''timestamp''"
| "prim_str KUuid = ''uuid''"
| "prim_str KDuration = ''duration''"
| "prim_str KBinary = ''binary''"
| "prim_str KJson = ''json''"
| "prim_str KU8 = ''u8''"
| "prim_str KU16 = ''u16''"
| "prim_str KU32 = ''u32''"
| "prim_str KU64 = ''u64''"
| "prim_str KU128 = ''u128''"
| "prim_str KI8 = ''i8''"
| "prim_str KI16 = ''i16''"
| "prim_str KI32 = ''i32''"
| "prim_str KI64 = ''i64''"
| "prim_str KI128 = ''i128''"

datatype version_spec =
    VersionExact int
  | VersionRange int int
  | VersionMin int
  | VersionPinned int string

datatype constraint_value = CvBool bool | CvFloat string | CvInt int | CvStr string

record value_constraint =
  vc_kind :: string
  vc_value :: constraint_value

datatype field_type =
    PrimitiveType prim_kind int
  | DecimalType int int
  | FixedBinaryType int
  | ArrayType field_type
  | MapType field_type field_type
  | RefType string "version_spec option"
  | EnumType "string list"
  | ObjectType "field_def list"
  | NamedType string
  | EnumRefType string int
  | UnionType string "union_variant list"
and field_def =
    FieldDef (fd_name: string) (fd_type: field_type) (fd_optional: bool) (fd_nullable: bool)
      (fd_default: "string option") (fd_annotations: "annotation list")
      (fd_constraints: "value_constraint list")
and union_variant =
    UnionVariant (uv_tag: string) (uv_type: field_type)

text \<open>\<^verbatim>\<open>UnionType.validate_variants\<close>\<close>

datatype union_error = EmptyDiscriminator | TooFewVariants | DuplicateTags | BadVariantType

fun union_variant_type :: "field_type \<Rightarrow> bool" where
  "union_variant_type (ObjectType _) = True"
| "union_variant_type (NamedType _) = True"
| "union_variant_type (RefType _ _) = True"
| "union_variant_type _ = False"

definition union_error :: "string \<Rightarrow> union_variant list \<Rightarrow> union_error option" where
  "union_error disc variants =
     (if disc = [] then Some EmptyDiscriminator
      else if length variants < 2 then Some TooFewVariants
      else if \<not> distinct (map uv_tag variants) then Some DuplicateTags
      else if \<not> list_all (\<lambda>v. union_variant_type (uv_type v)) variants then Some BadVariantType
      else None)"

definition anns_is_key :: "annotation list \<Rightarrow> bool" where
  "anns_is_key anns = list_ex (\<lambda>a. ann_kind a = ''key'') anns"

definition anns_is_pii :: "annotation list \<Rightarrow> bool" where
  "anns_is_pii anns = list_ex (\<lambda>a. ann_kind a = ''pii'') anns"

text \<open>The level of the first classification annotation, none when its text is not a level.\<close>

fun anns_classification :: "annotation list \<Rightarrow> classification_level option" where
  "anns_classification [] = None"
| "anns_classification (AnnClassification level # as) = level_of level"
| "anns_classification (a # as) = anns_classification as"

definition fd_is_key :: "field_def \<Rightarrow> bool" where
  "fd_is_key f = anns_is_key (fd_annotations f)"

definition fd_is_pii :: "field_def \<Rightarrow> bool" where
  "fd_is_pii f = anns_is_pii (fd_annotations f)"

definition fd_classification :: "field_def \<Rightarrow> classification_level option" where
  "fd_classification f = anns_classification (fd_annotations f)"

section \<open>Models\<close>

datatype model_kind = Entity | Aggregate | Event | ValueKind

datatype change_kind = Additive | Breaking

record access_grant =
  ag_principal :: string
  ag_permissions :: "string list"

record access_block =
  ab_entity :: "access_grant list"
  ab_properties :: "(string, access_grant list) dict"

record protobuf_reservations =
  pr_numbers :: "int list"
  pr_names :: "string list"

text \<open>\<^verbatim>\<open>ProtobufReservations._validate\<close>\<close>

datatype reservation_error =
    NothingReserved | NotPositive int | DuplicateNumber int | DuplicateName string

fun check_numbers :: "int list \<Rightarrow> int list \<Rightarrow> reservation_error option" where
  "check_numbers seen [] = None"
| "check_numbers seen (n # ns) =
     (if n \<le> 0 then Some (NotPositive n)
      else if n \<in> set seen then Some (DuplicateNumber n)
      else check_numbers (n # seen) ns)"

fun check_names :: "string list \<Rightarrow> string list \<Rightarrow> reservation_error option" where
  "check_names seen [] = None"
| "check_names seen (n # ns) =
     (if n \<in> set seen then Some (DuplicateName n) else check_names (n # seen) ns)"

definition reservations_error :: "protobuf_reservations \<Rightarrow> reservation_error option" where
  "reservations_error r =
     (if pr_numbers r = [] \<and> pr_names r = [] then Some NothingReserved
      else case check_numbers [] (pr_numbers r) of
          Some e \<Rightarrow> Some e
        | None \<Rightarrow> check_names [] (pr_names r))"

datatype field_origin = Inherited | AddOrigin | RenameOrigin | ReplaceOrigin

record field_provenance =
  fp_field_name :: string
  fp_origin :: field_origin
  fp_renamed_from :: "string option"

record model_version =
  mv_model_kind :: model_kind
  mv_version :: int
  mv_change_kind :: change_kind
  mv_fields :: "field_def list"
  mv_access :: "access_block option"
  mv_has_version_header :: bool
  mv_has_change_kind :: bool
  mv_annotations :: "annotation list"
  mv_protobuf_reservations :: "protobuf_reservations option"
  mv_provenance :: "field_provenance list"

datatype evolution_operation =
    AddFieldOp field_def
  | RemoveFieldOp string
  | RenameFieldOp string string
  | ReplaceFieldOp field_def

record model_evolution =
  ev_model_kind :: model_kind
  ev_name :: string
  ev_version :: int
  ev_change_kind :: change_kind
  ev_has_change_kind :: bool
  ev_base_version :: int
  ev_operations :: "evolution_operation list"
  ev_annotations :: "annotation list"
  ev_access :: "access_block option"
  ev_protobuf_reservations :: "protobuf_reservations option"

section \<open>Projections\<close>

record domain_import =
  di_domain :: string
  di_registry :: "string option"
  di_version :: "version_spec option"
  di_pinned_ref :: "string option"
  di_pinned_version :: "int option"
  di_pinned_signature :: "string option"

record source_ref =
  sr_model :: string
  sr_version :: version_spec
  sr_alias :: string
  sr_where :: "string option"

record join_ref =
  jr_model :: string
  jr_version :: version_spec
  jr_alias :: string
  jr_on :: string
  jr_join_kind :: string
  jr_cardinality :: "string option"
  jr_annotations :: "annotation list"

datatype projection_mapping =
    DirectMapping string string
  | ComputedMapping string

record projection_field =
  pf_name :: string
  pf_mapping :: projection_mapping
  pf_annotations :: "annotation list"
  pf_constraints :: "value_constraint list"

definition pf_is_pii :: "projection_field \<Rightarrow> bool" where
  "pf_is_pii f = anns_is_pii (pf_annotations f)"

definition pf_classification :: "projection_field \<Rightarrow> classification_level option" where
  "pf_classification f = anns_classification (pf_annotations f)"

datatype selection_mode = Pick | Omit

record selection_clause =
  sc_mode :: selection_mode
  sc_field_names :: "string list"
  sc_qualified_fields :: "(string \<times> string) list"
  sc_annotations :: "annotation list"

record projection_version =
  pv_version :: int
  pv_source :: source_ref
  pv_joins :: "join_ref list"
  pv_where :: "string option"
  pv_group_by :: "string list"
  pv_fields :: "projection_field list"
  pv_auto_generated :: bool
  pv_access :: "access_block option"
  pv_annotations :: "annotation list"
  pv_protobuf_reservations :: "protobuf_reservations option"
  pv_selection :: "selection_clause option"
  pv_event_operations :: "string list"

datatype auto_kind = AutoDb | AutoRequest | AutoReply | AutoEvent

record auto_projection_target =
  apt_kind :: auto_kind
  apt_excluded_fields :: "string list"
  apt_excluded_annotations :: "annotation list"
  apt_operations :: "string list"

record auto_projection_decl =
  apd_model :: string
  apd_version :: int
  apd_targets :: "auto_projection_target list"

section \<open>APIs, named types, indexes and files\<close>

record api_response =
  ar_status_code :: int
  ar_projection :: string
  ar_version :: int

datatype http_method = GET | POST | PUT | PATCH | DELETE

record api_operation =
  ao_name :: string
  ao_method :: http_method
  ao_path :: string
  ao_request :: "(string \<times> int) option"
  ao_responses :: "api_response list"

record api_decl =
  ad_model :: string
  ad_version :: int
  ad_operations :: "api_operation list"

record semantic_type_decl =
  st_name :: string
  st_underlying :: field_type
  st_version :: int
  st_change_kind :: change_kind
  st_has_version_header :: bool
  st_has_change_kind :: bool
  st_registry :: bool

record enum_projection_decl =
  ep_name :: string
  ep_version :: int
  ep_change_kind :: change_kind
  ep_has_version_header :: bool
  ep_has_change_kind :: bool
  ep_source_name :: string
  ep_source_version :: int
  ep_selection_kind :: selection_mode
  ep_selected :: "string list"
  ep_members :: "string list"

datatype sort_direction = Asc | Desc

record sort_field =
  sf_field :: string
  sf_direction :: sort_direction

record secondary_index =
  si_name :: string
  si_key :: "string list"
  si_sort :: "sort_field list"
  si_unique :: bool

record index_decl =
  ix_model :: string
  ix_version :: int
  ix_primary :: "string list"
  ix_secondary :: "secondary_index list"

record generate_target =
  gt_name :: string
  gt_dialect :: "string option"
  gt_output_path :: "string option"

record ai_config =
  ai_provider :: "string option"
  ai_model :: "string option"
  ai_repair_attempts :: "int option"

record field_mapping =
  fm_source :: string
  fm_target :: string

record binding_def =
  bd_name :: string
  bd_model :: string
  bd_model_version :: int
  bd_adapter :: string
  bd_table :: "string option"
  bd_field_mappings :: "field_mapping list"

record domain_def =
  dm_name :: string
  dm_owner :: "string option"
  dm_contact :: "string option"
  dm_description :: "string option"
  dm_models :: "(string, model_version list) dict"
  dm_projections :: "(string, projection_version list) dict"
  dm_auto_projections :: "auto_projection_decl list"
  dm_apis :: "api_decl list"
  dm_generate_targets :: "generate_target list"
  dm_semantic_types :: "semantic_type_decl list"
  dm_enum_projections :: "enum_projection_decl list"
  dm_index_decls :: "index_decl list"
  dm_model_evolutions :: "model_evolution list"

record package_config =
  pc_name :: string
  pc_include :: "string list"
  pc_description :: "string option"

record workspace_def =
  ws_label :: "string option"
  ws_name :: "string option"
  ws_description :: "string option"
  ws_generate_targets :: "generate_target list"
  ws_ai :: "ai_config option"
  ws_packages :: "package_config list"

record mdl_file =
  mf_domains :: "domain_def list"
  mf_bindings :: "binding_def list"
  mf_imports :: "domain_import list"
  mf_workspace :: "workspace_def option"

section \<open>The latest declaration of each name\<close>

text \<open>
  The loop of \<^verbatim>\<open>latest_semantic_types\<close> and \<^verbatim>\<open>latest_enum_projections\<close>: a dictionary from names to
  declarations, updated where a declaration has a higher version than the one it holds.
\<close>

definition latest_step :: "('a \<Rightarrow> string) \<Rightarrow> ('a \<Rightarrow> int) \<Rightarrow> (string, 'a) dict \<Rightarrow> 'a \<Rightarrow> (string, 'a) dict" where
  "latest_step name version latest d =
     (case map_of latest (name d) of
        None \<Rightarrow> dict_put (name d) d latest
      | Some current \<Rightarrow> if version d > version current then dict_put (name d) d latest else latest)"

definition latest_by :: "('a \<Rightarrow> string) \<Rightarrow> ('a \<Rightarrow> int) \<Rightarrow> 'a list \<Rightarrow> 'a list" where
  "latest_by name version ds = map snd (foldl (latest_step name version) [] ds)"

definition latest_semantic_types :: "domain_def \<Rightarrow> semantic_type_decl list" where
  "latest_semantic_types d = latest_by st_name st_version (dm_semantic_types d)"

definition latest_enum_projections :: "domain_def \<Rightarrow> enum_projection_decl list" where
  "latest_enum_projections d = latest_by ep_name ep_version (dm_enum_projections d)"

lemma latest_step_snoc:
  "foldl (latest_step name version) [] ds
     = map (\<lambda>n. (n, the (max_by version (filter (\<lambda>d. name d = n) ds)))) (firsts (map name ds))"
proof (induction ds rule: rev_induct)
  case (snoc d ds)
  let ?best = "\<lambda>xs n. the (max_by version (filter (\<lambda>e. name e = n) xs))"
  let ?t = "map (\<lambda>n. (n, ?best ds n)) (firsts (map name ds))"
  have t: "foldl (latest_step name version) [] ds = ?t" by (rule snoc.IH)
  note mo = map_of_map_pairs [of "?best ds" "firsts (map name ds)"]
  note put = dict_put_map [of "firsts (map name ds)" "name d" d "?best ds", OF distinct_firsts]
  show ?case
  proof (cases "name d \<in> name ` set ds")
    case False
    then have none: "filter (\<lambda>e. name e = name d) ds = []"
      by (metis (mono_tags, lifting) filter_False image_eqI)
    have "foldl (latest_step name version) [] (ds @ [d]) = dict_put (name d) d ?t"
      using False by (simp add: t mo latest_step_def)
    also have "\<dots> = map (\<lambda>n. (n, ?best (ds @ [d]) n)) (firsts (map name (ds @ [d])))"
      using False none unfolding put by auto
    finally show ?thesis .
  next
    case True
    then obtain e where "e \<in> set ds" "name e = name d" by auto
    then have "filter (\<lambda>e. name e = name d) ds \<noteq> []" by (auto simp: filter_empty_conv)
    then obtain m where m: "max_by version (filter (\<lambda>e. name e = name d) ds) = Some m"
      by (metis max_by_None not_None_eq)
    have "foldl (latest_step name version) [] (ds @ [d])
            = (if version d > version m then dict_put (name d) d ?t else ?t)"
      using True m by (simp add: t mo latest_step_def)
    also have "\<dots> = map (\<lambda>n. (n, ?best (ds @ [d]) n)) (firsts (map name (ds @ [d])))"
      using True m unfolding put by (auto simp: max_by_snoc)
    finally show ?thesis .
  qed
qed simp

lemma latest_by_spec:
  "latest_by name version ds
     = map (\<lambda>n. the (max_by version (filter (\<lambda>d. name d = n) ds))) (firsts (map name ds))"
  by (simp add: latest_by_def latest_step_snoc)

end
