(* ===== verification/Json.thy ===== *)
theory Json
  imports Py_String
begin

text \<open>
  JSON values and \<^verbatim>\<open>json.dumps(value, sort_keys=True)\<close> with Python's defaults (ASCII output,
  separators \<^verbatim>\<open>", "\<close> and \<^verbatim>\<open>": "\<close>). A float is kept as the text Python prints for it. The main fact
  is that two values in canonical form (object keys sorted) have the same text only when they are
  equal, which is what the code relies on where it compares type signatures.
\<close>

datatype json =
    JNull
  | JBool bool
  | JInt int
  | JFloat string
  | JStr string
  | JList "json list"
  | JObj "(string \<times> json) list"

definition hex_char :: "nat \<Rightarrow> char" where
  "hex_char n = (if n < 10 then char_of (48 + n) else char_of (87 + n))"

text \<open>\<^verbatim>\<open>\uXXXX\<close> for a code point below 256\<close>

definition unicode_escape :: "nat \<Rightarrow> string" where
  "unicode_escape n = [CHR 0x5C, CHR ''u'', CHR ''0'', CHR ''0'', hex_char (n div 16), hex_char (n mod 16)]"

definition escape_char :: "char \<Rightarrow> string" where
  "escape_char c =
     (if c = CHR 0x22 then [CHR 0x5C, CHR 0x22]
      else if c = CHR 0x5C then [CHR 0x5C, CHR 0x5C]
      else if c = CHR 0x0A then [CHR 0x5C, CHR ''n'']
      else if c = CHR 0x0D then [CHR 0x5C, CHR ''r'']
      else if c = CHR 0x09 then [CHR 0x5C, CHR ''t'']
      else if c = CHR 0x0C then [CHR 0x5C, CHR ''f'']
      else if c = CHR 0x08 then [CHR 0x5C, CHR ''b'']
      else if 32 \<le> code c \<and> code c \<le> 126 then [c]
      else unicode_escape (code c))"

definition dump_str :: "string \<Rightarrow> string" where
  "dump_str s = [CHR 0x22] @ concat (map escape_char s) @ [CHR 0x22]"

text \<open>Objects are printed in the order of their keys; \<open>sort_json\<close> establishes it everywhere.\<close>

fun sort_json :: "json \<Rightarrow> json" where
  "sort_json (JList xs) = JList (map sort_json xs)"
| "sort_json (JObj kvs) = JObj (sort_key fst (map (\<lambda>(k, v). (k, sort_json v)) kvs))"
| "sort_json j = j"

text \<open>The text with the given separators of items and of keys.\<close>

fun print_with :: "string \<Rightarrow> string \<Rightarrow> json \<Rightarrow> string" where
  "print_with is ks JNull = ''null''"
| "print_with is ks (JBool b) = (if b then ''true'' else ''false'')"
| "print_with is ks (JInt i) = int_str i"
| "print_with is ks (JFloat s) = s"
| "print_with is ks (JStr s) = dump_str s"
| "print_with is ks (JList xs) = ''['' @ join is (map (print_with is ks) xs) @ '']''"
| "print_with is ks (JObj kvs) =
     ''{'' @ join is (map (\<lambda>(k, v). dump_str k @ ks @ print_with is ks v) kvs) @ ''}''"

abbreviation print_json :: "json \<Rightarrow> string" where
  "print_json \<equiv> print_with '', '' '': ''"

definition dumps :: "json \<Rightarrow> string" where
  "dumps j = print_json (sort_json j)"

text \<open>\<^verbatim>\<open>json.dumps(value, sort_keys=True, separators=(",", ":"))\<close>\<close>

definition compact_json :: "json \<Rightarrow> string" where
  "compact_json j = print_with '','' '':'' (sort_json j)"

section \<open>Printing is injective\<close>

text \<open>
  A printed value is followed by the end of the text, a comma, a bracket or a brace; such a rest
  cannot continue a number. \<open>printable\<close> says that every float text is one that Python prints: it has
  a first character that starts a number, no character of a separator, and some character that no
  integer numeral has.
\<close>

definition stops :: "string \<Rightarrow> bool" where
  "stops r \<longleftrightarrow> r = [] \<or> hd r \<in> {CHR '','', CHR 0x5D, CHR 0x7D}"

definition float_text :: "string \<Rightarrow> bool" where
  "float_text s \<longleftrightarrow> s \<noteq> [] \<and> (is_decimal (hd s) \<or> hd s \<in> {CHR ''-'', CHR ''N'', CHR ''I''})
     \<and> (\<forall>c \<in> set s. c \<notin> {CHR '','', CHR 0x5D, CHR 0x7D})
     \<and> (\<exists>c \<in> set s. \<not> is_decimal c \<and> c \<noteq> CHR ''-'')"

fun printable :: "json \<Rightarrow> bool" where
  "printable (JFloat s) = float_text s"
| "printable (JList xs) = list_all printable xs"
| "printable (JObj kvs) = list_all (\<lambda>kv. printable (snd kv)) kvs"
| "printable _ = True"

lemma escape_char_cases:
  "escape_char c = [c] \<and> c \<noteq> CHR 0x22 \<and> c \<noteq> CHR 0x5C
   \<or> (\<exists>t. escape_char c = CHR 0x5C # t \<and> t \<noteq> [])"
  by (auto simp: escape_char_def unicode_escape_def)

lemma code_hex_char: "n < 16 \<Longrightarrow> code (hex_char n) = (if n < 10 then 48 + n else 87 + n)"
  by (simp add: hex_char_def code_def)

lemma hex_char_inject:
  assumes "m < 16" and "n < 16"
  shows "hex_char m = hex_char n \<longleftrightarrow> m = n"
proof
  assume "hex_char m = hex_char n"
  then have "code (hex_char m) = code (hex_char n)" by simp
  then have "(if m < 10 then 48 + m else 87 + m) = (if n < 10 then 48 + n else 87 + n)"
    by (simp only: code_hex_char assms)
  then show "m = n" by (simp split: if_splits)
qed simp

lemma code_less [simp]: "code c < 256"
  by (simp add: code_def)

lemma code_inject [simp]: "code c = code d \<longleftrightarrow> c = d"
  by (simp add: code_def)

lemma unicode_escape_inject:
  assumes "unicode_escape (code c) @ x = unicode_escape (code d) @ y"
  shows "c = d \<and> x = y"
proof -
  have lt: "code c div 16 < 16" "code d div 16 < 16"
    using code_less [of c] code_less [of d] by linarith+
  from assms have "hex_char (code c div 16) = hex_char (code d div 16)"
    and "hex_char (code c mod 16) = hex_char (code d mod 16)" and "x = y"
    by (simp_all add: unicode_escape_def)
  with lt have "code c div 16 = code d div 16" and "code c mod 16 = code d mod 16"
    by (simp_all add: hex_char_inject)
  then have "code c = code d" by (metis div_mult_mod_eq)
  with \<open>x = y\<close> show ?thesis by simp
qed

lemma escape_char_inject:
  assumes "escape_char c @ x = escape_char d @ y"
  shows "c = d \<and> x = y"
proof (cases "escape_char c = unicode_escape (code c) \<and> escape_char d = unicode_escape (code d)")
  case True
  with assms unicode_escape_inject show ?thesis by simp
next
  case False
  with assms show ?thesis
    by (auto simp: escape_char_def unicode_escape_def split: if_splits)
qed

lemma escape_char_not_quote: "escape_char c @ x \<noteq> CHR 0x22 # y"
  using escape_char_cases [of c] by auto

lemma escape_string_inject:
  "concat (map escape_char a) @ CHR 0x22 # r = concat (map escape_char b) @ CHR 0x22 # r' \<Longrightarrow>
   a = b \<and> r = r'"
proof (induction a arbitrary: b)
  case Nil
  show ?case
  proof (cases b)
    case (Cons d b')
    with Nil have "CHR 0x22 # r = escape_char d @ concat (map escape_char b') @ CHR 0x22 # r'"
      by simp
    then have False using escape_char_not_quote by metis
    then show ?thesis ..
  qed (use Nil in simp)
next
  case (Cons c a)
  have "b \<noteq> []"
  proof
    assume "b = []"
    with Cons.prems have "escape_char c @ concat (map escape_char a) @ CHR 0x22 # r = CHR 0x22 # r'"
      by simp
    then show False using escape_char_not_quote by blast
  qed
  then obtain d b' where b: "b = d # b'" by (cases b) auto
  with Cons.prems have "escape_char c @ (concat (map escape_char a) @ CHR 0x22 # r)
      = escape_char d @ (concat (map escape_char b') @ CHR 0x22 # r')" by simp
  from escape_char_inject [OF this] have "c = d" and
    "concat (map escape_char a) @ CHR 0x22 # r = concat (map escape_char b') @ CHR 0x22 # r'"
    by simp_all
  with Cons.IH b show ?case by simp
qed

lemma dump_str_inject: "dump_str a @ r = dump_str b @ r' \<Longrightarrow> a = b \<and> r = r'"
  by (auto simp: dump_str_def dest: escape_string_inject)

text \<open>A number ends where the first separator character stands.\<close>

definition stop_char :: "char \<Rightarrow> bool" where
  "stop_char c \<longleftrightarrow> c \<in> {CHR '','', CHR 0x5D, CHR 0x7D}"

lemma until_stop:
  assumes "\<forall>c \<in> set s. \<not> stop_char c" and "stops r"
  shows "takeWhile (\<lambda>c. \<not> stop_char c) (s @ r) = s"
  using assms by (induction s) (cases r, auto simp: stops_def stop_char_def)

lemma number_inject:
  assumes "\<forall>c \<in> set s. \<not> stop_char c" and "\<forall>c \<in> set t. \<not> stop_char c"
    and "stops r" and "stops r'" and "s @ r = t @ r'"
  shows "s = t \<and> r = r'"
  using until_stop [OF assms(1,3)] until_stop [OF assms(2,4)] assms(5) by auto

lemma int_str_no_stop: "c \<in> set (int_str i) \<Longrightarrow> \<not> stop_char c"
  using int_str_chars [of c i] by (auto simp: stop_char_def is_decimal_def code_def)

lemma float_text_no_stop: "float_text s \<Longrightarrow> c \<in> set s \<Longrightarrow> \<not> stop_char c"
  by (auto simp: float_text_def stop_char_def)

lemma float_text_not_int: "float_text s \<Longrightarrow> s \<noteq> int_str i"
  using int_str_chars [of _ i] by (auto simp: float_text_def)

text \<open>A sequence of printed elements can be taken apart when each element can.\<close>

lemma join_inject:
  assumes "\<And>x y r r'. x \<in> set xs \<Longrightarrow> y \<in> set ys \<Longrightarrow> stops r \<Longrightarrow> stops r' \<Longrightarrow>
             p x @ r = p y @ r' \<Longrightarrow> x = y \<and> r = r'"
    and "\<And>z. z \<in> set xs \<union> set ys \<Longrightarrow> p z \<noteq> [] \<and> hd (p z) \<noteq> close"
    and "close \<in> {CHR 0x5D, CHR 0x7D}"
    and "join (CHR '','' # t) (map p xs) @ close # r = join (CHR '','' # t) (map p ys) @ close # r'"
  shows "xs = ys \<and> r = r'"
  using assms
proof (induction xs arbitrary: ys)
  case Nil
  show ?case
  proof (cases ys)
    case (Cons y ys')
    then have "hd (join (CHR '','' # t) (map p ys) @ close # r') = hd (p y)"
      using Nil.prems(2) [of y] by (cases ys') auto
    with Nil.prems(4) Nil.prems(2) [of y] Cons show ?thesis by (metis append_Nil join.simps(1)
          list.sel(1) list.simps(8) UnCI list.set_intros(1))
  qed (use Nil in simp)
next
  case (Cons x xs)
  let ?tail = "\<lambda>zs r. (if zs = [] then [] else (CHR '','' # t) @ join (CHR '','' # t) (map p zs)) @ close # r"
  have unfold: "join (CHR '','' # t) (map p (z # zs)) @ close # u = p z @ ?tail zs u" for z zs u
    by (cases zs) auto
  have stop: "stops (?tail zs u)" for zs u
    using Cons.prems(3) by (auto simp: stops_def)
  show ?case
  proof (cases ys)
    case Nil
    have "hd (join (CHR '','' # t) (map p (x # xs)) @ close # r) = hd (p x)"
      unfolding unfold using Cons.prems(2) [of x] by simp
    with Nil Cons.prems(4) Cons.prems(2) [of x] show ?thesis by (metis append_Nil join.simps(1)
          list.sel(1) list.simps(8) UnCI list.set_intros(1))
  next
    case (Cons y ys')
    with Cons.prems(4) have "p x @ ?tail xs r = p y @ ?tail ys' r'" by (simp only: unfold)
    with Cons.prems(1) [of x y] Cons stop have xy: "x = y" and t: "?tail xs r = ?tail ys' r'"
      by auto
    have "xs = ys' \<and> r = r'"
    proof (cases "xs = [] \<or> ys' = []")
      case True
      with t Cons.prems(3) show ?thesis by (auto split: if_splits)
    next
      case False
      with t have "join (CHR '','' # t) (map p xs) @ close # r = join (CHR '','' # t) (map p ys') @ close # r'" by simp
      with Cons.prems(1,2,3) Cons show ?thesis by (intro Cons.IH) auto
    qed
    with xy Cons show ?thesis by simp
  qed
qed

text \<open>The first character tells the kind of a printed value.\<close>

lemma print_json_start:
  assumes "printable j"
  obtains c u where "print_with (CHR '','' # t) ks j = c # u" and "c \<noteq> CHR 0x5D" and "c \<noteq> CHR 0x7D"
proof (cases j)
  case (JInt i)
  obtain c u where ct: "int_str i = c # u" by (cases "int_str i") auto
  then have "\<not> stop_char c" using int_str_no_stop [of c i] by simp
  with JInt ct that show ?thesis by (simp add: stop_char_def)
next
  case (JFloat s)
  then obtain c u where "s = c # u" using assms by (cases s) (auto simp: float_text_def)
  with JFloat assms that show ?thesis by (auto simp: float_text_def)
next
  case (JBool b)
  with that show ?thesis by (cases b) auto
qed (use that in \<open>auto simp: dump_str_def\<close>)

lemma int_str_hd: "is_decimal (hd (int_str i)) \<or> hd (int_str i) = CHR ''-''"
  using int_str_chars [of "hd (int_str i)" i] by simp

definition num_start :: "char \<Rightarrow> bool" where
  "num_start c \<longleftrightarrow> is_decimal c \<or> c \<in> {CHR ''-'', CHR ''N'', CHR ''I''}"

lemma num_start_other:
  "\<not> num_start (CHR ''n'')" "\<not> num_start (CHR ''t'')" "\<not> num_start (CHR ''f'')"
  "\<not> num_start (CHR 0x22)" "\<not> num_start (CHR 0x5B)" "\<not> num_start (CHR 0x7B)"
  by (simp_all add: num_start_def is_decimal_def code_def)

lemma number_start:
  "hd (int_str i @ r) = c \<Longrightarrow> num_start c"
  "float_text s \<Longrightarrow> hd (s @ r) = c \<Longrightarrow> num_start c"
  using int_str_hd [of i] by (auto simp: num_start_def float_text_def)

fun is_number :: "json \<Rightarrow> bool" where
  "is_number (JInt _) = True"
| "is_number (JFloat _) = True"
| "is_number _ = False"

fun number_text :: "json \<Rightarrow> string" where
  "number_text (JInt i) = int_str i"
| "number_text (JFloat s) = s"
| "number_text _ = []"

lemma print_number: "is_number j \<Longrightarrow> print_with (CHR '','' # t) ks j = number_text j"
  by (cases j) auto

lemma number_text_no_stop: "is_number j \<Longrightarrow> printable j \<Longrightarrow> \<forall>c \<in> set (number_text j). \<not> stop_char c"
  by (cases j) (auto simp: int_str_no_stop float_text_no_stop)

lemma number_cases: "is_number j \<Longrightarrow> (\<exists>i. j = JInt i) \<or> (\<exists>s. j = JFloat s)"
  by (cases j) auto

lemma number_text_inject:
  "is_number j \<Longrightarrow> is_number k \<Longrightarrow> printable j \<Longrightarrow> printable k \<Longrightarrow> number_text j = number_text k \<Longrightarrow> j = k"
  by (auto dest!: number_cases dest: float_text_not_int)

lemma number_hd: "is_number j \<Longrightarrow> printable j \<Longrightarrow> num_start (hd (print_with (CHR '','' # t) ks j @ r))"
  by (cases j) (use number_start in auto)

lemma not_number_hd: "\<not> is_number j \<Longrightarrow> \<not> num_start (hd (print_with (CHR '','' # t) ks j @ r))"
  by (cases j) (auto simp: num_start_other dump_str_def)

lemma print_json_number_inject:
  assumes "is_number j \<or> is_number k" and "printable j" and "printable k" and "stops r" and "stops r'"
    and "print_with (CHR '','' # t) ks j @ r = print_with (CHR '','' # t) ks k @ r'"
  shows "j = k \<and> r = r'"
proof -
  have "is_number j" "is_number k"
    using assms(1,6) number_hd [OF _ assms(2), of t ks r] number_hd [OF _ assms(3), of t ks r']
      not_number_hd [of j t ks r] not_number_hd [of k t ks r'] by auto
  moreover from this assms have "number_text j = number_text k \<and> r = r'"
    by (intro number_inject) (auto simp: print_number number_text_no_stop)
  ultimately show ?thesis using assms number_text_inject by blast
qed

theorem print_json_inject:
  "printable j \<Longrightarrow> printable k \<Longrightarrow> stops r \<Longrightarrow> stops r' \<Longrightarrow>
   print_with (CHR '','' # t) ks j @ r = print_with (CHR '','' # t) ks k @ r' \<Longrightarrow> j = k \<and> r = r'"
proof (induction j arbitrary: k r r')
  case JNull
  show ?case
  proof (cases "is_number k")
    case True
    with JNull print_json_number_inject show ?thesis by blast
  next
    case False
    with JNull show ?thesis by (cases k) (auto simp: dump_str_def split: if_splits)
  qed
next
  case (JBool b)
  show ?case
  proof (cases "is_number k")
    case True
    with JBool print_json_number_inject show ?thesis by blast
  next
    case False
    with JBool show ?thesis by (cases k) (auto simp: dump_str_def split: if_splits)
  qed
next
  case (JInt i)
  then show ?case using print_json_number_inject [of "JInt i" k] by simp
next
  case (JFloat s)
  then show ?case using print_json_number_inject [of "JFloat s" k] by simp
next
  case (JStr s)
  show ?case
  proof (cases "is_number k")
    case True
    with JStr print_json_number_inject show ?thesis by blast
  next
    case False
    with JStr show ?thesis
      by (cases k) (auto simp: dump_str_def dest: escape_string_inject split: if_splits)
  qed
next
  case (JList xs)
  show ?case
  proof (cases k)
    case (JList ys)
    with JList.prems(5) have eq: "join (CHR '','' # t) (map (print_with (CHR '','' # t) ks) xs) @ CHR 0x5D # r
        = join (CHR '','' # t) (map (print_with (CHR '','' # t) ks) ys) @ CHR 0x5D # r'" by simp
    have "xs = ys \<and> r = r'"
    proof (rule join_inject [OF _ _ _ eq])
      show "print_with (CHR '','' # t) ks z \<noteq> [] \<and> hd (print_with (CHR '','' # t) ks z) \<noteq> CHR 0x5D" if "z \<in> set xs \<union> set ys" for z
        using that JList.prems(1,2) JList by (auto simp: list_all_iff elim!: print_json_start [where j = z and t = t and ks = ks])
    qed (use JList.IH JList.prems(1,2) JList in \<open>auto simp: list_all_iff\<close>)
    with JList show ?thesis by simp
  qed (use JList.prems print_json_number_inject [of "JList xs" k] in
      \<open>auto simp: dump_str_def split: if_splits\<close>)
next
  case (JObj xs)
  let ?p = "\<lambda>(n, v). dump_str n @ ks @ print_with (CHR '','' # t) ks v"
  show ?case
  proof (cases k)
    case (JObj ys)
    with JObj.prems(5) have eq: "join (CHR '','' # t) (map ?p xs) @ CHR 0x7D # r
        = join (CHR '','' # t) (map ?p ys) @ CHR 0x7D # r'" by simp
    have "xs = ys \<and> r = r'"
    proof (rule join_inject [OF _ _ _ eq])
      show "?p z \<noteq> [] \<and> hd (?p z) \<noteq> CHR 0x7D" for z
        by (cases z) (simp add: dump_str_def)
      show "x = y \<and> u = u'" if "x \<in> set xs" "y \<in> set ys" "stops u" "stops u'" "?p x @ u = ?p y @ u'"
        for x y u u'
      proof -
        obtain m v n w where xy: "x = (m, v)" "y = (n, w)" by (cases x; cases y) auto
        with that(5) have "dump_str m @ ks @ print_with (CHR '','' # t) ks v @ u = dump_str n @ ks @ print_with (CHR '','' # t) ks w @ u'"
          by simp
        then have "m = n" and vw: "print_with (CHR '','' # t) ks v @ u = print_with (CHR '','' # t) ks w @ u'"
          using dump_str_inject by blast+
        have "printable v" "printable w"
          using that(1,2) xy JObj.prems(1,2) JObj by (auto simp: list_all_iff)
        with vw that(3,4) that(1) xy have "v = w \<and> u = u'"
          by (intro JObj.IH [of x v]) (auto simp: snds.simps)
        with xy \<open>m = n\<close> show ?thesis by simp
      qed
    qed simp
    with JObj show ?thesis by simp
  qed (use JObj.prems print_json_number_inject [of "JObj xs" k] in
      \<open>auto simp: dump_str_def split: if_splits\<close>)
qed

lemma printable_sort_json [simp]: "printable (sort_json j) = printable j"
  by (induction j rule: sort_json.induct) (auto simp: list_all_iff split: prod.splits)

lemma dumps_inject:
  assumes "printable j" and "printable k"
  shows "dumps j = dumps k \<longleftrightarrow> sort_json j = sort_json k"
  using print_json_inject [of "sort_json j" "sort_json k" "[]" "[]"] assms
  by (auto simp: dumps_def stops_def)

lemma compact_inject:
  assumes "printable j" and "printable k"
  shows "compact_json j = compact_json k \<longleftrightarrow> sort_json j = sort_json k"
  using print_json_inject [of "sort_json j" "sort_json k" "[]" "[]"] assms
  by (auto simp: compact_json_def stops_def)

text \<open>An object whose keys are written in order is sorted as it stands.\<close>

lemma sort_json_obj:
  "sorted (map fst kvs) \<Longrightarrow> sort_json (JObj kvs) = JObj (map (\<lambda>(k, v). (k, sort_json v)) kvs)"
  by (simp add: sorted_sort_id sort_key_id_if_sorted comp_def case_prod_beta)

text \<open>\<^verbatim>\<open>None\<close> or a string, as pydantic dumps an optional text.\<close>

definition json_opt_str :: "string option \<Rightarrow> json" where
  "json_opt_str ov = (case ov of None \<Rightarrow> JNull | Some s \<Rightarrow> JStr s)"

lemma json_opt_str_inject [simp]: "json_opt_str a = json_opt_str b \<longleftrightarrow> a = b"
  by (auto simp: json_opt_str_def split: option.splits)

lemma sort_json_opt_str [simp]: "sort_json (json_opt_str a) = json_opt_str a"
  by (simp add: json_opt_str_def split: option.splits)

lemma printable_opt_str [simp]: "printable (json_opt_str a)"
  by (simp add: json_opt_str_def split: option.splits)

section \<open>Reading values\<close>

fun json_str :: "json \<Rightarrow> string option" where
  "json_str (JStr s) = Some s"
| "json_str _ = None"

fun json_list :: "json \<Rightarrow> json list option" where
  "json_list (JList xs) = Some xs"
| "json_list _ = None"

text \<open>\<^verbatim>\<open>set(d) == {...}\<close>\<close>

definition same_keys :: "string list \<Rightarrow> string list \<Rightarrow> bool" where
  "same_keys ks ls \<longleftrightarrow> list_all (\<lambda>k. k \<in> set ls) ks \<and> list_all (\<lambda>l. l \<in> set ks) ls"

lemma json_str_Some [simp]: "json_str j = Some s \<longleftrightarrow> j = JStr s"
  by (cases j) auto

lemma json_list_Some [simp]: "json_list j = Some xs \<longleftrightarrow> j = JList xs"
  by (cases j) auto

end
