(* ===== verification/Type_Signature.thy ===== *)
theory Type_Signature
  imports Ir Json
begin

text \<open>
  The textual signatures by which \<^verbatim>\<open>cli/src/modelable/compat/diff.py\<close> compares field types:
  \<^verbatim>\<open>json.dumps(field_type.model_dump(mode="json"), sort_keys=True)\<close>, and the variant that leaves
  out the version of a reference. \<open>type_json\<close> and its companions are the dumps of the classes of
  \<^verbatim>\<open>parser/ir.py\<close> (their fields, keys in order). The main fact is that signatures separate types.
\<close>

section \<open>Dumps\<close>

fun spec_json :: "version_spec \<Rightarrow> json" where
  "spec_json (VersionExact v) = JObj [(''kind'', JStr ''exact''), (''version'', JInt v)]"
| "spec_json (VersionRange lo hi) =
     JObj [(''kind'', JStr ''range''), (''max_exclusive'', JInt hi), (''min_inclusive'', JInt lo)]"
| "spec_json (VersionMin lo) = JObj [(''kind'', JStr ''min''), (''min_inclusive'', JInt lo)]"
| "spec_json (VersionPinned v h) =
     JObj [(''content_hash'', JStr h), (''kind'', JStr ''pinned''), (''version'', JInt v)]"

definition hint_json :: "wire_target_hint \<Rightarrow> json" where
  "hint_json h = JObj
     [(''case'', json_opt_str (wh_case h)), (''encoding'', json_opt_str (wh_encoding h)),
      (''field_case'', json_opt_str (wh_field_case h)),
      (''overrides'', JObj (map (\<lambda>(k, v). (k, JStr v)) (wh_overrides h))),
      (''type'', json_opt_str (wh_type h))]"

fun ann_json :: "annotation \<Rightarrow> json" where
  "ann_json (AnnClassification l) = JObj [(''kind'', JStr ''classification''), (''level'', JStr l)]"
| "ann_json (AnnDeprecated r) = JObj [(''kind'', JStr ''deprecated''), (''replaced_by'', JStr r)]"
| "ann_json (AnnOwner t) = JObj [(''kind'', JStr ''owner''), (''team'', JStr t)]"
| "ann_json (AnnWire ts) =
     JObj [(''kind'', JStr ''wire''), (''targets'', JObj (map (\<lambda>(k, h). (k, hint_json h)) ts))]"
| "ann_json (AnnPitCutoff e) = JObj [(''expression'', JStr e), (''kind'', JStr ''pit_cutoff'')]"
| "ann_json (AnnLatestBefore e) = JObj [(''expression'', JStr e), (''kind'', JStr ''latest_before'')]"
| "ann_json (AnnCustom n e) =
     JObj [(''expression'', json_opt_str e), (''kind'', JStr ''custom''), (''name'', JStr n)]"
| "ann_json a = JObj [(''kind'', JStr (ann_kind a))]"

fun value_json :: "constraint_value \<Rightarrow> json" where
  "value_json (CvBool b) = JBool b"
| "value_json (CvFloat s) = JFloat s"
| "value_json (CvInt i) = JInt i"
| "value_json (CvStr s) = JStr s"

definition constraint_json :: "value_constraint \<Rightarrow> json" where
  "constraint_json c = JObj [(''kind'', JStr (vc_kind c)), (''value'', value_json (vc_value c))]"

fun type_json :: "field_type \<Rightarrow> json"
  and field_json :: "field_def \<Rightarrow> json"
  and variant_json :: "union_variant \<Rightarrow> json" where
  "type_json (PrimitiveType k v) = JObj [(''kind'', JStr (prim_str k)), (''version'', JInt v)]"
| "type_json (DecimalType p s) =
     JObj [(''kind'', JStr ''decimal''), (''precision'', JInt p), (''scale'', JInt s)]"
| "type_json (FixedBinaryType n) = JObj [(''kind'', JStr ''fixed_binary''), (''length'', JInt n)]"
| "type_json (ArrayType t) = JObj [(''item'', type_json t), (''kind'', JStr ''array'')]"
| "type_json (MapType k v) =
     JObj [(''key'', type_json k), (''kind'', JStr ''map''), (''value'', type_json v)]"
| "type_json (RefType t v) =
     JObj [(''kind'', JStr ''ref''), (''target'', JStr t),
           (''version'', case v of None \<Rightarrow> JNull | Some s \<Rightarrow> spec_json s)]"
| "type_json (EnumType vs) = JObj [(''kind'', JStr ''enum''), (''values'', JList (map JStr vs))]"
| "type_json (ObjectType fs) =
     JObj [(''fields'', JList (map field_json fs)), (''kind'', JStr ''object'')]"
| "type_json (NamedType n) = JObj [(''kind'', JStr ''named''), (''name'', JStr n)]"
| "type_json (EnumRefType n v) =
     JObj [(''kind'', JStr ''enum_ref''), (''name'', JStr n), (''version'', JInt v)]"
| "type_json (UnionType d vs) =
     JObj [(''discriminator'', JStr d), (''kind'', JStr ''union''),
           (''variants'', JList (map variant_json vs))]"
| "field_json (FieldDef n t opt nul def anns cs) =
     JObj [(''annotations'', JList (map ann_json anns)), (''constraints'', JList (map constraint_json cs)),
           (''default'', json_opt_str def), (''name'', JStr n), (''nullable'', JBool nul),
           (''optional'', JBool opt), (''type'', type_json t)]"
| "variant_json (UnionVariant tag t) = JObj [(''tag'', JStr tag), (''type'', type_json t)]"

section \<open>Signatures\<close>

definition field_type_signature :: "field_type \<Rightarrow> string" where
  "field_type_signature t = dumps (type_json t)"

fun ref_aware_type_dump :: "field_type \<Rightarrow> json" where
  "ref_aware_type_dump (RefType t v) = JObj [(''kind'', JStr ''ref''), (''target'', JStr t)]"
| "ref_aware_type_dump t = type_json t"

definition type_signature :: "field_def \<Rightarrow> string" where
  "type_signature f = dumps (ref_aware_type_dump (fd_type f))"

definition shape_type_signature :: "field_type option \<Rightarrow> string option" where
  "shape_type_signature t = map_option (\<lambda>t. dumps (ref_aware_type_dump t)) t"

section \<open>Signatures separate types\<close>

text \<open>
  Two dictionaries with the same bindings in different order dump to the same text, so the
  statement is about types whose wire hints list their keys in order; floats are Python's.
\<close>

definition canonical_hint :: "wire_target_hint \<Rightarrow> bool" where
  "canonical_hint h \<longleftrightarrow> sorted (map fst (wh_overrides h))"

fun canonical_ann :: "annotation \<Rightarrow> bool" where
  "canonical_ann (AnnWire ts) \<longleftrightarrow> sorted (map fst ts) \<and> list_all (\<lambda>t. canonical_hint (snd t)) ts"
| "canonical_ann _ \<longleftrightarrow> True"

fun canonical_value :: "constraint_value \<Rightarrow> bool" where
  "canonical_value (CvFloat s) = float_text s"
| "canonical_value _ = True"

fun canonical_type :: "field_type \<Rightarrow> bool"
  and canonical_field :: "field_def \<Rightarrow> bool"
  and canonical_variant :: "union_variant \<Rightarrow> bool" where
  "canonical_type (ArrayType t) = canonical_type t"
| "canonical_type (MapType k v) = (canonical_type k \<and> canonical_type v)"
| "canonical_type (ObjectType fs) = list_all canonical_field fs"
| "canonical_type (UnionType d vs) = list_all canonical_variant vs"
| "canonical_type _ = True"
| "canonical_field (FieldDef n t opt nul def anns cs) =
     (canonical_type t \<and> list_all canonical_ann anns \<and> list_all (\<lambda>c. canonical_value (vc_value c)) cs)"
| "canonical_variant (UnionVariant tag t) = canonical_type t"

lemma sort_spec_json [simp]: "sort_json (spec_json s) = spec_json s"
  by (cases s) (simp_all add: sort_json_obj del: sort_json.simps(2))

lemma spec_json_inject [simp]: "spec_json s = spec_json t \<longleftrightarrow> s = t"
  by (cases s; cases t) auto

lemma spec_json_not_null [simp]: "spec_json s \<noteq> JNull" "JNull \<noteq> spec_json s"
  by (cases s; simp)+

lemma sort_hint_json [simp]: "canonical_hint h \<Longrightarrow> sort_json (hint_json h) = hint_json h"
  by (simp add: hint_json_def canonical_hint_def sort_json_obj comp_def case_prod_beta
      del: sort_json.simps(2))

lemma hint_json_inject [simp]: "hint_json h = hint_json g \<longleftrightarrow> h = g"
proof
  assume "hint_json h = hint_json g"
  then have "map (\<lambda>(k, v). (k, JStr v)) (wh_overrides h) = map (\<lambda>(k, v). (k, JStr v)) (wh_overrides g)"
    and *: "wh_case h = wh_case g" "wh_encoding h = wh_encoding g" "wh_field_case h = wh_field_case g"
      "wh_type h = wh_type g"
    by (simp_all add: hint_json_def)
  then have "wh_overrides h = wh_overrides g"
    by (intro list.inj_map_strong [of "wh_overrides h" "wh_overrides g"]) auto
  with * show "h = g" by (simp add: wire_target_hint.equality)
qed simp

lemma sort_ann_json [simp]: "canonical_ann a \<Longrightarrow> sort_json (ann_json a) = ann_json a"
  by (cases a)
    (auto simp: sort_json_obj comp_def case_prod_beta list_all_iff simp del: sort_json.simps(2))

lemma targets_inject:
  "map (\<lambda>(k, h). (k, hint_json h)) ts = map (\<lambda>(k, h). (k, hint_json h)) us \<Longrightarrow> ts = us"
  by (rule list.inj_map_strong [of ts us]) auto

lemma ann_json_inject [simp]: "ann_json a = ann_json b \<longleftrightarrow> a = b"
  by (cases a; cases b) (auto dest: targets_inject)

lemma sort_value_json [simp]: "sort_json (value_json v) = value_json v"
  by (cases v) auto

lemma value_json_inject [simp]: "value_json v = value_json w \<longleftrightarrow> v = w"
  by (cases v; cases w) auto

lemma sort_constraint_json [simp]: "sort_json (constraint_json c) = constraint_json c"
  by (simp add: constraint_json_def sort_json_obj del: sort_json.simps(2))

lemma constraint_json_inject [simp]: "constraint_json c = constraint_json d \<longleftrightarrow> c = d"
  by (auto simp: constraint_json_def intro: value_constraint.equality)

lemma prim_str_inject [simp]: "prim_str k = prim_str l \<longleftrightarrow> k = l"
  by (cases k; cases l) simp_all

lemma map_sort_id: "(\<And>x. x \<in> set xs \<Longrightarrow> sort_json (f x) = f x) \<Longrightarrow> map (\<lambda>x. sort_json (f x)) xs = map f xs"
  by simp

lemma sort_type_json:
  "canonical_type t \<Longrightarrow> sort_json (type_json t) = type_json t"
  "canonical_field f \<Longrightarrow> sort_json (field_json f) = field_json f"
  "canonical_variant v \<Longrightarrow> sort_json (variant_json v) = variant_json v"
  by (induction t and f and v rule: type_json_field_json_variant_json.induct)
    (auto simp: sort_json_obj comp_def list_all_iff split: option.splits
      simp del: sort_json.simps(2))

lemma map_json_inject [simp]:
  "map ann_json as = map ann_json bs \<longleftrightarrow> as = bs"
  "map constraint_json cs = map constraint_json ds \<longleftrightarrow> cs = ds"
  "map JStr ss = map JStr us \<longleftrightarrow> ss = us"
  by (simp_all add: inj_map_eq_map inj_def)

lemmas map_inject_elim = list.inj_map_strong [rotated]

lemma type_json_inject:
  "type_json t = type_json t' \<Longrightarrow> t = t'"
  "field_json f = field_json f' \<Longrightarrow> f = f'"
  "variant_json v = variant_json v' \<Longrightarrow> v = v'"
proof (induction t and f and v arbitrary: t' and f' and v'
    rule: type_json_field_json_variant_json.induct)
  case (1 k v)
  then show ?case by (cases t') auto
next
  case (2 p s)
  then show ?case by (cases t') auto
next
  case (3 n)
  then show ?case by (cases t') auto
next
  case (4 t)
  then show ?case by (cases t') auto
next
  case (5 k v)
  then show ?case by (cases t') auto
next
  case (6 t v)
  then show ?case by (cases t') (auto split: option.splits)
next
  case (7 vs)
  then show ?case by (cases t') auto
next
  case (8 fs)
  then show ?case by (cases t') (auto elim!: map_inject_elim)
next
  case (9 n)
  then show ?case by (cases t') auto
next
  case (10 n v)
  then show ?case by (cases t') auto
next
  case (11 d vs)
  then show ?case by (cases t') (auto elim!: map_inject_elim)
next
  case (12 n t opt nul def anns cs)
  then show ?case
    by (cases f') auto
next
  case (13 tag t)
  then show ?case by (cases v') auto
qed

lemma printable_hint [simp]: "printable (hint_json h)"
  by (auto simp: hint_json_def list_all_iff)

lemma printable_ann [simp]: "printable (ann_json a)"
  by (cases a) (auto simp: list_all_iff)

lemma printable_spec [simp]: "printable (spec_json s)"
  by (cases s) auto

lemma printable_constraint: "canonical_value (vc_value c) \<Longrightarrow> printable (constraint_json c)"
  by (cases "vc_value c") (auto simp: constraint_json_def)

lemma printable_type:
  "canonical_type t \<Longrightarrow> printable (type_json t)"
  "canonical_field f \<Longrightarrow> printable (field_json f)"
  "canonical_variant v \<Longrightarrow> printable (variant_json v)"
  by (induction t and f and v rule: type_json_field_json_variant_json.induct)
    (auto simp: list_all_iff printable_constraint split: option.splits)

lemma field_type_signature_inject:
  assumes "canonical_type t" and "canonical_type u"
  shows "field_type_signature t = field_type_signature u \<longleftrightarrow> t = u"
  using assms by (auto simp: field_type_signature_def dumps_inject printable_type sort_type_json
      dest: type_json_inject)

text \<open>What is left of a type when the version of a reference is ignored.\<close>

fun ref_blind :: "field_type \<Rightarrow> field_type" where
  "ref_blind (RefType t v) = RefType t None"
| "ref_blind t = t"

lemma ref_aware_cases:
  "ref_aware_type_dump t = (case t of RefType tg v \<Rightarrow> JObj [(''kind'', JStr ''ref''), (''target'', JStr tg)]
                            | _ \<Rightarrow> type_json t)"
  by (cases t) auto

lemma sort_ref_aware:
  "canonical_type t \<Longrightarrow> sort_json (ref_aware_type_dump t) = ref_aware_type_dump t \<and> printable (ref_aware_type_dump t)"
  using sort_type_json(1) [of t] printable_type(1) [of t]
  by (cases "\<exists>tg v. t = RefType tg v")
    (auto simp: ref_aware_cases sort_json_obj simp del: sort_json.simps(2) split: field_type.split)

lemma ref_aware_inject: "ref_aware_type_dump t = ref_aware_type_dump u \<longleftrightarrow> ref_blind t = ref_blind u"
proof (cases "(\<exists>tg v. t = RefType tg v) \<or> (\<exists>tg v. u = RefType tg v)")
  case True
  then show ?thesis by (cases t; cases u) auto
next
  case False
  then have "ref_aware_type_dump t = type_json t" "ref_aware_type_dump u = type_json u"
    and "ref_blind t = t" "ref_blind u = u"
    by (cases t; cases u; auto)+
  then show ?thesis by (auto dest: type_json_inject)
qed

lemma type_signature_eq_iff:
  assumes "canonical_type (fd_type f)" and "canonical_type (fd_type g)"
  shows "type_signature f = type_signature g \<longleftrightarrow> ref_blind (fd_type f) = ref_blind (fd_type g)"
  using sort_ref_aware [OF assms(1)] sort_ref_aware [OF assms(2)]
  by (simp add: type_signature_def dumps_inject ref_aware_inject)

text \<open>
  C21. Field types are compared faithfully through their JSON signatures: two fields have the same
  signature exactly when their types are equal, the version of a top-level reference apart. In
  particular no two different types print to the same text.
\<close>

theorem type_signature_separates:
  assumes "canonical_type (fd_type f)" and "canonical_type (fd_type g)"
  shows "type_signature f = type_signature g \<longleftrightarrow> ref_blind (fd_type f) = ref_blind (fd_type g)"
  using assms by (rule type_signature_eq_iff)

theorem type_signature_separates_witness:
  "type_signature (FieldDef ''a'' (RefType ''d.M'' (Some (VersionExact 1))) False False None [] [])
     = type_signature (FieldDef ''b'' (RefType ''d.M'' None) True False None [] [])
   \<and> type_signature (FieldDef ''a'' (PrimitiveType KUuid 4) False False None [] [])
     \<noteq> type_signature (FieldDef ''a'' (PrimitiveType KUuid 7) False False None [] [])"
  by (simp add: type_signature_separates)

end
