(* ===== verification/Cel_Lexer.thy ===== *)
theory Cel_Lexer
  imports Py_String
begin

text \<open>
  The tokenizer of \<^verbatim>\<open>cli/src/modelable/expressions/cel.py\<close>: the alternatives of \<^verbatim>\<open>_TOKEN_SPEC\<close> tried in
  their order at each position, and the scan of \<^verbatim>\<open>finditer\<close>, which steps over a character that no
  alternative matches. White space produces no token; the list ends with one end-of-input token.
\<close>

datatype tok_type =
    TSTRING | TFLOAT | TINT | TAND | TOR | TNEQ | TLTE | TGTE | TEQ | TBANG | TPLUS | TMINUS | TSTAR
  | TSLASH | TPERCENT | TLT | TGT | TQUESTION | TCOLON | TDOT | TLPAREN | TRPAREN | TLBRACE | TRBRACE
  | TLBRACKET | TRBRACKET | TCOMMA | TIDENT | TWS | TTRUE | TFALSE | TNULL | TIN | TWHERE | TEOF

datatype token = Token (tk_type: tok_type) (tk_value: string) (tk_pos: int)

section \<open>The alternatives\<close>

text \<open>
  The rest of a string literal after its opening quote, closing quote included: characters other
  than the quote and the backslash, or a backslash and any character but a newline.
\<close>

fun scan_string :: "char \<Rightarrow> string \<Rightarrow> string option" where
  "scan_string q [] = None"
| "scan_string q (c # s) =
     (if c = q then Some [c]
      else if c = CHR 0x5C
      then (case s of [] \<Rightarrow> None
            | d # t \<Rightarrow> if d = CHR 0x0A then None else map_option (\<lambda>b. c # d # b) (scan_string q t))
      else map_option ((#) c) (scan_string q s))"

definition match_string :: "string \<Rightarrow> string option" where
  "match_string s =
     (case s of [] \<Rightarrow> None
      | q # t \<Rightarrow> if q = CHR 0x22 \<or> q = CHR 0x27 then map_option ((#) q) (scan_string q t) else None)"

definition match_float :: "string \<Rightarrow> string option" where
  "match_float s =
     (let ds = takeWhile is_decimal s in
      if ds = [] then None
      else case dropWhile is_decimal s of [] \<Rightarrow> None
        | c # r \<Rightarrow>
            (let fs = takeWhile is_decimal r in
             if c \<noteq> CHR ''.'' \<or> fs = [] then None else Some (ds @ c # fs)))"

definition match_int :: "string \<Rightarrow> string option" where
  "match_int s = (let ds = takeWhile is_decimal s in if ds = [] then None else Some ds)"

definition fixed_tokens :: "(string \<times> tok_type) list" where
  "fixed_tokens =
     [(''&&'', TAND), (''||'', TOR), (''!='', TNEQ), (''<='', TLTE), (''>='', TGTE), (''=='', TEQ),
      (''!'', TBANG), (''+'', TPLUS), (''-'', TMINUS), (''*'', TSTAR), (''/'', TSLASH),
      (''%'', TPERCENT), (''<'', TLT), (''>'', TGT), (''?'', TQUESTION), ('':'', TCOLON), (''.'', TDOT),
      (''('', TLPAREN), ('')'', TRPAREN), (''{'', TLBRACE), (''}'', TRBRACE), (''['', TLBRACKET),
      ('']'', TRBRACKET), ('','', TCOMMA)]"

definition match_fixed :: "string \<Rightarrow> (tok_type \<times> string) option" where
  "match_fixed s =
     map_option (\<lambda>lt. (snd lt, fst lt)) (List.find (\<lambda>lt. starts_with s (fst lt)) fixed_tokens)"

definition match_ident :: "string \<Rightarrow> string option" where
  "match_ident s =
     (case s of [] \<Rightarrow> None
      | c # t \<Rightarrow> if is_name_start c then Some (c # takeWhile is_word t) else None)"

definition match_space :: "string \<Rightarrow> string option" where
  "match_space s = (let w = takeWhile is_space s in if w = [] then None else Some w)"

text \<open>The first alternative of \<^verbatim>\<open>_MASTER_RE\<close> that matches.\<close>

definition match_token :: "string \<Rightarrow> (tok_type \<times> string) option" where
  "match_token s =
     (case match_string s of Some v \<Rightarrow> Some (TSTRING, v) | None \<Rightarrow>
     (case match_float s of Some v \<Rightarrow> Some (TFLOAT, v) | None \<Rightarrow>
     (case match_int s of Some v \<Rightarrow> Some (TINT, v) | None \<Rightarrow>
     (case match_fixed s of Some tv \<Rightarrow> Some tv | None \<Rightarrow>
     (case match_ident s of Some v \<Rightarrow> Some (TIDENT, v) | None \<Rightarrow>
      map_option (Pair TWS) (match_space s))))))"

lemma match_fixed_nonempty: "match_fixed s = Some (ty, v) \<Longrightarrow> v \<noteq> []"
  by (auto simp: match_fixed_def fixed_tokens_def split: if_splits)

lemma match_token_nonempty: "match_token s = Some (ty, v) \<Longrightarrow> v \<noteq> []"
  by (auto simp: match_token_def match_string_def match_float_def match_int_def match_ident_def
        match_space_def Let_def dest: match_fixed_nonempty split: option.splits list.splits if_splits)

section \<open>The scan\<close>

definition keyword_type :: "string \<Rightarrow> tok_type" where
  "keyword_type v =
     (if v = ''true'' then TTRUE else if v = ''false'' then TFALSE else if v = ''null'' then TNULL
      else if v = ''in'' then TIN else if v = ''where'' then TWHERE else TIDENT)"

function scan :: "int \<Rightarrow> string \<Rightarrow> token list" where
  "scan pos s =
     (if s = [] then []
      else case match_token s of
          None \<Rightarrow> scan (pos + 1) (tl s)
        | Some (ty, v) \<Rightarrow>
            (if ty = TWS then []
             else [Token (if ty = TIDENT then keyword_type v else ty) v pos])
            @ scan (pos + int (length v)) (drop (length v) s))"
  by pat_completeness auto
termination
proof (relation "measure (\<lambda>(pos, s). length s)")
  show "((pos + int (length v), drop (length v) s), (pos, s)) \<in> measure (\<lambda>(pos, s). length s)"
    if "s \<noteq> []" "match_token s = Some x" "(ty, v) = x" for pos :: int and s x ty v
    using that match_token_nonempty [of s ty v] by (cases v) auto
qed auto

declare scan.simps [simp del]

text \<open>An inline comment is cut off before the scan.\<close>

definition strip_comment :: "string \<Rightarrow> string" where
  "strip_comment expr = before_first ''//'' expr"

definition tokenize :: "string \<Rightarrow> token list" where
  "tokenize expr =
     (let e = strip_comment expr in scan 0 e @ [Token TEOF [] (int (length e))])"

lemma fixed_type: "match_fixed s = Some (ty, v) \<Longrightarrow> ty \<notin> {TEOF, TWS, TIDENT}"
  by (auto simp: match_fixed_def fixed_tokens_def split: if_splits)

lemma match_token_not_eof: "match_token s = Some (ty, v) \<Longrightarrow> ty \<noteq> TEOF"
  by (auto simp: match_token_def dest: fixed_type split: option.splits)

lemma keyword_type_not_eof [simp]: "keyword_type v \<noteq> TEOF" "keyword_type v \<noteq> TWS"
  by (simp_all add: keyword_type_def)

lemma scan_types: "t \<in> set (scan pos s) \<Longrightarrow> tk_type t \<noteq> TEOF \<and> tk_type t \<noteq> TWS"
proof (induction pos s rule: scan.induct)
  case (1 pos s)
  show ?case
  proof (cases "s = []")
    case True
    with "1.prems" show ?thesis by (simp add: scan.simps)
  next
    case False
    show ?thesis
    proof (cases "match_token s")
      case None
      with False "1.prems" "1.IH"(1) show ?thesis by (simp add: scan.simps [of pos s])
    next
      case (Some tv)
      obtain ty v where tv: "tv = (ty, v)" by (cases tv)
      with Some have "ty \<noteq> TEOF" by (auto dest: match_token_not_eof)
      with False Some tv "1.prems" "1.IH"(2) [OF False Some] show ?thesis
        by (auto simp: scan.simps [of pos s] split: if_splits)
    qed
  qed
qed

text \<open>
  A token stream ends with the end-of-input token and has no other one.
\<close>

definition token_stream :: "token list \<Rightarrow> bool" where
  "token_stream ts \<longleftrightarrow> (\<exists>body p. ts = body @ [Token TEOF [] p] \<and> (\<forall>t \<in> set body. tk_type t \<noteq> TEOF))"

lemma tokenize_stream: "token_stream (tokenize e)"
  unfolding token_stream_def tokenize_def Let_def using scan_types by blast

lemma scan_positions: "map (\<lambda>t. (tk_type t, tk_value t)) (scan p s) = map (\<lambda>t. (tk_type t, tk_value t)) (scan q s)"
proof (induction p s arbitrary: q rule: scan.induct)
  case (1 pos s)
  show ?case
  proof (cases "s = []")
    case False
    show ?thesis
    proof (cases "match_token s")
      case None
      with False "1.IH"(1) [OF False None] show ?thesis by (simp add: scan.simps [of _ s])
    next
      case (Some tv)
      obtain ty v where tv: "tv = (ty, v)" by (cases tv)
      with False Some "1.IH"(2) [OF False Some tv [symmetric]] show ?thesis
        by (simp add: scan.simps [of _ s])
    qed
  qed (simp add: scan.simps)
qed

text \<open>
  A character that begins no token is dropped without a trace: where the scanner meets one, the
  text has the same tokens (types and values) as the text without it, and no error is reported.
\<close>

theorem unmatched_character_dropped:
  assumes "match_token (c # s) = None"
  shows "map (\<lambda>t. (tk_type t, tk_value t)) (scan p (c # s))
           = map (\<lambda>t. (tk_type t, tk_value t)) (scan q s)"
  using assms scan_positions [of "p + 1" s q] by (simp add: scan.simps [of p "c # s"])

theorem unmatched_character_dropped_witness:
  "map (\<lambda>t. (tk_type t, tk_value t)) (scan 0 ''@x'') = map (\<lambda>t. (tk_type t, tk_value t)) (scan 0 ''x'')"
  by (rule unmatched_character_dropped)
    (simp add: match_token_def match_string_def match_float_def match_int_def match_fixed_def
      fixed_tokens_def match_ident_def match_space_def is_decimal_def is_name_start_def is_space_def
      code_def)

end
