(* ===== verification/Cel_Parser.thy ===== *)
theory Cel_Parser
  imports Cel_Lexer
begin

text \<open>
  The abstract syntax and the recursive-descent parser of \<^verbatim>\<open>cli/src/modelable/expressions/cel.py\<close>. A parser
  state is the list of tokens from \<^verbatim>\<open>_pos\<close> on; reading past its end is the \<^verbatim>\<open>IndexError\<close> of the source.
  Each method of \<^verbatim>\<open>_Parser\<close> is a function of the parser \<open>T\<close> it calls for a nested expression
  (\<^verbatim>\<open>self._ternary\<close>), and its loops and self-calls take fuel; \<open>p_ternary\<close> ties the knot. \<open>parse_cel\<close>
  gives enough fuel for every token list: neither running out nor an \<^verbatim>\<open>IndexError\<close> ever happens.
\<close>

section \<open>Abstract syntax\<close>

text \<open>A float literal is kept as its text.\<close>

datatype literal = LStr string | LInt int | LFloat string | LBool bool | LNull

datatype cel_expr =
    Literal literal
  | FieldRef string string
  | RuntimeRef string string
  | UnaryOp string cel_expr
  | BinaryOp string cel_expr cel_expr
  | TernaryOp cel_expr cel_expr cel_expr
  | FunctionCall string "cel_expr list" "cel_expr option"
  | ListLiteral "cel_expr list"
  | WildcardRef string
  | ObjectLiteral "(string \<times> cel_expr) list"

section \<open>Parser results\<close>

datatype cel_error =
    Expected tok_type tok_type string int
  | Unexpected string int
  | IndexError

datatype 'a pres = POk 'a "token list" | PErr cel_error | PFuel

definition pbind :: "'a pres \<Rightarrow> ('a \<Rightarrow> token list \<Rightarrow> 'b pres) \<Rightarrow> 'b pres" where
  "pbind r f = (case r of POk x ts \<Rightarrow> f x ts | PErr e \<Rightarrow> PErr e | PFuel \<Rightarrow> PFuel)"

lemma pbind_simps [simp]:
  "pbind (POk x ts) f = f x ts" "pbind (PErr e) f = PErr e" "pbind PFuel f = PFuel"
  by (simp_all add: pbind_def)

text \<open>\<^verbatim>\<open>_consume(expected)\<close> and \<^verbatim>\<open>_at(...)\<close>\<close>

definition consume :: "tok_type \<Rightarrow> token list \<Rightarrow> token pres" where
  "consume ty ts =
     (case ts of [] \<Rightarrow> PErr IndexError
      | t # r \<Rightarrow> if tk_type t = ty then POk t r
               else PErr (Expected ty (tk_type t) (tk_value t) (tk_pos t)))"

text \<open>A test of the token under the cursor: the branches see it and the tokens after it.\<close>

definition peek :: "token list \<Rightarrow> (token \<Rightarrow> token list \<Rightarrow> 'a pres) \<Rightarrow> 'a pres" where
  "peek ts f = (case ts of [] \<Rightarrow> PErr IndexError | t # r \<Rightarrow> f t r)"

lemma peek_simps [simp]: "peek [] f = PErr IndexError" "peek (t # r) f = f t r"
  by (simp_all add: peek_def)

text \<open>The text of a string literal without its quotes, its three escapes replaced in turn.\<close>

definition unescape :: "string \<Rightarrow> string" where
  "unescape v =
     (let raw = butlast (tl v);
          a = replace_str [CHR 0x5C, CHR 0x22] [CHR 0x22] raw;
          b = replace_str [CHR 0x5C, CHR 0x27] [CHR 0x27] a
      in replace_str [CHR 0x5C, CHR 0x5C] [CHR 0x5C] b)"

definition runtime_namespaces :: "string list" where
  "runtime_namespaces = [''request'', ''auth'', ''params'', ''env'']"

text \<open>The token after a named argument's label \<^verbatim>\<open>name:\<close>, which is skipped.\<close>

definition skip_label :: "token list \<Rightarrow> token list" where
  "skip_label ts =
     (case ts of t # u # r \<Rightarrow> if tk_type t = TIDENT \<and> tk_type u = TCOLON then r else ts | _ \<Rightarrow> ts)"

definition skip_comma :: "token list \<Rightarrow> token list pres" where
  "skip_comma ts = peek ts (\<lambda>t r. if tk_type t = TCOMMA then POk r r else POk ts ts)"

section \<open>The parser\<close>

text \<open>The loop of \<^verbatim>\<open>_list\<close>\<close>

fun p_items :: "(token list \<Rightarrow> cel_expr pres) \<Rightarrow> nat \<Rightarrow> token list \<Rightarrow> cel_expr list pres" where
  "p_items T 0 ts = PFuel"
| "p_items T (Suc n) ts = peek ts (\<lambda>t r.
     if tk_type t \<in> {TRBRACKET, TEOF} then POk [] ts
     else pbind (T ts) (\<lambda>a ts.
          pbind (skip_comma ts) (\<lambda>_ ts.
          pbind (p_items T n ts) (\<lambda>as ts. POk (a # as) ts))))"

definition p_list :: "(token list \<Rightarrow> cel_expr pres) \<Rightarrow> nat \<Rightarrow> token list \<Rightarrow> cel_expr pres" where
  "p_list T n ts =
     pbind (consume TLBRACKET ts) (\<lambda>_ ts.
     pbind (p_items T n ts) (\<lambda>es ts.
     pbind (consume TRBRACKET ts) (\<lambda>_ ts. POk (ListLiteral es) ts)))"

text \<open>The loop of \<^verbatim>\<open>_object\<close>\<close>

fun p_pairs :: "(token list \<Rightarrow> cel_expr pres) \<Rightarrow> nat \<Rightarrow> token list \<Rightarrow> (string \<times> cel_expr) list pres" where
  "p_pairs T 0 ts = PFuel"
| "p_pairs T (Suc n) ts = peek ts (\<lambda>t r.
     if tk_type t \<in> {TRBRACE, TEOF} then POk [] ts
     else pbind (consume TIDENT ts) (\<lambda>k ts.
          pbind (consume TCOLON ts) (\<lambda>_ ts.
          pbind (T ts) (\<lambda>a ts.
          pbind (skip_comma ts) (\<lambda>_ ts.
          pbind (p_pairs T n ts) (\<lambda>ps ts. POk ((tk_value k, a) # ps) ts))))))"

definition p_object :: "(token list \<Rightarrow> cel_expr pres) \<Rightarrow> nat \<Rightarrow> token list \<Rightarrow> cel_expr pres" where
  "p_object T n ts =
     pbind (consume TLBRACE ts) (\<lambda>_ ts.
     pbind (p_pairs T n ts) (\<lambda>ps ts.
     pbind (consume TRBRACE ts) (\<lambda>_ ts. POk (ObjectLiteral ps) ts)))"

text \<open>The argument loop of \<^verbatim>\<open>_ident_or_call\<close>\<close>

fun p_args :: "(token list \<Rightarrow> cel_expr pres) \<Rightarrow> nat \<Rightarrow> token list \<Rightarrow> cel_expr list pres" where
  "p_args T 0 ts = PFuel"
| "p_args T (Suc n) ts = peek ts (\<lambda>t r.
     if tk_type t \<in> {TRPAREN, TEOF} then POk [] ts
     else pbind (T (skip_label ts)) (\<lambda>a ts.
          pbind (skip_comma ts) (\<lambda>_ ts.
          pbind (p_args T n ts) (\<lambda>as ts. POk (a # as) ts))))"

definition p_ident_or_call :: "(token list \<Rightarrow> cel_expr pres) \<Rightarrow> nat \<Rightarrow> token list \<Rightarrow> cel_expr pres" where
  "p_ident_or_call T n ts =
     pbind (consume TIDENT ts) (\<lambda>name_tok ts. let name = tk_value name_tok in peek ts (\<lambda>t r.
       if tk_type t = TLPAREN
       then pbind (p_args T n r) (\<lambda>args ts.
            pbind (consume TRPAREN ts) (\<lambda>_ ts. peek ts (\<lambda>t r.
              if tk_type t = TWHERE
              then pbind (T r) (\<lambda>f ts. POk (FunctionCall name args (Some f)) ts)
              else POk (FunctionCall name args None) ts)))
       else if tk_type t = TDOT
       then peek r (\<lambda>u s.
              if tk_type u = TSTAR then POk (WildcardRef name) s
              else pbind (consume TIDENT r) (\<lambda>field_tok ts.
                POk (if name \<in> set runtime_namespaces then RuntimeRef name (tk_value field_tok)
                     else FieldRef name (tk_value field_tok)) ts))
       else POk (FieldRef [] name) ts))"

definition p_primary :: "(token list \<Rightarrow> cel_expr pres) \<Rightarrow> nat \<Rightarrow> token list \<Rightarrow> cel_expr pres" where
  "p_primary T n ts = peek ts (\<lambda>t r.
     if tk_type t = TLPAREN
     then pbind (T r) (\<lambda>e ts. pbind (consume TRPAREN ts) (\<lambda>_ ts. POk e ts))
     else if tk_type t = TLBRACKET then p_list T n ts
     else if tk_type t = TLBRACE then p_object T n ts
     else if tk_type t = TTRUE then POk (Literal (LBool True)) r
     else if tk_type t = TFALSE then POk (Literal (LBool False)) r
     else if tk_type t = TNULL then POk (Literal LNull) r
     else if tk_type t = TSTRING then POk (Literal (LStr (unescape (tk_value t)))) r
     else if tk_type t = TFLOAT then POk (Literal (LFloat (tk_value t))) r
     else if tk_type t = TINT then POk (Literal (LInt (int (nat_of_digits (tk_value t))))) r
     else if tk_type t = TIDENT then p_ident_or_call T n ts
     else PErr (Unexpected (tk_value t) (tk_pos t)))"

fun p_unary :: "(token list \<Rightarrow> cel_expr pres) \<Rightarrow> nat \<Rightarrow> token list \<Rightarrow> cel_expr pres" where
  "p_unary T 0 ts = PFuel"
| "p_unary T (Suc n) ts = peek ts (\<lambda>t r.
     if tk_type t = TMINUS then pbind (p_unary T n r) (\<lambda>e ts. POk (UnaryOp ''-'' e) ts)
     else p_primary T (Suc n) ts)"

fun p_mul_loop :: "(token list \<Rightarrow> cel_expr pres) \<Rightarrow> nat \<Rightarrow> cel_expr \<Rightarrow> token list \<Rightarrow> cel_expr pres" where
  "p_mul_loop T 0 left ts = PFuel"
| "p_mul_loop T (Suc n) left ts = peek ts (\<lambda>t r.
     if tk_type t \<in> {TSTAR, TSLASH, TPERCENT}
     then pbind (p_unary T (Suc n) r) (\<lambda>right ts. p_mul_loop T n (BinaryOp (tk_value t) left right) ts)
     else POk left ts)"

definition p_mul :: "(token list \<Rightarrow> cel_expr pres) \<Rightarrow> nat \<Rightarrow> token list \<Rightarrow> cel_expr pres" where
  "p_mul T n ts = pbind (p_unary T n ts) (p_mul_loop T n)"

fun p_add_loop :: "(token list \<Rightarrow> cel_expr pres) \<Rightarrow> nat \<Rightarrow> cel_expr \<Rightarrow> token list \<Rightarrow> cel_expr pres" where
  "p_add_loop T 0 left ts = PFuel"
| "p_add_loop T (Suc n) left ts = peek ts (\<lambda>t r.
     if tk_type t \<in> {TPLUS, TMINUS}
     then pbind (p_mul T (Suc n) r) (\<lambda>right ts. p_add_loop T n (BinaryOp (tk_value t) left right) ts)
     else POk left ts)"

definition p_add :: "(token list \<Rightarrow> cel_expr pres) \<Rightarrow> nat \<Rightarrow> token list \<Rightarrow> cel_expr pres" where
  "p_add T n ts = pbind (p_mul T n ts) (p_add_loop T n)"

definition comparison_tokens :: "tok_type list" where
  "comparison_tokens = [TEQ, TNEQ, TLT, TLTE, TGT, TGTE, TIN]"

definition p_comparison :: "(token list \<Rightarrow> cel_expr pres) \<Rightarrow> nat \<Rightarrow> token list \<Rightarrow> cel_expr pres" where
  "p_comparison T n ts =
     pbind (p_add T n ts) (\<lambda>left ts. peek ts (\<lambda>t r.
       if tk_type t \<in> set comparison_tokens
       then pbind (p_add T n r) (\<lambda>right ts. POk (BinaryOp (tk_value t) left right) ts)
       else POk left ts))"

fun p_not :: "(token list \<Rightarrow> cel_expr pres) \<Rightarrow> nat \<Rightarrow> token list \<Rightarrow> cel_expr pres" where
  "p_not T 0 ts = PFuel"
| "p_not T (Suc n) ts = peek ts (\<lambda>t r.
     if tk_type t = TBANG then pbind (p_not T n r) (\<lambda>e ts. POk (UnaryOp ''!'' e) ts)
     else p_comparison T (Suc n) ts)"

fun p_and_loop :: "(token list \<Rightarrow> cel_expr pres) \<Rightarrow> nat \<Rightarrow> cel_expr \<Rightarrow> token list \<Rightarrow> cel_expr pres" where
  "p_and_loop T 0 left ts = PFuel"
| "p_and_loop T (Suc n) left ts = peek ts (\<lambda>t r.
     if tk_type t = TAND
     then pbind (p_not T (Suc n) r) (\<lambda>right ts. p_and_loop T n (BinaryOp ''&&'' left right) ts)
     else POk left ts)"

definition p_and :: "(token list \<Rightarrow> cel_expr pres) \<Rightarrow> nat \<Rightarrow> token list \<Rightarrow> cel_expr pres" where
  "p_and T n ts = pbind (p_not T n ts) (p_and_loop T n)"

fun p_or_loop :: "(token list \<Rightarrow> cel_expr pres) \<Rightarrow> nat \<Rightarrow> cel_expr \<Rightarrow> token list \<Rightarrow> cel_expr pres" where
  "p_or_loop T 0 left ts = PFuel"
| "p_or_loop T (Suc n) left ts = peek ts (\<lambda>t r.
     if tk_type t = TOR
     then pbind (p_and T (Suc n) r) (\<lambda>right ts. p_or_loop T n (BinaryOp ''||'' left right) ts)
     else POk left ts)"

definition p_or :: "(token list \<Rightarrow> cel_expr pres) \<Rightarrow> nat \<Rightarrow> token list \<Rightarrow> cel_expr pres" where
  "p_or T n ts = pbind (p_and T n ts) (p_or_loop T n)"

fun p_ternary :: "nat \<Rightarrow> token list \<Rightarrow> cel_expr pres" where
  "p_ternary 0 ts = PFuel"
| "p_ternary (Suc n) ts =
     pbind (p_or (p_ternary n) n ts) (\<lambda>cond ts. peek ts (\<lambda>t r.
       if tk_type t = TQUESTION
       then pbind (p_or (p_ternary n) n r) (\<lambda>thn ts.
            pbind (consume TCOLON ts) (\<lambda>_ ts.
            pbind (p_ternary n ts) (\<lambda>els ts. POk (TernaryOp cond thn els) ts)))
       else POk cond ts))"

text \<open>\<^verbatim>\<open>_Parser(tokens).parse()\<close>\<close>

definition parse_tokens :: "token list \<Rightarrow> cel_expr pres" where
  "parse_tokens ts =
     pbind (p_ternary (Suc (length ts)) ts) (\<lambda>e ts. peek ts (\<lambda>t r.
       if tk_type t = TEOF then POk e ts else PErr (Unexpected (tk_value t) (tk_pos t))))"

text \<open>\<^verbatim>\<open>parse_cel\<close>: the tree, or the parse error in its place.\<close>

definition parse_cel :: "string \<Rightarrow> cel_error + cel_expr" where
  "parse_cel expression =
     (case parse_tokens (tokenize expression) of
        POk e ts \<Rightarrow> Inr e | PErr e \<Rightarrow> Inl e | PFuel \<Rightarrow> Inl IndexError)"

end
