(* ===== verification/Cel_Total.thy ===== *)
theory Cel_Total
  imports Cel_Parser
begin

text \<open>
  The parser of CEL expressions is total: on a token stream it returns a tree and the rest of the
  tokens, or a parse error with a position, and never reads past the end of the stream. The argument
  is compositional: one lemma per method of \<^verbatim>\<open>_Parser\<close>, from what it relies on of the parser of nested
  expressions, which is the contract of the locale \<open>nested_parser\<close>.
\<close>

named_theorems well_rules \<open>how a step of the parser keeps to the token stream\<close>

definition has_eof :: "token list \<Rightarrow> bool" where
  "has_eof ts \<longleftrightarrow> (\<exists>t \<in> set ts. tk_type t = TEOF)"

text \<open>
  \<open>well s ts r\<close>: the result \<open>r\<close> of a parser started on \<open>ts\<close> is a parse error, or a value with
  a rest that leaves out a prefix without end-of-input token (a non-empty one when \<open>s\<close>).
\<close>

fun well :: "bool \<Rightarrow> token list \<Rightarrow> 'a pres \<Rightarrow> bool" where
  "well s ts (POk x r) \<longleftrightarrow>
     (\<exists>pre. ts = pre @ r \<and> (\<forall>t \<in> set pre. tk_type t \<noteq> TEOF) \<and> (s \<longrightarrow> pre \<noteq> []))"
| "well s ts (PErr e) \<longleftrightarrow> e \<noteq> IndexError"
| "well s ts PFuel \<longleftrightarrow> False"

lemma has_eof_Cons: "has_eof (t # r) \<longleftrightarrow> tk_type t = TEOF \<or> has_eof r"
  by (simp add: has_eof_def)

lemma has_eof_nonempty: "has_eof ts \<Longrightarrow> 0 < length ts"
  by (auto simp: has_eof_def)

lemma well_weaken: "well True ts r \<Longrightarrow> well s ts r"
  by (cases r) auto

lemma well_bind_strict:
  assumes "well True ts r" and "has_eof ts"
    and "\<And>x u. has_eof u \<Longrightarrow> length u < length ts \<Longrightarrow> well False u (f x u)"
  shows "well s ts (pbind r f)"
proof (cases r)
  case (POk x u)
  with assms(1) obtain pre where pre: "ts = pre @ u" "\<forall>t \<in> set pre. tk_type t \<noteq> TEOF" "pre \<noteq> []"
    by auto
  with assms(2) have "has_eof u" "length u < length ts" by (auto simp: has_eof_def)
  then have "well False u (f x u)" by (rule assms(3))
  with POk pre show ?thesis by (cases "f x u") (auto intro: exI [of _ "pre @ _"])
qed (use assms in auto)

lemma well_bind:
  assumes "well False ts r" and "has_eof ts"
    and "\<And>x u. has_eof u \<Longrightarrow> length u \<le> length ts \<Longrightarrow> well s u (f x u)"
  shows "well s ts (pbind r f)"
proof (cases r)
  case (POk x u)
  with assms(1) obtain pre where pre: "ts = pre @ u" "\<forall>t \<in> set pre. tk_type t \<noteq> TEOF"
    by auto
  with assms(2) have "has_eof u" "length u \<le> length ts" by (auto simp: has_eof_def)
  then have "well s u (f x u)" by (rule assms(3))
  with POk pre show ?thesis by (cases "f x u") (auto intro: exI [of _ "pre @ _"])
qed (use assms in auto)

lemma well_POk [well_rules]: "well False ts (POk x ts)"
  by auto

lemma well_consume: "ty \<noteq> TEOF \<Longrightarrow> has_eof ts \<Longrightarrow> well True ts (consume ty ts)"
  by (auto simp: consume_def has_eof_def split: list.splits)

lemma well_skip_comma: "has_eof ts \<Longrightarrow> well False ts (skip_comma ts)"
  by (cases ts) (auto simp: skip_comma_def has_eof_def)

lemma well_peek:
  "has_eof ts \<Longrightarrow> (\<And>t r. ts = t # r \<Longrightarrow> well s ts (f t r)) \<Longrightarrow> well s ts (peek ts f)"
  by (cases ts) (auto simp: has_eof_def)

text \<open>After a token that is not the last one the rest is a stream, and what is read of it counts.\<close>

lemma has_eof_rest: "has_eof (t # r) \<Longrightarrow> tk_type t \<noteq> TEOF \<Longrightarrow> has_eof r"
  by (simp add: has_eof_Cons)

lemma well_step: "tk_type t \<noteq> TEOF \<Longrightarrow> well False r res \<Longrightarrow> well True (t # r) res"
  by (cases res) (auto intro: exI [of _ "t # _"])

lemma skip_label_prefix:
  obtains pre where "ts = pre @ skip_label ts" and "\<forall>t \<in> set pre. tk_type t \<noteq> TEOF"
proof (cases "skip_label ts = ts")
  case True
  with that [of "[]"] show thesis by simp
next
  case False
  then obtain t u r where "ts = t # u # r" "tk_type t = TIDENT" "tk_type u = TCOLON" "skip_label ts = r"
    by (auto simp: skip_label_def split: list.splits if_splits)
  with that [of "[t, u]"] show thesis by simp
qed

lemma well_skip_label: "well s (skip_label ts) res \<Longrightarrow> well s ts res"
proof -
  assume w: "well s (skip_label ts) res"
  obtain pre where pre: "ts = pre @ skip_label ts" "\<forall>t \<in> set pre. tk_type t \<noteq> TEOF"
    by (rule skip_label_prefix)
  show ?thesis
  proof (cases res)
    case (POk x r)
    with w obtain q where q: "skip_label ts = q @ r" "\<forall>t \<in> set q. tk_type t \<noteq> TEOF" "s \<longrightarrow> q \<noteq> []"
      by auto
    with pre have "ts = (pre @ q) @ r" by simp
    with POk pre(2) q(2,3) show ?thesis by (auto intro!: exI [of _ "pre @ q"])
  qed (use w in auto)
qed

lemma skip_label_eof: "has_eof ts \<Longrightarrow> has_eof (skip_label ts)"
  by (auto simp: skip_label_def has_eof_def split: list.splits)

lemma skip_label_length: "length (skip_label ts) \<le> length ts"
  by (auto simp: skip_label_def split: list.splits)

lemma consume_bind:
  assumes "has_eof ts" and "ty \<noteq> TEOF"
    and "\<And>x u. has_eof u \<Longrightarrow> length u < length ts \<Longrightarrow> well False u (f x u)"
  shows "well s ts (pbind (consume ty ts) f)"
  using well_bind_strict [OF well_consume [OF assms(2,1)] assms(1,3)] .

text \<open>The end of each loop body: an optional comma, then the next round.\<close>

lemma loop_tail:
  assumes "has_eof u" and "\<And>v. has_eof v \<Longrightarrow> length v \<le> length u \<Longrightarrow> well False v (g v)"
  shows "well False u (pbind (skip_comma u) (\<lambda>_ v. pbind (g v) (\<lambda>as w. POk (h as) w)))"
  by (intro well_bind [OF well_skip_comma] well_bind [OF assms(2)] well_POk assms)

lemma strict_then:
  assumes "well True ts r" and "has_eof ts"
    and "\<And>x u. has_eof u \<Longrightarrow> length u < length ts \<Longrightarrow> well False u (f x u)"
  shows "well True ts (pbind r f)"
  using assms by (rule well_bind_strict)

lemma infix_round:
  assumes "has_eof r" and "tk_type t \<noteq> TEOF" and "well True r sub"
    and "\<And>x u. has_eof u \<Longrightarrow> length u < length r \<Longrightarrow> well False u (f x u)"
  shows "well False (t # r) (pbind sub f)"
  using assms by (intro well_weaken [OF well_step] well_bind_strict)

section \<open>The contract of the nested parser, and the methods over it\<close>

locale nested_parser =
  fixes T :: "token list \<Rightarrow> cel_expr pres" and N :: nat
  assumes T_well: "has_eof ts \<Longrightarrow> length ts < N \<Longrightarrow> well True ts (T ts)"
begin

lemma T_well_bind:
  assumes "has_eof ts" and "length ts < N"
    and "\<And>x u. has_eof u \<Longrightarrow> length u < length ts \<Longrightarrow> well False u (f x u)"
  shows "well s ts (pbind (T ts) f)"
  using well_bind_strict [OF T_well [OF assms(1,2)] assms(1,3)] .

lemma items_well: "has_eof ts \<Longrightarrow> length ts < N \<Longrightarrow> length ts \<le> n \<Longrightarrow> well False ts (p_items T n ts)"
proof (induction n arbitrary: ts)
  case (Suc n)
  have "well False ts (pbind (T ts) (\<lambda>a ts. pbind (skip_comma ts) (\<lambda>_ ts.
          pbind (p_items T n ts) (\<lambda>as ts. POk (a # as) ts))))"
    using Suc.prems by (intro T_well_bind loop_tail Suc.IH) auto
  then show ?case
    unfolding p_items.simps by (intro well_peek Suc.prems(1)) auto
qed (auto dest: has_eof_nonempty)

lemma args_well: "has_eof ts \<Longrightarrow> length ts < N \<Longrightarrow> length ts \<le> n \<Longrightarrow> well False ts (p_args T n ts)"
proof (induction n arbitrary: ts)
  case (Suc n)
  have "well False (skip_label ts) (pbind (T (skip_label ts)) (\<lambda>a ts. pbind (skip_comma ts) (\<lambda>_ ts.
          pbind (p_args T n ts) (\<lambda>as ts. POk (a # as) ts))))"
    using Suc.prems skip_label_length [of ts]
    by (intro T_well_bind loop_tail Suc.IH) (auto simp: skip_label_eof)
  then have "well False ts (pbind (T (skip_label ts)) (\<lambda>a ts. pbind (skip_comma ts) (\<lambda>_ ts.
          pbind (p_args T n ts) (\<lambda>as ts. POk (a # as) ts))))"
    by (rule well_skip_label)
  then show ?case
    unfolding p_args.simps by (intro well_peek Suc.prems(1)) auto
qed (auto dest: has_eof_nonempty)

lemma pairs_well: "has_eof ts \<Longrightarrow> length ts < N \<Longrightarrow> length ts \<le> n \<Longrightarrow> well False ts (p_pairs T n ts)"
proof (induction n arbitrary: ts)
  case (Suc n)
  have "well False ts (pbind (consume TIDENT ts) (\<lambda>k ts. pbind (consume TCOLON ts) (\<lambda>_ ts.
          pbind (T ts) (\<lambda>a ts. pbind (skip_comma ts) (\<lambda>_ ts.
          pbind (p_pairs T n ts) (\<lambda>ps ts. POk ((tk_value k, a) # ps) ts))))))"
    using Suc.prems by (intro consume_bind T_well_bind loop_tail Suc.IH) auto
  then show ?case
    unfolding p_pairs.simps by (intro well_peek Suc.prems(1)) auto
qed (auto dest: has_eof_nonempty)

lemma list_well: "has_eof ts \<Longrightarrow> length ts \<le> N \<Longrightarrow> length ts \<le> n \<Longrightarrow> well True ts (p_list T n ts)"
  unfolding p_list_def
  by (intro consume_bind well_bind [OF items_well] well_POk) auto

lemma object_well: "has_eof ts \<Longrightarrow> length ts \<le> N \<Longrightarrow> length ts \<le> n \<Longrightarrow> well True ts (p_object T n ts)"
  unfolding p_object_def
  by (intro consume_bind well_bind [OF pairs_well] well_POk) auto

lemma call_tail_well:
  assumes "has_eof r" and "length r < N" and "length r \<le> n"
  shows "well False r (pbind (p_args T n r) (\<lambda>args ts. pbind (consume TRPAREN ts) (\<lambda>_ ts.
           peek ts (\<lambda>t r. if tk_type t = TWHERE
             then pbind (T r) (\<lambda>f ts. POk (FunctionCall name args (Some f)) ts)
             else POk (FunctionCall name args None) ts))))"
proof (intro well_bind [OF args_well] consume_bind well_peek)
  fix args u v t w
  assume *: "has_eof u" "length u \<le> length r" "has_eof v" "length v < length u" "v = t # w"
  show "well False v (if tk_type t = TWHERE
             then pbind (T w) (\<lambda>f ts. POk (FunctionCall name args (Some f)) ts)
             else POk (FunctionCall name args None) v)"
  proof (cases "tk_type t = TWHERE")
    case True
    with * assms have "well True (t # w) (pbind (T w) (\<lambda>f ts. POk (FunctionCall name args (Some f)) ts))"
      by (intro well_step T_well_bind) (auto simp: has_eof_Cons)
    with True *(5) show ?thesis by (auto intro: well_weaken)
  qed auto
qed (use assms in auto)

lemma ident_or_call_well:
  "has_eof ts \<Longrightarrow> length ts \<le> N \<Longrightarrow> length ts \<le> n \<Longrightarrow> well True ts (p_ident_or_call T n ts)"
  unfolding p_ident_or_call_def Let_def
proof (intro consume_bind well_peek)
  fix name_tok u t r
  assume *: "has_eof ts" "length ts \<le> N" "length ts \<le> n" "has_eof u" "length u < length ts" "u = t # r"
  show "well False u
         (if tk_type t = TLPAREN
          then pbind (p_args T n r) (\<lambda>args ts. pbind (consume TRPAREN ts) (\<lambda>_ ts.
                 peek ts (\<lambda>t r. if tk_type t = TWHERE
                   then pbind (T r) (\<lambda>f ts. POk (FunctionCall (tk_value name_tok) args (Some f)) ts)
                   else POk (FunctionCall (tk_value name_tok) args None) ts)))
          else if tk_type t = TDOT
          then peek r (\<lambda>w s.
                 if tk_type w = TSTAR then POk (WildcardRef (tk_value name_tok)) s
                 else pbind (consume TIDENT r) (\<lambda>field_tok ts.
                   POk (if tk_value name_tok \<in> set runtime_namespaces
                        then RuntimeRef (tk_value name_tok) (tk_value field_tok)
                        else FieldRef (tk_value name_tok) (tk_value field_tok)) ts))
          else POk (FieldRef [] (tk_value name_tok)) u)"
  proof (cases "tk_type t = TLPAREN")
    case True
    with * have "has_eof r" by (simp add: has_eof_Cons)
    with * True call_tail_well [of r n "tk_value name_tok"] show ?thesis
      by (auto intro!: well_weaken [OF well_step])
  next
    case False
    show ?thesis
    proof (cases "tk_type t = TDOT")
      case True
      with * have r: "has_eof r" by (simp add: has_eof_Cons)
      have "well False r (peek r (\<lambda>w s.
                 if tk_type w = TSTAR then POk (WildcardRef (tk_value name_tok)) s
                 else pbind (consume TIDENT r) (\<lambda>field_tok ts.
                   POk (if tk_value name_tok \<in> set runtime_namespaces
                        then RuntimeRef (tk_value name_tok) (tk_value field_tok)
                        else FieldRef (tk_value name_tok) (tk_value field_tok)) ts)))"
        using r by (intro well_peek) (auto intro!: consume_bind intro: exI [of _ "[_]"])
      with False True * show ?thesis by (auto intro!: well_weaken [OF well_step])
    qed (use False in auto)
  qed
qed auto

lemma primary_well: "has_eof ts \<Longrightarrow> length ts \<le> N \<Longrightarrow> length ts \<le> n \<Longrightarrow> well True ts (p_primary T n ts)"
proof -
  assume *: "has_eof ts" "length ts \<le> N" "length ts \<le> n"
  obtain t r where ts: "ts = t # r" using *(1) by (cases ts) (auto simp: has_eof_def)
  have paren: "well True ts (pbind (T r) (\<lambda>e ts. pbind (consume TRPAREN ts) (\<lambda>_ ts. POk e ts)))"
    if "tk_type t = TLPAREN"
  proof -
    have "has_eof r" "length r < N" using * ts that by (auto simp: has_eof_Cons)
    then have "well False r (pbind (T r) (\<lambda>e ts. pbind (consume TRPAREN ts) (\<lambda>_ ts. POk e ts)))"
      by (intro T_well_bind consume_bind well_POk) auto
    with that ts show ?thesis by (auto intro: well_step)
  qed
  have leaf: "well True ts (POk e r)" if "tk_type t \<noteq> TEOF" for e :: cel_expr
    using that ts by (auto intro: exI [of _ "[t]"])
  show ?thesis
    using paren leaf list_well [OF *] object_well [OF *] ident_or_call_well [OF *]
    unfolding p_primary_def ts peek_simps by (auto simp flip: ts split del: if_split split: if_split)
qed

lemma unary_well: "has_eof ts \<Longrightarrow> length ts \<le> N \<Longrightarrow> length ts \<le> n \<Longrightarrow> well True ts (p_unary T n ts)"
proof (induction n arbitrary: ts)
  case (Suc n)
  show ?case
    unfolding p_unary.simps
  proof (rule well_peek [OF Suc.prems(1)])
    fix t r assume ts: "ts = t # r"
    show "well True ts (if tk_type t = TMINUS then pbind (p_unary T n r) (\<lambda>e ts. POk (UnaryOp ''-'' e) ts)
        else p_primary T (Suc n) ts)"
    proof (cases "tk_type t = TMINUS")
      case True
      with Suc.prems ts have "has_eof r" "length r \<le> n" "length r \<le> N" by (auto simp: has_eof_Cons)
      then have "well True r (pbind (p_unary T n r) (\<lambda>e ts. POk (UnaryOp ''-'' e) ts))"
        by (intro strict_then [OF Suc.IH] well_POk)
      with True ts show ?thesis by (auto intro: well_step well_weaken)
    next
      case False
      with Suc.prems show ?thesis by (auto intro!: primary_well)
    qed
  qed
qed (auto dest: has_eof_nonempty)

lemma mul_loop_well:
  "has_eof ts \<Longrightarrow> length ts \<le> N \<Longrightarrow> length ts \<le> n \<Longrightarrow> well False ts (p_mul_loop T n left ts)"
proof (induction n arbitrary: left ts)
  case (Suc n)
  show ?case
    unfolding p_mul_loop.simps
  proof (rule well_peek [OF Suc.prems(1)])
    fix t r assume ts: "ts = t # r"
    show "well False ts (if tk_type t \<in> {TSTAR, TSLASH, TPERCENT}
        then pbind (p_unary T (Suc n) r) (\<lambda>right ts. p_mul_loop T n (BinaryOp (tk_value t) left right) ts)
        else POk left ts)"
    proof (cases "tk_type t \<in> {TSTAR, TSLASH, TPERCENT}")
      case True
      with Suc.prems ts have "tk_type t \<noteq> TEOF" "has_eof r" by (auto simp: has_eof_Cons)
      with Suc.prems ts have "well False (t # r) (pbind (p_unary T (Suc n) r)
          (\<lambda>right ts. p_mul_loop T n (BinaryOp (tk_value t) left right) ts))"
        by (intro infix_round unary_well Suc.IH) auto
      with True ts show ?thesis by simp
    qed auto
  qed
qed (auto dest: has_eof_nonempty)

lemma mul_well: "has_eof ts \<Longrightarrow> length ts \<le> N \<Longrightarrow> length ts \<le> n \<Longrightarrow> well True ts (p_mul T n ts)"
  unfolding p_mul_def by (rule strict_then [OF unary_well]) (auto intro: mul_loop_well)

lemma add_loop_well:
  "has_eof ts \<Longrightarrow> length ts \<le> N \<Longrightarrow> length ts \<le> n \<Longrightarrow> well False ts (p_add_loop T n left ts)"
proof (induction n arbitrary: left ts)
  case (Suc n)
  show ?case
    unfolding p_add_loop.simps
  proof (rule well_peek [OF Suc.prems(1)])
    fix t r assume ts: "ts = t # r"
    show "well False ts (if tk_type t \<in> {TPLUS, TMINUS}
        then pbind (p_mul T (Suc n) r) (\<lambda>right ts. p_add_loop T n (BinaryOp (tk_value t) left right) ts)
        else POk left ts)"
    proof (cases "tk_type t \<in> {TPLUS, TMINUS}")
      case True
      with Suc.prems ts have "tk_type t \<noteq> TEOF" "has_eof r" by (auto simp: has_eof_Cons)
      with Suc.prems ts True show ?thesis
        by (auto intro!: infix_round mul_well Suc.IH)
    qed auto
  qed
qed (auto dest: has_eof_nonempty)

lemma add_well: "has_eof ts \<Longrightarrow> length ts \<le> N \<Longrightarrow> length ts \<le> n \<Longrightarrow> well True ts (p_add T n ts)"
  unfolding p_add_def by (rule strict_then [OF mul_well]) (auto intro: add_loop_well)

lemma comparison_well:
  "has_eof ts \<Longrightarrow> length ts \<le> N \<Longrightarrow> length ts \<le> n \<Longrightarrow> well True ts (p_comparison T n ts)"
  unfolding p_comparison_def
proof (rule strict_then [OF add_well], simp_all)
  fix x u
  assume *: "has_eof u" "length u < length ts" "length ts \<le> N" "length ts \<le> n"
  show "well False u (peek u (\<lambda>t r.
       if tk_type t \<in> set comparison_tokens
       then pbind (p_add T n r) (\<lambda>right ts. POk (BinaryOp (tk_value t) x right) ts)
       else POk x u))"
  proof (rule well_peek [OF *(1)])
    fix t r assume u: "u = t # r"
    show "well False u (if tk_type t \<in> set comparison_tokens
       then pbind (p_add T n r) (\<lambda>right ts. POk (BinaryOp (tk_value t) x right) ts)
       else POk x u)"
    proof (cases "tk_type t \<in> set comparison_tokens")
      case True
      with * u have "tk_type t \<noteq> TEOF" "has_eof r" by (auto simp: has_eof_Cons comparison_tokens_def)
      with * u True show ?thesis by (auto intro!: infix_round add_well)
    qed auto
  qed
qed

lemma not_well: "has_eof ts \<Longrightarrow> length ts \<le> N \<Longrightarrow> length ts \<le> n \<Longrightarrow> well True ts (p_not T n ts)"
proof (induction n arbitrary: ts)
  case (Suc n)
  show ?case
    unfolding p_not.simps
  proof (rule well_peek [OF Suc.prems(1)])
    fix t r assume ts: "ts = t # r"
    show "well True ts (if tk_type t = TBANG then pbind (p_not T n r) (\<lambda>e ts. POk (UnaryOp ''!'' e) ts)
        else p_comparison T (Suc n) ts)"
    proof (cases "tk_type t = TBANG")
      case True
      with Suc.prems ts have "has_eof r" "length r \<le> n" "length r \<le> N" by (auto simp: has_eof_Cons)
      then have "well True r (pbind (p_not T n r) (\<lambda>e ts. POk (UnaryOp ''!'' e) ts))"
        by (intro strict_then [OF Suc.IH] well_POk)
      with True ts show ?thesis by (auto intro: well_step well_weaken)
    next
      case False
      with Suc.prems show ?thesis by (auto intro!: comparison_well)
    qed
  qed
qed (auto dest: has_eof_nonempty)

lemma and_loop_well:
  "has_eof ts \<Longrightarrow> length ts \<le> N \<Longrightarrow> length ts \<le> n \<Longrightarrow> well False ts (p_and_loop T n left ts)"
proof (induction n arbitrary: left ts)
  case (Suc n)
  show ?case
    unfolding p_and_loop.simps
  proof (rule well_peek [OF Suc.prems(1)])
    fix t r assume ts: "ts = t # r"
    show "well False ts (if tk_type t = TAND
        then pbind (p_not T (Suc n) r) (\<lambda>right ts. p_and_loop T n (BinaryOp ''&&'' left right) ts)
        else POk left ts)"
    proof (cases "tk_type t = TAND")
      case True
      with Suc.prems ts have "tk_type t \<noteq> TEOF" "has_eof r" by (auto simp: has_eof_Cons)
      with Suc.prems ts have "well False (t # r) (pbind (p_not T (Suc n) r)
          (\<lambda>right ts. p_and_loop T n (BinaryOp ''&&'' left right) ts))"
        by (intro infix_round not_well Suc.IH) auto
      with True ts show ?thesis by simp
    qed auto
  qed
qed (auto dest: has_eof_nonempty)

lemma and_well: "has_eof ts \<Longrightarrow> length ts \<le> N \<Longrightarrow> length ts \<le> n \<Longrightarrow> well True ts (p_and T n ts)"
  unfolding p_and_def by (rule strict_then [OF not_well]) (auto intro: and_loop_well)

lemma or_loop_well:
  "has_eof ts \<Longrightarrow> length ts \<le> N \<Longrightarrow> length ts \<le> n \<Longrightarrow> well False ts (p_or_loop T n left ts)"
proof (induction n arbitrary: left ts)
  case (Suc n)
  show ?case
    unfolding p_or_loop.simps
  proof (rule well_peek [OF Suc.prems(1)])
    fix t r assume ts: "ts = t # r"
    show "well False ts (if tk_type t = TOR
        then pbind (p_and T (Suc n) r) (\<lambda>right ts. p_or_loop T n (BinaryOp ''||'' left right) ts)
        else POk left ts)"
    proof (cases "tk_type t = TOR")
      case True
      with Suc.prems ts have "tk_type t \<noteq> TEOF" "has_eof r" by (auto simp: has_eof_Cons)
      with Suc.prems ts True show ?thesis
        by (auto intro!: infix_round and_well Suc.IH)
    qed auto
  qed
qed (auto dest: has_eof_nonempty)

lemma or_well: "has_eof ts \<Longrightarrow> length ts \<le> N \<Longrightarrow> length ts \<le> n \<Longrightarrow> well True ts (p_or T n ts)"
  unfolding p_or_def by (rule strict_then [OF and_well]) (auto intro: or_loop_well)

end

section \<open>Tying the knot\<close>

lemma ternary_well: "has_eof ts \<Longrightarrow> length ts < n \<Longrightarrow> well True ts (p_ternary n ts)"
proof (induction n arbitrary: ts)
  case (Suc n)
  have nested: "nested_parser (p_ternary n) n"
    by (rule nested_parser.intro) (rule Suc.IH)
  note or_well = nested_parser.or_well [OF nested, where n = n]
  show ?case
    unfolding p_ternary.simps
  proof (rule strict_then [OF or_well Suc.prems(1)])
    fix cond u
    assume u: "has_eof u" "length u < length ts"
    show "well False u (peek u (\<lambda>t r. if tk_type t = TQUESTION
       then pbind (p_or (p_ternary n) n r) (\<lambda>thn ts. pbind (consume TCOLON ts) (\<lambda>_ ts.
            pbind (p_ternary n ts) (\<lambda>els ts. POk (TernaryOp cond thn els) ts)))
       else POk cond u))"
    proof (rule well_peek [OF u(1)])
      fix t r assume tr: "u = t # r"
      show "well False u (if tk_type t = TQUESTION
         then pbind (p_or (p_ternary n) n r) (\<lambda>thn ts. pbind (consume TCOLON ts) (\<lambda>_ ts.
              pbind (p_ternary n ts) (\<lambda>els ts. POk (TernaryOp cond thn els) ts)))
         else POk cond u)"
      proof (cases "tk_type t = TQUESTION")
        case True
        with u Suc.prems tr have r: "has_eof r" "length r < n" by (auto simp: has_eof_Cons)
        have "well False (t # r) (pbind (p_or (p_ternary n) n r) (\<lambda>thn ts.
            pbind (consume TCOLON ts) (\<lambda>_ ts.
            pbind (p_ternary n ts) (\<lambda>els ts. POk (TernaryOp cond thn els) ts))))"
        proof (rule infix_round [OF r(1) _ or_well])
          fix thn v
          assume v: "has_eof v" "length v < length r"
          show "well False v (pbind (consume TCOLON v) (\<lambda>_ ts.
            pbind (p_ternary n ts) (\<lambda>els ts. POk (TernaryOp cond thn els) ts)))"
            using v r by (intro consume_bind well_bind_strict [OF Suc.IH] well_POk) auto
        qed (use True r in auto)
        with True tr show ?thesis by simp
      qed auto
    qed
  qed (use Suc.prems in auto)
qed simp

text \<open>The parser of the model, with any amount of fuel, is such a nested parser.\<close>

interpretation ternary: nested_parser "p_ternary n" n for n
  by unfold_locales (rule ternary_well)

section \<open>Totality\<close>

lemma tokenize_has_eof: "has_eof (tokenize e)"
  by (simp add: tokenize_def has_eof_def Let_def)

lemma parse_tokens_well: "has_eof ts \<Longrightarrow> well True ts (parse_tokens ts)"
  unfolding parse_tokens_def
proof (rule strict_then [OF ternary_well])
  fix x u
  assume "has_eof u"
  then show "well False u (peek u (\<lambda>t r. if tk_type t = TEOF then POk x u
                                    else PErr (Unexpected (tk_value t) (tk_pos t))))"
    by (rule well_peek) auto
qed auto

lemma parse_tokens_ok: "has_eof ts \<Longrightarrow> parse_tokens ts \<noteq> PFuel \<and> parse_tokens ts \<noteq> PErr IndexError"
  using parse_tokens_well [of ts] by (cases "parse_tokens ts") auto

text \<open>
  C13. Parsing terminates with a tree or a parse error on every expression text: the fuel given by
  the model is always enough, and the parser never reads past the end-of-input token, so the
  \<^verbatim>\<open>IndexError\<close> that would escape the source's \<^verbatim>\<open>except CelParseError\<close> cannot occur.
\<close>

theorem parse_cel_total:
  "parse_tokens (tokenize s) \<noteq> PFuel \<and> parse_cel s \<noteq> Inl IndexError"
  using parse_tokens_ok [OF tokenize_has_eof [of s]]
  by (auto simp: parse_cel_def split: pres.splits)

end
