(* ===== verification/Cel_Check.thy ===== *)
theory Cel_Check
  imports Cel_Total
begin

text \<open>
  Validation and lineage of CEL expressions (\<^verbatim>\<open>cli/src/modelable/expressions/cel.py\<close>): the walk of
  \<^verbatim>\<open>validate_cel_expr\<close> with its CEL002 to CEL007 findings, the operand typing behind CEL003, the
  reference collector \<^verbatim>\<open>extract_field_refs\<close> and the boolean-shape check \<^verbatim>\<open>looks_boolean\<close>. A finding
  is a constructor with the texts that its message quotes (the expression's owner \<^verbatim>\<open>fqn\<close> aside, which
  is the same in all). The two walks are shown to agree.
\<close>

section \<open>Function tables\<close>

definition scalar_functions :: "string list" where
  "scalar_functions =
     [''lower'', ''upper'', ''trim'', ''contains'', ''startsWith'', ''endsWith'', ''slice'', ''date'',
      ''daysBetween'', ''date_diff'', ''truncate'', ''coalesce'', ''toString'', ''toDecimal'',
      ''hashHmacSha256'', ''hmac_sha256'', ''now'', ''today'', ''decimal'', ''round'', ''collect'']"

definition aggregate_functions :: "string list" where
  "aggregate_functions =
     [''count'', ''sum'', ''min'', ''max'', ''avg'', ''countif'', ''count_distinct'', ''mode'']"

definition non_deterministic_functions :: "string list" where
  "non_deterministic_functions = [''random'', ''uuid'', ''currentUser'']"

definition boolean_binary_ops :: "string list" where
  "boolean_binary_ops = [''=='', ''!='', ''<'', ''<='', ''>'', ''>='', ''in'', ''&&'', ''||'']"

definition boolean_functions :: "string list" where
  "boolean_functions = [''contains'', ''startsWith'', ''endsWith'']"

text \<open>The context: fields and known types per alias, and whether the projection groups.\<close>

record cel_context =
  cc_source_fields :: "(string, string list) dict"
  cc_has_group_by :: bool
  cc_fqn :: string
  cc_source_types :: "(string, (string, string) dict) dict"

datatype cel_finding =
    BareIdentifier string
  | UnknownAlias string
  | UnknownField string string
  | IncompatibleOperands string string string
  | NonDeterministic string
  | UnsupportedFunction string
  | AggregateWithoutGroup string

section \<open>Operand types\<close>

fun infer_type :: "cel_expr \<Rightarrow> cel_context \<Rightarrow> string option" where
  "infer_type (Literal (LBool _)) ctx = Some ''bool''"
| "infer_type (Literal (LInt _)) ctx = Some ''int''"
| "infer_type (Literal (LFloat _)) ctx = Some ''float''"
| "infer_type (Literal (LStr _)) ctx = Some ''string''"
| "infer_type (Literal LNull) ctx = Some ''null''"
| "infer_type (FieldRef a f) ctx =
     (case map_of (cc_source_types ctx) a of None \<Rightarrow> None | Some fs \<Rightarrow> map_of fs f)"
| "infer_type (UnaryOp _ e) ctx = infer_type e ctx"
| "infer_type (BinaryOp p l r) ctx =
     (if p \<in> set boolean_binary_ops then Some ''bool'' else infer_type l ctx)"
| "infer_type (TernaryOp c t e) ctx =
     (let l = infer_type t ctx; r = infer_type e ctx in if l = r then l else None)"
| "infer_type (FunctionCall name _ _) ctx =
     (if name \<in> set boolean_functions then Some ''bool''
      else if name \<in> {''toString'', ''lower'', ''upper'', ''trim'', ''date'', ''today'', ''now''}
      then Some ''string'' else None)"
| "infer_type _ ctx = None"

definition numeric_types :: "string list" where
  "numeric_types =
     [''int'', ''float'', ''decimal'', ''u8'', ''u16'', ''u32'', ''u64'', ''u128'',
      ''i8'', ''i16'', ''i32'', ''i64'', ''i128'']"

definition operand_types_compatible :: "string \<Rightarrow> string \<Rightarrow> string \<Rightarrow> bool" where
  "operand_types_compatible p left right =
     (let temporal = [''date'', ''time'', ''timestamp'']; both = [left, right] in
      if left = right \<or> ''null'' \<in> set both then True
      else if left \<in> set numeric_types \<and> right \<in> set numeric_types then True
      else if p \<in> {''=='', ''!=''}
      then (if (''enum'' \<in> set both \<or> ''enum_ref'' \<in> set both) \<and> (left = ''string'' \<or> right = ''string'')
            then True else ''ref'' \<in> set both)
      else if p \<in> {''<'', ''<='', ''>'', ''>=''}
      then left \<in> set temporal \<and> right = ''string'' \<or> right \<in> set temporal \<and> left = ''string''
      else False)"

section \<open>The walk of the validator\<close>

text \<open>
  The two lists the source threads through \<^verbatim>\<open>_walk\<close>: findings and resolved references, each in the
  order of the appends.
\<close>

type_synonym walk_result = "cel_finding list \<times> (string \<times> string) list"

definition walk_seq :: "walk_result \<Rightarrow> walk_result \<Rightarrow> walk_result" where
  "walk_seq a b = (fst a @ fst b, snd a @ snd b)"

definition walk_all :: "walk_result list \<Rightarrow> walk_result" where
  "walk_all ws = foldr walk_seq ws ([], [])"

definition operand_findings :: "string \<Rightarrow> string option \<Rightarrow> string option \<Rightarrow> cel_finding list" where
  "operand_findings p lt rt =
     (case (lt, rt) of
        (Some l, Some r) \<Rightarrow>
          if operand_types_compatible p l r then [] else [IncompatibleOperands p l r]
      | _ \<Rightarrow> [])"

definition call_findings :: "string \<Rightarrow> nat \<Rightarrow> cel_context \<Rightarrow> cel_finding list" where
  "call_findings name nargs ctx =
     (if name \<in> set non_deterministic_functions then [NonDeterministic name]
      else if name \<notin> set scalar_functions \<and> name \<notin> set aggregate_functions
      then [UnsupportedFunction name] else [])
     @ (let is_scalar_max_min = name \<in> {''max'', ''min''} \<and> nargs > 1
        in if name \<in> set aggregate_functions \<and> \<not> cc_has_group_by ctx \<and> \<not> is_scalar_max_min
           then [AggregateWithoutGroup name] else [])"

fun walk :: "cel_expr \<Rightarrow> cel_context \<Rightarrow> walk_result" where
  "walk (Literal l) ctx = ([], [])"
| "walk (FieldRef a f) ctx =
     (if a = [] then ([BareIdentifier f], [])
      else case map_of (cc_source_fields ctx) a of
          None \<Rightarrow> ([UnknownAlias a], [])
        | Some fs \<Rightarrow> if f \<in> set fs then ([], [(a, f)]) else ([UnknownField a f], []))"
| "walk (RuntimeRef ns n) ctx = ([], [])"
| "walk (UnaryOp p e) ctx = walk e ctx"
| "walk (BinaryOp p l r) ctx =
     walk_seq (walk l ctx) (walk_seq (walk r ctx)
       (operand_findings p (infer_type l ctx) (infer_type r ctx), []))"
| "walk (TernaryOp c t e) ctx = walk_seq (walk c ctx) (walk_seq (walk t ctx) (walk e ctx))"
| "walk (FunctionCall name args whr) ctx =
     walk_seq (call_findings name (length args) ctx, [])
       (walk_seq (walk_all (map (\<lambda>a. walk a ctx) args))
         (case whr of None \<Rightarrow> ([], []) | Some w \<Rightarrow> walk w ctx))"
| "walk (ListLiteral items) ctx = walk_all (map (\<lambda>a. walk a ctx) items)"
| "walk (WildcardRef a) ctx =
     (if a \<noteq> [] \<and> map_of (cc_source_fields ctx) a = None then ([UnknownAlias a], []) else ([], []))"
| "walk (ObjectLiteral pairs) ctx = walk_all (map (\<lambda>kv. walk (snd kv) ctx) pairs)"

record cel_validation_result =
  cvr_errors :: "cel_finding list"
  cvr_field_refs :: "(string \<times> string) list"

definition validate_cel_expr :: "cel_expr \<Rightarrow> cel_context \<Rightarrow> cel_validation_result" where
  "validate_cel_expr e ctx =
     (let (errors, refs) = walk e ctx in \<lparr>cvr_errors = errors, cvr_field_refs = refs\<rparr>)"

section \<open>Lineage and shape\<close>

fun extract_field_refs :: "cel_expr \<Rightarrow> (string \<times> string) list" where
  "extract_field_refs (FieldRef a f) = (if a \<noteq> [] then [(a, f)] else [])"
| "extract_field_refs (BinaryOp _ l r) = extract_field_refs l @ extract_field_refs r"
| "extract_field_refs (UnaryOp _ e) = extract_field_refs e"
| "extract_field_refs (TernaryOp c t e) =
     extract_field_refs c @ extract_field_refs t @ extract_field_refs e"
| "extract_field_refs (FunctionCall _ args whr) =
     concat (map extract_field_refs args)
     @ (case whr of None \<Rightarrow> [] | Some w \<Rightarrow> extract_field_refs w)"
| "extract_field_refs (ListLiteral items) = concat (map extract_field_refs items)"
| "extract_field_refs (ObjectLiteral pairs) = concat (map (\<lambda>kv. extract_field_refs (snd kv)) pairs)"
| "extract_field_refs _ = []"

fun looks_boolean :: "cel_expr \<Rightarrow> bool" where
  "looks_boolean (BinaryOp p l r) = (p \<in> set boolean_binary_ops)"
| "looks_boolean (UnaryOp p e) = (p = ''!'')"
| "looks_boolean (TernaryOp c t e) = (looks_boolean t \<and> looks_boolean e)"
| "looks_boolean (Literal l) = (case l of LBool _ \<Rightarrow> True | _ \<Rightarrow> False)"
| "looks_boolean (FunctionCall name _ _) =
     (if name \<in> set boolean_functions then True
      else name \<notin> set scalar_functions \<and> name \<notin> set aggregate_functions)"
| "looks_boolean (ListLiteral _) = False"
| "looks_boolean (ObjectLiteral _) = False"
| "looks_boolean (WildcardRef _) = False"
| "looks_boolean (FieldRef _ _) = True"
| "looks_boolean (RuntimeRef _ _) = True"

section \<open>The walks agree\<close>

lemma fst_walk_seq [simp]: "fst (walk_seq a b) = fst a @ fst b"
  and snd_walk_seq [simp]: "snd (walk_seq a b) = snd a @ snd b"
  by (simp_all add: walk_seq_def)

lemma fst_walk_all [simp]: "fst (walk_all ws) = concat (map fst ws)"
  by (induction ws) (auto simp: walk_all_def)

lemma snd_walk_all [simp]: "snd (walk_all ws) = concat (map snd ws)"
  by (induction ws) (auto simp: walk_all_def)

text \<open>A reference is known to the context when its alias is and the alias has the field.\<close>

definition ref_known :: "cel_context \<Rightarrow> string \<times> string \<Rightarrow> bool" where
  "ref_known ctx r \<longleftrightarrow>
     (case map_of (cc_source_fields ctx) (fst r) of None \<Rightarrow> False | Some fs \<Rightarrow> snd r \<in> set fs)"

lemma concat_filter_map:
  "(\<And>x. x \<in> set xs \<Longrightarrow> g x = filter P (h x)) \<Longrightarrow> concat (map g xs) = filter P (concat (map h xs))"
  by (induction xs) auto

lemma walk_refs: "snd (walk e ctx) = filter (ref_known ctx) (extract_field_refs e)"
proof (induction e rule: extract_field_refs.induct)
  case (5 name args whr)
  have "concat (map (\<lambda>a. snd (walk a ctx)) args) = filter (ref_known ctx) (concat (map extract_field_refs args))"
    by (rule concat_filter_map) (rule 5)
  then show ?case using 5 by (auto simp: comp_def split: option.splits)
next
  case (6 items)
  have "concat (map (\<lambda>a. snd (walk a ctx)) items) = filter (ref_known ctx) (concat (map extract_field_refs items))"
    by (rule concat_filter_map) (rule 6)
  then show ?case by (simp add: comp_def)
next
  case (7 pairs)
  have "concat (map (\<lambda>a. snd (walk (snd a) ctx)) pairs)
      = filter (ref_known ctx) (concat (map (\<lambda>a. extract_field_refs (snd a)) pairs))"
    by (rule concat_filter_map) (rule 7, auto intro: snds.intros)
  then show ?case by (simp add: comp_def)
qed (auto simp: ref_known_def split: option.splits)

text \<open>Findings of a part are findings of the whole.\<close>

definition flags :: "cel_finding list \<Rightarrow> string \<times> string \<Rightarrow> bool" where
  "flags fs r \<longleftrightarrow> UnknownAlias (fst r) \<in> set fs \<or> UnknownField (fst r) (snd r) \<in> set fs"

lemma flags_simps [simp]:
  "flags (fs @ gs) r \<longleftrightarrow> flags fs r \<or> flags gs r"
  "flags (concat fss) r \<longleftrightarrow> (\<exists>fs \<in> set fss. flags fs r)"
  by (auto simp: flags_def)

lemma walk_unknown:
  "r \<in> set (extract_field_refs e) \<Longrightarrow> \<not> ref_known ctx r \<Longrightarrow> flags (fst (walk e ctx)) r"
proof (induction e rule: extract_field_refs.induct)
  case (1 a f)
  then show ?case by (auto simp: ref_known_def flags_def split: option.splits if_splits)
next
  case (5 name args whr)
  then show ?case by (auto split: option.splits)
next
  case (6 items)
  then show ?case by auto
next
  case (7 pairs)
  then obtain kv where "kv \<in> set pairs" "r \<in> set (extract_field_refs (snd kv))" by auto
  moreover from this 7 have "flags (fst (walk (snd kv) ctx)) r" by blast
  ultimately show ?case by auto
qed auto

text \<open>
  C22. The validator resolves references exactly: for every expression and context, the references it
  returns are the references of the lineage extractor that the context knows, in the same order, and
  each reference the context does not know has a CEL002 finding that names it. So an expression
  validated without findings has the lineage the extractor computes.
\<close>

theorem validate_matches_lineage:
  "cvr_field_refs (validate_cel_expr e ctx) = filter (ref_known ctx) (extract_field_refs e)
   \<and> {r. r \<in> set (extract_field_refs e)
         \<and> UnknownAlias (fst r) \<notin> set (cvr_errors (validate_cel_expr e ctx))
         \<and> UnknownField (fst r) (snd r) \<notin> set (cvr_errors (validate_cel_expr e ctx))}
     \<subseteq> Collect (ref_known ctx)"
proof -
  have "validate_cel_expr e ctx = \<lparr>cvr_errors = fst (walk e ctx), cvr_field_refs = snd (walk e ctx)\<rparr>"
    by (simp add: validate_cel_expr_def case_prod_beta)
  then show ?thesis
    using walk_refs [of e ctx] walk_unknown [of _ e ctx] unfolding flags_def by auto
qed

end
