(* ===== verification/Lifecycle.thy ===== *)
theory Lifecycle
  imports Identity Json "HOL-Library.Multiset"
begin

text \<open>
  \<^verbatim>\<open>cli/src/modelable/lifecycle.py\<close>: validation and canonical form of external lifecycle documents, the
  one-step transition rule of lifecycle states, and the findings for references to declarations that
  are deprecated or retired. Documents are JSON values.
\<close>

datatype lifecycle_error =
    NotAnObject
  | WrongKeys
  | WrongSchema
  | EntriesNotArray
  | EntryNotObject
  | EntryWrongFields
  | IdentityNotString
  | BadIdentity string
  | DuplicateIdentity string
  | UnsupportedState json
  | ReplacementNotString
  | BadReplacement string
  | SelfReplacement string
  | UnknownTransitionState
  | BadTransition string string

datatype lifecycle_state = Candidate | Published | Deprecated | Retired

fun state_str :: "lifecycle_state \<Rightarrow> string" where
  "state_str Candidate = ''candidate''"
| "state_str Published = ''published''"
| "state_str Deprecated = ''deprecated''"
| "state_str Retired = ''retired''"

definition all_states :: "lifecycle_state list" where
  "all_states = [Candidate, Published, Deprecated, Retired]"

definition state_of :: "string \<Rightarrow> lifecycle_state option" where
  "state_of s = List.find (\<lambda>l. state_str l = s) all_states"

definition transitions :: "lifecycle_state \<Rightarrow> lifecycle_state option" where
  "transitions s =
     (case s of Candidate \<Rightarrow> Some Published | Published \<Rightarrow> Some Deprecated
              | Deprecated \<Rightarrow> Some Retired | Retired \<Rightarrow> None)"

definition lifecycle_schema :: string where
  "lifecycle_schema = ''modelable.lifecycle/v1''"

section \<open>Documents\<close>

text \<open>A validated entry: identity, state and optional replacement.\<close>

record lifecycle_entry =
  le_identity :: string
  le_state :: lifecycle_state
  le_replacement :: "string option"

definition validate_identity :: "string \<Rightarrow> lifecycle_error \<Rightarrow> lifecycle_error + unit" where
  "validate_identity value e = (case parse_declaration_id value of Inl _ \<Rightarrow> Inl e | Inr _ \<Rightarrow> Inr ())"

text \<open>The replacement of an entry, where it has one.\<close>

definition parse_replacement :: "(string, json) dict \<Rightarrow> string \<Rightarrow> lifecycle_error + string option" where
  "parse_replacement entry identity =
     (case map_of entry ''replacement'' of
        None \<Rightarrow> Inr None
      | Some r \<Rightarrow>
          (case json_str r of
             None \<Rightarrow> Inl ReplacementNotString
           | Some replacement \<Rightarrow>
               sbind (validate_identity replacement (BadReplacement replacement)) (\<lambda>_.
                 if replacement = identity then Inl (SelfReplacement identity)
                 else Inr (Some replacement))))"

text \<open>One round of the loop over the entries; \<open>identities\<close> are the ones seen before.\<close>

definition parse_entry :: "string list \<Rightarrow> json \<Rightarrow> lifecycle_error + lifecycle_entry" where
  "parse_entry identities e =
     (case e of
        JObj entry \<Rightarrow>
          if \<not> list_all (\<lambda>k. k \<in> {''identity'', ''state'', ''replacement''}) (dict_keys entry)
             \<or> map_of entry ''identity'' = None \<or> map_of entry ''state'' = None
          then Inl EntryWrongFields
          else case json_str (the (map_of entry ''identity'')) of
              None \<Rightarrow> Inl IdentityNotString
            | Some identity \<Rightarrow>
                sbind (validate_identity identity (BadIdentity identity)) (\<lambda>_.
                  if identity \<in> set identities then Inl (DuplicateIdentity identity)
                  else
                    let state_value = the (map_of entry ''state'') in
                    case Option.bind (json_str state_value) state_of of
                      None \<Rightarrow> Inl (UnsupportedState state_value)
                    | Some state \<Rightarrow>
                        sbind (parse_replacement entry identity) (\<lambda>replacement.
                          Inr \<lparr>le_identity = identity, le_state = state, le_replacement = replacement\<rparr>))
      | _ \<Rightarrow> Inl EntryNotObject)"

fun parse_entries :: "string list \<Rightarrow> json list \<Rightarrow> lifecycle_error + lifecycle_entry list" where
  "parse_entries identities [] = Inr []"
| "parse_entries identities (e # es) =
     sbind (parse_entry identities e) (\<lambda>entry.
     sbind (parse_entries (le_identity entry # identities) es) (\<lambda>rest. Inr (entry # rest)))"

text \<open>The normalized entries, in the order of their identities.\<close>

definition parse_lifecycle_document :: "json \<Rightarrow> lifecycle_error + lifecycle_entry list" where
  "parse_lifecycle_document document =
     (case document of
        JObj d \<Rightarrow>
          if \<not> same_keys (dict_keys d) [''$schema'', ''entries''] then Inl WrongKeys
          else if map_of d ''$schema'' \<noteq> Some (JStr lifecycle_schema) then Inl WrongSchema
          else (case map_of d ''entries'' of
                  Some (JList entries) \<Rightarrow>
                    sbind (parse_entries [] entries) (\<lambda>canonical. Inr (sort_key le_identity canonical))
                | _ \<Rightarrow> Inl EntriesNotArray)
      | _ \<Rightarrow> Inl NotAnObject)"

text \<open>The document it returns, as the JSON value that \<^verbatim>\<open>serialize_lifecycle\<close> prints.\<close>

definition entry_document :: "lifecycle_entry \<Rightarrow> json" where
  "entry_document e = JObj
     ([(''identity'', JStr (le_identity e)), (''state'', JStr (state_str (le_state e)))]
      @ (case le_replacement e of None \<Rightarrow> [] | Some r \<Rightarrow> [(''replacement'', JStr r)]))"

definition lifecycle_document :: "lifecycle_entry list \<Rightarrow> json" where
  "lifecycle_document es =
     JObj [(''$schema'', JStr lifecycle_schema), (''entries'', JList (map entry_document es))]"

section \<open>Transitions\<close>

definition validate_lifecycle_transition :: "string \<Rightarrow> string \<Rightarrow> lifecycle_error + unit" where
  "validate_lifecycle_transition previous current =
     (case (state_of previous, state_of current) of
        (Some p, Some c) \<Rightarrow>
          if p = c then Inr ()
          else if transitions p \<noteq> Some c then Inl (BadTransition (state_str p) (state_str c))
          else Inr ()
      | _ \<Rightarrow> Inl UnknownTransitionState)"

section \<open>References to declarations that are not live\<close>

text \<open>An object of the registry: its identity and its dependencies, where they have the right type.\<close>

record registry_object =
  ro_identity :: json
  ro_dependencies :: json

definition non_live_states :: "lifecycle_entry list \<Rightarrow> (string, string) dict" where
  "non_live_states es =
     dict_of (map (\<lambda>e. (le_identity e, state_str (le_state e)))
                  (filter (\<lambda>e. le_state e \<in> {Deprecated, Retired}) es))"

definition object_findings :: "(string, string) dict \<Rightarrow> registry_object \<Rightarrow> (string \<times> string \<times> string) list" where
  "object_findings states obj =
     (case (json_str (ro_identity obj), json_list (ro_dependencies obj)) of
        (Some source, Some dependencies) \<Rightarrow>
          concat (map (\<lambda>d. case json_str d of None \<Rightarrow> []
                       | Some target \<Rightarrow> (case map_of states target of None \<Rightarrow> []
                                        | Some st \<Rightarrow> [(source, target, st)])) dependencies)
      | _ \<Rightarrow> [])"

definition finding_key :: "string \<times> string \<times> string \<Rightarrow> string list" where
  "finding_key f = [fst f, fst (snd f), snd (snd f)]"

definition find_lifecycle_reference_findings ::
    "registry_object list \<Rightarrow> json \<Rightarrow> lifecycle_error + (string \<times> string \<times> string) list" where
  "find_lifecycle_reference_findings objects lifecycle =
     sbind (parse_lifecycle_document lifecycle) (\<lambda>entries.
       Inr (sort_key finding_key (concat (map (object_findings (non_live_states entries)) objects))))"

section \<open>Entries\<close>

lemma state_of_str [simp]: "state_of (state_str s) = Some s"
  by (cases s) (simp_all add: state_of_def all_states_def)

lemma state_of_Some: "state_of s = Some st \<longleftrightarrow> s = state_str st"
  using state_of_str by (auto simp: state_of_def dest!: find_Some_D)

definition good_identity :: "string \<Rightarrow> bool" where
  "good_identity s \<longleftrightarrow> (case parse_declaration_id s of Inl _ \<Rightarrow> False | Inr _ \<Rightarrow> True)"

lemma validate_identity_simps [simp]:
  "validate_identity s e = Inr u \<longleftrightarrow> good_identity s"
  "validate_identity s e = Inl f \<longleftrightarrow> \<not> good_identity s \<and> f = e"
  by (auto simp: validate_identity_def good_identity_def split: sum.splits)

definition entry_ok :: "lifecycle_entry \<Rightarrow> bool" where
  "entry_ok e \<longleftrightarrow> good_identity (le_identity e) \<and>
     (case le_replacement e of None \<Rightarrow> True | Some r \<Rightarrow> good_identity r \<and> r \<noteq> le_identity e)"

lemma parse_replacement_ok:
  "parse_replacement d i = Inr r \<Longrightarrow> (case r of None \<Rightarrow> True | Some r \<Rightarrow> good_identity r \<and> r \<noteq> i)"
  by (auto simp: parse_replacement_def sbind_def split: option.splits if_splits sum.splits)

lemma parse_entry_seen:
  "parse_entry seen e = Inr c \<longleftrightarrow> parse_entry [] e = Inr c \<and> le_identity c \<notin> set seen"
  by (cases e) (auto simp: parse_entry_def sbind_def Let_def split: option.splits if_splits sum.splits)

lemma parse_entry_ok: "parse_entry seen e = Inr c \<Longrightarrow> entry_ok c"
  by (cases e) (auto simp: parse_entry_def sbind_def Let_def entry_ok_def
      dest: parse_replacement_ok split: option.splits if_splits sum.splits)

lemma validate_good [simp]: "good_identity s \<Longrightarrow> validate_identity s e = Inr ()"
  by simp

lemma parse_entry_document: "entry_ok c \<Longrightarrow> parse_entry [] (entry_document c) = Inr c"
  by (cases c) (auto simp: parse_entry_def entry_document_def entry_ok_def parse_replacement_def sbind_def
      split: option.splits)

definition entry_of :: "json \<Rightarrow> lifecycle_entry" where
  "entry_of e = projr (parse_entry [] e)"

definition parses :: "json \<Rightarrow> bool" where
  "parses e \<longleftrightarrow> \<not> isl (parse_entry [] e)"

lemma parses_iff: "parse_entry [] e = Inr c \<longleftrightarrow> parses e \<and> c = entry_of e"
  by (cases "parse_entry [] e") (auto simp: parses_def entry_of_def)

lemma parse_entry_cases:
  "parse_entry seen e = Inr c \<longleftrightarrow> parses e \<and> c = entry_of e \<and> le_identity (entry_of e) \<notin> set seen"
  by (auto simp: parse_entry_seen [of seen] parses_iff)

lemma sbind_Inr: "sbind x f = Inr c \<longleftrightarrow> (\<exists>y. x = Inr y \<and> f y = Inr c)"
  by (auto simp: sbind_def split: sum.splits)

lemma parse_entries_iff:
  "parse_entries seen es = Inr cs \<longleftrightarrow>
     cs = map entry_of es \<and> list_all parses es \<and>
     distinct (map le_identity cs) \<and> list_all (\<lambda>c. le_identity c \<notin> set seen) cs"
proof (induction es arbitrary: seen cs)
  case (Cons e es)
  show ?case
    by (fastforce simp: sbind_Inr parse_entry_cases Cons.IH list_all_iff image_iff)
qed auto

lemma entry_of_ok: "parses e \<Longrightarrow> entry_ok (entry_of e)"
  using parses_iff [of e "entry_of e"] by (auto intro: parse_entry_ok)

lemma parse_document_of:
  "parse_lifecycle_document (JObj [(''$schema'', JStr lifecycle_schema), (''entries'', JList entries)])
   = sbind (parse_entries [] entries) (\<lambda>cs. Inr (sort_key le_identity cs))"
  by (simp add: parse_lifecycle_document_def same_keys_def)

text \<open>What a parsed document holds: valid entries, one per identity, in the order of the identities.\<close>

definition canonical_entries :: "lifecycle_entry list \<Rightarrow> bool" where
  "canonical_entries es \<longleftrightarrow>
     list_all entry_ok es \<and> distinct (map le_identity es) \<and> sorted (map le_identity es)"

lemma parsed_document:
  assumes "parse_lifecycle_document d = Inr es"
  obtains entries where "parse_entries [] entries = Inr (map entry_of entries)"
    and "es = sort_key le_identity (map entry_of entries)"
  using assms by (auto simp: parse_lifecycle_document_def sbind_Inr parse_entries_iff
      split: json.splits if_splits option.splits)

lemma distinct_sorted_keys: "distinct (map f (sort_key f xs)) = distinct (map f xs)"
  by (rule mset_eq_imp_distinct_iff) simp

lemma parsed_canonical: "parse_lifecycle_document d = Inr es \<Longrightarrow> canonical_entries es"
  by (erule parsed_document) (auto simp: canonical_entries_def parse_entries_iff list_all_iff
      distinct_sorted_keys intro: entry_of_ok)

lemma canonical_reparse:
  assumes "canonical_entries es"
  shows "parse_lifecycle_document (lifecycle_document es) = Inr es"
proof -
  have doc: "parses (entry_document e) \<and> entry_of (entry_document e) = e" if "e \<in> set es" for e
    using that assms parse_entry_document [of e] parses_iff [of "entry_document e" e]
    by (auto simp: canonical_entries_def list_all_iff)
  then have "map entry_of (map entry_document es) = es" by (simp add: map_idI)
  with doc assms have "parse_entries [] (map entry_document es) = Inr es"
    by (auto simp: parse_entries_iff canonical_entries_def list_all_iff simp del: map_map)
  then show ?thesis
    using assms by (simp add: lifecycle_document_def parse_document_of sbind_def canonical_entries_def
        sorted_sort_id sort_key_id_if_sorted)
qed

text \<open>
  A parsed lifecycle document is a fixed point: parsing what the parser returned gives the same
  normalized entries, so serialization of a document that was loaded and written back is stable.
\<close>

theorem lifecycle_canonical_fixpoint:
  "parse_lifecycle_document d = Inr es \<Longrightarrow> parse_lifecycle_document (lifecycle_document es) = Inr es"
  by (rule canonical_reparse [OF parsed_canonical])


text \<open>A document with two live declarations and two that are not, used by the witnesses.\<close>

definition sample_entries :: "lifecycle_entry list" where
  "sample_entries =
     [\<lparr>le_identity = ''b.Old@1'', le_state = Deprecated, le_replacement = Some ''b.Old@2''\<rparr>,
      \<lparr>le_identity = ''c.Gone@2'', le_state = Retired, le_replacement = None\<rparr>,
      \<lparr>le_identity = ''c.Live@1'', le_state = Published, le_replacement = None\<rparr>]"

lemma sample_canonical: "canonical_entries sample_entries"
  by code_simp

theorem lifecycle_canonical_fixpoint_witness:
  "parse_lifecycle_document (lifecycle_document sample_entries) = Inr sample_entries"
  by (rule lifecycle_canonical_fixpoint [OF canonical_reparse [OF sample_canonical]])

section \<open>Independence of the order of the entries\<close>

lemma parse_entries_permuted:
  assumes "parse_entries [] xs = Inr cs" and "mset xs = mset ys"
  shows "parse_entries [] ys = Inr (map entry_of ys) \<and> sort_key le_identity (map entry_of ys) = sort_key le_identity cs"
proof -
  have sets: "set xs = set ys" by (rule mset_eq_setD [OF assms(2)])
  have cs: "cs = map entry_of xs" and ok: "list_all parses xs" "distinct (map le_identity cs)"
    using assms(1) by (auto simp: parse_entries_iff)
  have images: "mset (map entry_of ys) = mset cs" using assms(2) cs by simp
  then have keys: "mset (map le_identity (map entry_of ys)) = mset (map le_identity cs)"
    by (metis mset_map)
  then have "distinct (map le_identity (map entry_of ys))"
    using ok(2) mset_eq_imp_distinct_iff by blast
  moreover have "list_all parses ys" using ok(1) sets by (simp add: list_all_iff)
  moreover have "sort_key le_identity (map entry_of ys) = sort_key le_identity cs"
  proof (rule sort_key_inj_key_eq)
    show "inj_on le_identity (set (map entry_of ys))"
      using calculation(1) by (simp only: distinct_map)
  qed (use images in auto)
  ultimately show ?thesis by (auto simp: parse_entries_iff list_all_iff)
qed

definition entries_document :: "json list \<Rightarrow> json" where
  "entries_document entries = JObj [(''$schema'', JStr lifecycle_schema), (''entries'', JList entries)]"

text \<open>
  The result of parsing does not depend on the order in which a document lists its entries: any
  permutation of the entries of an accepted document is accepted too, with the same result.
\<close>

theorem lifecycle_order_irrelevant:
  assumes "mset xs = mset ys" and "parse_lifecycle_document (entries_document xs) = Inr es"
  shows "parse_lifecycle_document (entries_document ys) = Inr es"
  using assms parse_entries_permuted [of xs _ ys]
  by (auto simp: entries_document_def parse_document_of sbind_Inr)

theorem lifecycle_order_irrelevant_witness:
  "parse_lifecycle_document (entries_document (rev (map entry_document sample_entries))) = Inr sample_entries"
  by (rule lifecycle_order_irrelevant [where xs = "map entry_document sample_entries"])
    (use canonical_reparse [OF sample_canonical] in \<open>auto simp: lifecycle_document_def entries_document_def\<close>)

section \<open>Histories of a declaration\<close>

text \<open>Histories: the states a declaration goes through, each change accepted by the transition check.\<close>

inductive lifecycle_step :: "lifecycle_state \<Rightarrow> lifecycle_state \<Rightarrow> bool" where
  "validate_lifecycle_transition (state_str p) (state_str c) = Inr () \<Longrightarrow> lifecycle_step p c"

inductive_cases lifecycle_stepE: "lifecycle_step p c"

inductive lifecycle_history :: "lifecycle_state list \<Rightarrow> bool" where
  start: "lifecycle_history [s]"
| advance: "lifecycle_step s t \<Longrightarrow> lifecycle_history (t # h) \<Longrightarrow> lifecycle_history (s # t # h)"

inductive_cases lifecycle_historyE: "lifecycle_history (s # t # h)"

fun rank :: "lifecycle_state \<Rightarrow> nat" where
  "rank Candidate = 0" | "rank Published = 1" | "rank Deprecated = 2" | "rank Retired = 3"

lemma rank_inject: "rank s = rank t \<longleftrightarrow> s = t"
  by (cases s; cases t) auto

lemma step_iff: "lifecycle_step p c \<longleftrightarrow> rank c = rank p \<or> rank c = Suc (rank p)"
  by (cases p; cases c)
    (auto simp: lifecycle_step.simps validate_lifecycle_transition_def transitions_def)

lemma history_between:
  "lifecycle_history h \<Longrightarrow>
     rank (hd h) \<le> rank (last h) \<and> sorted (map rank h) \<and>
     set h = {s. rank (hd h) \<le> rank s \<and> rank s \<le> rank (last h)}"
proof (induction rule: lifecycle_history.induct)
  case (advance s t h)
  from advance.hyps(1) have "rank t = rank s \<or> rank t = Suc (rank s)" by (simp add: step_iff)
  then show ?case
  proof
    assume "rank t = rank s"
    with advance.IH show ?thesis by (auto simp: rank_inject)
  next
    assume t: "rank t = Suc (rank s)"
    have "s' = s \<or> Suc (rank s) \<le> rank s'" if "rank s \<le> rank s'" for s'
      using that rank_inject [of s s'] by auto
    with advance.IH t show ?thesis by (auto simp: Ball_def)
  qed
qed (auto simp: rank_inject)

text \<open>
  A history whose every change passes the transition check never goes back and skips nothing: it
  visits exactly the states between its first and its last one. A declaration that is retired was
  published and deprecated before, if it started as a candidate.
\<close>

theorem lifecycle_history_complete:
  assumes "lifecycle_history h"
  shows "set h = {s. rank (hd h) \<le> rank s \<and> rank s \<le> rank (last h)} \<and> sorted (map rank h)"
  using history_between [OF assms] by simp

theorem lifecycle_history_complete_witness:
  "set [Candidate, Published, Published, Deprecated, Retired]
     = {s. rank Candidate \<le> rank s \<and> rank s \<le> rank Retired}"
  using lifecycle_history_complete [of "[Candidate, Published, Published, Deprecated, Retired]"]
  by (simp add: lifecycle_history.intros step_iff)


section \<open>Findings\<close>

text \<open>What a finding means: a dependency of the object on an entry of the document that is not live.\<close>

definition refers_to_non_live ::
    "registry_object list \<Rightarrow> lifecycle_entry list \<Rightarrow> string \<times> string \<times> string \<Rightarrow> bool" where
  "refers_to_non_live objects es f \<longleftrightarrow>
     (\<exists>obj deps. obj \<in> set objects \<and> ro_identity obj = JStr (fst f)
        \<and> ro_dependencies obj = JList deps \<and> JStr (fst (snd f)) \<in> set deps)
     \<and> (\<exists>e. e \<in> set es \<and> le_identity e = fst (snd f) \<and> snd (snd f) = state_str (le_state e)
        \<and> (le_state e = Deprecated \<or> le_state e = Retired))"

lemma non_live_states_Some:
  assumes "distinct (map le_identity es)"
  shows "map_of (non_live_states es) t = Some st \<longleftrightarrow>
     (\<exists>e \<in> set es. le_identity e = t \<and> st = state_str (le_state e) \<and> (le_state e = Deprecated \<or> le_state e = Retired))"
proof -
  let ?nl = "filter (\<lambda>e. le_state e \<in> {Deprecated, Retired}) es"
  have d: "distinct (map fst (map (\<lambda>e. (le_identity e, state_str (le_state e))) ?nl))"
    using assms by (simp add: o_def distinct_map_filter)
  show ?thesis
    unfolding non_live_states_def dict_of_distinct [OF d] map_of_eq_Some_iff [OF d] by auto
qed

lemma object_findings_mem:
  "(s, t, st) \<in> set (object_findings states obj) \<longleftrightarrow>
     ro_identity obj = JStr s \<and> map_of states t = Some st \<and>
     (\<exists>deps. ro_dependencies obj = JList deps \<and> JStr t \<in> set deps)"
  by (cases "json_str (ro_identity obj)"; cases "json_list (ro_dependencies obj)")
    (auto simp: object_findings_def eq_commute [where b = "json_str _"] eq_commute [where b = "map_of _ _"]
      split: option.splits intro!: bexI [where x = "JStr t"])

lemma findings_exact:
  assumes "find_lifecycle_reference_findings objects d = Inr fs" and "parse_lifecycle_document d = Inr es"
  shows "set fs = Collect (refers_to_non_live objects es) \<and> sorted (map finding_key fs)"
proof -
  have "distinct (map le_identity es)"
    using parsed_canonical [OF assms(2)] by (simp add: canonical_entries_def)
  note look = non_live_states_Some [OF this]
  have fs: "fs = sort_key finding_key (concat (map (object_findings (non_live_states es)) objects))"
    using assms by (simp add: find_lifecycle_reference_findings_def sbind_def)
  show ?thesis
    unfolding fs by (fastforce simp: object_findings_mem look refers_to_non_live_def)
qed

text \<open>
  C40. The lifecycle findings are exact: a triple of source, target and state is reported if and only
  if an object of that identity depends on the target and the document says the target is deprecated
  or retired, in that state. They are listed in the order of source, target and state.
\<close>

theorem lifecycle_findings_exact:
  assumes "parse_lifecycle_document d = Inr es"
    and "find_lifecycle_reference_findings objects d = Inr fs"
  shows "set fs = Collect (refers_to_non_live objects es) \<and> sorted (map finding_key fs)"
  by (rule findings_exact [OF assms(2, 1)])

definition sample_objects :: "registry_object list" where
  "sample_objects =
     [\<lparr>ro_identity = JStr ''c.Live@1'',
       ro_dependencies = JList [JStr ''c.Gone@2'', JStr ''b.Old@1'', JStr ''x.Other@1'']\<rparr>]"

definition sample_findings :: "(string \<times> string \<times> string) list" where
  "sample_findings =
     [(''c.Live@1'', ''b.Old@1'', ''deprecated''), (''c.Live@1'', ''c.Gone@2'', ''retired'')]"

lemma sample_sorted:
  "sort_key finding_key (concat (map (object_findings (non_live_states sample_entries)) sample_objects))
   = sample_findings"
  by code_simp

theorem lifecycle_findings_exact_witness:
  "set sample_findings = Collect (refers_to_non_live sample_objects sample_entries)"
proof -
  have d: "parse_lifecycle_document (lifecycle_document sample_entries) = Inr sample_entries"
    by (rule canonical_reparse [OF sample_canonical])
  have "find_lifecycle_reference_findings sample_objects (lifecycle_document sample_entries) = Inr sample_findings"
    unfolding find_lifecycle_reference_findings_def d by (simp add: sbind_def sample_sorted)
  from lifecycle_findings_exact [OF d this] show ?thesis by simp
qed

end
