(* ===== verification/Enum_Numbers.thy ===== *)
theory Enum_Numbers
  imports Ir Json "HOL-Library.Multiset"
begin

text \<open>
  \<^verbatim>\<open>cli/src/modelable/registry/enum_numbers.py\<close>: the allocation of stable Protobuf numbers to the
  members of enum-backed declarations, the numbers an enum projection carries, the orphaned ledger
  entries, and the JSON payload of the lock file. The ledger is a dictionary from qualified
  declaration names to allocations.
\<close>

section \<open>Declarations and allocations\<close>

record enum_allocation =
  ea_name :: string
  ea_unspecified :: int
  ea_members :: "(string \<times> int) list"
  ea_reservations :: "(string \<times> int) list"

text \<open>What ends an allocation: a removed member that is back (with its reserved number), an assertion or index
  error of the source, or a lock file that has not the shape the allocator writes.\<close>

datatype enum_number_error =
    EnumNumberConflict string string int
  | NotAnEnum
  | NoVersions
  | UnreadableLedger

fun is_enum :: "field_type \<Rightarrow> bool" where
  "is_enum (EnumType _) = True"
| "is_enum _ = False"

fun enum_values :: "field_type \<Rightarrow> enum_number_error + string list" where
  "enum_values (EnumType vs) = Inr vs"
| "enum_values _ = Inl NotAnEnum"

text \<open>\<^verbatim>\<open>grouped.setdefault(key, []).append(decl)\<close>\<close>

definition dict_append :: "'k \<Rightarrow> 'v \<Rightarrow> ('k, 'v list) dict \<Rightarrow> ('k, 'v list) dict" where
  "dict_append k v d = dict_put k ((case map_of d k of None \<Rightarrow> [] | Some vs \<Rightarrow> vs) @ [v]) d"

definition qualified_name :: "string \<Rightarrow> string \<Rightarrow> string" where
  "qualified_name d name = d @ ''.'' @ name"

definition named_enum_declarations :: "mdl_file \<Rightarrow> (string \<times> semantic_type_decl) list" where
  "named_enum_declarations mdl =
     concat (map (\<lambda>d. map (\<lambda>s. (qualified_name (dm_name d) (st_name s), s))
                       (filter (\<lambda>s. is_enum (st_underlying s)) (dm_semantic_types d)))
                 (mf_domains mdl))"

definition enum_declarations_by_name :: "mdl_file \<Rightarrow> (string, semantic_type_decl list) dict" where
  "enum_declarations_by_name mdl =
     map (\<lambda>(q, vs). (q, sort_key st_version vs))
       (foldl (\<lambda>grouped (q, s). dict_append q s grouped) [] (named_enum_declarations mdl))"

section \<open>Allocation\<close>

definition next_free :: "(string, int) dict \<Rightarrow> (string, int) dict \<Rightarrow> int" where
  "next_free members reserved = fold max (map snd members @ map snd reserved) 0 + 1"

text \<open>A member seen for the first time takes the next number.\<close>

fun number_step :: "(string, int) dict \<times> int \<Rightarrow> string \<Rightarrow> (string, int) dict \<times> int" where
  "number_step (members, n) c =
     (if map_of members c = None then (dict_put c n members, n + 1) else (members, n))"

text \<open>A member that the latest version does not have is popped and becomes a reservation.\<close>

fun retire_step :: "string list \<Rightarrow> (string, int) dict \<times> (string, int) dict \<Rightarrow> string
    \<Rightarrow> (string, int) dict \<times> (string, int) dict" where
  "retire_step latest (members, reserved) c =
     (if c \<in> set latest then (members, reserved)
      else (AList.delete c members, dict_put c (the (map_of members c)) reserved))"

definition allocate_one ::
    "string \<Rightarrow> semantic_type_decl list \<Rightarrow> enum_allocation option \<Rightarrow> enum_number_error + enum_allocation" where
  "allocate_one qualified versions prior =
     (let prior_members = (case prior of None \<Rightarrow> [] | Some p \<Rightarrow> dict_of (ea_members p));
          prior_reserved = (case prior of None \<Rightarrow> [] | Some p \<Rightarrow> dict_of (ea_reservations p));
          next_number = next_free prior_members prior_reserved in
      if versions = [] then Inl NoVersions
      else
        sbind (enum_values (st_underlying (last versions))) (\<lambda>latest.
          let reused = sorted_inter latest (dict_keys prior_reserved) in
          if reused \<noteq> []
          then Inl (EnumNumberConflict qualified (hd reused) (the (map_of prior_reserved (hd reused))))
          else
            sbind (smap (\<lambda>v. enum_values (st_underlying v)) versions) (\<lambda>history.
              let (numbered, _) = foldl number_step (prior_members, next_number) (concat history);
                  (members, reserved) =
                    foldl (retire_step latest) (numbered, prior_reserved) (dict_keys numbered)
              in Inr \<lparr>ea_name = qualified, ea_unspecified = 0,
                      ea_members = sort_key snd members,
                      ea_reservations = sort_key snd reserved\<rparr>)))"

definition allocate_enum_numbers ::
    "mdl_file \<Rightarrow> (string, enum_allocation) dict \<Rightarrow> enum_number_error + (string, enum_allocation) dict" where
  "allocate_enum_numbers mdl existing =
     smap (\<lambda>(q, versions). sbind (allocate_one q versions (map_of existing q)) (\<lambda>a. Inr (q, a)))
       (enum_declarations_by_name mdl)"

text \<open>\<^const>\<open>None\<close> is the \<^verbatim>\<open>KeyError\<close> of a member that the source declaration has no number for.\<close>

definition resolve_projection_numbers :: "enum_projection_decl \<Rightarrow> enum_allocation \<Rightarrow> (string, int) dict option" where
  "resolve_projection_numbers projection source_allocation =
     (let numbers = dict_of (ea_members source_allocation) in
      if list_all (\<lambda>m. map_of numbers m \<noteq> None) (ep_members projection)
      then Some (dict_of (map (\<lambda>m. (m, the (map_of numbers m))) (ep_members projection)))
      else None)"

definition orphaned_declarations :: "mdl_file \<Rightarrow> (string, enum_allocation) dict \<Rightarrow> string list" where
  "orphaned_declarations mdl existing =
     sort (filter (\<lambda>n. n \<notin> set (dict_keys (enum_declarations_by_name mdl))) (dict_keys existing))"

section \<open>The lock file\<close>

text \<open>
  \<^verbatim>\<open>write_lock_file\<close> and \<^verbatim>\<open>read_lock_file\<close> with the JSON value of the file; \<^const>\<open>None\<close> is a file that is not there. A
  value of another shape than the allocator writes is refused here, where the source raises or goes on with it.
\<close>

definition pair_payload :: "string \<times> int \<Rightarrow> json" where
  "pair_payload p = JObj [(''name'', JStr (fst p)), (''number'', JInt (snd p))]"

definition allocation_payload :: "enum_allocation \<Rightarrow> json" where
  "allocation_payload a =
     JObj [(''members'', JList (map pair_payload (ea_members a))),
           (''reservations'', JList (map pair_payload (ea_reservations a)))]"

definition ledger_payload :: "(string, enum_allocation) dict \<Rightarrow> json" where
  "ledger_payload ledger = JObj (map (\<lambda>(n, a). (n, allocation_payload a)) (sort_key fst ledger))"

definition read_pair :: "json \<Rightarrow> enum_number_error + string \<times> int" where
  "read_pair j =
     (case j of
        JObj kvs \<Rightarrow>
          (case (map_of kvs ''name'', map_of kvs ''number'') of
             (Some (JStr n), Some (JInt k)) \<Rightarrow> Inr (n, k) | _ \<Rightarrow> Inl UnreadableLedger)
      | _ \<Rightarrow> Inl UnreadableLedger)"

definition read_pairs :: "json option \<Rightarrow> enum_number_error + (string \<times> int) list" where
  "read_pairs j =
     (case j of None \<Rightarrow> Inr [] | Some (JList js) \<Rightarrow> smap read_pair js | Some _ \<Rightarrow> Inl UnreadableLedger)"

definition read_allocation :: "string \<times> json \<Rightarrow> enum_number_error + string \<times> enum_allocation" where
  "read_allocation entry =
     (case entry of
        (n, JObj kvs) \<Rightarrow>
          sbind (read_pairs (map_of kvs ''members'')) (\<lambda>members.
          sbind (read_pairs (map_of kvs ''reservations'')) (\<lambda>reservations.
          Inr (n, \<lparr>ea_name = n, ea_unspecified = 0, ea_members = members, ea_reservations = reservations\<rparr>)))
      | _ \<Rightarrow> Inl UnreadableLedger)"

definition read_ledger :: "json option \<Rightarrow> enum_number_error + (string, enum_allocation) dict" where
  "read_ledger lock =
     (case lock of
        None \<Rightarrow> Inr [] | Some (JObj kvs) \<Rightarrow> smap read_allocation kvs | Some _ \<Rightarrow> Inl UnreadableLedger)"

text \<open>
  The enum numbers of one compilation (\<^verbatim>\<open>operations/compilation.py\<close>): the lock file is read, the numbers are
  allocated, and the file is overwritten. Runs follow each other on the same file.
\<close>

definition number_run :: "json option \<Rightarrow> mdl_file \<Rightarrow> enum_number_error + json option" where
  "number_run lock mdl =
     sbind (read_ledger lock) (\<lambda>existing.
     sbind (allocate_enum_numbers mdl existing) (\<lambda>allocations. Inr (Some (ledger_payload allocations))))"

fun number_runs :: "json option \<Rightarrow> mdl_file list \<Rightarrow> enum_number_error + json option" where
  "number_runs lock [] = Inr lock"
| "number_runs lock (mdl # mdls) = sbind (number_run lock mdl) (\<lambda>lock'. number_runs lock' mdls)"

section \<open>Numbering\<close>

lemma next_free_bound:
  "n \<in> snd ` set members \<union> snd ` set reserved \<Longrightarrow> n < next_free members reserved"
  "0 < next_free members reserved"
proof -
  have "fold max xs 0 = Max (set (0 # xs))" for xs :: "int list"
    by (rule Max.set_eq_fold [symmetric])
  note nf = next_free_def [of members reserved, unfolded this]
  show "n \<in> snd ` set members \<union> snd ` set reserved \<Longrightarrow> n < next_free members reserved"
    unfolding nf by (rule le_less_trans [OF Max_ge [of "set (0 # map snd members @ map snd reserved)"]]) auto
  show "0 < next_free members reserved"
    unfolding nf by (rule le_less_trans [OF Max_ge [of "set (0 # map snd members @ map snd reserved)"]]) auto
qed

text \<open>Names and numbers identify each other, and every number is below the next one.\<close>

definition numbering :: "(string, int) dict \<Rightarrow> int \<Rightarrow> bool" where
  "numbering d n \<longleftrightarrow> distinct (map fst d) \<and> inj_on snd (set d) \<and> (\<forall>k \<in> snd ` set d. k < n)"

lemma numbering_put:
  "numbering d n \<Longrightarrow> map_of d c = None \<Longrightarrow> numbering (d @ [(c, n)]) (n + 1)"
  by (fastforce simp: numbering_def map_of_eq_None_iff inj_on_def)

lemma number_loop:
  assumes "numbering d n" and "foldl number_step (d, n) cs = (d', n')"
  shows "numbering d' n' \<and> set d \<subseteq> set d' \<and> fst ` set d' = fst ` set d \<union> set cs
     \<and> (\<forall>x \<in> set d' - set d. n \<le> snd x \<and> fst x \<in> set cs - fst ` set d)"
  using assms
proof (induction cs arbitrary: d n)
  case (Cons c cs)
  show ?case
  proof (cases "map_of d c")
    case None
    then have put: "dict_put c n d = d @ [(c, n)]"
      by (simp add: dict_put_fresh map_of_eq_None_iff)
    from None Cons.prems(2) have "foldl number_step (d @ [(c, n)], n + 1) cs = (d', n')" by (simp add: put)
    note ih = Cons.IH [OF numbering_put [OF Cons.prems(1) None] this]
    from None have c: "c \<notin> fst ` set d" by (simp add: map_of_eq_None_iff)
    have "n \<le> snd x \<and> fst x \<in> set (c # cs) - fst ` set d" if "x \<in> set d' - set d" for x
    proof (cases "x = (c, n)")
      case True
      with c show ?thesis by simp
    next
      case False
      with that have "x \<in> set d' - set (d @ [(c, n)])" by simp
      with ih have "n + 1 \<le> snd x \<and> fst x \<in> set cs - fst ` set (d @ [(c, n)])" by blast
      then show ?thesis by simp
    qed
    moreover from ih have "numbering d' n'" "set d \<subseteq> set d'" by simp_all
    moreover from ih have "fst ` set d' = fst ` set (d @ [(c, n)]) \<union> set cs" by blast
    ultimately show ?thesis by (simp add: image_Un)
  next
    case (Some k)
    then have "c \<in> fst ` set d" by (auto dest: map_of_SomeD intro: rev_image_eqI)
    with Some Cons.IH [OF Cons.prems(1)] Cons.prems(2) show ?thesis by auto
  qed
qed auto

section \<open>Retirement\<close>

lemma retire_loop:
  assumes "distinct (map fst d)" and "set cs \<subseteq> fst ` set d" and "distinct cs"
    and "foldl (retire_step latest) (d, r) cs = (d', r')"
  shows "d' = filter (\<lambda>x. fst x \<in> set latest \<or> fst x \<notin> set cs) d \<and>
     map_of r' = (\<lambda>c. if c \<in> set cs - set latest then map_of d c else map_of r c) \<and>
     (distinct (map fst r) \<longrightarrow> distinct (map fst r'))"
  using assms
proof (induction cs arbitrary: d r)
  case (Cons c cs)
  show ?case
  proof (cases "c \<in> set latest")
    case True
    with Cons.prems Cons.IH [of d r] show ?thesis
      by (auto intro!: filter_cong simp: fun_eq_iff)
  next
    case False
    have kept: "set cs \<subseteq> fst ` set (AList.delete c d)"
      using Cons.prems(2,3) by (auto simp: delete_keys dom_map_of_conv_image_fst [symmetric] delete_conv)
    have step: "foldl (retire_step latest) (AList.delete c d, dict_put c (the (map_of d c)) r) cs = (d', r')"
      using Cons.prems(4) False by simp
    have "distinct (map fst (AList.delete c d))" by (rule distinct_delete [OF Cons.prems(1)])
    from Cons.IH [OF this kept _ step] Cons.prems(2,3)
    have ih: "d' = filter (\<lambda>x. fst x \<in> set latest \<or> fst x \<notin> set cs) (AList.delete c d)"
      "map_of r' = (\<lambda>e. if e \<in> set cs - set latest then map_of (AList.delete c d) e
                        else map_of (dict_put c (the (map_of d c)) r) e)"
      "distinct (map fst r) \<longrightarrow> distinct (map fst r')"
      by (auto simp: distinct_update)
    obtain k where "map_of d c = Some k"
      using Cons.prems(2) by (cases "map_of d c") (auto simp: map_of_eq_None_iff)
    then have "map_of r' = (\<lambda>e. if e \<in> set (c # cs) - set latest then map_of d e else map_of r e)"
      using ih(2) False Cons.prems(3) by (auto simp: fun_eq_iff update_conv delete_conv)
    moreover have "d' = filter (\<lambda>x. fst x \<in> set latest \<or> fst x \<notin> set (c # cs)) d"
      using ih(1) False by (auto simp: AList.delete_eq intro!: filter_cong)
    ultimately show ?thesis using ih(3) by blast
  qed
qed auto

section \<open>One allocation\<close>

definition numbers :: "enum_allocation \<Rightarrow> (string \<times> int) list" where
  "numbers a = ea_members a @ ea_reservations a"

text \<open>A well-formed allocation: one number per name, one name per number, all numbers positive.\<close>

definition allocation_ok :: "enum_allocation \<Rightarrow> bool" where
  "allocation_ok a \<longleftrightarrow>
     distinct (map fst (numbers a)) \<and> distinct (map snd (numbers a)) \<and> list_all (\<lambda>x. 0 < snd x) (numbers a)"

text \<open>The allocation a run starts from: the persisted one, or none at all.\<close>

definition starting :: "string \<Rightarrow> enum_allocation option \<Rightarrow> enum_allocation" where
  "starting q prior =
     (case prior of None \<Rightarrow> \<lparr>ea_name = q, ea_unspecified = 0, ea_members = [], ea_reservations = []\<rparr>
                  | Some p \<Rightarrow> p)"

definition history_names :: "semantic_type_decl list \<Rightarrow> string set" where
  "history_names vs = {c. \<exists>v \<in> set vs. \<exists>cs. st_underlying v = EnumType cs \<and> c \<in> set cs}"

lemma enum_values_Inr [simp]: "enum_values t = Inr vs \<longleftrightarrow> t = EnumType vs"
  by (cases t) auto

lemma smap_history:
  "smap (\<lambda>v. enum_values (st_underlying v)) vs = Inr history \<Longrightarrow> set (concat history) = history_names vs"
  unfolding history_names_def smap_eq_Inr_iff
  by (induction vs history rule: list_all2_induct) auto

lemma sorted_inter_Nil: "sorted_inter xs ys = [] \<longleftrightarrow> set xs \<inter> set ys = {}"
  by (metis set_sorted_inter set_empty)

lemma allocate_oneE:
  assumes "allocate_one q vs prior = Inr a" and "allocation_ok (starting q prior)"
  obtains latest history numbered n members reserved where
    "vs \<noteq> []" and "st_underlying (last vs) = EnumType latest" and "set (concat history) = history_names vs"
    and "set latest \<inter> fst ` set (ea_reservations (starting q prior)) = {}"
    and "foldl number_step (ea_members (starting q prior),
            next_free (ea_members (starting q prior)) (ea_reservations (starting q prior))) (concat history)
          = (numbered, n)"
    and "foldl (retire_step latest) (numbered, ea_reservations (starting q prior)) (dict_keys numbered)
          = (members, reserved)"
    and "a = \<lparr>ea_name = q, ea_unspecified = 0, ea_members = sort_key snd members, ea_reservations = sort_key snd reserved\<rparr>"
proof -
  let ?s = "starting q prior"
  from assms(2) have "distinct (map fst (ea_members ?s))" "distinct (map fst (ea_reservations ?s))"
    by (auto simp: allocation_ok_def numbers_def)
  then have parts: "(case prior of None \<Rightarrow> [] | Some p \<Rightarrow> dict_of (ea_members p)) = ea_members ?s"
    "(case prior of None \<Rightarrow> [] | Some p \<Rightarrow> dict_of (ea_reservations p)) = ea_reservations ?s"
    by (auto simp: starting_def dict_of_distinct split: option.splits)
  obtain latest history where start: "vs \<noteq> []" "st_underlying (last vs) = EnumType latest"
    "smap (\<lambda>v. enum_values (st_underlying v)) vs = Inr history"
    "set latest \<inter> fst ` set (ea_reservations ?s) = {}"
    and body: "(case foldl number_step (ea_members ?s, next_free (ea_members ?s) (ea_reservations ?s)) (concat history) of
        (numbered, _) \<Rightarrow> (case foldl (retire_step latest) (numbered, ea_reservations ?s) (dict_keys numbered) of
          (members, reserved) \<Rightarrow> Inr \<lparr>ea_name = q, ea_unspecified = 0, ea_members = sort_key snd members,
             ea_reservations = sort_key snd reserved\<rparr>)) = (Inr a :: enum_number_error + enum_allocation)"
    using assms(1) unfolding allocate_one_def Let_def parts
    by (auto simp: sorted_inter_Nil split: if_splits)
  obtain numbered n where loop: "foldl number_step (ea_members ?s, next_free (ea_members ?s)
      (ea_reservations ?s)) (concat history) = (numbered, n)" by fastforce
  obtain members reserved where retired: "foldl (retire_step latest) (numbered, ea_reservations ?s)
      (dict_keys numbered) = (members, reserved)" by fastforce
  from body have "a = \<lparr>ea_name = q, ea_unspecified = 0, ea_members = sort_key snd members,
      ea_reservations = sort_key snd reserved\<rparr>" by (simp add: loop retired)
  with start(1,2) smap_history [OF start(3)] start(4) loop retired show thesis by (rule that)
qed

lemma starting_ok:
  assumes "allocation_ok s" and "(numbered, n) = foldl number_step (ea_members s, next_free (ea_members s) (ea_reservations s)) cs"
  shows "set (ea_members s) \<subseteq> set numbered \<and> distinct (map fst numbered)
    \<and> fst ` set numbered = fst ` set (ea_members s) \<union> set cs
    \<and> inj_on snd (set numbered \<union> set (ea_reservations s))
    \<and> (\<forall>x \<in> set numbered \<union> set (ea_reservations s). 0 < snd x)
    \<and> (\<forall>x \<in> set numbered - set (ea_members s). next_free (ea_members s) (ea_reservations s) \<le> snd x)"
proof -
  let ?n0 = "next_free (ea_members s) (ea_reservations s)"
  note below = next_free_bound(1) [of _ "ea_members s" "ea_reservations s"]
    and pos = next_free_bound(2) [of "ea_members s" "ea_reservations s"]
  have old: "inj_on snd (set (ea_members s) \<union> set (ea_reservations s))"
    "distinct (map fst (ea_members s))" "\<forall>x \<in> set (ea_members s) \<union> set (ea_reservations s). 0 < snd x"
    using assms(1) by (auto simp: allocation_ok_def numbers_def distinct_map list_all_iff inj_on_Un)
  then have "numbering (ea_members s) ?n0"
    using below by (auto simp: numbering_def intro: inj_on_subset)
  note loop = number_loop [OF this assms(2) [symmetric]]
  then have fresh: "?n0 \<le> snd x" if "x \<in> set numbered - set (ea_members s)" for x
    using that by blast
  have cross: "x = y" if "x \<in> set numbered" "y \<in> set (ea_reservations s)" "snd x = snd y" for x y
  proof (cases "x \<in> set (ea_members s)")
    case True
    with that old(1) show ?thesis by (auto simp: inj_on_def)
  next
    case False
    with that fresh [of x] below [of "snd y"] show ?thesis by auto
  qed
  have "inj_on snd (set numbered \<union> set (ea_reservations s))"
  proof (rule inj_onI)
    fix x y
    assume xy: "x \<in> set numbered \<union> set (ea_reservations s)" "y \<in> set numbered \<union> set (ea_reservations s)"
      "snd x = snd y"
    from loop have "inj_on snd (set numbered)" by (simp add: numbering_def)
    with xy cross [of x y] cross [of y x] old(1) show "x = y"
      by (metis UnCI UnE inj_onD)
  qed
  moreover have "0 < snd x" if "x \<in> set numbered \<union> set (ea_reservations s)" for x
    using that old(3) fresh [of x] pos by (cases "x \<in> set (ea_members s)") auto
  moreover from loop have "set (ea_members s) \<subseteq> set numbered" "distinct (map fst numbered)"
    "fst ` set numbered = fst ` set (ea_members s) \<union> set cs"
    by (simp_all add: numbering_def)
  ultimately show ?thesis using fresh by blast
qed

lemma allocation_split:
  assumes "allocate_one q vs prior = Inr a" and "allocation_ok (starting q prior)"
  obtains latest numbered where
    "vs \<noteq> []" and "st_underlying (last vs) = EnumType latest"
    and "set (ea_members (starting q prior)) \<subseteq> set numbered"
    and "fst ` set numbered = fst ` set (ea_members (starting q prior)) \<union> history_names vs"
    and "inj_on snd (set numbered \<union> set (ea_reservations (starting q prior)))"
    and "\<forall>x \<in> set numbered \<union> set (ea_reservations (starting q prior)). 0 < snd x"
    and "set (ea_members a) = {x \<in> set numbered. fst x \<in> set latest}"
    and "set (ea_reservations a) = {x \<in> set numbered. fst x \<notin> set latest}
           \<union> {x \<in> set (ea_reservations (starting q prior)). fst x \<notin> fst ` set numbered}"
    and "distinct (map fst (ea_members a))" and "distinct (map fst (ea_reservations a))"
    and "set latest \<inter> fst ` set (ea_reservations (starting q prior)) = {}"
    and "\<forall>x \<in> set numbered - set (ea_members (starting q prior)).
      next_free (ea_members (starting q prior)) (ea_reservations (starting q prior)) \<le> snd x"
proof -
  let ?s = "starting q prior"
  from assms obtain latest history numbered n members reserved where
    start: "vs \<noteq> []" "st_underlying (last vs) = EnumType latest" "set (concat history) = history_names vs"
      "set latest \<inter> fst ` set (ea_reservations ?s) = {}"
    and loop: "foldl number_step (ea_members ?s, next_free (ea_members ?s) (ea_reservations ?s))
      (concat history) = (numbered, n)"
    and retired: "foldl (retire_step latest) (numbered, ea_reservations ?s) (dict_keys numbered)
      = (members, reserved)"
    and a: "a = \<lparr>ea_name = q, ea_unspecified = 0, ea_members = sort_key snd members,
      ea_reservations = sort_key snd reserved\<rparr>"
    by (rule allocate_oneE)
  note num = starting_ok [OF assms(2) loop [symmetric], unfolded start(3)]
  have dr: "distinct (map fst (ea_reservations ?s))"
    using assms(2) by (simp add: allocation_ok_def numbers_def)
  from num have dn: "distinct (dict_keys numbered)" by simp
  from retire_loop [OF dn _ dn retired] dr
  have members: "members = filter (\<lambda>x. fst x \<in> set latest) numbered"
    and look: "map_of reserved = (\<lambda>c. if c \<in> fst ` set numbered - set latest then map_of numbered c
      else map_of (ea_reservations ?s) c)"
    and keys: "distinct (map fst reserved)"
    by (auto intro: filter_cong)
  have "x \<in> set reserved \<longleftrightarrow> (x \<in> set numbered \<and> fst x \<notin> set latest)
      \<or> (x \<in> set (ea_reservations ?s) \<and> fst x \<notin> fst ` set numbered)" for x
    using start(4) map_of_eq_Some_iff [OF keys, of "fst x" "snd x"]
      map_of_eq_Some_iff [OF dn, of "fst x" "snd x"] map_of_eq_Some_iff [OF dr, of "fst x" "snd x"]
    by (auto simp: look split: if_splits)
  then have res: "set (ea_reservations a) = {x \<in> set numbered. fst x \<notin> set latest}
           \<union> {x \<in> set (ea_reservations ?s). fst x \<notin> fst ` set numbered}"
    by (auto simp: a)
  show thesis
  proof (rule that [of latest numbered])
    show "distinct (map fst (ea_members a))" "distinct (map fst (ea_reservations a))"
      using dn keys by (auto simp: a members distinct_map inj_on_def)
  qed (use start num res in \<open>auto simp: a members\<close>)
qed

lemma allocate_one_ok:
  assumes "allocate_one q vs prior = Inr a" and "allocation_ok (starting q prior)"
  shows "allocation_ok a"
  using assms
proof (rule allocation_split)
  fix latest numbered
  assume inj: "inj_on snd (set numbered \<union> set (ea_reservations (starting q prior)))"
    and pos: "\<forall>x \<in> set numbered \<union> set (ea_reservations (starting q prior)). 0 < snd x"
    and mem: "set (ea_members a) = {x \<in> set numbered. fst x \<in> set latest}"
    and res: "set (ea_reservations a) = {x \<in> set numbered. fst x \<notin> set latest}
           \<union> {x \<in> set (ea_reservations (starting q prior)). fst x \<notin> fst ` set numbered}"
    and keys: "distinct (map fst (ea_members a))" "distinct (map fst (ea_reservations a))"
  have disjoint: "fst ` set (ea_members a) \<inter> fst ` set (ea_reservations a) = {}"
    unfolding mem res by (auto simp: image_iff)
  then have names: "distinct (map fst (numbers a))" using keys by (auto simp: numbers_def)
  have "inj_on snd (set (numbers a))"
    by (rule inj_on_subset [OF inj]) (auto simp: numbers_def mem res)
  moreover have "distinct (numbers a)" using names by (simp add: distinct_map)
  ultimately have "distinct (map snd (numbers a))" by (simp add: distinct_map)
  moreover have "\<forall>x \<in> set (numbers a). 0 < snd x"
    using pos by (auto simp: numbers_def mem res)
  ultimately show ?thesis using names by (simp add: allocation_ok_def list_all_iff)
qed

lemma allocate_one_stable:
  assumes "allocate_one q vs prior = Inr a" and "allocation_ok (starting q prior)"
    and "(c, n) \<in> set (numbers (starting q prior))" and "(d, n) \<in> set (numbers a)"
  shows "c = d"
  using assms(1,2)
proof (rule allocation_split)
  fix latest numbered
  assume inj: "inj_on snd (set numbered \<union> set (ea_reservations (starting q prior)))"
    and sub: "set (ea_members (starting q prior)) \<subseteq> set numbered"
    and mem: "set (ea_members a) = {x \<in> set numbered. fst x \<in> set latest}"
    and res: "set (ea_reservations a) = {x \<in> set numbered. fst x \<notin> set latest}
           \<union> {x \<in> set (ea_reservations (starting q prior)). fst x \<notin> fst ` set numbered}"
  have "(c, n) \<in> set numbered \<union> set (ea_reservations (starting q prior))"
    using assms(3) sub by (auto simp: numbers_def)
  moreover have "(d, n) \<in> set numbered \<union> set (ea_reservations (starting q prior))"
    using assms(4) mem res by (auto simp: numbers_def)
  ultimately show ?thesis using inj_onD [OF inj, of "(c, n)" "(d, n)"] by simp
qed

text \<open>
  A number is settled on a name when it is below the next free one and no other name has it. An allocation keeps
  this, also where it gives the name another number or the number to nobody.
\<close>

definition settled_on :: "string \<Rightarrow> int \<Rightarrow> enum_allocation \<Rightarrow> bool" where
  "settled_on c n a \<longleftrightarrow> n < next_free (ea_members a) (ea_reservations a) \<and> (\<forall>d. (d, n) \<in> set (numbers a) \<longrightarrow> d = c)"

lemma next_free_le:
  "(\<And>k. k \<in> snd ` set members \<union> snd ` set reserved \<Longrightarrow> k < m) \<Longrightarrow> 0 < m \<Longrightarrow> next_free members reserved \<le> m"
proof -
  assume bound: "\<And>k. k \<in> snd ` set members \<union> snd ` set reserved \<Longrightarrow> k < m" "0 < m"
  have "fold max xs 0 = Max (set (0 # xs))" for xs :: "int list"
    by (rule Max.set_eq_fold [symmetric])
  then have "next_free members reserved = Max (set (0 # map snd members @ map snd reserved)) + 1"
    by (simp only: next_free_def)
  moreover have "Max (set (0 # map snd members @ map snd reserved)) < m"
    using bound by (subst Max_less_iff) auto
  ultimately show ?thesis by linarith
qed

lemma number_below: "(c, n) \<in> set (numbers a) \<Longrightarrow> n < next_free (ea_members a) (ea_reservations a)"
  using next_free_bound(1) [of n "ea_members a" "ea_reservations a"] by (force simp: numbers_def)

lemma allocation_settles: "allocation_ok a \<Longrightarrow> (c, n) \<in> set (numbers a) \<Longrightarrow> settled_on c n a"
  using number_below [of c n a] inj_onD [of snd "set (numbers a)" "(c, n)"]
  by (auto simp: settled_on_def allocation_ok_def distinct_map)

lemma allocate_one_settled:
  assumes "allocate_one q vs prior = Inr a" and "allocation_ok (starting q prior)" and "settled_on c n (starting q prior)"
  shows "settled_on c n a"
  using assms(1,2)
proof (rule allocation_split)
  fix latest numbered
  let ?s = "starting q prior"
  let ?free = "next_free (ea_members ?s) (ea_reservations ?s)"
  assume sub: "set (ea_members ?s) \<subseteq> set numbered"
    and mem: "set (ea_members a) = {x \<in> set numbered. fst x \<in> set latest}"
    and res: "set (ea_reservations a) = {x \<in> set numbered. fst x \<notin> set latest}
           \<union> {x \<in> set (ea_reservations ?s). fst x \<notin> fst ` set numbered}"
    and fresh: "\<forall>x \<in> set numbered - set (ea_members ?s). ?free \<le> snd x"
  have all: "set (numbers a) = set numbered \<union> {x \<in> set (ea_reservations ?s). fst x \<notin> fst ` set numbered}"
    unfolding numbers_def set_append mem res by blast
  have apart: "x \<notin> set (ea_members ?s)" if "x \<in> set numbered" "fst x \<in> fst ` set (ea_reservations ?s)" for x
  proof -
    have "fst ` set (ea_members ?s) \<inter> fst ` set (ea_reservations ?s) = {}"
      using assms(2) by (simp add: allocation_ok_def numbers_def)
    then show ?thesis using that(2) by (metis disjoint_iff imageI)
  qed
  have "k < next_free (ea_members a) (ea_reservations a)"
    if k: "k \<in> snd ` set (ea_members ?s) \<union> snd ` set (ea_reservations ?s)" for k
  proof (cases "\<exists>d. (d, k) \<in> set (numbers a)")
    case True
    then show ?thesis using number_below by blast
  next
    case False
    then have "k \<notin> snd ` set (ea_members ?s)" using sub all by auto
    then obtain d where d: "(d, k) \<in> set (ea_reservations ?s)" using k by auto
    with False all have "d \<in> fst ` set numbered" by force
    then obtain k' where k': "(d, k') \<in> set numbered" by auto
    have "d \<in> fst ` set (ea_reservations ?s)" using d by force
    with k' have "(d, k') \<notin> set (ea_members ?s)" using apart [of "(d, k')"] by simp
    then have "?free \<le> k'" using fresh k' by force
    moreover have "k < ?free" using next_free_bound(1) k by blast
    moreover have "k' < next_free (ea_members a) (ea_reservations a)" using k' all number_below by blast
    ultimately show ?thesis by simp
  qed
  then have grows: "?free \<le> next_free (ea_members a) (ea_reservations a)"
    by (intro next_free_le) (use next_free_bound(2) in auto)
  have "d = c" if "(d, n) \<in> set (numbers a)" for d
  proof (cases "(d, n) \<in> set (numbers ?s)")
    case True
    with assms(3) show ?thesis by (simp add: settled_on_def)
  next
    case False
    then have "(d, n) \<in> set numbered - set (ea_members ?s)" using that all by (auto simp: numbers_def)
    then have "?free \<le> n" using fresh by force
    with assms(3) show ?thesis by (simp add: settled_on_def)
  qed
  with assms(3) grows show ?thesis by (simp add: settled_on_def)
qed

text \<open>What becomes of a member: it keeps its number while it is live and after it is removed.\<close>

lemma allocate_one_kept:
  assumes "allocate_one q vs prior = Inr a" and "allocation_ok (starting q prior)"
    and "(c, n) \<in> set (ea_members (starting q prior))" and "st_underlying (last vs) = EnumType latest"
  shows "(c, n) \<in> set (if c \<in> set latest then ea_members a else ea_reservations a)"
  using assms(1,2) by (rule allocation_split) (use assms(3,4) in auto)

lemma allocate_one_reserved:
  assumes "allocate_one q vs prior = Inr a" and "allocation_ok (starting q prior)"
    and "(c, n) \<in> set (ea_reservations (starting q prior))" and "c \<notin> history_names vs"
  shows "(c, n) \<in> set (ea_reservations a)"
  using assms(1,2)
proof (rule allocation_split)
  fix latest numbered
  assume names: "fst ` set numbered = fst ` set (ea_members (starting q prior)) \<union> history_names vs"
    and res: "set (ea_reservations a) = {x \<in> set numbered. fst x \<notin> set latest}
           \<union> {x \<in> set (ea_reservations (starting q prior)). fst x \<notin> fst ` set numbered}"
  have "c \<notin> fst ` set (ea_members (starting q prior))"
    using assms(2,3) by (force simp: allocation_ok_def numbers_def)
  with assms(3,4) show ?thesis unfolding res names by auto
qed

lemma last_history: "vs \<noteq> [] \<Longrightarrow> st_underlying (last vs) = EnumType latest \<Longrightarrow> set latest \<subseteq> history_names vs"
  by (force simp: history_names_def)

lemma allocate_one_members:
  assumes "allocate_one q vs prior = Inr a" and "allocation_ok (starting q prior)"
  obtains latest where "vs \<noteq> []" and "st_underlying (last vs) = EnumType latest"
    and "fst ` set (ea_members a) = set latest"
  using assms
proof (rule allocation_split)
  fix latest numbered
  assume last: "vs \<noteq> []" "st_underlying (last vs) = EnumType latest"
    and names: "fst ` set numbered = fst ` set (ea_members (starting q prior)) \<union> history_names vs"
    and mem: "set (ea_members a) = {x \<in> set numbered. fst x \<in> set latest}"
  have "set latest \<subseteq> fst ` set numbered" using names last_history [OF last] by blast
  then have "fst ` set (ea_members a) = set latest" unfolding mem by fastforce
  with last show thesis by (rule that)
qed

section \<open>The ledger\<close>

definition ledger_ok :: "(string, enum_allocation) dict \<Rightarrow> bool" where
  "ledger_ok ledger \<longleftrightarrow> list_all (\<lambda>(q, a). allocation_ok a) ledger"

lemma allocation_ok_empty:
  "allocation_ok \<lparr>ea_name = q, ea_unspecified = 0, ea_members = [], ea_reservations = []\<rparr>"
  by (simp add: allocation_ok_def numbers_def)

lemma ledger_starting: "ledger_ok ledger \<Longrightarrow> allocation_ok (starting q (map_of ledger q))"
  by (cases "map_of ledger q")
    (auto simp: ledger_ok_def starting_def list_all_iff allocation_ok_empty dest: map_of_SomeD)

lemma smap_entries:
  "smap (\<lambda>(q, vs). sbind (f q vs) (\<lambda>a. Inr (q, a))) groups = Inr out \<Longrightarrow>
     map fst out = map fst groups \<and>
     (\<forall>q a. (q, a) \<in> set out \<longrightarrow> (\<exists>vs. (q, vs) \<in> set groups \<and> f q vs = Inr a))"
  unfolding smap_eq_Inr_iff by (induction groups out rule: list_all2_induct) auto

lemma ledger_entry:
  assumes "allocate_enum_numbers mdl existing = Inr out" and "(q, a) \<in> set out"
  obtains vs where "(q, vs) \<in> set (enum_declarations_by_name mdl)"
    and "allocate_one q vs (map_of existing q) = Inr a"
  using assms(2) smap_entries [where f = "\<lambda>q vs. allocate_one q vs (map_of existing q)", OF
    assms(1) [unfolded allocate_enum_numbers_def]] by blast

lemma ledger_preserved:
  assumes "allocate_enum_numbers mdl existing = Inr out" and "ledger_ok existing"
  shows "ledger_ok out"
proof -
  have "allocation_ok a" if "(q, a) \<in> set out" for q a
    using ledger_entry [OF assms(1) that] allocate_one_ok ledger_starting [OF assms(2)] by metis
  then show ?thesis by (auto simp: ledger_ok_def list_all_iff)
qed

lemma ledger_stable:
  assumes "allocate_enum_numbers mdl existing = Inr out" and "ledger_ok existing"
    and "map_of existing q = Some p" and "(q, a) \<in> set out"
    and "(c, n) \<in> set (numbers p)" and "(d, n) \<in> set (numbers a)"
  shows "c = d"
  using ledger_entry [OF assms(1,4)]
proof cases
  case (1 vs)
  show ?thesis
    by (rule allocate_one_stable [OF 1(2) ledger_starting [OF assms(2)]])
      (use assms(3,5,6) in \<open>simp_all add: starting_def\<close>)
qed

section \<open>The declarations of a name\<close>

definition declared_versions :: "(string \<times> semantic_type_decl) list \<Rightarrow> string \<Rightarrow> semantic_type_decl list" where
  "declared_versions ds q = map snd (filter (\<lambda>x. fst x = q) ds)"

lemma grouped_versions:
  "distinct (map fst (foldl (\<lambda>g (q, s). dict_append q s g) [] ds)) \<and>
   map_of (foldl (\<lambda>g (q, s). dict_append q s g) [] ds) q =
     (if declared_versions ds q = [] then None else Some (declared_versions ds q))"
proof (induction ds rule: rev_induct)
  case (snoc d ds)
  then show ?case
    by (cases d) (auto simp: dict_append_def declared_versions_def update_conv distinct_update)
qed (simp add: declared_versions_def)

lemma enum_declarations_mem:
  assumes "(q, vs) \<in> set (enum_declarations_by_name mdl)"
  shows "vs \<noteq> [] \<and> vs = sort_key st_version (declared_versions (named_enum_declarations mdl) q)"
proof -
  let ?g = "foldl (\<lambda>g (q, s). dict_append q s g) [] (named_enum_declarations mdl)"
  obtain ws where ws: "(q, ws) \<in> set ?g" "vs = sort_key st_version ws"
    using assms by (auto simp: enum_declarations_by_name_def)
  with grouped_versions [of "named_enum_declarations mdl" q]
  have "ws = declared_versions (named_enum_declarations mdl) q" "ws \<noteq> []"
    by (auto simp: map_of_is_SomeI split: if_splits)
  with ws(2) show ?thesis by (metis length_0_conv length_sort)
qed

lemma last_sorted_max: "xs \<noteq> [] \<Longrightarrow> y \<in> set xs \<Longrightarrow> f y \<le> f (last (sort_key f xs))"
proof -
  assume xs: "xs \<noteq> []" "y \<in> set xs"
  let ?s = "sort_key f xs"
  have ne: "?s \<noteq> []" using xs(1) by (metis length_0_conv length_sort)
  have "sorted (map f (butlast ?s @ [last ?s]))" using ne by simp
  then have "\<forall>z \<in> set (butlast ?s). f z \<le> f (last ?s)" by (auto simp: sorted_append)
  moreover have "y \<in> set (butlast ?s @ [last ?s])" using ne xs(2) by simp
  ultimately show ?thesis by (auto simp del: append_butlast_last_id)
qed

text \<open>The values of the highest declared version of an enum.\<close>

definition latest_values :: "mdl_file \<Rightarrow> string \<Rightarrow> string set \<Rightarrow> bool" where
  "latest_values mdl q vals \<longleftrightarrow>
     (\<exists>s latest. (q, s) \<in> set (named_enum_declarations mdl) \<and> st_underlying s = EnumType latest
        \<and> vals = set latest
        \<and> (\<forall>s'. (q, s') \<in> set (named_enum_declarations mdl) \<longrightarrow> st_version s' \<le> st_version s))"

lemma last_declared:
  assumes "(q, vs) \<in> set (enum_declarations_by_name mdl)" and "st_underlying (last vs) = EnumType latest"
  shows "latest_values mdl q (set latest)"
proof -
  let ?ds = "declared_versions (named_enum_declarations mdl) q"
  from enum_declarations_mem [OF assms(1)] have vs: "vs \<noteq> []" "vs = sort_key st_version ?ds" by auto
  then have "last vs \<in> set ?ds" by (metis last_in_set set_sort)
  moreover have "st_version s' \<le> st_version (last vs)" if "s' \<in> set ?ds" for s'
    using that last_sorted_max [of ?ds s' st_version] vs(2) by (metis empty_iff list.set(1))
  ultimately show ?thesis
    unfolding latest_values_def using assms(2) by (force simp: declared_versions_def)
qed

lemma ledger_members:
  assumes "allocate_enum_numbers mdl existing = Inr out" and "ledger_ok existing" and "(q, a) \<in> set out"
  shows "latest_values mdl q (fst ` set (ea_members a))"
  using ledger_entry [OF assms(1,3)]
proof cases
  case (1 vs)
  from allocate_one_members [OF 1(2) ledger_starting [OF assms(2)]]
  show ?thesis by cases (use last_declared [OF 1(1)] in simp)
qed

lemma ledger_kept:
  assumes "allocate_enum_numbers mdl existing = Inr out" and "ledger_ok existing"
    and "map_of existing q = Some p" and "(q, a) \<in> set out" and "(c, n) \<in> set (ea_members p)"
  shows "(c, n) \<in> set (if c \<in> fst ` set (ea_members a) then ea_members a else ea_reservations a)"
  using ledger_entry [OF assms(1,4)]
proof cases
  case (1 vs)
  note ok = ledger_starting [OF assms(2)]
  show ?thesis
  proof (rule allocate_one_members [OF 1(2) ok])
    fix latest
    assume "st_underlying (last vs) = EnumType latest" "fst ` set (ea_members a) = set latest"
    with allocate_one_kept [OF 1(2) ok, of c n latest] assms(3,5) show ?thesis
      by (simp add: starting_def)
  qed
qed

section \<open>Runs on one lock file\<close>

lemma read_pairs_payload [simp]: "read_pairs (Some (JList (map pair_payload ps))) = Inr ps"
proof -
  have "smap read_pair (map pair_payload ps) = Inr ps"
    by (induction ps) (auto simp: read_pair_def pair_payload_def)
  then show ?thesis by (simp add: read_pairs_def)
qed

definition named_entry :: "string \<times> enum_allocation \<Rightarrow> bool" where
  "named_entry e \<longleftrightarrow> ea_name (snd e) = fst e \<and> ea_unspecified (snd e) = 0"

lemma read_ledger_payload:
  assumes "list_all named_entry ledger"
  shows "read_ledger (Some (ledger_payload ledger)) = Inr (sort_key fst ledger)"
proof -
  have one: "read_allocation (n, allocation_payload a) = Inr (n, a)" if "named_entry (n, a)" for n a
    using that by (cases a) (simp add: named_entry_def read_allocation_def allocation_payload_def)
  have "smap read_allocation (map (\<lambda>(n, a). (n, allocation_payload a)) es) = Inr es" if "list_all named_entry es" for es
    using that by (induction es) (auto simp: one)
  moreover have "list_all named_entry (sort_key fst ledger)" using assms by (simp add: list_all_iff)
  ultimately show ?thesis by (simp add: read_ledger_def ledger_payload_def)
qed

lemma allocate_one_named: "allocate_one q vs prior = Inr a \<Longrightarrow> named_entry (q, a)"
  by (auto simp: allocate_one_def Let_def named_entry_def case_prod_beta split: if_splits)

lemma allocated_ledger:
  assumes "allocate_enum_numbers mdl existing = Inr out"
  shows "list_all named_entry out" and "distinct (map fst out)"
    and "set (map fst out) = set (map fst (named_enum_declarations mdl))"
proof -
  show "list_all named_entry out"
    unfolding list_all_iff
  proof
    fix e assume "e \<in> set out"
    moreover obtain q a where e: "e = (q, a)" by (cases e)
    ultimately have "(q, a) \<in> set out" by simp
    from ledger_entry [OF assms this] e allocate_one_named show "named_entry e" by metis
  qed
  have keys: "map fst out = map fst (enum_declarations_by_name mdl)"
    using smap_entries [where f = "\<lambda>q vs. allocate_one q vs (map_of existing q)", OF
      assms [unfolded allocate_enum_numbers_def]] by blast
  have same: "map fst (enum_declarations_by_name mdl)
      = map fst (foldl (\<lambda>g (q, s). dict_append q s g) [] (named_enum_declarations mdl))"
    by (simp add: enum_declarations_by_name_def comp_def case_prod_beta)
  show "distinct (map fst out)"
    using grouped_versions [of "named_enum_declarations mdl"] unfolding keys same by blast
  have "q \<in> set (map fst (foldl (\<lambda>g (q, s). dict_append q s g) [] ds)) \<longleftrightarrow> q \<in> set (map fst ds)"
    for q and ds :: "(string \<times> semantic_type_decl) list"
    using conjunct2 [OF grouped_versions [of ds q]]
      map_of_eq_None_iff [of "foldl (\<lambda>g (q, s). dict_append q s g) [] ds" q]
    by (auto simp: declared_versions_def filter_empty_conv intro: rev_image_eqI split: if_splits)
  then show "set (map fst out) = set (map fst (named_enum_declarations mdl))" unfolding keys same by blast
qed

text \<open>What the next run reads is what this run allocated.\<close>

lemma number_run_reads:
  assumes "number_run lock mdl = Inr lock'" and "read_ledger lock = Inr existing"
  obtains out where "allocate_enum_numbers mdl existing = Inr out" and "read_ledger lock' = Inr (sort_key fst out)"
  using assms allocated_ledger(1) by (auto simp: number_run_def read_ledger_payload)

lemma number_runs_settled:
  assumes "number_runs lock mdls = Inr lock'" and "read_ledger lock = Inr existing" and "ledger_ok existing"
    and "list_all (\<lambda>mdl. q \<in> set (map fst (named_enum_declarations mdl))) mdls"
    and "map_of existing q = Some p" and "settled_on c n p"
  shows "\<exists>out a. read_ledger lock' = Inr out \<and> map_of out q = Some a \<and> settled_on c n a"
  using assms
proof (induction mdls arbitrary: lock existing p)
  case Nil
  then show ?case by auto
next
  case (Cons mdl mdls)
  obtain lock1 where run: "number_run lock mdl = Inr lock1" and rest: "number_runs lock1 mdls = Inr lock'"
    using Cons.prems(1) by auto
  obtain out where out: "allocate_enum_numbers mdl existing = Inr out" "read_ledger lock1 = Inr (sort_key fst out)"
    using number_run_reads [OF run Cons.prems(2)] .
  have "q \<in> set (map fst out)" using Cons.prems(4) allocated_ledger(3) [OF out(1)] by simp
  then obtain a where a: "(q, a) \<in> set out" by auto
  have "settled_on c n a"
  proof (rule ledger_entry [OF out(1) a])
    fix vs assume "allocate_one q vs (map_of existing q) = Inr a"
    moreover have "settled_on c n (starting q (map_of existing q))" using Cons.prems(5,6) by (simp add: starting_def)
    ultimately show ?thesis by (rule allocate_one_settled [OF _ ledger_starting [OF Cons.prems(3)]])
  qed
  moreover have "ledger_ok (sort_key fst out)"
    using ledger_preserved [OF out(1) Cons.prems(3)] by (simp add: ledger_ok_def list_all_iff)
  moreover have "map_of (sort_key fst out) q = Some a"
    using a allocated_ledger(2) [OF out(1)]
    by (intro map_of_is_SomeI) (simp_all add: distinct_map inj_on_def)
  ultimately show ?case using Cons.IH [OF rest out(2)] Cons.prems(4) by simp
qed

section \<open>Properties\<close>

text \<open>
  C10. A number never changes hands as long as its enum stays declared: take the lock file after any run and
  run the compiler any number of times on workspaces that all declare the enum, each run reading what the run
  before it wrote. Whatever the first file says of a name and a number of that enum, a live member or a
  reservation, the last file gives that number to no other name. A run on a workspace without the enum drops its
  entry, and then the numbers are given out anew (\<^verbatim>\<open>number_changes_hands\<close>).
\<close>

theorem enum_numbers_never_reassigned:
  assumes "number_runs lock mdls = Inr lock'" and "read_ledger lock = Inr existing" and "ledger_ok existing"
    and "list_all (\<lambda>mdl. q \<in> set (map fst (named_enum_declarations mdl))) mdls"
    and "map_of existing q = Some p" and "read_ledger lock' = Inr out" and "map_of out q = Some a"
  shows "\<forall>(c, n) \<in> set (numbers p). \<forall>(d, m) \<in> set (numbers a). n = m \<longrightarrow> c = d"
proof -
  have "allocation_ok p" using assms(3,5) by (auto simp: ledger_ok_def list_all_iff dest: map_of_SomeD)
  then have "settled_on c n a" if "(c, n) \<in> set (numbers p)" for c n
    using number_runs_settled [OF assms(1-5) allocation_settles [OF _ that]] assms(6,7) by auto
  then show ?thesis by (auto simp: settled_on_def)
qed

text \<open>
  C14. Every run keeps the ledger well-formed: within each enum the names are distinct, the numbers are
  distinct and positive, so zero stays free for the unspecified value.
\<close>

theorem enum_ledger_invariant:
  assumes "allocate_enum_numbers mdl existing = Inr out" and "ledger_ok existing"
  shows "ledger_ok out"
  by (rule ledger_preserved [OF assms])

text \<open>
  The live members of the result are the values of the highest declared version, and a member of
  the ledger keeps its number: as a live member where it still is one, as a reservation otherwise.
\<close>

theorem enum_members_exact:
  assumes "allocate_enum_numbers mdl existing = Inr out" and "ledger_ok existing" and "(q, a) \<in> set out"
  shows "latest_values mdl q (fst ` set (ea_members a)) \<and>
    (case map_of existing q of None \<Rightarrow> True
     | Some p \<Rightarrow> (\<forall>(c, n) \<in> set (ea_members p).
         (c, n) \<in> set (if c \<in> fst ` set (ea_members a) then ea_members a else ea_reservations a)))"
  using ledger_members [OF assms] ledger_kept [OF assms(1,2) _ assms(3)] by (auto split: option.split)

lemma conflict_reused:
  assumes "vs \<noteq> []" and "st_underlying (last vs) = EnumType latest"
  shows "(\<exists>c n. allocate_one q vs (Some p) = Inl (EnumNumberConflict q c n))
    \<longleftrightarrow> set latest \<inter> fst ` set (ea_reservations p) \<noteq> {}"
proof -
  have "smap (\<lambda>v. enum_values (st_underlying v)) vs = Inl e \<Longrightarrow> e = NotAnEnum" for e vs
  proof (induction vs)
    case (Cons v vs)
    then show ?case by (cases "st_underlying v"; cases "smap (\<lambda>v. enum_values (st_underlying v)) vs") auto
  qed auto
  then show ?thesis
    using assms by (auto simp: allocate_one_def Let_def sorted_inter_Nil keys_dict_of sbind_eq_Inl
        split: prod.splits)
qed

text \<open>
  A removed member cannot come back: an allocation is refused with a conflict if and only if the
  highest version has a member whose name the ledger reserves.
\<close>

theorem enum_conflict_iff:
  assumes "vs \<noteq> []" and "st_underlying (last vs) = EnumType latest"
  shows "(\<exists>c n. allocate_one q vs (Some p) = Inl (EnumNumberConflict q c n))
    \<longleftrightarrow> set latest \<inter> fst ` set (ea_reservations p) \<noteq> {}"
  by (rule conflict_reused [OF assms])

text \<open>An enum with a member removed in its second version, used by the witnesses.\<close>

definition sample_version :: "int \<Rightarrow> string list \<Rightarrow> semantic_type_decl" where
  "sample_version n vs = \<lparr>st_name = ''Status'', st_underlying = EnumType vs, st_version = n,
     st_change_kind = Breaking, st_has_version_header = True, st_has_change_kind = True, st_registry = False\<rparr>"

definition sample_mdl :: "semantic_type_decl list \<Rightarrow> mdl_file" where
  "sample_mdl types = \<lparr>mf_domains = [\<lparr>dm_name = ''shop'', dm_owner = None, dm_contact = None,
     dm_description = None, dm_models = [], dm_projections = [], dm_auto_projections = [], dm_apis = [],
     dm_generate_targets = [], dm_semantic_types = types, dm_enum_projections = [], dm_index_decls = [],
     dm_model_evolutions = []\<rparr>], mf_bindings = [], mf_imports = [], mf_workspace = None\<rparr>"

definition sample_history :: mdl_file where
  "sample_history = sample_mdl [sample_version 1 [''A'', ''B''], sample_version 2 [''A'']]"

definition sample_ledger :: "int \<Rightarrow> (string, enum_allocation) dict" where
  "sample_ledger n = [(''shop.Status'', \<lparr>ea_name = ''shop.Status'', ea_unspecified = 0,
     ea_members = [(''A'', 1)], ea_reservations = [(''B'', n)]\<rparr>)]"

lemma sample_runs:
  "allocate_enum_numbers sample_history [] = Inr (sample_ledger 2)"
  "allocate_enum_numbers sample_history (sample_ledger 2) = Inr (sample_ledger 3)"
  "ledger_ok []" "ledger_ok (sample_ledger 2)"
  by code_simp+

text \<open>Two runs over the same declarations, and one with the removed member gone from the history and a new one.\<close>

definition sample_grown :: mdl_file where
  "sample_grown = sample_mdl [sample_version 2 [''A''], sample_version 3 [''C'', ''A'']]"

definition sample_lock :: "json option" where
  "sample_lock = Some (ledger_payload (sample_ledger 2))"

definition grown_ledger :: "(string, enum_allocation) dict" where
  "grown_ledger = [(''shop.Status'', \<lparr>ea_name = ''shop.Status'', ea_unspecified = 0,
     ea_members = [(''A'', 1), (''C'', 4)], ea_reservations = [(''B'', 3)]\<rparr>)]"

lemma sample_lock_runs:
  "number_runs sample_lock [sample_history, sample_grown] = Inr (Some (ledger_payload grown_ledger))"
  "read_ledger sample_lock = Inr (sample_ledger 2)"
  "read_ledger (Some (ledger_payload grown_ledger)) = Inr grown_ledger"
  "list_all (\<lambda>mdl. ''shop.Status'' \<in> set (map fst (named_enum_declarations mdl))) [sample_history, sample_grown]"
  by code_simp+

theorem enum_numbers_never_reassigned_witness:
  "list_all (\<lambda>(c, n). list_all (\<lambda>(d, m). n = m \<longrightarrow> c = d) [(''A'', 1), (''C'', 4), (''B'', 3 :: int)])
     [(''A'', 1), (''B'', 2)]"
  using enum_numbers_never_reassigned [OF sample_lock_runs(1,2) sample_runs(4) sample_lock_runs(4) _ sample_lock_runs(3),
      of "snd (hd (sample_ledger 2))" "snd (hd grown_ledger)"]
  by (simp add: sample_ledger_def grown_ledger_def numbers_def)

text \<open>
  A run on a workspace without the enum forgets its numbers: A is numbered 1 by the first run, the second run
  does not declare the enum, and the third, with the members in another order, gives the number 1 to B.
\<close>

theorem number_changes_hands:
  "number_runs None [sample_mdl [sample_version 1 [''A'', ''B'']]]
     = Inr (Some (ledger_payload [(''shop.Status'', \<lparr>ea_name = ''shop.Status'', ea_unspecified = 0,
         ea_members = [(''A'', 1), (''B'', 2)], ea_reservations = []\<rparr>)]))"
  "number_runs None [sample_mdl [sample_version 1 [''A'', ''B'']], sample_mdl [], sample_mdl [sample_version 1 [''B'', ''A'']]]
     = Inr (Some (ledger_payload [(''shop.Status'', \<lparr>ea_name = ''shop.Status'', ea_unspecified = 0,
         ea_members = [(''B'', 1), (''A'', 2)], ea_reservations = []\<rparr>)]))"
  by code_simp+

theorem enum_ledger_invariant_witness: "ledger_ok (sample_ledger 3)"
  by (rule enum_ledger_invariant [OF sample_runs(2,4)])

theorem enum_members_exact_witness: "latest_values sample_history ''shop.Status'' {''A''}"
  using enum_members_exact [OF sample_runs(2,4), of "''shop.Status''" "snd (hd (sample_ledger 3))"]
  by (simp add: sample_ledger_def)

theorem enum_conflict_iff_witness:
  "\<exists>c n. allocate_one ''shop.Status'' [sample_version 3 [''A'', ''B'']] (Some (snd (hd (sample_ledger 2))))
     = Inl (EnumNumberConflict ''shop.Status'' c n)"
  using enum_conflict_iff [of "[sample_version 3 [''A'', ''B'']]" "[''A'', ''B'']" "''shop.Status''"
      "snd (hd (sample_ledger 2))"]
  by (simp add: sample_version_def sample_ledger_def)

text \<open>
  A reserved number is not kept: the member B that version 2 removed is still in the declared
  history, so a second run over the same declarations numbers it again and replaces its reservation.
  After the first run B is reserved as 2, after the second as 3, and nothing reserves the number 2 any more.
\<close>

theorem reserved_number_lost:
  "allocate_enum_numbers sample_history [] = Inr (sample_ledger 2) \<and>
   allocate_enum_numbers sample_history (sample_ledger 2) = Inr (sample_ledger 3)"
  by (intro conjI sample_runs)

end
