(* ===== verification/Graph.thy ===== *)
theory Graph
  imports Prelude
begin

text \<open>
  Graphs kept as dictionaries from a node to the list of its successors, as the source builds them
  with \<^verbatim>\<open>setdefault\<close>: the depth-first search that rejects cycles and the worklist that collects
  ancestors (both of \<^verbatim>\<open>cli/src/modelable/migration.py\<close>). The locale states what the two searches rely
  on; it is interpreted for every dictionary.
\<close>

type_synonym 'a graph = "('a, 'a list) dict"

text \<open>\<^verbatim>\<open>graph.get(node, ())\<close>\<close>

definition succs :: "'a graph \<Rightarrow> 'a \<Rightarrow> 'a list" where
  "succs g v = (case map_of g v of None \<Rightarrow> [] | Some ts \<Rightarrow> ts)"

text \<open>\<^verbatim>\<open>graph.setdefault(v, set()).update(ts)\<close>\<close>

definition add_edges :: "'a \<Rightarrow> 'a list \<Rightarrow> 'a graph \<Rightarrow> 'a graph" where
  "add_edges v ts g = dict_put v (succs g v @ filter (\<lambda>t. t \<notin> set (succs g v)) ts) g"

definition edge_rel :: "'a graph \<Rightarrow> ('a \<times> 'a) set" where
  "edge_rel g = {(v, t). t \<in> set (succs g v)}"

lemma mem_edge_rel [simp]: "(v, t) \<in> edge_rel g \<longleftrightarrow> t \<in> set (succs g v)"
  by (simp add: edge_rel_def)

lemma edge_rel_empty [simp]: "edge_rel [] = {}"
  by (simp add: edge_rel_def succs_def)

lemma edge_rel_add: "edge_rel (add_edges v ts g) = edge_rel g \<union> {v} \<times> set ts"
  by (auto simp: edge_rel_def succs_def add_edges_def update_conv' split: option.splits if_splits)

lemma succs_key: "succs g v \<noteq> [] \<Longrightarrow> v \<in> set (dict_keys g)"
  by (cases "map_of g v") (auto simp: succs_def map_of_eq_None_iff dest: map_of_SomeD intro: rev_image_eqI)

section \<open>Depth-first search\<close>

declare sbind_cong [fundef_cong]

lemma visit_measure:
  assumes "v \<notin> set visiting" and "v \<in> set (dict_keys g)"
  shows "card (set (dict_keys g) - set (v # visiting)) < card (set (dict_keys g) - set visiting)"
  using assms by (intro psubset_card_mono) auto

text \<open>
  \<open>visit_all\<close> visits a list of nodes one after the other; \<open>visiting\<close> is the current path, \<open>visited\<close> what
  has been finished. \<open>Inl v\<close> is the cycle reported at \<open>v\<close>.
\<close>

function visit_all :: "'a::linorder graph \<Rightarrow> 'a list \<Rightarrow> 'a list \<Rightarrow> 'a list \<Rightarrow> 'a + 'a list" where
  "visit_all g visiting visited [] = Inr visited"
| "visit_all g visiting visited (v # rest) =
     sbind (if v \<in> set visiting then Inl v
            else if v \<in> set visited then Inr visited
            else sbind (visit_all g (v # visiting) visited (sort (succs g v))) (\<lambda>finished. Inr (v # finished)))
       (\<lambda>visited'. visit_all g visiting visited' rest)"
  by pat_completeness auto

termination
proof (relation "measures [\<lambda>(g, visiting, _, _). card (set (dict_keys g) - set visiting),
    \<lambda>(_, _, _, vs). length vs]", goal_cases)
  case (2 g visiting visited v rest)
  have "card (set (dict_keys g) - set (v # visiting)) \<le> card (set (dict_keys g) - set visiting)"
    by (rule card_mono) auto
  with 2 show ?case
    using visit_measure [of v visiting g] succs_key [of g v]
    by (cases "succs g v") (simp_all add: le_less del: set_map set_simps)
qed auto

section \<open>What the searches compute\<close>

locale edge_graph =
  fixes out :: "'a \<Rightarrow> 'a list" and E :: "('a \<times> 'a) set"
  assumes out_edges: "t \<in> set (out v) \<longleftrightarrow> (v, t) \<in> E"
begin

text \<open>A set that contains all its successors is closed under paths.\<close>

definition closed :: "'a set \<Rightarrow> bool" where
  "closed S \<longleftrightarrow> (\<forall>v \<in> S. set (out v) \<subseteq> S)"

lemma closed_path: "(v, t) \<in> E\<^sup>+ \<Longrightarrow> closed S \<Longrightarrow> v \<in> S \<Longrightarrow> t \<in> S"
  by (induction rule: trancl_induct) (auto simp: closed_def out_edges [symmetric])

lemma closed_from_successors:
  assumes "closed S" and "set (out v) \<subseteq> S" and "(v, t) \<in> E\<^sup>+"
  shows "t \<in> S"
  using assms(3)
proof (rule converse_tranclE)
  assume "(v, t) \<in> E"
  with assms(2) show ?thesis by (auto simp: out_edges [symmetric])
next
  fix u
  assume "(v, u) \<in> E" "(u, t) \<in> E\<^sup>+"
  with assms(1,2) closed_path [of u t S] show ?thesis by (auto simp: out_edges [symmetric])
qed

lemma closed_insert: "closed S \<Longrightarrow> set (out v) \<subseteq> S \<Longrightarrow> closed (insert v S)"
  by (auto simp: closed_def)

text \<open>Finished nodes: closed under edges and on no cycle.\<close>

definition finished :: "'a set \<Rightarrow> bool" where
  "finished S \<longleftrightarrow> closed S \<and> (\<forall>v \<in> S. (v, v) \<notin> E\<^sup>+)"

lemma finished_empty [simp]: "finished {}"
  by (simp add: finished_def closed_def)

lemma finished_insert:
  assumes "finished S" and "set (out v) \<subseteq> S" and "v \<notin> S"
  shows "finished (insert v S)"
  using assms closed_from_successors [of S v v] closed_insert by (auto simp: finished_def)

lemma cycle_has_edge: "(v, v) \<in> E\<^sup>+ \<Longrightarrow> out v \<noteq> []"
  by (metis empty_iff empty_set out_edges tranclD)

text \<open>A worklist that has processed \<open>R\<close> and still has \<open>W\<close> to do.\<close>

definition worklist :: "'a \<Rightarrow> 'a set \<Rightarrow> 'a set \<Rightarrow> bool" where
  "worklist v R W \<longleftrightarrow> R \<union> W \<subseteq> {t. (v, t) \<in> E\<^sup>+} \<and> set (out v) \<subseteq> R \<union> W
     \<and> (\<forall>r \<in> R. set (out r) \<subseteq> R \<union> W)"

lemma worklist_start: "worklist v {} (set (out v))"
  by (auto simp: worklist_def out_edges)

lemma worklist_step: "worklist v R (insert t W) \<Longrightarrow> worklist v (insert t R) (set (out t) \<union> W)"
  by (auto simp: worklist_def out_edges intro: trancl_into_trancl)

lemma worklist_skip: "worklist v R (insert t W) \<Longrightarrow> t \<in> R \<Longrightarrow> worklist v R W"
  by (auto simp: worklist_def insert_absorb)

lemma worklist_done: "worklist v R {} \<Longrightarrow> R = {t. (v, t) \<in> E\<^sup>+}"
  using closed_from_successors [of R v] by (auto simp: worklist_def closed_def)

end

interpretation dict_graph: edge_graph "succs g" "edge_rel g" for g
  by unfold_locales simp

section \<open>The depth-first search finds exactly the cycles\<close>

lemma visit_all_cycle:
  "visit_all g visiting visited ns = Inl u \<Longrightarrow>
     (\<And>x n. x \<in> set visiting \<Longrightarrow> n \<in> set ns \<Longrightarrow> (x, n) \<in> (edge_rel g)\<^sup>+) \<Longrightarrow> (u, u) \<in> (edge_rel g)\<^sup>+"
proof (induction g visiting visited ns rule: visit_all.induct)
  case (2 g visiting visited v rest)
  consider (here) "v \<in> set visiting" "u = v"
    | (below) "v \<notin> set visiting" "v \<notin> set visited"
        "visit_all g (v # visiting) visited (sort (succs g v)) = Inl u"
    | (later) visited' where "(if v \<in> set visiting then Inl v else if v \<in> set visited then Inr visited
        else sbind (visit_all g (v # visiting) visited (sort (succs g v))) (\<lambda>finished. Inr (v # finished)))
          = Inr visited'" "visit_all g visiting visited' rest = Inl u"
    using 2(3) unfolding visit_all.simps by (auto simp: sbind_eq_Inl split: if_splits)
  then show ?case
  proof cases
    case here
    then show ?thesis using 2(4) by simp
  next
    case below
    show ?thesis
    proof (rule 2(1) [OF below(1,2,3)])
      fix x n
      assume "x \<in> set (v # visiting)" "n \<in> set (sort (succs g v))"
      then show "(x, n) \<in> (edge_rel g)\<^sup>+"
        using 2(4) [of x v] by (auto intro: trancl_into_trancl)
    qed
  next
    case later
    show ?thesis by (rule 2(2) [OF later]) (simp add: 2(4))
  qed
qed simp

lemma visit_all_finished:
  "visit_all g visiting visited ns = Inr visited' \<Longrightarrow>
     dict_graph.finished g (set visited) \<Longrightarrow> set visited \<inter> set visiting = {} \<Longrightarrow>
     dict_graph.finished g (set visited') \<and> set visited \<union> set ns \<subseteq> set visited' \<and> set visited' \<inter> set visiting = {}"
proof (induction g visiting visited ns arbitrary: visited' rule: visit_all.induct)
  case (2 g visiting visited v rest)
  let ?first = "if v \<in> set visiting then Inl v else if v \<in> set visited then Inr visited
        else sbind (visit_all g (v # visiting) visited (sort (succs g v))) (\<lambda>finished. Inr (v # finished))"
  obtain mid where mid: "?first = Inr mid" and rest: "visit_all g visiting mid rest = Inr visited'"
    using 2(3) by auto
  have "dict_graph.finished g (set mid) \<and> insert v (set visited) \<subseteq> set mid \<and> set mid \<inter> set visiting = {}"
  proof (cases "v \<in> set visited")
    case True
    with mid 2(4,5) show ?thesis by (auto split: if_splits)
  next
    case False
    with mid obtain below where v: "v \<notin> set visiting" and mid': "mid = v # below"
      and below: "visit_all g (v # visiting) visited (sort (succs g v)) = Inr below"
      by (auto split: if_splits)
    have "set visited \<inter> set (v # visiting) = {}" using 2(5) False by simp
    from 2(1) [OF v False below 2(4) this]
    have ih: "dict_graph.finished g (set below)" "set visited \<union> set (succs g v) \<subseteq> set below"
      "set below \<inter> set (v # visiting) = {}" by auto
    then have "dict_graph.finished g (insert v (set below))"
      by (intro dict_graph.finished_insert) auto
    with ih v show ?thesis by (auto simp: mid')
  qed
  with 2(2) [OF mid rest] show ?case by auto
qed simp

definition find_cycle :: "'a::linorder graph \<Rightarrow> 'a + unit" where
  "find_cycle g = sbind (visit_all g [] [] (sort (dict_keys g))) (\<lambda>_. Inr ())"

lemma find_cycle_visit:
  "find_cycle g = Inr () \<longleftrightarrow> (\<exists>visited. visit_all g [] [] (sort (dict_keys g)) = Inr visited)"
  by (cases "visit_all g [] [] (sort (dict_keys g))") (simp_all add: find_cycle_def)

lemma find_cycle_sound: "find_cycle g = Inr () \<Longrightarrow> acyclic (edge_rel g)"
proof (unfold find_cycle_visit acyclic_def, elim exE, intro allI notI)
  fix visited x
  assume v: "visit_all g [] [] (sort (dict_keys g)) = Inr visited" and cyc: "(x, x) \<in> (edge_rel g)\<^sup>+"
  have "dict_graph.finished g (set [])" "set [] \<inter> set [] = {}" by simp_all
  from visit_all_finished [OF v this]
  have fin: "dict_graph.finished g (set visited)" "set (dict_keys g) \<subseteq> set visited"
    by (simp_all only: set_sort) blast
  from cyc have "succs g x \<noteq> []" by (rule dict_graph.cycle_has_edge)
  then have "x \<in> set visited" by (rule subsetD [OF fin(2) succs_key])
  with cyc fin(1) show False unfolding dict_graph.finished_def by blast
qed

lemma find_cycle_complete: "acyclic (edge_rel g) \<Longrightarrow> find_cycle g = Inr ()"
proof (unfold find_cycle_visit)
  assume ac: "acyclic (edge_rel g)"
  show "\<exists>visited. visit_all g [] [] (sort (dict_keys g)) = Inr visited"
  proof (cases "visit_all g [] [] (sort (dict_keys g))")
    case (Inl u)
    have "(u, u) \<in> (edge_rel g)\<^sup>+" by (rule visit_all_cycle [OF Inl]) simp
    with ac show ?thesis unfolding acyclic_def by blast
  qed blast
qed

lemma find_cycle_iff: "find_cycle g = Inr () \<longleftrightarrow> acyclic (edge_rel g)"
  using find_cycle_sound find_cycle_complete by blast

section \<open>The worklist collects what can be reached\<close>

text \<open>
  \<^verbatim>\<open>_ancestors\<close>: \<open>pending\<close> has the end of the source's list at its head; the order in which Python
  iterates over a set is left open by the language, the model takes the order of insertion.
\<close>

function reach_loop :: "'a graph \<Rightarrow> 'a list \<Rightarrow> 'a list \<Rightarrow> 'a list" where
  "reach_loop g result [] = result"
| "reach_loop g result (v # pending) =
     (if v \<in> set result then reach_loop g result pending
      else reach_loop g (v # result) (rev (succs g v) @ pending))"
  by pat_completeness auto

termination
proof (relation "measures [\<lambda>(g, result, _). card (set (dict_keys g) - set result),
    \<lambda>(_, _, pending). length pending]", goal_cases)
  case (3 g result v pending)
  have "card (set (dict_keys g) - set (v # result)) \<le> card (set (dict_keys g) - set result)"
    by (rule card_mono) auto
  with 3 show ?case
    using visit_measure [of v result g] succs_key [of g v]
    by (cases "succs g v") (simp_all add: le_less del: set_map set_simps)
qed auto

definition reachable :: "'a graph \<Rightarrow> 'a \<Rightarrow> 'a list" where
  "reachable g v = reach_loop g [] (rev (succs g v))"

lemma reach_loop_set:
  "dict_graph.worklist g v (set result) (set pending) \<Longrightarrow>
     set (reach_loop g result pending) = {t. (v, t) \<in> (edge_rel g)\<^sup>+} \<and>
     (distinct result \<longrightarrow> distinct (reach_loop g result pending))"
proof (induction g result pending rule: reach_loop.induct)
  case (2 g result u pending)
  then show ?case
    using dict_graph.worklist_step [of g v "set result" u "set pending"]
      dict_graph.worklist_skip [of g v "set result" u "set pending"] by simp
qed (simp add: dict_graph.worklist_done)

lemma set_reachable: "set (reachable g v) = {t. (v, t) \<in> (edge_rel g)\<^sup>+}"
  and distinct_reachable: "distinct (reachable g v)"
  using reach_loop_set [of g v "[]" "rev (succs g v)"] dict_graph.worklist_start [of g v]
  by (simp_all add: reachable_def)

end
