(* ===== verification/Migration.thy ===== *)
theory Migration
  imports Graph Identity Json "HOL-Library.Product_Lexorder" "HOL-Library.Multiset"
begin

text \<open>
  \<^verbatim>\<open>cli/src/modelable/migration.py\<close>: validation and normalization of migration documents, the lineage
  edges they give, and the check of their references. Documents are JSON values; the index of a
  mapping, which only occurs in messages, is left out.
\<close>

section \<open>Documents\<close>

datatype migration_error =
    BadDocument
  | MappingsNotArray
  | BadMapping
  | UnsupportedKind
  | BadReferences
  | DuplicateReferences
  | NonCanonicalReference string
  | WrongCardinality string
  | PathRequired
  | PathNotAllowed string
  | AmbiguousSource string
  | MigrationCycle string
  | DanglingReference string

definition migration_schema :: string where
  "migration_schema = ''modelable.migration/v1''"

definition migration_kinds :: "string list" where
  "migration_kinds = [''rename'', ''move'', ''field_move'', ''split'', ''merge'', ''replacement'']"

record migration_mapping =
  mm_kind :: string
  mm_sources :: "string list"
  mm_targets :: "string list"

definition has_path :: "string \<Rightarrow> bool" where
  "has_path s \<longleftrightarrow> CHR ''#'' \<in> set s"

text \<open>
  \<^verbatim>\<open>DeclarationReference.parse(reference).render() != reference\<close> raises too, where the parser does not.
\<close>

definition canonical_reference :: "string \<Rightarrow> bool" where
  "canonical_reference r = (case parse_ref r of Inl _ \<Rightarrow> False | Inr d \<Rightarrow> render_ref d = Inr r)"

definition canonical_references :: "json \<Rightarrow> migration_error + string list" where
  "canonical_references value =
     (case json_list value of
        None \<Rightarrow> Inl BadReferences
      | Some items \<Rightarrow>
          if items = [] \<or> \<not> list_all (\<lambda>i. json_str i \<noteq> None) items then Inl BadReferences
          else let result = sorted_set (map (\<lambda>i. the (json_str i)) items) in
               if length result \<noteq> length items then Inl DuplicateReferences
               else case List.find (\<lambda>r. \<not> canonical_reference r) result of
                      Some r \<Rightarrow> Inl (NonCanonicalReference r)
                    | None \<Rightarrow> Inr result)"

definition cardinality_ok :: "string \<Rightarrow> nat \<Rightarrow> nat \<Rightarrow> bool" where
  "cardinality_ok kind sources targets =
     (if kind \<in> {''rename'', ''move'', ''field_move'', ''replacement''} then sources = 1 \<and> targets = 1
      else if kind = ''split'' then sources = 1 \<and> \<not> targets < 2
      else if kind = ''merge'' then \<not> sources < 2 \<and> targets = 1
      else True)"

text \<open>One round of the loop over the mappings; \<open>seen\<close> are the sources of the mappings before.\<close>

definition parse_mapping :: "string list \<Rightarrow> json \<Rightarrow> migration_error + migration_mapping" where
  "parse_mapping seen raw =
     (case raw of
        JObj m \<Rightarrow>
          if \<not> same_keys (dict_keys m) [''kind'', ''sources'', ''targets''] then Inl BadMapping
          else (case Option.bind (map_of m ''kind'') json_str of
              None \<Rightarrow> Inl UnsupportedKind
            | Some kind \<Rightarrow>
                sbind (raise_if (kind \<notin> set migration_kinds) UnsupportedKind) (\<lambda>_.
                sbind (canonical_references (the (map_of m ''sources''))) (\<lambda>sources.
                sbind (canonical_references (the (map_of m ''targets''))) (\<lambda>targets.
                sbind (raise_if (\<not> cardinality_ok kind (length sources) (length targets)) (WrongCardinality kind)) (\<lambda>_.
                sbind (if kind = ''field_move''
                       then raise_if (list_ex (\<lambda>r. \<not> has_path r) (sources @ targets)) PathRequired
                       else raise_if (list_ex has_path (sources @ targets)) (PathNotAllowed kind)) (\<lambda>_.
                let duplicate_sources = sorted_inter sources seen in
                sbind (raise_if (duplicate_sources \<noteq> []) (AmbiguousSource (hd duplicate_sources))) (\<lambda>_.
                Inr \<lparr>mm_kind = kind, mm_sources = sources, mm_targets = targets\<rparr>)))))))
      | _ \<Rightarrow> Inl BadMapping)"

fun parse_mappings :: "string list \<Rightarrow> json list \<Rightarrow> migration_error + migration_mapping list" where
  "parse_mappings seen [] = Inr []"
| "parse_mappings seen (raw # raws) =
     sbind (parse_mapping seen raw) (\<lambda>m.
     sbind (parse_mappings (seen @ mm_sources m) raws) (\<lambda>ms. Inr (m # ms)))"

definition mapping_graph :: "migration_mapping list \<Rightarrow> string graph" where
  "mapping_graph ms =
     foldl (\<lambda>g m. foldl (\<lambda>g s. add_edges s (mm_targets m) g) g (mm_sources m)) [] ms"

definition reject_cycles :: "migration_mapping list \<Rightarrow> migration_error + unit" where
  "reject_cycles ms =
     (case find_cycle (mapping_graph ms) of Inl v \<Rightarrow> Inl (MigrationCycle v) | Inr u \<Rightarrow> Inr u)"

definition mapping_key :: "migration_mapping \<Rightarrow> string \<times> string list \<times> string list" where
  "mapping_key m = (mm_kind m, mm_sources m, mm_targets m)"

definition parse_migration_document :: "json \<Rightarrow> migration_error + migration_mapping list" where
  "parse_migration_document value =
     (case value of
        JObj d \<Rightarrow>
          if \<not> same_keys (dict_keys d) [''$schema'', ''mappings'']
             \<or> map_of d ''$schema'' \<noteq> Some (JStr migration_schema) then Inl BadDocument
          else (case map_of d ''mappings'' of
              Some (JList raws) \<Rightarrow>
                sbind (parse_mappings [] raws) (\<lambda>normalized.
                sbind (reject_cycles normalized) (\<lambda>_.
                Inr (sort_key mapping_key normalized)))
            | _ \<Rightarrow> Inl MappingsNotArray)
      | _ \<Rightarrow> Inl BadDocument)"

definition mapping_document :: "migration_mapping \<Rightarrow> json" where
  "mapping_document m = JObj [(''kind'', JStr (mm_kind m)), (''sources'', JList (map JStr (mm_sources m))),
                              (''targets'', JList (map JStr (mm_targets m)))]"

definition migration_document :: "migration_mapping list \<Rightarrow> json" where
  "migration_document ms =
     JObj [(''$schema'', JStr migration_schema), (''mappings'', JList (map mapping_document ms))]"

section \<open>Lineage edges\<close>

record migration_edge =
  me_kind :: string
  me_source :: string
  me_target :: string
  me_immediate :: string
  me_ultimate :: string
  me_ultimate_sources :: "string list"

definition direct_edges :: "migration_mapping list \<Rightarrow> (string \<times> string \<times> string) list" where
  "direct_edges ms =
     concat (map (\<lambda>m. concat (map (\<lambda>s. map (\<lambda>t. (mm_kind m, s, t)) (mm_targets m)) (mm_sources m))) ms)"

text \<open>\<^verbatim>\<open>parents.setdefault(edge["target"], set()).add(edge["source"])\<close>\<close>

definition parent_graph :: "(string \<times> string \<times> string) list \<Rightarrow> string graph" where
  "parent_graph direct = foldl (\<lambda>g (_, s, t). add_edges t [s] g) [] direct"

definition lineage_edge :: "string graph \<Rightarrow> string \<times> string \<times> string \<Rightarrow> migration_edge" where
  "lineage_edge parents e =
     (case e of (kind, source, target) \<Rightarrow>
        let ancestors = sort (reachable parents source) in
        \<lparr>me_kind = kind, me_source = source, me_target = target, me_immediate = source,
         me_ultimate = (if ancestors \<noteq> [] then hd ancestors else source),
         me_ultimate_sources = (if ancestors \<noteq> [] then ancestors else [source])\<rparr>)"

definition edge_key :: "migration_edge \<Rightarrow> string \<times> string \<times> string" where
  "edge_key e = (me_source e, me_target e, me_kind e)"

definition migration_edges :: "json \<Rightarrow> migration_error + migration_edge list" where
  "migration_edges document =
     sbind (parse_migration_document document) (\<lambda>normalized.
       let direct = direct_edges normalized; parents = parent_graph direct in
       Inr (sort_key edge_key (map (lineage_edge parents) direct)))"

definition declaration_root :: "string \<Rightarrow> string" where
  "declaration_root r = hd (split_on CHR ''#'' r)"

definition validate_migration_references :: "json \<Rightarrow> string list \<Rightarrow> migration_error + unit" where
  "validate_migration_references document available =
     sbind (parse_migration_document document) (\<lambda>normalized.
       case List.find (\<lambda>r. declaration_root r \<notin> set available)
              (concat (map (\<lambda>m. mm_sources m @ mm_targets m) normalized)) of
         Some r \<Rightarrow> Inl (DanglingReference r)
       | None \<Rightarrow> Inr ())"

section \<open>Mappings\<close>

definition valid_references :: "string list \<Rightarrow> bool" where
  "valid_references rs \<longleftrightarrow> rs \<noteq> [] \<and> sorted rs \<and> distinct rs \<and> list_all canonical_reference rs"

definition valid_mapping :: "migration_mapping \<Rightarrow> bool" where
  "valid_mapping m \<longleftrightarrow>
     mm_kind m \<in> set migration_kinds \<and> valid_references (mm_sources m) \<and> valid_references (mm_targets m)
     \<and> cardinality_ok (mm_kind m) (length (mm_sources m)) (length (mm_targets m))
     \<and> (if mm_kind m = ''field_move'' then list_all has_path (mm_sources m @ mm_targets m)
        else list_all (\<lambda>r. \<not> has_path r) (mm_sources m @ mm_targets m))"

lemma canonical_references_valid: "canonical_references v = Inr rs \<Longrightarrow> valid_references rs"
  by (auto simp: canonical_references_def Let_def valid_references_def list_all_iff
      find_None_iff split: option.splits if_splits)

lemma canonical_references_render:
  "valid_references rs \<Longrightarrow> canonical_references (JList (map JStr rs)) = Inr rs"
  by (auto simp: canonical_references_def valid_references_def list_all_iff sorted_set_id find_None_iff
      o_def split: option.splits)

lemma not_list_ex: "\<not> list_ex P xs \<longleftrightarrow> list_all (\<lambda>x. \<not> P x) xs"
  by (auto simp: list_ex_iff list_all_iff)

lemma parse_mapping_valid: "parse_mapping seen raw = Inr m \<Longrightarrow> valid_mapping m"
  by (cases raw) (auto simp: parse_mapping_def valid_mapping_def Let_def not_list_ex list_all_iff list_ex_iff
      dest: canonical_references_valid split: if_splits option.splits)

lemma sorted_inter_empty: "sorted_inter xs ys = [] \<longleftrightarrow> set xs \<inter> set ys = {}"
  by (metis set_sorted_inter set_empty)

lemma parse_mapping_seen:
  "parse_mapping seen raw = Inr m \<longleftrightarrow>
     parse_mapping [] raw = Inr m \<and> set (mm_sources m) \<inter> set seen = {}"
  by (cases raw) (auto simp: parse_mapping_def Let_def sorted_inter_empty split: if_splits option.splits)

lemma parse_mapping_document: "valid_mapping m \<Longrightarrow> parse_mapping [] (mapping_document m) = Inr m"
  by (cases m) (auto simp: parse_mapping_def mapping_document_def valid_mapping_def same_keys_def
      canonical_references_render sorted_inter_empty list_ex_iff list_all_iff Let_def)

definition mapping_of :: "json \<Rightarrow> migration_mapping" where
  "mapping_of raw = projr (parse_mapping [] raw)"

definition mapping_parses :: "json \<Rightarrow> bool" where
  "mapping_parses raw \<longleftrightarrow> \<not> isl (parse_mapping [] raw)"

lemma mapping_parses_iff: "parse_mapping [] raw = Inr m \<longleftrightarrow> mapping_parses raw \<and> m = mapping_of raw"
  by (cases "parse_mapping [] raw") (auto simp: mapping_parses_def mapping_of_def)

lemma mapping_of_valid: "mapping_parses raw \<Longrightarrow> valid_mapping (mapping_of raw)"
  using mapping_parses_iff [of raw "mapping_of raw"] by (auto intro: parse_mapping_valid)

definition all_sources :: "migration_mapping list \<Rightarrow> string list" where
  "all_sources ms = concat (map mm_sources ms)"

lemma all_sources_simps [simp]:
  "all_sources [] = []" "all_sources (m # ms) = mm_sources m @ all_sources ms"
  by (simp_all add: all_sources_def)

lemma distinct_sources: "valid_mapping m \<Longrightarrow> distinct (mm_sources m)"
  by (simp add: valid_mapping_def valid_references_def)

lemma parse_mappings_iff:
  "parse_mappings seen raws = Inr ms \<longleftrightarrow>
     ms = map mapping_of raws \<and> list_all mapping_parses raws \<and>
     distinct (all_sources ms) \<and> set (all_sources ms) \<inter> set seen = {}"
proof (induction raws arbitrary: seen ms)
  case (Cons raw raws)
  have step: "parse_mapping seen raw = Inr m \<longleftrightarrow>
      mapping_parses raw \<and> m = mapping_of raw \<and> set (mm_sources m) \<inter> set seen = {}" for m
    by (auto simp: parse_mapping_seen [of seen] mapping_parses_iff)
  have "distinct (mm_sources (mapping_of raw))" if "mapping_parses raw"
    by (rule distinct_sources [OF mapping_of_valid [OF that]])
  then show ?case by (auto simp: step Cons.IH)
qed auto

section \<open>Cycles\<close>

definition lineage :: "migration_mapping list \<Rightarrow> (string \<times> string) set" where
  "lineage ms = {(s, t). \<exists>m \<in> set ms. s \<in> set (mm_sources m) \<and> t \<in> set (mm_targets m)}"

lemma edges_of_sources:
  "edge_rel (foldl (\<lambda>g s. add_edges s ts g) g ss) = edge_rel g \<union> set ss \<times> set ts"
  by (induction ss arbitrary: g) (auto simp: edge_rel_add)

lemma edges_of_mappings:
  "edge_rel (foldl (\<lambda>g m. foldl (\<lambda>g s. add_edges s (mm_targets m) g) g (mm_sources m)) g ms)
     = edge_rel g \<union> lineage ms"
  by (induction ms arbitrary: g) (auto simp: edges_of_sources lineage_def)

lemma edge_rel_mappings: "edge_rel (mapping_graph ms) = lineage ms"
  unfolding mapping_graph_def edges_of_mappings by simp

lemma reject_cycles_iff: "reject_cycles ms = Inr u \<longleftrightarrow> acyclic (lineage ms)"
  using find_cycle_iff [of "mapping_graph ms"]
  by (auto simp: reject_cycles_def edge_rel_mappings split: sum.splits)

lemma parse_migration_of:
  "parse_migration_document (JObj [(''$schema'', JStr migration_schema), (''mappings'', JList raws)])
   = sbind (parse_mappings [] raws) (\<lambda>ms. sbind (reject_cycles ms) (\<lambda>_. Inr (sort_key mapping_key ms)))"
  by (simp add: parse_migration_document_def same_keys_def)

lemma parsed_migration:
  assumes "parse_migration_document d = Inr ms"
  obtains raws where "list_all mapping_parses raws" and "ms = sort_key mapping_key (map mapping_of raws)"
    and "distinct (all_sources (map mapping_of raws))" and "acyclic (lineage (map mapping_of raws))"
  using assms by (auto simp: parse_migration_document_def parse_mappings_iff reject_cycles_iff
      split: json.splits if_splits option.splits)

section \<open>Normal form\<close>

definition normalized :: "migration_mapping list \<Rightarrow> bool" where
  "normalized ms \<longleftrightarrow> list_all valid_mapping ms \<and> distinct (all_sources ms) \<and> sorted (map mapping_key ms)"

lemma all_sources_perm: "mset xs = mset ys \<Longrightarrow> distinct (all_sources xs) = distinct (all_sources ys)"
proof -
  assume "mset xs = mset ys"
  then have "mset (concat (map mm_sources xs)) = mset (concat (map mm_sources ys))"
    by (metis mset_concat mset_map multiset.map_comp sum_mset_sum_list)
  then show ?thesis unfolding all_sources_def by (rule mset_eq_imp_distinct_iff)
qed

lemma lineage_sort [simp]: "lineage (sort_key f ms) = lineage ms"
  by (simp add: lineage_def)

lemma accept_mappings:
  assumes "list_all valid_mapping ms"
  shows "parse_migration_document (migration_document ms) = Inr (sort_key mapping_key ms)
    \<longleftrightarrow> distinct (all_sources ms) \<and> acyclic (lineage ms)"
proof -
  have doc: "mapping_parses (mapping_document m) \<and> mapping_of (mapping_document m) = m" if "m \<in> set ms" for m
    using that assms parse_mapping_document [of m] mapping_parses_iff [of "mapping_document m" m]
    by (auto simp: list_all_iff)
  then have ms: "map mapping_of (map mapping_document ms) = ms" by (simp add: map_idI)
  have all: "list_all mapping_parses (map mapping_document ms)" using doc by (simp add: list_all_iff)
  have "parse_mappings [] (map mapping_document ms) = Inr ns \<longleftrightarrow> ns = ms \<and> distinct (all_sources ms)" for ns
    unfolding parse_mappings_iff ms using all by auto
  then show ?thesis
    unfolding migration_document_def parse_migration_of by (auto simp: reject_cycles_iff)
qed

lemma parsed_normalized:
  "parse_migration_document d = Inr ms \<Longrightarrow> normalized ms \<and> acyclic (lineage ms)"
proof (erule parsed_migration)
  fix raws
  assume raws: "list_all mapping_parses raws" "ms = sort_key mapping_key (map mapping_of raws)"
    "distinct (all_sources (map mapping_of raws))" "acyclic (lineage (map mapping_of raws))"
  then have "distinct (all_sources ms)" by (subst all_sources_perm [of ms "map mapping_of raws"]) simp_all
  with raws show ?thesis by (auto simp: normalized_def list_all_iff mapping_of_valid)
qed

lemma normalized_reparse:
  "normalized ms \<Longrightarrow> acyclic (lineage ms) \<Longrightarrow> parse_migration_document (migration_document ms) = Inr ms"
  using accept_mappings [of ms] by (simp add: normalized_def sort_key_id_if_sorted)

section \<open>Ancestors\<close>

lemma direct_edges_mem:
  "(k, s, t) \<in> set (direct_edges ms) \<longleftrightarrow>
     (\<exists>m \<in> set ms. k = mm_kind m \<and> s \<in> set (mm_sources m) \<and> t \<in> set (mm_targets m))"
  by (force simp: direct_edges_def)

lemma parent_edges: "edge_rel (foldl (\<lambda>g (_, s, t). add_edges t [s] g) g es) = edge_rel g \<union> {(t, s). \<exists>k. (k, s, t) \<in> set es}"
  by (induction es arbitrary: g) (auto simp: edge_rel_add)

lemma parent_graph_lineage: "edge_rel (parent_graph (direct_edges ms)) = (lineage ms)\<inverse>"
  unfolding parent_graph_def parent_edges by (auto simp: direct_edges_mem lineage_def)

definition ancestors :: "migration_mapping list \<Rightarrow> string \<Rightarrow> string set" where
  "ancestors ms v = {a. (a, v) \<in> (lineage ms)\<^sup>+}"

lemma set_ancestors: "set (reachable (parent_graph (direct_edges ms)) v) = ancestors ms v"
  by (simp add: set_reachable parent_graph_lineage trancl_converse ancestors_def)

text \<open>What the edge of a source and a target says of its ancestors.\<close>

definition exact_edge :: "migration_mapping list \<Rightarrow> migration_edge \<Rightarrow> bool" where
  "exact_edge ms e \<longleftrightarrow>
     set (me_ultimate_sources e) =
       (if ancestors ms (me_source e) = {} then {me_source e} else ancestors ms (me_source e))
     \<and> sorted (me_ultimate_sources e) \<and> distinct (me_ultimate_sources e)
     \<and> me_immediate e = me_source e \<and> me_ultimate e = hd (me_ultimate_sources e)"

lemma lineage_edge_exact: "exact_edge ms (lineage_edge (parent_graph (direct_edges ms)) (k, s, t))"
proof -
  define anc where "anc = sort (reachable (parent_graph (direct_edges ms)) s)"
  have facts: "set anc = ancestors ms s" "sorted anc" "distinct anc"
    by (simp_all add: anc_def set_ancestors distinct_reachable)
  have e: "lineage_edge (parent_graph (direct_edges ms)) (k, s, t) =
    \<lparr>me_kind = k, me_source = s, me_target = t, me_immediate = s,
     me_ultimate = (if anc \<noteq> [] then hd anc else s), me_ultimate_sources = (if anc \<noteq> [] then anc else [s])\<rparr>"
    by (simp add: lineage_edge_def anc_def Let_def)
  have "ancestors ms s = {} \<longleftrightarrow> anc = []" using facts(1) by auto
  with facts show ?thesis by (simp add: exact_edge_def e)
qed

lemma edges_exact:
  assumes "parse_migration_document d = Inr ms" and "migration_edges d = Inr es"
  shows "list_all (exact_edge ms) es \<and> sorted (map edge_key es) \<and>
    set (map (\<lambda>e. (me_kind e, me_source e, me_target e)) es) = set (direct_edges ms)"
proof -
  have es: "es = sort_key edge_key (map (lineage_edge (parent_graph (direct_edges ms))) (direct_edges ms))"
    using assms by (simp add: migration_edges_def Let_def)
  have triple: "(me_kind (lineage_edge p e), me_source (lineage_edge p e), me_target (lineage_edge p e)) = e" for p e
    by (cases e) (simp add: lineage_edge_def Let_def)
  have "exact_edge ms (lineage_edge (parent_graph (direct_edges ms)) e)" for e
    by (cases e) (simp add: lineage_edge_exact)
  then show ?thesis
    unfolding es by (simp add: list_all_iff triple image_image)
qed

section \<open>Properties\<close>

text \<open>
  C12. Which migrations are accepted: a document of well-formed mappings is accepted if and only if no
  source occurs in two mappings and the lineage has no cycle; the depth-first search of the source
  finds a cycle exactly when there is one. The result is the sorted list of the mappings.
\<close>

theorem migration_accepted_iff:
  assumes "list_all valid_mapping ms"
  shows "parse_migration_document (migration_document ms) = Inr (sort_key mapping_key ms)
    \<longleftrightarrow> distinct (all_sources ms) \<and> acyclic (lineage ms)"
  by (rule accept_mappings [OF assms])

text \<open>
  What an accepted document is: every mapping is well formed, no source is ambiguous, the mappings
  are sorted, the lineage is acyclic, and parsing the normalized document gives it back.
\<close>

theorem migration_canonical_fixpoint:
  assumes "parse_migration_document d = Inr ms"
  shows "normalized ms \<and> acyclic (lineage ms) \<and> parse_migration_document (migration_document ms) = Inr ms"
  using parsed_normalized [OF assms] normalized_reparse [of ms] by simp

text \<open>
  The lineage edges are exact: there is one for every source and target of a mapping, and its
  ultimate sources are all the ancestors of its source in the transitive closure of the lineage, or
  the source itself where it has none.
\<close>

theorem migration_edges_exact:
  assumes "parse_migration_document d = Inr ms" and "migration_edges d = Inr es"
  shows "list_all (exact_edge ms) es \<and> sorted (map edge_key es) \<and>
    set (map (\<lambda>e. (me_kind e, me_source e, me_target e)) es) = set (direct_edges ms)"
  by (rule edges_exact [OF assms])

definition rename :: "string \<Rightarrow> string \<Rightarrow> migration_mapping" where
  "rename s t = \<lparr>mm_kind = ''rename'', mm_sources = [s], mm_targets = [t]\<rparr>"

text \<open>A declaration renamed three times, from x to a to y to z.\<close>

definition sample_chain :: "migration_mapping list" where
  "sample_chain = [rename ''d.a@1'' ''d.y@1'', rename ''d.x@1'' ''d.a@1'', rename ''d.y@1'' ''d.z@1'']"

lemma sample_chain_parsed: "parse_migration_document (migration_document sample_chain) = Inr sample_chain"
  by code_simp

theorem migration_canonical_fixpoint_witness: "normalized sample_chain \<and> acyclic (lineage sample_chain)"
  using migration_canonical_fixpoint [OF sample_chain_parsed] by simp

theorem migration_accepted_iff_witness: "distinct (all_sources sample_chain) \<and> acyclic (lineage sample_chain)"
proof -
  have "list_all valid_mapping sample_chain" by code_simp
  from migration_accepted_iff [OF this] show ?thesis
    using sample_chain_parsed parsed_normalized [OF sample_chain_parsed]
    by (simp add: normalized_def sort_key_id_if_sorted)
qed

definition sample_edges :: "migration_edge list" where
  "sample_edges =
     [\<lparr>me_kind = ''rename'', me_source = ''d.a@1'', me_target = ''d.y@1'', me_immediate = ''d.a@1'',
       me_ultimate = ''d.x@1'', me_ultimate_sources = [''d.x@1'']\<rparr>,
      \<lparr>me_kind = ''rename'', me_source = ''d.x@1'', me_target = ''d.a@1'', me_immediate = ''d.x@1'',
       me_ultimate = ''d.x@1'', me_ultimate_sources = [''d.x@1'']\<rparr>,
      \<lparr>me_kind = ''rename'', me_source = ''d.y@1'', me_target = ''d.z@1'', me_immediate = ''d.y@1'',
       me_ultimate = ''d.a@1'', me_ultimate_sources = [''d.a@1'', ''d.x@1'']\<rparr>]"

lemma sample_edges_run: "migration_edges (migration_document sample_chain) = Inr sample_edges"
  by code_simp

theorem migration_edges_exact_witness: "list_all (exact_edge sample_chain) sample_edges"
  using migration_edges_exact [OF sample_chain_parsed sample_edges_run] by simp

text \<open>
  The ultimate source of an edge need not be a root of the lineage: of all ancestors the code takes
  the first in the order of the names. In the chain from x over a and y to z, the edge from y to z
  names a as its ultimate source although a was renamed from x.
\<close>

theorem ultimate_not_root:
  "\<exists>es e. migration_edges (migration_document sample_chain) = Inr es \<and> e \<in> set es \<and>
     ancestors sample_chain (me_ultimate e) \<noteq> {}"
proof (intro exI conjI)
  show "migration_edges (migration_document sample_chain) = Inr sample_edges" by (rule sample_edges_run)
  show "sample_edges ! 2 \<in> set sample_edges" by (rule nth_mem) (simp add: sample_edges_def)
  have "(''d.x@1'', ''d.a@1'') \<in> lineage sample_chain"
    by (auto simp: lineage_def sample_chain_def rename_def)
  then show "ancestors sample_chain (me_ultimate (sample_edges ! 2)) \<noteq> {}"
    by (auto simp: ancestors_def sample_edges_def)
qed

end
