(* ===== verification/Resolver.thy ===== *)
theory Resolver
  imports Ir Identity
begin

text \<open>
  \<^verbatim>\<open>cli/src/modelable/registry/resolver.py\<close>: the candidates of a workspace, the resolution of qualified
  references with version selectors, of bare names of semantic types and enum projections, the
  dependents of a model version and the reference check of a workspace. The content signature of a
  version (\<^verbatim>\<open>registry/signature.py\<close>, a SHA-256 of rendered text) is the argument \<open>sig\<close> of the
  functions that use it; nothing is assumed of it.
\<close>

section \<open>Candidates\<close>

datatype declaration_value =
    DModel model_version
  | DProjection projection_version
  | DSemantic semantic_type_decl
  | DEnum enum_projection_decl

type_synonym signature_fn = "string \<Rightarrow> string \<Rightarrow> declaration_value \<Rightarrow> string"

record candidate =
  cd_domain_name :: string
  cd_name :: string
  cd_declaration :: declaration_value
  cd_domain_owner :: "string option"
  cd_domain_contact :: "string option"
  cd_domain_description :: "string option"

fun decl_version :: "declaration_value \<Rightarrow> int" where
  "decl_version (DModel m) = mv_version m"
| "decl_version (DProjection p) = pv_version p"
| "decl_version (DSemantic s) = st_version s"
| "decl_version (DEnum e) = ep_version e"

fun decl_kind :: "declaration_value \<Rightarrow> string" where
  "decl_kind (DModel _) = ''model''"
| "decl_kind (DProjection _) = ''projection''"
| "decl_kind (DSemantic _) = ''semantic_type''"
| "decl_kind (DEnum _) = ''enum_projection''"

definition cd_version :: "candidate \<Rightarrow> int" where
  "cd_version c = decl_version (cd_declaration c)"

definition cd_kind :: "candidate \<Rightarrow> string" where
  "cd_kind c = decl_kind (cd_declaration c)"

definition mk_candidate :: "domain_def \<Rightarrow> string \<Rightarrow> declaration_value \<Rightarrow> candidate" where
  "mk_candidate d name decl =
     \<lparr>cd_domain_name = dm_name d, cd_name = name, cd_declaration = decl, cd_domain_owner = dm_owner d,
      cd_domain_contact = dm_contact d, cd_domain_description = dm_description d\<rparr>"

definition domain_candidates :: "domain_def \<Rightarrow> candidate list" where
  "domain_candidates d =
     concat (map (\<lambda>(n, vs). map (\<lambda>v. mk_candidate d n (DModel v)) vs) (dm_models d))
     @ concat (map (\<lambda>(n, vs). map (\<lambda>v. mk_candidate d n (DProjection v)) vs) (dm_projections d))
     @ map (\<lambda>s. mk_candidate d (st_name s) (DSemantic s)) (dm_semantic_types d)
     @ map (\<lambda>e. mk_candidate d (ep_name e) (DEnum e)) (dm_enum_projections d)"

definition declaration_candidates :: "mdl_file \<Rightarrow> candidate list" where
  "declaration_candidates mdl = concat (map domain_candidates (mf_domains mdl))"

section \<open>Latest declarations\<close>

definition latest_declaration_candidates :: "domain_def \<Rightarrow> string \<Rightarrow> candidate list" where
  "latest_declaration_candidates d kind =
     latest_by cd_name cd_version (filter (\<lambda>c. cd_kind c = kind) (domain_candidates d))"

fun as_semantic :: "declaration_value \<Rightarrow> semantic_type_decl option" where
  "as_semantic (DSemantic s) = Some s"
| "as_semantic _ = None"

fun as_enum :: "declaration_value \<Rightarrow> enum_projection_decl option" where
  "as_enum (DEnum e) = Some e"
| "as_enum _ = None"

definition latest_semantic_type_declarations :: "domain_def \<Rightarrow> semantic_type_decl list" where
  "latest_semantic_type_declarations d =
     List.map_filter (\<lambda>c. as_semantic (cd_declaration c)) (latest_declaration_candidates d ''semantic_type'')"

definition latest_enum_projection_declarations :: "domain_def \<Rightarrow> enum_projection_decl list" where
  "latest_enum_projection_declarations d =
     List.map_filter (\<lambda>c. as_enum (cd_declaration c)) (latest_declaration_candidates d ''enum_projection'')"

section \<open>Resolved declarations\<close>

record resolved_declaration =
  rd_domain_name :: string
  rd_name :: string
  rd_declaration :: declaration_value
  rd_kind :: string
  rd_version_number :: int
  rd_domain_owner :: "string option"
  rd_domain_contact :: "string option"
  rd_domain_description :: "string option"

definition resolved_of :: "candidate \<Rightarrow> resolved_declaration" where
  "resolved_of c =
     \<lparr>rd_domain_name = cd_domain_name c, rd_name = cd_name c, rd_declaration = cd_declaration c,
      rd_kind = cd_kind c, rd_version_number = cd_version c, rd_domain_owner = cd_domain_owner c,
      rd_domain_contact = cd_domain_contact c, rd_domain_description = cd_domain_description c\<rparr>"

text \<open>A version selector: \<^verbatim>\<open>VersionSpec | int\<close>\<close>

datatype selector = IntSel int | SpecSel version_spec

datatype lookup_error =
    InvalidModelRef string
  | UnresolvedDeclaration string selector
  | UnresolvedModel string selector
  | BreakingChange string selector int
  | UnknownDomain string string
  | UnknownSemanticType string
  | NoSemanticVersion string int "int list"
  | NoProjectionVersion string int "int list"
  | AmbiguousType string "string list"
  | WrongDeclaration

definition split_model_ref :: "string \<Rightarrow> lookup_error + string \<times> string" where
  "split_model_ref r =
     (case partition1 CHR ''.'' r of (d, found, n) \<Rightarrow>
        if \<not> found \<or> d = [] \<or> n = [] then Inl (InvalidModelRef r) else Inr (d, n))"

text \<open>\<^verbatim>\<open>str.lower()\<close> of an ASCII text\<close>

definition lower_char :: "char \<Rightarrow> char" where
  "lower_char c = (if 65 \<le> code c \<and> code c \<le> 90 then char_of (code c + 32) else c)"

definition lower :: "string \<Rightarrow> string" where
  "lower s = map lower_char s"

fun is_model_or_projection :: "declaration_value \<Rightarrow> bool" where
  "is_model_or_projection (DModel _) = True"
| "is_model_or_projection (DProjection _) = True"
| "is_model_or_projection _ = False"

fun matches_declaration ::
    "signature_fn \<Rightarrow> candidate \<Rightarrow> selector \<Rightarrow> string \<Rightarrow> string \<Rightarrow> bool" where
  "matches_declaration sig c (IntSel v) d n \<longleftrightarrow> cd_version c = v"
| "matches_declaration sig c (SpecSel (VersionExact v)) d n \<longleftrightarrow> cd_version c = v"
| "matches_declaration sig c (SpecSel (VersionRange lo hi)) d n \<longleftrightarrow> lo \<le> cd_version c \<and> cd_version c < hi"
| "matches_declaration sig c (SpecSel (VersionMin lo)) d n \<longleftrightarrow> lo \<le> cd_version c"
| "matches_declaration sig c (SpecSel (VersionPinned v hash)) d n \<longleftrightarrow>
     cd_version c = v \<and> is_model_or_projection (cd_declaration c)
     \<and> lower (sig d n (cd_declaration c)) = lower hash"

definition resolve_declaration ::
    "signature_fn \<Rightarrow> mdl_file \<Rightarrow> string \<Rightarrow> selector \<Rightarrow> string list option
     \<Rightarrow> lookup_error + resolved_declaration" where
  "resolve_declaration sig mdl ref sel allowed_kinds =
     sbind (split_model_ref ref) (\<lambda>(d, n).
       let candidates = filter (\<lambda>c. cd_domain_name c = d \<and> cd_name c = n \<and>
             (case allowed_kinds of None \<Rightarrow> True | Some ks \<Rightarrow> cd_kind c \<in> set ks)) (declaration_candidates mdl)
       in case max_by cd_version (filter (\<lambda>c. matches_declaration sig c sel d n) candidates) of
            None \<Rightarrow> Inl (UnresolvedDeclaration ref sel)
          | Some selected \<Rightarrow> Inr (resolved_of selected))"

definition find_model_versions :: "mdl_file \<Rightarrow> string \<Rightarrow> string \<Rightarrow> declaration_value list" where
  "find_model_versions mdl d n =
     map cd_declaration (filter (\<lambda>c. cd_domain_name c = d \<and> cd_name c = n \<and>
        cd_kind c \<in> set [''model'', ''projection''] \<and> is_model_or_projection (cd_declaration c))
        (declaration_candidates mdl))"

fun is_breaking_model :: "declaration_value \<Rightarrow> bool" where
  "is_breaking_model (DModel m) \<longleftrightarrow> mv_change_kind m = Breaking"
| "is_breaking_model _ = False"

text \<open>Where a selector starts a range of versions.\<close>

fun range_start :: "selector \<Rightarrow> int option" where
  "range_start (SpecSel (VersionRange lo hi)) = Some lo"
| "range_start (SpecSel (VersionMin lo)) = Some lo"
| "range_start _ = None"

text \<open>The first breaking change after the start of the range, up to the selected version.\<close>

definition blocking_change :: "mdl_file \<Rightarrow> string \<Rightarrow> string \<Rightarrow> int \<Rightarrow> int \<Rightarrow> declaration_value option" where
  "blocking_change mdl d n lo selected =
     List.find (\<lambda>v. lo < decl_version v \<and> decl_version v \<le> selected \<and> is_breaking_model v)
       (find_model_versions mdl d n)"

definition resolve_model_ref ::
    "signature_fn \<Rightarrow> mdl_file \<Rightarrow> string \<Rightarrow> selector
     \<Rightarrow> lookup_error + resolved_declaration" where
  "resolve_model_ref sig mdl ref sel =
     sbind (split_model_ref ref) (\<lambda>(d, n).
       case resolve_declaration sig mdl ref sel (Some [''model'', ''projection'']) of
         Inl _ \<Rightarrow> Inl (UnresolvedModel ref sel)
       | Inr resolved \<Rightarrow>
           if \<not> is_model_or_projection (rd_declaration resolved) then Inl (UnresolvedModel ref sel)
           else case range_start sel of
                  None \<Rightarrow> Inr resolved
                | Some lo \<Rightarrow>
                    (case blocking_change mdl d n lo (decl_version (rd_declaration resolved)) of
                       Some v \<Rightarrow> Inl (BreakingChange ref sel (decl_version v))
                     | None \<Rightarrow> Inr resolved))"

definition resolve_ref_type ::
    "signature_fn \<Rightarrow> string \<Rightarrow> version_spec option \<Rightarrow> mdl_file
     \<Rightarrow> lookup_error + resolved_declaration" where
  "resolve_ref_type sig target ver mdl =
     resolve_model_ref sig mdl target (SpecSel (case ver of Some v \<Rightarrow> v | None \<Rightarrow> VersionMin 1))"

definition resolved_version_spec ::
    "signature_fn \<Rightarrow> mdl_file \<Rightarrow> string \<Rightarrow> selector
     \<Rightarrow> lookup_error + version_spec" where
  "resolved_version_spec sig mdl ref sel =
     sbind (resolve_model_ref sig mdl ref sel) (\<lambda>r. Inr (VersionExact (decl_version (rd_declaration r))))"

section \<open>Views of a resolved declaration\<close>

text \<open>The identity raises where the domain or the name is not well formed or the version is negative.\<close>

definition rd_identity :: "resolved_declaration \<Rightarrow> identity_error + string" where
  "rd_identity r = declaration_id (rd_domain_name r) (rd_name r) (rd_version_number r)"

record resolved_member =
  rm_name :: string
  rm_annotations :: "annotation list"
  rm_constraints :: "value_constraint list"
  rm_optional :: "bool option"
  rm_nullable :: "bool option"

fun annotation_owner :: "annotation list \<Rightarrow> string option" where
  "annotation_owner [] = None"
| "annotation_owner (AnnOwner team # as) = Some team"
| "annotation_owner (_ # as) = annotation_owner as"

fun annotation_deprecated_replaced_by :: "annotation list \<Rightarrow> string option" where
  "annotation_deprecated_replaced_by [] = None"
| "annotation_deprecated_replaced_by (AnnDeprecated r # as) = Some r"
| "annotation_deprecated_replaced_by (_ # as) = annotation_deprecated_replaced_by as"

definition field_member :: "field_def \<Rightarrow> resolved_member" where
  "field_member f = \<lparr>rm_name = fd_name f, rm_annotations = fd_annotations f, rm_constraints = fd_constraints f,
     rm_optional = Some (fd_optional f), rm_nullable = Some (fd_nullable f)\<rparr>"

definition projection_member :: "projection_field \<Rightarrow> resolved_member" where
  "projection_member f = \<lparr>rm_name = pf_name f, rm_annotations = pf_annotations f,
     rm_constraints = pf_constraints f, rm_optional = None, rm_nullable = None\<rparr>"

fun decl_members :: "declaration_value \<Rightarrow> resolved_member list" where
  "decl_members (DModel m) = map field_member (mv_fields m)"
| "decl_members (DProjection p) = map projection_member (pv_fields p)"
| "decl_members (DEnum e) = map (\<lambda>n. \<lparr>rm_name = n, rm_annotations = [], rm_constraints = [],
     rm_optional = None, rm_nullable = None\<rparr>) (ep_members e)"
| "decl_members (DSemantic _) = []"

fun decl_annotations :: "declaration_value \<Rightarrow> annotation list" where
  "decl_annotations (DModel m) = mv_annotations m"
| "decl_annotations (DProjection p) = pv_annotations p"
| "decl_annotations _ = []"

fun format_version_spec :: "selector \<Rightarrow> string" where
  "format_version_spec (IntSel v) = int_str v"
| "format_version_spec (SpecSel (VersionExact v)) = int_str v"
| "format_version_spec (SpecSel (VersionRange lo hi)) = ''>='' @ int_str lo @ ''<'' @ int_str hi"
| "format_version_spec (SpecSel (VersionMin lo)) = ''>='' @ int_str lo"
| "format_version_spec (SpecSel (VersionPinned v h)) = int_str v @ ''#'' @ h"

definition versioned_reference :: "string \<Rightarrow> string \<Rightarrow> selector \<Rightarrow> string" where
  "versioned_reference d name sel =
     (if CHR ''.'' \<in> set name then name else d @ ''.'' @ name) @ ''@'' @ format_version_spec sel"

fun decl_lineage :: "string \<Rightarrow> declaration_value \<Rightarrow> string list" where
  "decl_lineage d (DProjection p) =
     versioned_reference d (sr_model (pv_source p)) (SpecSel (sr_version (pv_source p)))
     # map (\<lambda>j. versioned_reference d (jr_model j) (SpecSel (jr_version j))) (pv_joins p)"
| "decl_lineage d (DEnum e) = [versioned_reference d (ep_source_name e) (IntSel (ep_source_version e))]"
| "decl_lineage d _ = []"

section \<open>Dependents and the reference check\<close>

definition resolves_to_version :: "signature_fn \<Rightarrow> mdl_file \<Rightarrow> string \<Rightarrow> version_spec \<Rightarrow> int \<Rightarrow> bool" where
  "resolves_to_version sig mdl ref ver n =
     (case resolve_model_ref sig mdl ref (SpecSel ver) of
        Inl _ \<Rightarrow> False | Inr r \<Rightarrow> decl_version (rd_declaration r) = n)"

definition depends_on_version :: "signature_fn \<Rightarrow> mdl_file \<Rightarrow> string \<Rightarrow> int \<Rightarrow> projection_version \<Rightarrow> bool" where
  "depends_on_version sig mdl ref n pv \<longleftrightarrow>
     (sr_model (pv_source pv) = ref \<and> resolves_to_version sig mdl ref (sr_version (pv_source pv)) n)
     \<or> list_ex (\<lambda>j. jr_model j = ref \<and> resolves_to_version sig mdl ref (jr_version j) n) (pv_joins pv)"

definition find_dependents ::
    "signature_fn \<Rightarrow> mdl_file \<Rightarrow> string \<Rightarrow> string \<Rightarrow> int \<Rightarrow> (string \<times> string \<times> int) list" where
  "find_dependents sig mdl d n version =
     concat (map (\<lambda>dm. concat (map (\<lambda>(pn, pvs).
        map (\<lambda>pv. (dm_name dm, pn, pv_version pv))
          (filter (depends_on_version sig mdl (d @ ''.'' @ n) version) pvs)) (dm_projections dm)))
       (mf_domains mdl))"

text \<open>An error of the check: where, which reference and selector, and what resolving it raised.\<close>

type_synonym reference_error = "string \<times> lookup_error"

definition lookup_errors :: "signature_fn \<Rightarrow> mdl_file \<Rightarrow> string \<Rightarrow> string \<Rightarrow> selector \<Rightarrow> reference_error list" where
  "lookup_errors sig mdl context ref sel =
     (case resolve_model_ref sig mdl ref sel of Inl e \<Rightarrow> [(context, e)] | Inr _ \<Rightarrow> [])"

definition projection_context :: "string \<Rightarrow> string \<Rightarrow> int \<Rightarrow> string" where
  "projection_context d n v = d @ ''.'' @ n @ ''@'' @ int_str v"

definition projection_errors :: "signature_fn \<Rightarrow> mdl_file \<Rightarrow> string \<Rightarrow> string \<Rightarrow> projection_version \<Rightarrow> reference_error list" where
  "projection_errors sig mdl d n pv =
     (let context = projection_context d n (pv_version pv) in
      lookup_errors sig mdl context (sr_model (pv_source pv)) (SpecSel (sr_version (pv_source pv)))
      @ concat (map (\<lambda>j. lookup_errors sig mdl context (jr_model j) (SpecSel (jr_version j))) (pv_joins pv)))"

definition validate_references :: "signature_fn \<Rightarrow> mdl_file \<Rightarrow> reference_error list" where
  "validate_references sig mdl =
     concat (map (\<lambda>dm. concat (map (\<lambda>(pn, pvs). concat (map (projection_errors sig mdl (dm_name dm) pn) pvs))
        (dm_projections dm))) (mf_domains mdl))
     @ concat (map (\<lambda>b. if bd_model b = [] then []
          else lookup_errors sig mdl (''binding '' @ bd_name b) (bd_model b) (IntSel (bd_model_version b)))
        (mf_bindings mdl))"

section \<open>Names of semantic types and enum projections\<close>

definition find_named_candidate :: "domain_def \<Rightarrow> string \<Rightarrow> string \<Rightarrow> int option \<Rightarrow> candidate option" where
  "find_named_candidate d name kind exact_version =
     (let candidates = filter (\<lambda>c. cd_name c = name \<and> cd_kind c = kind) (domain_candidates d) in
      case exact_version of
        None \<Rightarrow> max_by cd_version candidates
      | Some v \<Rightarrow> List.find (\<lambda>c. cd_version c = v) candidates)"

definition find_domain :: "mdl_file \<Rightarrow> string \<Rightarrow> domain_def option" where
  "find_domain mdl d = List.find (\<lambda>x. dm_name x = d) (mf_domains mdl)"

definition workspace_named_matches ::
    "mdl_file \<Rightarrow> string \<Rightarrow> string \<Rightarrow> int option \<Rightarrow> (declaration_value \<Rightarrow> 'a option) \<Rightarrow> (string \<times> 'a) list" where
  "workspace_named_matches mdl name kind exact_version select =
     List.map_filter (\<lambda>d. map_option (\<lambda>x. (dm_name d, x))
        (Option.bind (find_named_candidate d name kind exact_version) (\<lambda>c. select (cd_declaration c))))
       (mf_domains mdl)"

definition semantic_versions :: "domain_def list \<Rightarrow> string \<Rightarrow> int list" where
  "semantic_versions ds name =
     sorted_set (concat (map (\<lambda>d. map st_version (filter (\<lambda>s. st_name s = name) (dm_semantic_types d))) ds))"

definition projection_versions_of :: "domain_def list \<Rightarrow> string \<Rightarrow> int list" where
  "projection_versions_of ds name =
     sorted_set (concat (map (\<lambda>d. map ep_version (filter (\<lambda>e. ep_name e = name) (dm_enum_projections d))) ds))"

definition unknown_semantic_type_error :: "string \<Rightarrow> domain_def \<Rightarrow> string \<Rightarrow> int option \<Rightarrow> lookup_error" where
  "unknown_semantic_type_error name d type_name exact_version =
     (case exact_version of
        None \<Rightarrow> UnknownSemanticType name
      | Some v \<Rightarrow> NoSemanticVersion name v (semantic_versions [d] type_name))"

definition qualified_selector :: "int option \<Rightarrow> selector" where
  "qualified_selector exact_version =
     (case exact_version of Some v \<Rightarrow> IntSel v | None \<Rightarrow> SpecSel (VersionMin 0))"

text \<open>A qualified name: the shared service first, then the domain itself for the diagnostics.\<close>

definition resolve_qualified_semantic ::
    "signature_fn \<Rightarrow> mdl_file \<Rightarrow> string \<Rightarrow> int option \<Rightarrow> lookup_error + string \<times> semantic_type_decl" where
  "resolve_qualified_semantic sig mdl name exact_version =
     (let (domain_name, _, type_name) = partition1 CHR ''.'' name;
          by_domain = (case find_domain mdl domain_name of
              None \<Rightarrow> Inl (UnknownDomain domain_name name)
            | Some d \<Rightarrow>
                (case Option.bind (find_named_candidate d type_name ''semantic_type'' exact_version)
                        (\<lambda>c. as_semantic (cd_declaration c)) of
                   None \<Rightarrow> Inl (unknown_semantic_type_error name d type_name exact_version)
                 | Some s \<Rightarrow> Inr (domain_name, s)))
      in case resolve_declaration sig mdl name (qualified_selector exact_version) (Some [''semantic_type'']) of
           Inl _ \<Rightarrow> by_domain
         | Inr r \<Rightarrow> (case as_semantic (rd_declaration r) of
             Some s \<Rightarrow> Inr (rd_domain_name r, s) | None \<Rightarrow> by_domain))"

definition local_declaration ::
    "mdl_file \<Rightarrow> string \<Rightarrow> string \<Rightarrow> string \<Rightarrow> int option \<Rightarrow> (declaration_value \<Rightarrow> 'a option) \<Rightarrow> 'a option" where
  "local_declaration mdl current_domain name kind exact_version select =
     Option.bind (find_domain mdl current_domain) (\<lambda>d.
       Option.bind (find_named_candidate d name kind exact_version) (\<lambda>c. select (cd_declaration c)))"

definition unknown_bare_semantic :: "mdl_file \<Rightarrow> string \<Rightarrow> int option \<Rightarrow> lookup_error" where
  "unknown_bare_semantic mdl name exact_version =
     (let known_domains = filter (\<lambda>d. list_ex (\<lambda>s. st_name s = name) (dm_semantic_types d)) (mf_domains mdl) in
      case exact_version of
        Some v \<Rightarrow> if known_domains \<noteq> [] then NoSemanticVersion name v (semantic_versions known_domains name)
                  else UnknownSemanticType name
      | None \<Rightarrow> UnknownSemanticType name)"

text \<open>\<^verbatim>\<open>_resolve_semantic_type_ref\<close>\<close>

definition resolve_semantic_name ::
    "signature_fn \<Rightarrow> mdl_file \<Rightarrow> string \<Rightarrow> string \<Rightarrow> int option \<Rightarrow> lookup_error + string \<times> semantic_type_decl" where
  "resolve_semantic_name sig mdl current_domain name exact_version =
     (if CHR ''.'' \<in> set name then resolve_qualified_semantic sig mdl name exact_version
      else case local_declaration mdl current_domain name ''semantic_type'' exact_version as_semantic of
        Some s \<Rightarrow> Inr (current_domain, s)
      | None \<Rightarrow>
          (case workspace_named_matches mdl name ''semantic_type'' exact_version as_semantic of
             [] \<Rightarrow> Inl (unknown_bare_semantic mdl name exact_version)
           | [m] \<Rightarrow> Inr m
           | ms \<Rightarrow> Inl (AmbiguousType name (map (\<lambda>(d, s). d @ ''.'' @ st_name s) ms))))"

fun is_ambiguous :: "lookup_error \<Rightarrow> bool" where
  "is_ambiguous (AmbiguousType _ _) = True"
| "is_ambiguous _ = False"

text \<open>The projection lookup that follows a semantic lookup which failed with \<open>e\<close>.\<close>

definition projection_fallback ::
    "mdl_file \<Rightarrow> string \<Rightarrow> string \<Rightarrow> int option \<Rightarrow> lookup_error \<Rightarrow> lookup_error + string \<times> enum_projection_decl" where
  "projection_fallback mdl current_domain name exact_version e =
     (if CHR ''.'' \<in> set name
      then let (domain_name, _, projection_name) = partition1 CHR ''.'' name in
           case Option.bind (find_domain mdl domain_name) (\<lambda>d.
                  Option.bind (find_named_candidate d projection_name ''enum_projection'' exact_version)
                    (\<lambda>c. as_enum (cd_declaration c))) of
             None \<Rightarrow> Inl e
           | Some p \<Rightarrow> Inr (domain_name, p)
      else case local_declaration mdl current_domain name ''enum_projection'' exact_version as_enum of
        Some p \<Rightarrow> Inr (current_domain, p)
      | None \<Rightarrow>
          (case workspace_named_matches mdl name ''enum_projection'' exact_version as_enum of
             [] \<Rightarrow> Inl (case exact_version of
                 None \<Rightarrow> e
               | Some v \<Rightarrow> (let known = projection_versions_of (mf_domains mdl) name in
                   if known \<noteq> [] then NoProjectionVersion name v known else e))
           | [m] \<Rightarrow> Inr m
           | ms \<Rightarrow> Inl (AmbiguousType name (map (\<lambda>(d, p). d @ ''.'' @ ep_name p) ms))))"

text \<open>\<^verbatim>\<open>_resolve_enum_type_ref\<close>\<close>

definition resolve_enum_name ::
    "signature_fn \<Rightarrow> mdl_file \<Rightarrow> string \<Rightarrow> string \<Rightarrow> int option
     \<Rightarrow> lookup_error + string \<times> (semantic_type_decl + enum_projection_decl)" where
  "resolve_enum_name sig mdl current_domain name exact_version =
     (case resolve_semantic_name sig mdl current_domain name exact_version of
        Inr (d, s) \<Rightarrow> Inr (d, Inl s)
      | Inl e \<Rightarrow>
          if is_ambiguous e then Inl e
          else sbind (projection_fallback mdl current_domain name exact_version e)
                 (\<lambda>(d, p). Inr (d, Inr p)))"

definition named_declaration ::
    "signature_fn \<Rightarrow> mdl_file \<Rightarrow> string \<times> (semantic_type_decl + enum_projection_decl) \<Rightarrow> lookup_error + resolved_declaration" where
  "named_declaration sig mdl found =
     (case found of
        (d, Inl s) \<Rightarrow> resolve_declaration sig mdl (d @ ''.'' @ st_name s) (IntSel (st_version s)) (Some [''semantic_type''])
      | (d, Inr p) \<Rightarrow> resolve_declaration sig mdl (d @ ''.'' @ ep_name p) (IntSel (ep_version p)) (Some [''enum_projection'']))"

definition resolve_named_declaration ::
    "signature_fn \<Rightarrow> mdl_file \<Rightarrow> string \<Rightarrow> string \<Rightarrow> int option \<Rightarrow> bool \<Rightarrow> lookup_error + resolved_declaration" where
  "resolve_named_declaration sig mdl current_domain name exact_version include_enum_projections =
     (if include_enum_projections
      then sbind (resolve_enum_name sig mdl current_domain name exact_version) (named_declaration sig mdl)
      else sbind (resolve_semantic_name sig mdl current_domain name exact_version)
             (\<lambda>(d, s). named_declaration sig mdl (d, Inl s)))"

definition resolve_semantic_type_ref ::
    "signature_fn \<Rightarrow> mdl_file \<Rightarrow> string \<Rightarrow> string \<Rightarrow> int option \<Rightarrow> lookup_error + string \<times> semantic_type_decl" where
  "resolve_semantic_type_ref sig mdl current_domain name exact_version =
     sbind (resolve_named_declaration sig mdl current_domain name exact_version False) (\<lambda>r.
       case as_semantic (rd_declaration r) of
         None \<Rightarrow> Inl WrongDeclaration | Some s \<Rightarrow> Inr (rd_domain_name r, s))"

definition resolve_enum_type_ref ::
    "signature_fn \<Rightarrow> mdl_file \<Rightarrow> string \<Rightarrow> string \<Rightarrow> int option
     \<Rightarrow> lookup_error + string \<times> (semantic_type_decl + enum_projection_decl)" where
  "resolve_enum_type_ref sig mdl current_domain name exact_version =
     sbind (resolve_named_declaration sig mdl current_domain name exact_version True) (\<lambda>r.
       case rd_declaration r of
         DSemantic s \<Rightarrow> Inr (rd_domain_name r, Inl s)
       | DEnum p \<Rightarrow> Inr (rd_domain_name r, Inr p)
       | _ \<Rightarrow> Inl WrongDeclaration)"

section \<open>Facts about candidates\<close>

lemma candidate_semantic:
  assumes "c \<in> set (domain_candidates d)" and "cd_kind c = ''semantic_type''"
  obtains s where "s \<in> set (dm_semantic_types d)" and "c = mk_candidate d (st_name s) (DSemantic s)"
  using assms by (auto simp: domain_candidates_def cd_kind_def mk_candidate_def)

lemma candidate_domain: "c \<in> set (domain_candidates d) \<Longrightarrow> cd_domain_name c = dm_name d"
  by (auto simp: domain_candidates_def mk_candidate_def)

lemma kind_model_iff: "cd_kind c \<in> set [''model'', ''projection''] \<longleftrightarrow> is_model_or_projection (cd_declaration c)"
  by (cases "cd_declaration c") (auto simp: cd_kind_def)

text \<open>The versions of a model or projection.\<close>

definition model_candidates :: "mdl_file \<Rightarrow> string \<Rightarrow> string \<Rightarrow> candidate list" where
  "model_candidates mdl d n =
     filter (\<lambda>c. cd_domain_name c = d \<and> cd_name c = n \<and> is_model_or_projection (cd_declaration c))
       (declaration_candidates mdl)"

definition newest_match :: "signature_fn \<Rightarrow> mdl_file \<Rightarrow> string \<Rightarrow> string \<Rightarrow> selector \<Rightarrow> candidate \<Rightarrow> bool" where
  "newest_match sig mdl d n sel c \<longleftrightarrow>
     c \<in> set (model_candidates mdl d n) \<and> matches_declaration sig c sel d n \<and>
     (\<forall>c' \<in> set (model_candidates mdl d n). matches_declaration sig c' sel d n \<longrightarrow> cd_version c' \<le> cd_version c)"

text \<open>No breaking version of the model lies after the start of the range, up to version \<open>v\<close>.\<close>

definition safe_range :: "mdl_file \<Rightarrow> string \<Rightarrow> string \<Rightarrow> selector \<Rightarrow> int \<Rightarrow> bool" where
  "safe_range mdl d n sel v \<longleftrightarrow>
     (case range_start sel of None \<Rightarrow> True
      | Some lo \<Rightarrow> \<not> (\<exists>c \<in> set (model_candidates mdl d n).
          is_breaking_model (cd_declaration c) \<and> lo < cd_version c \<and> cd_version c \<le> v))"

lemma blocking_None:
  "blocking_change mdl d n lo v = None \<longleftrightarrow>
     \<not> (\<exists>c \<in> set (model_candidates mdl d n). is_breaking_model (cd_declaration c) \<and> lo < cd_version c \<and> cd_version c \<le> v)"
  by (auto simp: blocking_change_def find_None_iff find_model_versions_def model_candidates_def
      kind_model_iff cd_version_def simp del: set_simps)

lemma resolve_model_declaration:
  assumes "split_model_ref ref = Inr (d, n)"
  shows "resolve_declaration sig mdl ref sel (Some [''model'', ''projection'']) =
     (case max_by cd_version (filter (\<lambda>c. matches_declaration sig c sel d n) (model_candidates mdl d n)) of
        None \<Rightarrow> Inl (UnresolvedDeclaration ref sel) | Some c \<Rightarrow> Inr (resolved_of c))"
  by (simp add: assms resolve_declaration_def model_candidates_def kind_model_iff Let_def del: set_simps)

lemma rd_resolved_of [simp]:
  "rd_declaration (resolved_of c) = cd_declaration c" "rd_domain_name (resolved_of c) = cd_domain_name c"
  "rd_version_number (resolved_of c) = cd_version c" "rd_name (resolved_of c) = cd_name c"
  by (simp_all add: resolved_of_def)

lemma resolve_model_ref_eq:
  assumes "split_model_ref ref = Inr (d, n)"
  shows "resolve_model_ref sig mdl ref sel = Inr r \<longleftrightarrow>
     (\<exists>c. max_by cd_version (filter (\<lambda>c. matches_declaration sig c sel d n) (model_candidates mdl d n)) = Some c
       \<and> r = resolved_of c \<and> safe_range mdl d n sel (cd_version c))"
proof -
  let ?m = "max_by cd_version (filter (\<lambda>c. matches_declaration sig c sel d n) (model_candidates mdl d n))"
  show ?thesis
  proof (cases ?m)
    case None
    then show ?thesis by (simp add: assms resolve_model_ref_def resolve_model_declaration)
  next
    case (Some c)
    from max_by_in [OF this] have "is_model_or_projection (cd_declaration c)"
      by (simp add: model_candidates_def)
    with Some have step: "resolve_model_ref sig mdl ref sel =
        (case range_start sel of None \<Rightarrow> Inr (resolved_of c)
         | Some lo \<Rightarrow> (case blocking_change mdl d n lo (cd_version c) of
             Some v \<Rightarrow> Inl (BreakingChange ref sel (decl_version v)) | None \<Rightarrow> Inr (resolved_of c)))"
      by (simp add: assms resolve_model_ref_def resolve_model_declaration cd_version_def [symmetric]
          split: option.split)
    show ?thesis
    proof (cases "range_start sel")
      case (Some lo)
      then show ?thesis
        using \<open>?m = Some c\<close> blocking_None [of mdl d n lo "cd_version c"]
        by (cases "blocking_change mdl d n lo (cd_version c)") (auto simp: step safe_range_def)
    qed (use Some in \<open>auto simp: step safe_range_def\<close>)
  qed
qed

lemma max_by_newest:
  "max_by cd_version (filter (\<lambda>c. matches_declaration sig c sel d n) (model_candidates mdl d n)) = Some c
     \<Longrightarrow> newest_match sig mdl d n sel c"
  using max_by_in [of cd_version "filter (\<lambda>c. matches_declaration sig c sel d n) (model_candidates mdl d n)" c]
    max_by_ge [of cd_version "filter (\<lambda>c. matches_declaration sig c sel d n) (model_candidates mdl d n)" c]
  by (auto simp: newest_match_def)

lemma resolve_model_ref_sound:
  assumes "resolve_model_ref sig mdl ref sel = Inr r"
  obtains d n c where "split_model_ref ref = Inr (d, n)" and "newest_match sig mdl d n sel c"
    and "r = resolved_of c" and "safe_range mdl d n sel (cd_version c)"
proof -
  obtain d n where s: "split_model_ref ref = Inr (d, n)"
    using assms by (auto simp: resolve_model_ref_def)
  with assms resolve_model_ref_eq [OF s] max_by_newest that show thesis by metis
qed

lemma resolve_model_ref_complete:
  assumes s: "split_model_ref ref = Inr (d, n)" and c: "newest_match sig mdl d n sel c"
    and safe: "safe_range mdl d n sel (cd_version c)"
  shows "\<exists>r. resolve_model_ref sig mdl ref sel = Inr r"
proof -
  let ?cs = "filter (\<lambda>c. matches_declaration sig c sel d n) (model_candidates mdl d n)"
  have "c \<in> set ?cs" using c by (simp add: newest_match_def)
  then obtain c' where c': "max_by cd_version ?cs = Some c'"
    by (metis empty_iff empty_set max_by_None not_None_eq)
  from max_by_ge [OF this \<open>c \<in> set ?cs\<close>] max_by_in [OF this] c
  have "cd_version c' = cd_version c" by (auto simp: newest_match_def)
  with safe c' have "resolve_model_ref sig mdl ref sel = Inr (resolved_of c')"
    by (simp add: resolve_model_ref_eq [OF s])
  then show ?thesis ..
qed

section \<open>The latest declarations of a domain\<close>

lemma latest_by_map:
  "latest_by name ver (map f xs) = map f (latest_by (\<lambda>x. name (f x)) (\<lambda>x. ver (f x)) xs)"
proof -
  let ?g = "map (\<lambda>(k, v). (k, f v))"
  have look: "map_of (?g d) k = map_option f (map_of d k)" for d k
    by (induction d) auto
  have put: "dict_put k (f x) (?g d) = ?g (dict_put k x d)" for k x d
    by (induction d) auto
  have "foldl (latest_step name ver) (?g d) (map f xs) =
      ?g (foldl (latest_step (\<lambda>x. name (f x)) (\<lambda>x. ver (f x))) d xs)" for d
    by (induction xs arbitrary: d) (auto simp: latest_step_def look put split: option.split)
  from this [of "[]"] show ?thesis
    by (simp add: latest_by_def) (simp add: case_prod_unfold)
qed

lemma filter_none: "(\<And>x. x \<in> set xs \<Longrightarrow> \<not> P x) \<Longrightarrow> filter P xs = []"
  by (simp add: filter_empty_conv)

lemma semantic_candidates:
  "filter (\<lambda>c. cd_kind c = ''semantic_type'') (domain_candidates d)
     = map (\<lambda>s. mk_candidate d (st_name s) (DSemantic s)) (dm_semantic_types d)"
proof -
  have "filter (\<lambda>c. cd_kind c = ''semantic_type'') (map (\<lambda>s. mk_candidate d (st_name s) (DSemantic s)) ss)
      = map (\<lambda>s. mk_candidate d (st_name s) (DSemantic s)) ss" for ss
    by (simp add: filter_id_conv mk_candidate_def cd_kind_def)
  then show ?thesis
    unfolding domain_candidates_def filter_append
    by (simp add: filter_none mk_candidate_def cd_kind_def split_def)
qed

lemma enum_candidates:
  "filter (\<lambda>c. cd_kind c = ''enum_projection'') (domain_candidates d)
     = map (\<lambda>e. mk_candidate d (ep_name e) (DEnum e)) (dm_enum_projections d)"
proof -
  have "filter (\<lambda>c. cd_kind c = ''enum_projection'') (map (\<lambda>e. mk_candidate d (ep_name e) (DEnum e)) es)
      = map (\<lambda>e. mk_candidate d (ep_name e) (DEnum e)) es" for es
    by (simp add: filter_id_conv mk_candidate_def cd_kind_def)
  then show ?thesis
    unfolding domain_candidates_def filter_append
    by (simp add: filter_none mk_candidate_def cd_kind_def split_def)
qed

lemma map_filter_all: "List.map_filter (\<lambda>x. Some (f x)) xs = map f xs"
  by (induction xs) (simp_all add: List.map_filter_def)

lemma latest_semantic_agree: "latest_semantic_type_declarations d = latest_semantic_types d"
  unfolding latest_semantic_type_declarations_def latest_declaration_candidates_def semantic_candidates
    latest_by_map
  by (simp add: latest_semantic_types_def mk_candidate_def cd_version_def List.map_filter_def o_def)

lemma latest_enum_agree: "latest_enum_projection_declarations d = latest_enum_projections d"
  unfolding latest_enum_projection_declarations_def latest_declaration_candidates_def enum_candidates
    latest_by_map
  by (simp add: latest_enum_projections_def mk_candidate_def cd_version_def List.map_filter_def o_def)

section \<open>The reference check and the dependents\<close>

text \<open>Every reference of a workspace with its selector.\<close>

definition projection_references :: "projection_version \<Rightarrow> (string \<times> selector) list" where
  "projection_references pv =
     (sr_model (pv_source pv), SpecSel (sr_version (pv_source pv)))
     # map (\<lambda>j. (jr_model j, SpecSel (jr_version j))) (pv_joins pv)"

definition all_projections :: "mdl_file \<Rightarrow> (string \<times> string \<times> projection_version) list" where
  "all_projections mdl =
     concat (map (\<lambda>d. concat (map (\<lambda>(n, pvs). map (\<lambda>pv. (dm_name d, n, pv)) pvs) (dm_projections d)))
       (mf_domains mdl))"

definition references :: "mdl_file \<Rightarrow> (string \<times> selector) list" where
  "references mdl =
     concat (map (\<lambda>(d, n, pv). projection_references pv) (all_projections mdl))
     @ map (\<lambda>b. (bd_model b, IntSel (bd_model_version b))) (filter (\<lambda>b. bd_model b \<noteq> []) (mf_bindings mdl))"

lemma lookup_errors_Nil: "lookup_errors sig mdl c ref sel = [] \<longleftrightarrow> (\<exists>r. resolve_model_ref sig mdl ref sel = Inr r)"
  by (auto simp: lookup_errors_def split: sum.splits)

lemma concat_map_Nil: "concat (map f xs) = [] \<longleftrightarrow> list_all (\<lambda>x. f x = []) xs"
  by (induction xs) auto

lemma list_all_concat_map: "list_all P (concat (map f xs)) \<longleftrightarrow> list_all (\<lambda>x. list_all P (f x)) xs"
  by (induction xs) auto

lemma list_all_map: "list_all P (map f xs) \<longleftrightarrow> list_all (\<lambda>x. P (f x)) xs"
  by (induction xs) auto

lemma list_all_filter: "list_all P (filter Q xs) \<longleftrightarrow> list_all (\<lambda>x. Q x \<longrightarrow> P x) xs"
  by (induction xs) auto

lemmas list_all_pushes = concat_map_Nil list_all_concat_map list_all_map list_all_filter case_prod_unfold

lemma validate_references_Nil:
  "validate_references sig mdl = [] \<longleftrightarrow>
     list_all (\<lambda>(ref, sel). \<exists>r. resolve_model_ref sig mdl ref sel = Inr r) (references mdl)"
proof -
  have binding: "(if bd_model b = [] then [] else lookup_errors sig mdl (''binding '' @ bd_name b) (bd_model b)
      (IntSel (bd_model_version b))) = [] \<longleftrightarrow> (bd_model b \<noteq> [] \<longrightarrow>
      (\<exists>r. resolve_model_ref sig mdl (bd_model b) (IntSel (bd_model_version b)) = Inr r))" for b
    by (simp add: lookup_errors_Nil)
  have projection: "projection_errors sig mdl d n pv = [] \<longleftrightarrow>
      list_all (\<lambda>x. \<exists>r. resolve_model_ref sig mdl (fst x) (snd x) = Inr r) (projection_references pv)" for d n pv
    by (simp add: projection_errors_def projection_references_def Let_def lookup_errors_Nil list_all_pushes list_all_iff)
  show ?thesis
    unfolding validate_references_def references_def all_projections_def append_is_Nil_conv list_all_append
      list_all_pushes binding projection
    by simp
qed

lemma resolves_to_version_iff:
  "resolves_to_version sig mdl ref ver n \<longleftrightarrow>
     (\<exists>r. resolve_model_ref sig mdl ref (SpecSel ver) = Inr r \<and> decl_version (rd_declaration r) = n)"
  by (simp add: resolves_to_version_def split: sum.split)

lemma depends_iff:
  "depends_on_version sig mdl ref n pv \<longleftrightarrow>
     (\<exists>ver. (ref, SpecSel ver) \<in> set (projection_references pv) \<and> resolves_to_version sig mdl ref ver n)"
  by (auto simp: depends_on_version_def projection_references_def list_ex_iff image_iff)

lemma find_dependents_eq:
  "find_dependents sig mdl d n version =
     map (\<lambda>(d', n', pv). (d', n', pv_version pv))
       (filter (\<lambda>(d', n', pv). depends_on_version sig mdl (d @ ''.'' @ n) version pv) (all_projections mdl))"
  by (simp add: find_dependents_def all_projections_def filter_concat map_concat filter_map o_def case_prod_unfold)

section \<open>Bare names\<close>

text \<open>A domain declares a semantic type of that name, at that version where one is asked for.\<close>

definition declares :: "domain_def \<Rightarrow> string \<Rightarrow> int option \<Rightarrow> semantic_type_decl \<Rightarrow> bool" where
  "declares d name exact_version s \<longleftrightarrow>
     s \<in> set (dm_semantic_types d) \<and> st_name s = name
     \<and> (case exact_version of Some v \<Rightarrow> st_version s = v
        | None \<Rightarrow> (\<forall>s' \<in> set (dm_semantic_types d). st_name s' = name \<longrightarrow> st_version s' \<le> st_version s))"

definition declared :: "domain_def \<Rightarrow> string \<Rightarrow> int option \<Rightarrow> semantic_type_decl option" where
  "declared d name exact_version =
     Option.bind (find_named_candidate d name ''semantic_type'' exact_version) (\<lambda>c. as_semantic (cd_declaration c))"

lemma named_semantic_filter:
  "filter (\<lambda>c. cd_name c = name \<and> cd_kind c = ''semantic_type'') (domain_candidates d)
     = map (\<lambda>s. mk_candidate d (st_name s) (DSemantic s)) (filter (\<lambda>s. st_name s = name) (dm_semantic_types d))"
proof -
  have "filter (\<lambda>c. cd_name c = name \<and> cd_kind c = ''semantic_type'') (domain_candidates d)
      = filter (\<lambda>c. cd_name c = name) (filter (\<lambda>c. cd_kind c = ''semantic_type'') (domain_candidates d))"
    by (simp add: conj_commute)
  then show ?thesis by (simp add: semantic_candidates filter_map o_def mk_candidate_def)
qed

lemma max_by_map: "max_by f (map g xs) = map_option g (max_by (\<lambda>x. f (g x)) xs)"
proof -
  have "max_from f (g m) (map g xs) = g (max_from (\<lambda>x. f (g x)) m xs)" for m xs
    by (induction xs arbitrary: m) auto
  then show ?thesis by (cases xs) auto
qed

lemma find_map: "List.find P (map g xs) = map_option g (List.find (\<lambda>x. P (g x)) xs)"
  by (induction xs) auto

lemma declared_eq:
  "declared d name ev =
     (let ss = filter (\<lambda>s. st_name s = name) (dm_semantic_types d) in
      case ev of None \<Rightarrow> max_by st_version ss | Some v \<Rightarrow> List.find (\<lambda>s. st_version s = v) ss)"
  by (simp add: declared_def find_named_candidate_def named_semantic_filter Let_def max_by_map find_map
      mk_candidate_def cd_version_def option.map_comp o_def bind_map_option map_option.identity
      split: option.split)

lemma declared_Some: "declared d name ev = Some s \<Longrightarrow> declares d name ev s"
  using max_by_in [of st_version "filter (\<lambda>s. st_name s = name) (dm_semantic_types d)" s]
    max_by_ge [of st_version "filter (\<lambda>s. st_name s = name) (dm_semantic_types d)" s]
  by (auto simp: declared_eq declares_def Let_def dest: find_Some_D split: option.splits)

lemma declared_None: "declared d name ev = None \<Longrightarrow> \<not> declares d name ev s"
  by (auto simp: declared_eq declares_def Let_def filter_empty_conv find_None_iff split: option.splits)

lemma find_domain_Some: "find_domain mdl d = Some x \<Longrightarrow> x \<in> set (mf_domains mdl) \<and> dm_name x = d"
  by (auto simp: find_domain_def dest: find_Some_D)

lemma workspace_matches:
  "workspace_named_matches mdl name ''semantic_type'' ev as_semantic =
     List.map_filter (\<lambda>d. map_option (\<lambda>s. (dm_name d, s)) (declared d name ev)) (mf_domains mdl)"
  by (simp add: workspace_named_matches_def declared_def)

lemma map_filter_single:
  "List.map_filter f xs = [y] \<Longrightarrow> \<exists>x \<in> set xs. f x = Some y \<and> (\<forall>x' \<in> set xs. f x' = None \<or> f x' = Some y)"
proof (induction xs)
  case (Cons x xs)
  show ?case
  proof (cases "f x")
    case (Some z)
    with Cons.prems have "z = y" and "List.map_filter f xs = []" by (auto simp: List.map_filter_simps)
    then have "\<forall>x' \<in> set xs. f x' = None"
      by (auto simp: List.map_filter_def filter_empty_conv)
    with Some \<open>z = y\<close> show ?thesis by auto
  qed (use Cons in \<open>auto simp: List.map_filter_simps\<close>)
qed (simp add: List.map_filter_simps)

lemma bare_semantic_sound:
  assumes "CHR ''.'' \<notin> set name" and "resolve_semantic_name sig mdl cur name ev = Inr (d, s)"
  shows "\<exists>dm \<in> set (mf_domains mdl). dm_name dm = d \<and> declares dm name ev s \<and>
     (d = cur \<or> (\<forall>dm' \<in> set (mf_domains mdl). \<forall>s'. declares dm' name ev s' \<longrightarrow> dm_name dm' = d))"
proof (cases "local_declaration mdl cur name ''semantic_type'' ev as_semantic")
  case None
  with assms have m: "workspace_named_matches mdl name ''semantic_type'' ev as_semantic = [(d, s)]"
    by (auto simp: resolve_semantic_name_def split: list.splits)
  from map_filter_single [OF m [unfolded workspace_matches]]
  obtain dm where dm: "dm \<in> set (mf_domains mdl)" "dm_name dm = d" "declared dm name ev = Some s"
    and only: "\<forall>x' \<in> set (mf_domains mdl). declared x' name ev = None \<or> dm_name x' = d"
    by auto
  from dm(1,2) declared_Some [OF dm(3)] only declared_None show ?thesis by metis
next
  case (Some s')
  with assms have "d = cur" "s' = s" by (auto simp: resolve_semantic_name_def)
  moreover from Some obtain dm where "find_domain mdl cur = Some dm" "declared dm name ev = Some s'"
    by (auto simp: local_declaration_def declared_def split: Option.bind_splits)
  ultimately show ?thesis using find_domain_Some declared_Some by metis
qed

lemma split_model_ref_joined:
  "CHR ''.'' \<notin> set d \<Longrightarrow> split_model_ref (d @ ''.'' @ n) = Inr (d', n') \<Longrightarrow> d' = d \<and> n' = n"
  by (auto simp: split_model_ref_def partition1_append split: if_splits)

lemma resolve_declaration_sound:
  assumes "resolve_declaration sig mdl ref sel kinds = Inr r" and "split_model_ref ref = Inr (d, n)"
  obtains c where "c \<in> set (declaration_candidates mdl)" and "cd_domain_name c = d" and "cd_name c = n"
    and "matches_declaration sig c sel d n" and "r = resolved_of c"
    and "case kinds of None \<Rightarrow> True | Some ks \<Rightarrow> cd_kind c \<in> set ks"
  using assms by (auto simp: resolve_declaration_def Let_def dest!: max_by_in split: option.splits)

lemma named_semantic_sound:
  assumes "named_declaration sig mdl (d, Inl s) = Inr r" and "CHR ''.'' \<notin> set d"
  obtains s' where "rd_declaration r = DSemantic s'" and "rd_domain_name r = d"
    and "st_name s' = st_name s" and "st_version s' = st_version s"
proof -
  from assms(1) have res: "resolve_declaration sig mdl (d @ ''.'' @ st_name s) (IntSel (st_version s))
      (Some [''semantic_type'']) = Inr r" by (simp add: named_declaration_def)
  then obtain d' n' where split: "split_model_ref (d @ ''.'' @ st_name s) = Inr (d', n')"
    by (auto simp: resolve_declaration_def)
  with split_model_ref_joined [OF assms(2)] have dn: "d' = d" "n' = st_name s" by auto
  from res split obtain c where c: "c \<in> set (declaration_candidates mdl)" "cd_domain_name c = d'" "cd_name c = n'"
    "cd_version c = st_version s" "r = resolved_of c" "cd_kind c = ''semantic_type''"
    by (rule resolve_declaration_sound) auto
  then obtain dm where "c \<in> set (domain_candidates dm)" by (auto simp: declaration_candidates_def)
  from candidate_semantic [OF this c(6)] obtain s' where "c = mk_candidate dm (st_name s') (DSemantic s')" .
  with c dn that show thesis by (auto simp: mk_candidate_def cd_version_def)
qed

lemma semantic_ref_sound:
  assumes "list_all (\<lambda>d. CHR ''.'' \<notin> set (dm_name d)) (mf_domains mdl)" and "CHR ''.'' \<notin> set name"
    and "resolve_semantic_type_ref sig mdl cur name ev = Inr (d, s)"
  shows "st_name s = name \<and> (\<exists>dm \<in> set (mf_domains mdl). \<exists>s0. dm_name dm = d \<and> declares dm name ev s0
     \<and> st_version s = st_version s0
     \<and> (d = cur \<or> (\<forall>dm' \<in> set (mf_domains mdl). \<forall>s'. declares dm' name ev s' \<longrightarrow> dm_name dm' = d)))"
proof -
  obtain d0 s0 r where found: "resolve_semantic_name sig mdl cur name ev = Inr (d0, s0)"
    and named: "named_declaration sig mdl (d0, Inl s0) = Inr r" and r: "as_semantic (rd_declaration r) = Some s"
    "rd_domain_name r = d"
    using assms(3) by (auto simp: resolve_semantic_type_ref_def resolve_named_declaration_def split: option.splits)
  from bare_semantic_sound [OF assms(2) found] obtain dm where dm: "dm \<in> set (mf_domains mdl)" "dm_name dm = d0"
    "declares dm name ev s0"
    and unique: "d0 = cur \<or> (\<forall>dm' \<in> set (mf_domains mdl). \<forall>s'. declares dm' name ev s' \<longrightarrow> dm_name dm' = d0)"
    by blast
  have dot: "CHR ''.'' \<notin> set d0" using assms(1) dm(1,2) unfolding list_all_iff by blast
  have "rd_declaration r = DSemantic s" using r(1) by (cases "rd_declaration r") simp_all
  with named_semantic_sound [OF named dot] r(2)
  have eq: "d = d0" "st_name s = st_name s0" "st_version s = st_version s0"
    by (metis declaration_value.inject(3))+
  from dm(3) have "st_name s0 = name" by (simp add: declares_def)
  with dm unique eq show ?thesis by metis
qed

section \<open>Properties\<close>

text \<open>
  C11. A reference that resolves is resolved to the newest version that its selector admits, among the
  models and projections of the domain and name it spells; for a range or a minimum, no breaking
  version lies after the start of the range up to the selected version.
\<close>

theorem resolve_model_ref_newest:
  assumes "resolve_model_ref sig mdl ref sel = Inr r"
  shows "\<exists>d n c. split_model_ref ref = Inr (d, n) \<and> newest_match sig mdl d n sel c \<and> r = resolved_of c
    \<and> safe_range mdl d n sel (cd_version c)"
  by (rule resolve_model_ref_sound [OF assms]) blast

text \<open>
  Resolution fails only where it has to: a reference resolves if and only if it is well formed, some
  version is the newest match, and no breaking version blocks the range up to it.
\<close>

theorem resolve_model_ref_total:
  "(\<exists>r. resolve_model_ref sig mdl ref sel = Inr r) \<longleftrightarrow>
     (\<exists>d n c. split_model_ref ref = Inr (d, n) \<and> newest_match sig mdl d n sel c
        \<and> safe_range mdl d n sel (cd_version c))"
proof (intro iffI; elim exE conjE)
  fix r
  assume "resolve_model_ref sig mdl ref sel = Inr r"
  then show "\<exists>d n c. split_model_ref ref = Inr (d, n) \<and> newest_match sig mdl d n sel c
      \<and> safe_range mdl d n sel (cd_version c)"
    by (rule resolve_model_ref_sound) blast
qed (rule resolve_model_ref_complete)

text \<open>
  The reference check is exact: it reports nothing if and only if every source, join and binding of
  the workspace resolves.
\<close>

theorem validate_references_exact:
  "validate_references sig mdl = [] \<longleftrightarrow>
     list_all (\<lambda>(ref, sel). \<exists>r. resolve_model_ref sig mdl ref sel = Inr r) (references mdl)"
  by (rule validate_references_Nil)

text \<open>
  The dependents of a model version are exact and in the order of the workspace: the projection
  versions with a source or a join that names the model and resolves to that version.
\<close>

theorem find_dependents_exact:
  "find_dependents sig mdl d n version =
     map (\<lambda>(d', n', pv). (d', n', pv_version pv))
       (filter (\<lambda>(d', n', pv). \<exists>ver r. (d @ ''.'' @ n, SpecSel ver) \<in> set (projection_references pv) \<and>
            resolve_model_ref sig mdl (d @ ''.'' @ n) (SpecSel ver) = Inr r \<and>
            decl_version (rd_declaration r) = version) (all_projections mdl))"
  unfolding find_dependents_eq depends_iff resolves_to_version_iff by (simp add: ex_simps)

text \<open>
  The resolver's own selection of the latest declarations agrees with the one of the intermediate
  representation, for semantic types and for enum projections.
\<close>

theorem latest_declarations_agree:
  "latest_semantic_type_declarations d = latest_semantic_types d \<and>
   latest_enum_projection_declarations d = latest_enum_projections d"
  by (simp add: latest_semantic_agree latest_enum_agree)

text \<open>
  A bare name of a semantic type is never resolved by accident: the result has that name and the
  version that was asked for (the latest of its domain otherwise), and it is declared in the current
  domain or in the only domain of the workspace that declares it.
\<close>

theorem bare_name_unambiguous:
  assumes "list_all (\<lambda>d. CHR ''.'' \<notin> set (dm_name d)) (mf_domains mdl)" and "CHR ''.'' \<notin> set name"
    and "resolve_semantic_type_ref sig mdl cur name ev = Inr (d, s)"
  shows "st_name s = name \<and> (\<exists>dm \<in> set (mf_domains mdl). \<exists>s0. dm_name dm = d \<and> declares dm name ev s0
     \<and> st_version s = st_version s0
     \<and> (d = cur \<or> (\<forall>dm' \<in> set (mf_domains mdl). \<forall>s'. declares dm' name ev s' \<longrightarrow> dm_name dm' = d)))"
  by (rule semantic_ref_sound [OF assms])

section \<open>Witnesses\<close>

definition sample_model :: "int \<Rightarrow> change_kind \<Rightarrow> model_version" where
  "sample_model v k = \<lparr>mv_model_kind = Entity, mv_version = v, mv_change_kind = k, mv_fields = [], mv_access = None,
     mv_has_version_header = True, mv_has_change_kind = True, mv_annotations = [],
     mv_protobuf_reservations = None, mv_provenance = []\<rparr>"

definition sample_money :: semantic_type_decl where
  "sample_money = \<lparr>st_name = ''Money'', st_underlying = DecimalType 10 2, st_version = 1,
     st_change_kind = Additive, st_has_version_header = True, st_has_change_kind = True, st_registry = False\<rparr>"

definition sample_shop :: domain_def where
  "sample_shop = \<lparr>dm_name = ''shop'', dm_owner = None, dm_contact = None, dm_description = None,
     dm_models = [(''Order'', [sample_model 1 Additive, sample_model 2 Additive, sample_model 3 Breaking])],
     dm_projections = [], dm_auto_projections = [], dm_apis = [], dm_generate_targets = [],
     dm_semantic_types = [sample_money], dm_enum_projections = [], dm_index_decls = [], dm_model_evolutions = []\<rparr>"

definition sample_workspace :: mdl_file where
  "sample_workspace = \<lparr>mf_domains = [sample_shop], mf_bindings = [], mf_imports = [], mf_workspace = None\<rparr>"

lemma sample_resolution:
  "resolve_model_ref (\<lambda>_ _ _. []) sample_workspace ''shop.Order'' (SpecSel (VersionRange 1 3))
     = Inr (resolved_of (mk_candidate sample_shop ''Order'' (DModel (sample_model 2 Additive))))"
  by code_simp

theorem resolve_model_ref_newest_witness:
  "\<exists>d n c. split_model_ref ''shop.Order'' = Inr (d, n) \<and>
     newest_match (\<lambda>_ _ _. []) sample_workspace d n (SpecSel (VersionRange 1 3)) c \<and>
     cd_version c = 2 \<and> safe_range sample_workspace d n (SpecSel (VersionRange 1 3)) (cd_version c)"
proof -
  have "cd_version (mk_candidate sample_shop ''Order'' (DModel (sample_model 2 Additive))) = 2"
    by (simp add: cd_version_def mk_candidate_def sample_model_def)
  with resolve_model_ref_newest [OF sample_resolution] show ?thesis
    by (metis rd_resolved_of(3))
qed

lemma sample_semantic:
  "resolve_semantic_type_ref (\<lambda>_ _ _. []) sample_workspace ''billing'' ''Money'' None = Inr (''shop'', sample_money)"
  by code_simp

theorem bare_name_unambiguous_witness:
  "\<exists>dm \<in> set (mf_domains sample_workspace). \<exists>s0. dm_name dm = ''shop'' \<and> declares dm ''Money'' None s0"
  using bare_name_unambiguous [OF _ _ sample_semantic]
  by (auto simp: sample_workspace_def sample_shop_def)

end
