(* ===== verification/Dependency.thy ===== *)
theory Dependency
  imports Resolver Cel_Check
begin

text \<open>
  \<^verbatim>\<open>cli/src/modelable/dependency_graph.py\<close>: what the aliases of a projection version refer to and the
  source properties it depends on, and \<^verbatim>\<open>compat/projection_fields.py\<close>: the type and optionality of a
  projection field, found by following direct mappings through projections of projections. That
  recursion need not end when projections refer to each other; its model is a partial function, whose
  value \<^const>\<open>None\<close> is the recursion that does not return.
\<close>

section \<open>Aliases\<close>

definition alias_sources :: "projection_version \<Rightarrow> (string \<times> version_spec \<times> string) list" where
  "alias_sources pv =
     (sr_model (pv_source pv), sr_version (pv_source pv), sr_alias (pv_source pv))
     # map (\<lambda>j. (jr_model j, jr_version j, jr_alias j)) (pv_joins pv)"

text \<open>An alias that does not resolve is skipped.\<close>

definition alias_step ::
    "signature_fn \<Rightarrow> mdl_file \<Rightarrow> (string, resolved_declaration) dict \<Rightarrow> string \<times> version_spec \<times> string
     \<Rightarrow> (string, resolved_declaration) dict" where
  "alias_step sig mdl aliases s =
     (case s of (ref, ver, alias) \<Rightarrow>
        (case resolve_model_ref sig mdl ref (SpecSel ver) of
           Inl _ \<Rightarrow> aliases
         | Inr r \<Rightarrow> dict_put alias r aliases))"

definition resolve_projection_aliases ::
    "signature_fn \<Rightarrow> projection_version \<Rightarrow> mdl_file \<Rightarrow> (string, resolved_declaration) dict" where
  "resolve_projection_aliases sig pv mdl = foldl (alias_step sig mdl) [] (alias_sources pv)"

section \<open>Dependencies\<close>

datatype usage_kind = UDirect | UComputed | UJoin | UFilter | UGroup

record property_dependency =
  pd_consumer_ref :: string
  pd_target_property :: "string option"
  pd_usage_kind :: usage_kind
  pd_source_ref :: string
  pd_source_property :: string

text \<open>One dependency; the identity of the source raises where it is not well formed.\<close>

definition mk_dependency ::
    "string \<Rightarrow> string option \<Rightarrow> usage_kind \<Rightarrow> resolved_declaration \<Rightarrow> string \<Rightarrow> identity_error + property_dependency" where
  "mk_dependency consumer target kind resolved prop =
     sbind (rd_identity resolved) (\<lambda>source.
       Inr \<lparr>pd_consumer_ref = consumer, pd_target_property = target, pd_usage_kind = kind,
            pd_source_ref = source, pd_source_property = prop\<rparr>)"

definition refs_from_expression ::
    "string \<Rightarrow> (string, resolved_declaration) dict \<Rightarrow> string \<Rightarrow> string option \<Rightarrow> usage_kind
     \<Rightarrow> identity_error + property_dependency list" where
  "refs_from_expression expression aliases consumer target kind =
     (case parse_cel expression of
        Inl _ \<Rightarrow> Inr []
      | Inr ast \<Rightarrow>
          smap (\<lambda>(alias, prop). mk_dependency consumer target kind (the (map_of aliases alias)) prop)
            (filter (\<lambda>(alias, prop). map_of aliases alias \<noteq> None) (extract_field_refs ast)))"

definition field_dependencies ::
    "(string, resolved_declaration) dict \<Rightarrow> string \<Rightarrow> projection_field \<Rightarrow> identity_error + property_dependency list" where
  "field_dependencies aliases consumer f =
     (case pf_mapping f of
        DirectMapping alias prop \<Rightarrow>
          (case map_of aliases alias of
             None \<Rightarrow> Inr []
           | Some r \<Rightarrow> smap (\<lambda>r. mk_dependency consumer (Some (pf_name f)) UDirect r prop) [r])
      | ComputedMapping e \<Rightarrow> refs_from_expression e aliases consumer (Some (pf_name f)) UComputed)"

text \<open>\<^verbatim>\<open>if pv.where\<close>: neither absent nor empty.\<close>

definition where_texts :: "projection_version \<Rightarrow> string list" where
  "where_texts pv = (case pv_where pv of None \<Rightarrow> [] | Some w \<Rightarrow> if w = [] then [] else [w])"

definition build_projection_dependencies ::
    "signature_fn \<Rightarrow> mdl_file \<Rightarrow> string \<Rightarrow> string \<Rightarrow> projection_version \<Rightarrow> identity_error + property_dependency list" where
  "build_projection_dependencies sig mdl d n pv =
     (let consumer = projection_context d n (pv_version pv);
          aliases = resolve_projection_aliases sig pv mdl;
          parts = map (field_dependencies aliases consumer) (pv_fields pv)
            @ map (\<lambda>j. refs_from_expression (jr_on j) aliases consumer None UJoin) (pv_joins pv)
            @ map (\<lambda>w. refs_from_expression w aliases consumer None UFilter) (where_texts pv)
            @ map (\<lambda>g. refs_from_expression g aliases consumer None UGroup) (pv_group_by pv)
      in sbind (smap (\<lambda>part. part) parts) (\<lambda>ds. Inr (concat ds)))"

section \<open>The type of a projection field\<close>

definition model_field :: "model_version \<Rightarrow> string \<Rightarrow> field_type option \<times> bool option" where
  "model_field m prop =
     (case List.find (\<lambda>f. fd_name f = prop) (mv_fields m) of
        None \<Rightarrow> (None, None)
      | Some f \<Rightarrow> (Some (fd_type f), Some (fd_optional f)))"

partial_function (option) projection_field_type ::
    "signature_fn \<Rightarrow> mdl_file \<Rightarrow> projection_version \<Rightarrow> projection_field \<Rightarrow> (field_type option \<times> bool option) option" where
  "projection_field_type sig mdl pv f =
     (case pf_mapping f of
        ComputedMapping _ \<Rightarrow> Some (None, None)
      | DirectMapping alias prop \<Rightarrow>
          (case map_of (resolve_projection_aliases sig pv mdl) alias of
             None \<Rightarrow> Some (None, None)
           | Some r \<Rightarrow>
               (case rd_declaration r of
                  DModel m \<Rightarrow> Some (model_field m prop)
                | DProjection p \<Rightarrow>
                    (case List.find (\<lambda>g. pf_name g = prop) (pv_fields p) of
                       None \<Rightarrow> Some (None, None)
                     | Some g \<Rightarrow> projection_field_type sig mdl p g)
                | _ \<Rightarrow> Some (None, None))))"

section \<open>What an alias refers to\<close>

lemma alias_step_tuple:
  "alias_step sig mdl d (ref, ver, al) =
     (case resolve_model_ref sig mdl ref (SpecSel ver) of Inl _ \<Rightarrow> d | Inr r \<Rightarrow> dict_put al r d)"
  by (simp add: alias_step_def)

lemma alias_lookup:
  "map_of (foldl (alias_step sig mdl) d ss) a =
     (case List.find (\<lambda>(ref, ver, al). al = a \<and> \<not> isl (resolve_model_ref sig mdl ref (SpecSel ver))) (rev ss) of
        None \<Rightarrow> map_of d a
      | Some (ref, ver, al) \<Rightarrow> Some (projr (resolve_model_ref sig mdl ref (SpecSel ver))))"
proof (induction ss arbitrary: d rule: rev_induct)
  case (snoc s ss)
  obtain ref ver al where s: "s = (ref, ver, al)" by (cases s)
  show ?case
    by (cases "resolve_model_ref sig mdl ref (SpecSel ver)")
      (auto simp: s snoc.IH alias_step_tuple update_conv split: option.split)
qed simp

lemma alias_exact:
  assumes "distinct (map (\<lambda>(ref, ver, al). al) (alias_sources pv))"
  shows "map_of (resolve_projection_aliases sig pv mdl) a = Some r \<longleftrightarrow>
    (\<exists>ref ver. (ref, ver, a) \<in> set (alias_sources pv) \<and> resolve_model_ref sig mdl ref (SpecSel ver) = Inr r)"
proof -
  let ?ok = "\<lambda>(ref, ver, al). al = a \<and> \<not> isl (resolve_model_ref sig mdl ref (SpecSel ver))"
  have one: "ref = ref' \<and> ver = ver'"
    if "(ref, ver, a) \<in> set (alias_sources pv)" "(ref', ver', a) \<in> set (alias_sources pv)" for ref ver ref' ver'
    using that assms by (auto simp: distinct_map inj_on_def)
  show ?thesis
  proof (cases "List.find ?ok (rev (alias_sources pv))")
    case None
    then have "map_of (resolve_projection_aliases sig pv mdl) a = None"
      by (simp add: resolve_projection_aliases_def alias_lookup)
    moreover have "\<not> ((ref, ver, a) \<in> set (alias_sources pv) \<and> resolve_model_ref sig mdl ref (SpecSel ver) = Inr r)"
      for ref ver using None by (fastforce simp: find_None_iff)
    ultimately show ?thesis by simp
  next
    case (Some s)
    then obtain ref ver where s: "s = (ref, ver, a)" "(ref, ver, a) \<in> set (alias_sources pv)"
      "\<not> isl (resolve_model_ref sig mdl ref (SpecSel ver))"
      by (auto dest: find_Some_D)
    then obtain r' where r': "resolve_model_ref sig mdl ref (SpecSel ver) = Inr r'"
      by (cases "resolve_model_ref sig mdl ref (SpecSel ver)") auto
    with Some s(1) have look: "map_of (resolve_projection_aliases sig pv mdl) a = Some r'"
      by (simp add: resolve_projection_aliases_def alias_lookup)
    have "r' = r" if "(ref2, ver2, a) \<in> set (alias_sources pv)"
      "resolve_model_ref sig mdl ref2 (SpecSel ver2) = Inr r" for ref2 ver2
      using one [OF s(2) that(1)] that(2) r' by simp
    with look r' s(2) show ?thesis by (metis option.inject)
  qed
qed

section \<open>The dependencies are exact\<close>

text \<open>Every position of a projection version that names a property of an alias.\<close>

definition expression_uses :: "string \<Rightarrow> (string \<times> string) list" where
  "expression_uses e = (case parse_cel e of Inl _ \<Rightarrow> [] | Inr ast \<Rightarrow> extract_field_refs ast)"

definition field_uses :: "projection_field \<Rightarrow> (usage_kind \<times> string option \<times> string \<times> string) list" where
  "field_uses f =
     (case pf_mapping f of
        DirectMapping alias prop \<Rightarrow> [(UDirect, Some (pf_name f), alias, prop)]
      | ComputedMapping e \<Rightarrow> map (\<lambda>(a, p). (UComputed, Some (pf_name f), a, p)) (expression_uses e))"

definition uses_of :: "projection_version \<Rightarrow> (usage_kind \<times> string option \<times> string \<times> string) list" where
  "uses_of pv =
     concat (map field_uses (pv_fields pv))
     @ concat (map (\<lambda>j. map (\<lambda>(a, p). (UJoin, None, a, p)) (expression_uses (jr_on j))) (pv_joins pv))
     @ concat (map (\<lambda>w. map (\<lambda>(a, p). (UFilter, None, a, p)) (expression_uses w)) (where_texts pv))
     @ concat (map (\<lambda>g. map (\<lambda>(a, p). (UGroup, None, a, p)) (expression_uses g)) (pv_group_by pv))"

text \<open>The dependency of one use: none where the alias is not resolved.\<close>

definition use_dependency ::
    "(string, resolved_declaration) dict \<Rightarrow> string \<Rightarrow> usage_kind \<times> string option \<times> string \<times> string
     \<Rightarrow> (identity_error + property_dependency) option" where
  "use_dependency aliases consumer u =
     (case u of (kind, target, alias, prop) \<Rightarrow>
        map_option (\<lambda>r. mk_dependency consumer target kind r prop) (map_of aliases alias))"

lemma smap_append: "smap f (xs @ ys) = sbind (smap f xs) (\<lambda>as. sbind (smap f ys) (\<lambda>bs. Inr (as @ bs)))"
proof (induction xs)
  case Nil
  show ?case by (cases "smap f ys") auto
next
  case (Cons x xs)
  show ?case
    by (cases "f x"; cases "smap f xs"; cases "smap f ys") (simp_all add: Cons)
qed

lemma smap_map: "smap f (map g xs) = smap (\<lambda>x. f (g x)) xs"
  by (induction xs) auto

definition collect_uses ::
    "(string, resolved_declaration) dict \<Rightarrow> string \<Rightarrow> (usage_kind \<times> string option \<times> string \<times> string) list
     \<Rightarrow> identity_error + property_dependency list" where
  "collect_uses aliases consumer us = smap (\<lambda>x. x) (List.map_filter (use_dependency aliases consumer) us)"

lemma collect_append:
  "collect_uses al c (us @ vs) = sbind (collect_uses al c us) (\<lambda>as. sbind (collect_uses al c vs) (\<lambda>bs. Inr (as @ bs)))"
  by (simp add: collect_uses_def List.map_filter_def smap_append)

lemma collect_concat:
  "sbind (smap (\<lambda>us. collect_uses al c us) uss) (\<lambda>ds. Inr (concat ds)) = collect_uses al c (concat uss)"
proof (induction uss)
  case Nil
  show ?case by (simp add: collect_uses_def List.map_filter_simps)
next
  case (Cons us uss)
  show ?case
    by (cases "collect_uses al c us"; cases "smap (\<lambda>us. collect_uses al c us) uss")
      (auto simp: collect_append Cons [symmetric])
qed

lemma expression_collect:
  "refs_from_expression e al c target kind = collect_uses al c (map (\<lambda>(a, p). (kind, target, a, p)) (expression_uses e))"
proof -
  have "smap (\<lambda>(a, p). mk_dependency c target kind (the (map_of al a)) p)
          (filter (\<lambda>(a, p). map_of al a \<noteq> None) us)
        = collect_uses al c (map (\<lambda>(a, p). (kind, target, a, p)) us)" for us
    by (induction us) (auto simp: collect_uses_def List.map_filter_simps use_dependency_def split: option.split)
  then show ?thesis
    by (simp add: refs_from_expression_def expression_uses_def collect_uses_def List.map_filter_simps split: sum.split)
qed

lemma field_collect: "field_dependencies al c f = collect_uses al c (field_uses f)"
  by (simp add: field_dependencies_def field_uses_def expression_collect collect_uses_def
      List.map_filter_simps use_dependency_def split: projection_mapping.split option.split)

lemma field_collect_fun: "field_dependencies al c = (\<lambda>f. collect_uses al c (field_uses f))"
  by (rule ext) (rule field_collect)

lemma build_collect:
  "build_projection_dependencies sig mdl d n pv =
     collect_uses (resolve_projection_aliases sig pv mdl) (projection_context d n (pv_version pv)) (uses_of pv)"
proof -
  define al where "al = resolve_projection_aliases sig pv mdl"
  define c where "c = projection_context d n (pv_version pv)"
  define uss where "uss = map field_uses (pv_fields pv)
     @ map (\<lambda>j. map (\<lambda>(a, p). (UJoin, None, a, p)) (expression_uses (jr_on j))) (pv_joins pv)
     @ map (\<lambda>w. map (\<lambda>(a, p). (UFilter, None, a, p)) (expression_uses w)) (where_texts pv)
     @ map (\<lambda>g. map (\<lambda>(a, p). (UGroup, None, a, p)) (expression_uses g)) (pv_group_by pv)"
  have "build_projection_dependencies sig mdl d n pv =
      sbind (smap (\<lambda>p. p) (map (collect_uses al c) uss)) (\<lambda>ds. Inr (concat ds))"
    by (simp add: build_projection_dependencies_def Let_def expression_collect field_collect_fun al_def c_def uss_def o_def)
  also have "\<dots> = collect_uses al c (concat uss)"
    unfolding smap_map collect_concat ..
  also have "concat uss = uses_of pv" by (simp add: uss_def uses_of_def)
  finally show ?thesis unfolding al_def c_def .
qed

lemma collect_set:
  "collect_uses al c us = Inr ds \<Longrightarrow>
     set ds = {x. \<exists>u \<in> set us. use_dependency al c u = Some (Inr x)} \<and>
     (\<forall>u \<in> set us. \<forall>e. use_dependency al c u \<noteq> Some (Inl e))"
proof (induction us arbitrary: ds)
  case (Cons u us)
  have "collect_uses al c (u # us) = sbind (collect_uses al c [u]) (\<lambda>as. sbind (collect_uses al c us) (\<lambda>bs. Inr (as @ bs)))"
    using collect_append [of al c "[u]" us] by simp
  with Cons.prems obtain as bs where ab: "collect_uses al c [u] = Inr as" "collect_uses al c us = Inr bs" "ds = as @ bs"
    by auto
  from ab(1) have "set as = {x. use_dependency al c u = Some (Inr x)} \<and> (\<forall>e. use_dependency al c u \<noteq> Some (Inl e))"
    by (auto simp: collect_uses_def List.map_filter_simps split: option.splits)
  with Cons.IH [OF ab(2)] ab(3) show ?case by auto
qed (simp add: collect_uses_def List.map_filter_simps)

section \<open>Termination of the type lookup\<close>

text \<open>
  A rank that decreases from every projection version to the projections its aliases resolve to: the
  projections of a workspace whose projections do not refer to each other in a circle have one.
\<close>

definition ranked :: "signature_fn \<Rightarrow> mdl_file \<Rightarrow> (projection_version \<Rightarrow> nat) \<Rightarrow> bool" where
  "ranked sig mdl rk \<longleftrightarrow>
     (\<forall>pv a r p. map_of (resolve_projection_aliases sig pv mdl) a = Some r \<longrightarrow>
        rd_declaration r = DProjection p \<longrightarrow> rk p < rk pv)"

lemma ranked_returns: "ranked sig mdl rk \<Longrightarrow> projection_field_type sig mdl pv f \<noteq> None"
proof (induction "rk pv" arbitrary: pv f rule: less_induct)
  case less
  show ?case
  proof (cases "pf_mapping f")
    case (DirectMapping al p)
    then show ?thesis
    proof (cases "map_of (resolve_projection_aliases sig pv mdl) al")
      case (Some r)
      have deeper: "projection_field_type sig mdl p g \<noteq> None" if "rd_declaration r = DProjection p" for p g
        using less Some that by (simp add: ranked_def)
      show ?thesis
        using DirectMapping Some deeper
        by (subst projection_field_type.simps)
          (auto split: declaration_value.split option.split)
    qed (simp add: projection_field_type.simps DirectMapping)
  qed (simp add: projection_field_type.simps)
qed

section \<open>Properties\<close>

text \<open>
  What an alias refers to: with distinct aliases, an alias is resolved to a declaration if and only
  if the source or join of that alias resolves to it; the others are left out.
\<close>

theorem projection_aliases_exact:
  assumes "distinct (map (\<lambda>(ref, ver, al). al) (alias_sources pv))"
  shows "map_of (resolve_projection_aliases sig pv mdl) a = Some r \<longleftrightarrow>
    (\<exists>ref ver. (ref, ver, a) \<in> set (alias_sources pv) \<and> resolve_model_ref sig mdl ref (SpecSel ver) = Inr r)"
  by (rule alias_exact [OF assms])

text \<open>
  The dependencies of a projection version are exact: one for every direct mapping and for every
  field reference in a computed expression, a join predicate, the filter and the group keys whose
  alias is resolved, and no other.
\<close>

theorem projection_dependencies_exact:
  assumes "build_projection_dependencies sig mdl d n pv = Inr ds"
  shows "set ds = {x. \<exists>u \<in> set (uses_of pv).
    use_dependency (resolve_projection_aliases sig pv mdl) (projection_context d n (pv_version pv)) u = Some (Inr x)}"
  using collect_set [OF assms [unfolded build_collect]] by simp

text \<open>
  The lookup of a projection field's type ends with a result where no projection refers back to
  itself through its sources.
\<close>

theorem projection_field_type_returns:
  assumes "ranked sig mdl rk"
  shows "\<exists>res. projection_field_type sig mdl pv f = Some res"
  using ranked_returns [OF assms] by blast

section \<open>Witnesses and the circular case\<close>

definition plain_projection :: "version_spec \<Rightarrow> string \<Rightarrow> projection_mapping \<Rightarrow> projection_version" where
  "plain_projection ver model m =
     \<lparr>pv_version = 1, pv_source = \<lparr>sr_model = model, sr_version = ver, sr_alias = ''s'', sr_where = None\<rparr>,
      pv_joins = [], pv_where = Some ''s.total > 1'', pv_group_by = [],
      pv_fields = [\<lparr>pf_name = ''x'', pf_mapping = m, pf_annotations = [], pf_constraints = []\<rparr>],
      pv_auto_generated = False, pv_access = None, pv_annotations = [], pv_protobuf_reservations = None,
      pv_selection = None, pv_event_operations = []\<rparr>"

definition projection_workspace :: "projection_version \<Rightarrow> mdl_file" where
  "projection_workspace pv = sample_workspace\<lparr>mf_domains := [sample_shop\<lparr>dm_projections := [(''P'', [pv])]\<rparr>]\<rparr>"

definition good_projection :: projection_version where
  "good_projection = plain_projection (VersionExact 2) ''shop.Order'' (DirectMapping ''s'' ''total'')"

definition looping_projection :: projection_version where
  "looping_projection = plain_projection (VersionExact 1) ''shop.P'' (DirectMapping ''s'' ''x'')"

abbreviation no_signature :: signature_fn where
  "no_signature \<equiv> \<lambda>_ _ _. []"

lemma good_alias:
  "resolve_projection_aliases no_signature good_projection (projection_workspace good_projection)
     = [(''s'', resolved_of (mk_candidate sample_shop ''Order'' (DModel (sample_model 2 Additive))))]"
  by code_simp

theorem projection_aliases_exact_witness:
  "\<exists>ref ver. (ref, ver, ''s'') \<in> set (alias_sources good_projection) \<and>
     resolve_model_ref no_signature (projection_workspace good_projection) ref (SpecSel ver)
       = Inr (resolved_of (mk_candidate sample_shop ''Order'' (DModel (sample_model 2 Additive))))"
proof -
  have "distinct (map (\<lambda>(ref, ver, al). al) (alias_sources good_projection))" by code_simp
  from projection_aliases_exact [OF this] show ?thesis
    by (metis good_alias map_of_Cons_code(2))
qed

definition good_dependencies :: "property_dependency list" where
  "good_dependencies =
     [\<lparr>pd_consumer_ref = ''shop.P@1'', pd_target_property = Some ''x'', pd_usage_kind = UDirect,
       pd_source_ref = ''shop.Order@2'', pd_source_property = ''total''\<rparr>,
      \<lparr>pd_consumer_ref = ''shop.P@1'', pd_target_property = None, pd_usage_kind = UFilter,
       pd_source_ref = ''shop.Order@2'', pd_source_property = ''total''\<rparr>]"

lemma good_build:
  "build_projection_dependencies no_signature (projection_workspace good_projection) ''shop'' ''P'' good_projection
     = Inr good_dependencies"
  by code_simp

theorem projection_dependencies_exact_witness:
  "set good_dependencies = {x. \<exists>u \<in> set (uses_of good_projection).
     use_dependency (resolve_projection_aliases no_signature good_projection (projection_workspace good_projection))
       ''shop.P@1'' u = Some (Inr x)}"
proof -
  have "projection_context ''shop'' ''P'' (pv_version good_projection) = ''shop.P@1''" by code_simp
  with projection_dependencies_exact [OF good_build] show ?thesis by simp
qed

lemma alias_resolved:
  assumes "map_of (resolve_projection_aliases sig pv mdl) a = Some r"
  shows "\<exists>c \<in> set (declaration_candidates mdl). rd_declaration r = cd_declaration c"
proof -
  obtain ref ver where "resolve_model_ref sig mdl ref (SpecSel ver) = Inr r"
    using assms by (fastforce simp: resolve_projection_aliases_def alias_lookup isl_def
        dest: find_Some_D split: option.splits)
  then show ?thesis
    by (rule resolve_model_ref_sound) (auto simp: newest_match_def model_candidates_def)
qed

lemma good_ranked: "ranked no_signature (projection_workspace good_projection) (\<lambda>p. if p = good_projection then 0 else 1)"
  unfolding ranked_def
proof (intro allI impI)
  fix pv a r p
  assume look: "map_of (resolve_projection_aliases no_signature pv (projection_workspace good_projection)) a = Some r"
    and p: "rd_declaration r = DProjection p"
  have candidates: "cd_declaration ` set (declaration_candidates (projection_workspace good_projection)) =
      {DModel (sample_model 1 Additive), DModel (sample_model 2 Additive), DModel (sample_model 3 Breaking),
       DProjection good_projection, DSemantic sample_money}"
    by (auto simp: declaration_candidates_def domain_candidates_def projection_workspace_def sample_shop_def
        sample_workspace_def mk_candidate_def)
  from alias_resolved [OF look] candidates have "rd_declaration r \<in> {DModel (sample_model 1 Additive),
      DModel (sample_model 2 Additive), DModel (sample_model 3 Breaking), DProjection good_projection,
      DSemantic sample_money}" by blast
  with p have "p = good_projection" by auto
  moreover have "pv \<noteq> good_projection"
    using look p by (auto simp: good_alias resolved_of_def mk_candidate_def split: if_splits)
  ultimately show "(if p = good_projection then 0 else 1) < (if pv = good_projection then 0 else (1::nat))" by simp
qed

theorem projection_field_type_returns_witness:
  "\<exists>res. projection_field_type no_signature (projection_workspace good_projection) good_projection
     (hd (pv_fields good_projection)) = Some res"
  by (rule projection_field_type_returns [OF good_ranked])

lemma looping_alias:
  "resolve_projection_aliases no_signature looping_projection (projection_workspace looping_projection)
     = [(''s'', resolved_of (mk_candidate sample_shop ''P'' (DProjection looping_projection)))]"
  by code_simp

lemma looping_field:
  "pf_mapping (hd (pv_fields looping_projection)) = DirectMapping ''s'' ''x''"
  "List.find (\<lambda>g. pf_name g = ''x'') (pv_fields looping_projection) = Some (hd (pv_fields looping_projection))"
  by (simp_all add: looping_projection_def plain_projection_def)

lemma looping_never:
  "projection_field_type sig mdl pv f = Some y \<Longrightarrow>
     \<not> (sig = no_signature \<and> mdl = projection_workspace looping_projection \<and> pv = looping_projection
        \<and> f = hd (pv_fields looping_projection))"
proof (rule projection_field_type.raw_induct [where
      P = "\<lambda>sig mdl pv f y. \<not> (sig = no_signature \<and> mdl = projection_workspace looping_projection
        \<and> pv = looping_projection \<and> f = hd (pv_fields looping_projection))"], goal_cases)
  case (1 F sig mdl pv f y)
  note ih = 1(2) [of no_signature "projection_workspace looping_projection" looping_projection
      "hd (pv_fields looping_projection)"]
  show ?case
  proof (intro notI, elim conjE)
    assume "sig = no_signature" "mdl = projection_workspace looping_projection" "pv = looping_projection"
      "f = hd (pv_fields looping_projection)"
    with 1(3) have "F no_signature (projection_workspace looping_projection) looping_projection
        (hd (pv_fields looping_projection)) = Some y"
      by (simp add: looping_field looping_alias resolved_of_def mk_candidate_def)
    with ih show False by blast
  qed
qed

lemma looping_undefined:
  "projection_field_type no_signature (projection_workspace looping_projection) looping_projection
     (hd (pv_fields looping_projection)) = None"
  using looping_never by (cases "projection_field_type no_signature (projection_workspace looping_projection)
    looping_projection (hd (pv_fields looping_projection))") blast+

lemma looping_accepted: "validate_references no_signature (projection_workspace looping_projection) = []"
  by code_simp

text \<open>
  Nothing in the lookup guards against a circle: for a projection whose field is mapped to itself
  through its own source, which the reference check accepts, the recursion never returns.
\<close>

theorem circular_projection_diverges:
  "validate_references no_signature (projection_workspace looping_projection) = [] \<and>
   projection_field_type no_signature (projection_workspace looping_projection) looping_projection
     (hd (pv_fields looping_projection)) = None"
  by (rule conjI [OF looping_accepted looping_undefined])

end
