(* ===== verification/Enum_Compat.thy ===== *)
theory Enum_Compat
  imports Ir
begin

text \<open>
  \<^verbatim>\<open>cli/src/modelable/compat/enums.py\<close>: the comparison of two versions of a semantic enum and of an
  enum projection by their members, and the text of a finding.
\<close>

record enum_change =
  ec_kind :: string
  ec_owner :: string
  ec_member :: "string option"
  ec_breaking :: bool
  ec_consequences :: "string list"

definition exhaustive_match :: string where
  "exhaustive_match = ''exhaustive_match''"

definition enum_change_of :: "string \<Rightarrow> string \<Rightarrow> string option \<Rightarrow> bool \<Rightarrow> string list \<Rightarrow> enum_change" where
  "enum_change_of kind owner member breaking consequences =
     \<lparr>ec_kind = kind, ec_owner = owner, ec_member = member, ec_breaking = breaking, ec_consequences = consequences\<rparr>"

fun declared_values :: "field_type \<Rightarrow> string list" where
  "declared_values (EnumType vs) = vs"
| "declared_values _ = []"

definition compare_semantic_enum_versions :: "semantic_type_decl \<Rightarrow> semantic_type_decl \<Rightarrow> enum_change list" where
  "compare_semantic_enum_versions old new =
     (let owner = (if st_has_version_header new then st_name new @ ''@'' @ int_str (st_version new) else st_name new);
          old_values = declared_values (st_underlying old);
          new_values = declared_values (st_underlying new)
      in map (\<lambda>m. enum_change_of ''enum_member_removed'' owner (Some m) True []) (sorted_diff old_values new_values)
         @ map (\<lambda>m. enum_change_of ''enum_member_added'' owner (Some m) False [exhaustive_match])
             (sorted_diff new_values old_values))"

text \<open>\<^verbatim>\<open>set(p.members or p.selected)\<close>\<close>

definition effective_members :: "enum_projection_decl \<Rightarrow> string list" where
  "effective_members p = (if ep_members p \<noteq> [] then ep_members p else ep_selected p)"

definition implicit_growth :: "enum_projection_decl \<Rightarrow> string \<Rightarrow> bool" where
  "implicit_growth new m \<longleftrightarrow> ep_selection_kind new = Omit \<and> m \<notin> set (ep_selected new)"

definition compare_enum_projections :: "string \<Rightarrow> enum_projection_decl \<Rightarrow> enum_projection_decl \<Rightarrow> enum_change list" where
  "compare_enum_projections source_name old new =
     (let owner = source_name @ ''.'' @ ep_name new @ ''@'' @ int_str (ep_version new);
          old_members = effective_members old;
          new_members = effective_members new
      in (if ep_source_name old \<noteq> ep_source_name new \<or> ep_source_version old \<noteq> ep_source_version new
          then [enum_change_of ''enum_projection_source_changed'' owner None True []] else [])
         @ map (\<lambda>m. enum_change_of ''enum_projection_member_removed'' owner (Some m) True [])
             (sorted_diff old_members new_members)
         @ map (\<lambda>m. if implicit_growth new m
               then enum_change_of ''enum_projection_implicit_member_added'' owner (Some m) False [''implicit_growth'']
               else enum_change_of ''enum_projection_member_added'' owner (Some m) False [exhaustive_match])
             (sorted_diff new_members old_members))"

definition enum_change_label :: "string \<Rightarrow> string" where
  "enum_change_label kind =
     (case map_of [(''enum_member_added'', ''adds member''), (''enum_member_removed'', ''removes member''),
                   (''enum_projection_source_changed'', ''source changed''),
                   (''enum_projection_member_added'', ''projection adds member''),
                   (''enum_projection_member_removed'', ''projection removes member''),
                   (''enum_projection_implicit_member_added'', ''implicitly includes member'')] kind of
        None \<Rightarrow> kind | Some l \<Rightarrow> l)"

definition describe_enum_change :: "enum_change \<Rightarrow> string" where
  "describe_enum_change c =
     ec_owner c @ '': '' @ enum_change_label (ec_kind c)
     @ (case ec_member c of None \<Rightarrow> [] | Some m \<Rightarrow> '' '' @ [CHR 0x27] @ m @ [CHR 0x27])
     @ (if exhaustive_match \<in> set (ec_consequences c)
        then '' (exhaustive consumers must extend their handling)'' else [])
     @ (if ''implicit_growth'' \<in> set (ec_consequences c) then '' (implicit growth from omit rebase)'' else [])"

section \<open>What the comparisons report\<close>

definition any_breaking :: "enum_change list \<Rightarrow> bool" where
  "any_breaking cs \<longleftrightarrow> list_ex ec_breaking cs"

lemma breaking_enum_change_of [simp]: "ec_breaking (enum_change_of k ow m b c) = b"
  by (simp add: enum_change_of_def)

lemma semantic_breaking_iff:
  "any_breaking (compare_semantic_enum_versions old new) \<longleftrightarrow>
     \<not> set (declared_values (st_underlying old)) \<subseteq> set (declared_values (st_underlying new))"
  by (simp add: any_breaking_def compare_semantic_enum_versions_def Let_def view_simps)

lemma projection_breaking_iff:
  "any_breaking (compare_enum_projections src old new) \<longleftrightarrow>
     \<not> (ep_source_name old = ep_source_name new \<and> ep_source_version old = ep_source_version new
        \<and> set (effective_members old) \<subseteq> set (effective_members new))"
  by (auto simp: any_breaking_def compare_enum_projections_def Let_def view_simps if_distrib [of ec_breaking] cong: if_cong)

lemma semantic_unchanged_iff:
  "compare_semantic_enum_versions old new = [] \<longleftrightarrow>
     set (declared_values (st_underlying old)) = set (declared_values (st_underlying new))"
  by (auto simp: compare_semantic_enum_versions_def Let_def)

text \<open>
  The comparison of enum versions breaks exactly when it must: two versions of a semantic enum are
  reported as breaking if and only if a member is gone, two versions of a projection if and only if
  the source or a member is gone, and nothing is reported of a semantic enum exactly when the members
  are the same, whatever their order.
\<close>

theorem enum_comparison_exact:
  "(any_breaking (compare_semantic_enum_versions old new) \<longleftrightarrow>
      \<not> set (declared_values (st_underlying old)) \<subseteq> set (declared_values (st_underlying new))) \<and>
   (compare_semantic_enum_versions old new = [] \<longleftrightarrow>
      set (declared_values (st_underlying old)) = set (declared_values (st_underlying new))) \<and>
   (any_breaking (compare_enum_projections src p q) \<longleftrightarrow>
      \<not> (ep_source_name p = ep_source_name q \<and> ep_source_version p = ep_source_version q
         \<and> set (effective_members p) \<subseteq> set (effective_members q)))"
  by (intro conjI semantic_breaking_iff semantic_unchanged_iff projection_breaking_iff)

end
