(* ===== verification/Diff.thy ===== *)
theory Diff
  imports Type_Signature Resolver "HOL-Library.Product_Lexorder"
begin

text \<open>
  \<^verbatim>\<open>cli/src/modelable/compat/diff.py\<close>, the comparison of two versions of a model: field by field with
  declared and deprecated renames, types with unions and enum references, key order, access grants
  and classifications; the classification of a change as breaking; index declarations; and the text
  of a finding.
\<close>

section \<open>Changes\<close>

record field_change =
  fc_kind :: string
  fc_field_name :: string
  fc_previous_name :: "string option"
  fc_replacement :: "string option"
  fc_from_optional :: "bool option"
  fc_to_optional :: "bool option"
  fc_from_nullable :: "bool option"
  fc_to_nullable :: "bool option"
  fc_from_type :: "string option"
  fc_to_type :: "string option"
  fc_to_default :: "string option"
  fc_breaking_override :: "bool option"
  fc_note :: string
  fc_consequences :: "string list"

text \<open>\<^verbatim>\<open>FieldChange(kind, name)\<close> with the defaults of the class\<close>

definition mk_change :: "string \<Rightarrow> string \<Rightarrow> field_change" where
  "mk_change kind name =
     \<lparr>fc_kind = kind, fc_field_name = name, fc_previous_name = None, fc_replacement = None,
      fc_from_optional = None, fc_to_optional = None, fc_from_nullable = None, fc_to_nullable = None,
      fc_from_type = None, fc_to_type = None, fc_to_default = None, fc_breaking_override = None,
      fc_note = [], fc_consequences = []\<rparr>"

text \<open>A change that carries the type texts of an old and a new field.\<close>

definition typed_change :: "string \<Rightarrow> string \<Rightarrow> string \<Rightarrow> string \<Rightarrow> field_change" where
  "typed_change kind name from to = (mk_change kind name)\<lparr>fc_from_type := Some from, fc_to_type := Some to\<rparr>"

section \<open>Types\<close>

definition union_changes :: "string \<Rightarrow> string \<Rightarrow> union_variant list \<Rightarrow> string \<Rightarrow> union_variant list \<Rightarrow> field_change list" where
  "union_changes field_name d1 vs1 d2 vs2 =
     (let old = dict_by uv_tag vs1; new = dict_by uv_tag vs2;
          sig = (\<lambda>d t. field_type_signature (uv_type (the (map_of d t))));
          path = (\<lambda>t. field_name @ ''.'' @ t) in
      (if d1 \<noteq> d2 then [typed_change ''union_discriminator_changed'' field_name d1 d2] else [])
      @ map (\<lambda>t. (mk_change ''union_variant_removed'' (path t))\<lparr>fc_from_type := Some (sig old t)\<rparr>)
          (sorted_diff (dict_keys old) (dict_keys new))
      @ map (\<lambda>t. (mk_change ''union_variant_added'' (path t))\<lparr>fc_to_type := Some (sig new t)\<rparr>)
          (sorted_diff (dict_keys new) (dict_keys old))
      @ map (\<lambda>t. typed_change ''union_variant_changed'' (path t) (sig old t) (sig new t))
          (filter (\<lambda>t. sig old t \<noteq> sig new t) (sorted_inter (dict_keys old) (dict_keys new))))"

definition enum_ref_text :: "string \<Rightarrow> int \<Rightarrow> string" where
  "enum_ref_text name ver = name @ '' @ '' @ int_str ver"

definition compare_field_types :: "field_def \<Rightarrow> field_def \<Rightarrow> string \<Rightarrow> field_change list" where
  "compare_field_types old new field_name =
     (let old_sig = type_signature old; new_sig = type_signature new in
      if old_sig = new_sig then []
      else case (fd_type old, fd_type new) of
          (UnionType d1 vs1, UnionType d2 vs2) \<Rightarrow> union_changes field_name d1 vs1 d2 vs2
        | (EnumRefType n1 v1, EnumRefType n2 v2) \<Rightarrow>
            [typed_change (if n1 \<noteq> n2 then ''enum_reference_changed'' else ''enum_version_changed'') field_name
               (enum_ref_text n1 v1) (enum_ref_text n2 v2)]
        | (EnumType _, EnumType _) \<Rightarrow> [typed_change ''enum_changed'' field_name old_sig new_sig]
        | _ \<Rightarrow> [typed_change ''type_changed'' field_name old_sig new_sig])"

section \<open>Renames\<close>

text \<open>The changes of one renamed field; \<open>note\<close> tells a declared rename from a deprecated field.\<close>

definition optionality_change :: "field_def \<Rightarrow> field_def \<Rightarrow> string \<Rightarrow> field_change" where
  "optionality_change old new name =
     (typed_change ''presence_changed'' name (type_signature old) (type_signature new))
       \<lparr>fc_from_optional := Some (fd_optional old), fc_to_optional := Some (fd_optional new)\<rparr>"

definition nullability_change :: "field_def \<Rightarrow> field_def \<Rightarrow> string \<Rightarrow> field_change" where
  "nullability_change old new name =
     (typed_change ''nullability_changed'' name (type_signature old) (type_signature new))
       \<lparr>fc_from_nullable := Some (fd_nullable old), fc_to_nullable := Some (fd_nullable new)\<rparr>"

definition with_nullable :: "field_def \<Rightarrow> field_def \<Rightarrow> field_change \<Rightarrow> field_change" where
  "with_nullable old new c = c\<lparr>fc_from_nullable := Some (fd_nullable old), fc_to_nullable := Some (fd_nullable new)\<rparr>"

definition renamed_changes :: "string \<Rightarrow> field_def \<Rightarrow> field_def \<Rightarrow> string \<Rightarrow> field_change list" where
  "renamed_changes note old new replacement =
     [(typed_change ''renamed_field'' (fd_name old) (type_signature old) (type_signature new))
        \<lparr>fc_previous_name := Some (fd_name old), fc_replacement := Some replacement,
         fc_from_optional := Some (fd_optional old), fc_to_optional := Some (fd_optional new),
         fc_from_nullable := Some (fd_nullable old), fc_to_nullable := Some (fd_nullable new), fc_note := note\<rparr>]
     @ (if fd_optional old \<noteq> fd_optional new
        then [with_nullable old new (optionality_change old new replacement)] else [])
     @ (if fd_nullable old \<noteq> fd_nullable new then [nullability_change old new replacement] else [])
     @ compare_field_types old new replacement"

text \<open>Changes so far, matched old names and matched new names.\<close>

type_synonym rename_state = "field_change list \<times> string list \<times> string list"

definition provenance_step ::
    "(string, field_def) dict \<Rightarrow> (string, field_def) dict \<Rightarrow> rename_state \<Rightarrow> field_provenance \<Rightarrow> rename_state" where
  "provenance_step old_fields new_fields st entry =
     (case st of (changes, matched_old, matched_new) \<Rightarrow>
      case fp_renamed_from entry of
        None \<Rightarrow> st
      | Some previous \<Rightarrow>
          if previous = fp_field_name entry then st
          else case (map_of old_fields previous, map_of new_fields (fp_field_name entry)) of
              (Some old, Some new) \<Rightarrow>
                if previous \<in> set matched_old \<or> fp_field_name entry \<in> set matched_new then st
                else (changes @ renamed_changes ''declared via evolves rename'' old new (fp_field_name entry),
                      previous # matched_old, fp_field_name entry # matched_new)
            | _ \<Rightarrow> st)"

definition deprecated_replacement :: "field_def \<Rightarrow> string option" where
  "deprecated_replacement f = annotation_deprecated_replaced_by (fd_annotations f)"

definition deprecated_step :: "(string, field_def) dict \<Rightarrow> rename_state \<Rightarrow> field_def \<Rightarrow> rename_state" where
  "deprecated_step new_fields st old =
     (case st of (changes, matched_old, matched_new) \<Rightarrow>
      if fd_name old \<in> set matched_old then st
      else case deprecated_replacement old of
          None \<Rightarrow> st
        | Some replacement \<Rightarrow>
            (case map_of new_fields replacement of
               None \<Rightarrow> st
             | Some new \<Rightarrow>
                 if replacement \<in> set matched_new then st
                 else (changes @ renamed_changes [] old new replacement,
                       fd_name old # matched_old, replacement # matched_new)))"

definition detect_renames :: "model_version \<Rightarrow> model_version \<Rightarrow> rename_state" where
  "detect_renames old new =
     foldl (deprecated_step (dict_by fd_name (mv_fields new)))
       (foldl (provenance_step (dict_by fd_name (mv_fields old)) (dict_by fd_name (mv_fields new)))
          ([], [], []) (mv_provenance new))
       (mv_fields old)"

section \<open>Fields, keys and governance\<close>

definition removed_changes :: "model_version \<Rightarrow> model_version \<Rightarrow> string list \<Rightarrow> field_change list" where
  "removed_changes old new matched_old =
     map (\<lambda>f. (mk_change ''removed_field'' (fd_name f))
            \<lparr>fc_from_optional := Some (fd_optional f), fc_from_type := Some (type_signature f)\<rparr>)
       (filter (\<lambda>f. fd_name f \<notin> set matched_old \<and> fd_name f \<notin> set (map fd_name (mv_fields new))) (mv_fields old))"

text \<open>The changes of a field that both versions have.\<close>

definition common_field_changes :: "field_def \<Rightarrow> field_def \<Rightarrow> string \<Rightarrow> field_change list" where
  "common_field_changes old new name =
     (if fd_optional old \<noteq> fd_optional new then [optionality_change old new name] else [])
     @ (if fd_nullable old \<noteq> fd_nullable new then [nullability_change old new name] else [])
     @ (if fd_is_key old \<noteq> fd_is_key new
        then [typed_change ''identity_changed'' name (type_signature old) (type_signature new)] else [])
     @ compare_field_types old new name"

text \<open>\<^verbatim>\<open>_sorted_common_field_names\<close>, which keeps the order of the old fields\<close>

definition common_field_names :: "(string, field_def) dict \<Rightarrow> (string, field_def) dict \<Rightarrow> string list" where
  "common_field_names old_fields new_fields =
     filter (\<lambda>n. map_of new_fields n \<noteq> None) (map (\<lambda>(k, f). fd_name f) old_fields)"

definition common_changes :: "model_version \<Rightarrow> model_version \<Rightarrow> field_change list" where
  "common_changes old new =
     (let old_fields = dict_by fd_name (mv_fields old); new_fields = dict_by fd_name (mv_fields new) in
      concat (map (\<lambda>n. common_field_changes (the (map_of old_fields n)) (the (map_of new_fields n)) n)
        (common_field_names old_fields new_fields)))"

definition added_changes :: "model_version \<Rightarrow> model_version \<Rightarrow> string list \<Rightarrow> field_change list" where
  "added_changes old new matched_new =
     map (\<lambda>f. (mk_change ''added_field'' (fd_name f))
            \<lparr>fc_to_optional := Some (fd_optional f), fc_to_type := Some (type_signature f),
             fc_to_default := fd_default f\<rparr>)
       (filter (\<lambda>f. fd_name f \<notin> set matched_new \<and> fd_name f \<notin> set (map fd_name (mv_fields old))) (mv_fields new))"

definition key_names :: "model_version \<Rightarrow> string list" where
  "key_names v = map fd_name (filter fd_is_key (mv_fields v))"

definition key_order_changes :: "model_version \<Rightarrow> model_version \<Rightarrow> field_change list" where
  "key_order_changes old new =
     (if key_names old \<noteq> key_names new \<and> set (key_names old) = set (key_names new)
      then [(typed_change ''identity_order_changed'' ''primary''
               (print_json (JList (map JStr (key_names old)))) (print_json (JList (map JStr (key_names new)))))
              \<lparr>fc_note := ''ordered @key components were reordered''\<rparr>]
      else [])"

text \<open>Scope, principal and permission of every grant; the source keeps them in a set.\<close>

definition access_grant_triples :: "access_block option \<Rightarrow> (string \<times> string \<times> string) list" where
  "access_grant_triples access =
     (case access of
        None \<Rightarrow> []
      | Some a \<Rightarrow>
          concat (map (\<lambda>g. map (\<lambda>p. (''entity'', ag_principal g, p)) (ag_permissions g)) (ab_entity a))
          @ concat (map (\<lambda>(property, grants). concat (map (\<lambda>g. map (\<lambda>p. (property, ag_principal g, p))
              (ag_permissions g)) grants)) (ab_properties a)))"

definition bool_text :: "bool \<Rightarrow> string" where
  "bool_text b = (if b then ''true'' else ''false'')"

definition classification_text :: "classification_level option \<Rightarrow> string" where
  "classification_text l = (case l of None \<Rightarrow> ''None'' | Some c \<Rightarrow> level_str c)"

definition grant_changes :: "model_version \<Rightarrow> model_version \<Rightarrow> field_change list" where
  "grant_changes old new =
     (let old_grants = access_grant_triples (mv_access old); new_grants = access_grant_triples (mv_access new) in
      map (\<lambda>(scope, principal, permission).
            (mk_change ''access_grant_removed'' scope)\<lparr>fc_from_type := Some (principal @ '' '' @ permission)\<rparr>)
        (sorted_diff old_grants new_grants)
      @ map (\<lambda>(scope, principal, permission).
            (mk_change ''access_grant_added'' scope)\<lparr>fc_to_type := Some (principal @ '' '' @ permission)\<rparr>)
        (sorted_diff new_grants old_grants))"

definition field_governance_changes :: "field_def \<Rightarrow> field_def \<Rightarrow> string \<Rightarrow> field_change list" where
  "field_governance_changes old new name =
     (if fd_is_pii old \<noteq> fd_is_pii new
      then [typed_change ''pii_changed'' name (bool_text (fd_is_pii old)) (bool_text (fd_is_pii new))] else [])
     @ (if fd_classification old \<noteq> fd_classification new
        then [typed_change ''classification_changed'' name
                (classification_text (fd_classification old)) (classification_text (fd_classification new))]
        else [])"

definition compare_model_governance :: "model_version \<Rightarrow> model_version \<Rightarrow> field_change list" where
  "compare_model_governance old new =
     (let old_fields = dict_by fd_name (mv_fields old); new_fields = dict_by fd_name (mv_fields new) in
      grant_changes old new
      @ concat (map (\<lambda>n. field_governance_changes (the (map_of old_fields n)) (the (map_of new_fields n)) n)
          (sorted_inter (dict_keys old_fields) (dict_keys new_fields))))"

definition compare_model_versions :: "model_version \<Rightarrow> model_version \<Rightarrow> field_change list" where
  "compare_model_versions old new =
     (case detect_renames old new of (renames, matched_old, matched_new) \<Rightarrow>
        renames @ removed_changes old new matched_old @ common_changes old new
        @ added_changes old new matched_new @ key_order_changes old new @ compare_model_governance old new)"

section \<open>Which changes break\<close>

definition is_optionality_breaking :: "field_change \<Rightarrow> bool" where
  "is_optionality_breaking c \<longleftrightarrow>
     fc_kind c = ''presence_changed'' \<and> fc_from_optional c = Some True \<and> fc_to_optional c = Some False"

definition is_nullability_breaking :: "field_change \<Rightarrow> bool" where
  "is_nullability_breaking c \<longleftrightarrow>
     fc_kind c = ''nullability_changed'' \<and> fc_from_nullable c = Some True \<and> fc_to_nullable c = Some False"

definition breaking_kinds :: "string list" where
  "breaking_kinds =
     [''removed_field'', ''renamed_field'', ''type_changed'', ''enum_changed'', ''enum_version_changed'',
      ''enum_reference_changed'', ''union_discriminator_changed'', ''union_variant_added'',
      ''union_variant_removed'', ''union_variant_changed'', ''identity_changed'', ''identity_order_changed'',
      ''access_grant_removed'', ''pii_changed'', ''classification_changed'']"

definition is_field_change_breaking :: "field_change \<Rightarrow> bool" where
  "is_field_change_breaking c =
     (case fc_breaking_override c of
        Some b \<Rightarrow> b
      | None \<Rightarrow>
          if fc_kind c \<in> set breaking_kinds then True
          else if fc_kind c = ''added_field'' \<and> fc_to_optional c = Some False then True
          else is_optionality_breaking c \<or> is_nullability_breaking c)"

definition has_breaking_change :: "field_change list \<Rightarrow> bool" where
  "has_breaking_change cs \<longleftrightarrow> list_ex is_field_change_breaking cs"

section \<open>The text of a finding\<close>

definition describe_bool_word :: "bool option \<Rightarrow> string" where
  "describe_bool_word v = (case v of None \<Rightarrow> ''unknown'' | Some b \<Rightarrow> if b then ''optional'' else ''required'')"

definition describe_nullable_word :: "bool option \<Rightarrow> string" where
  "describe_nullable_word v = (case v of None \<Rightarrow> ''unknown'' | Some b \<Rightarrow> if b then ''nullable'' else ''non-null'')"

text \<open>An optional text inside an f-string.\<close>

definition opt_text :: "string option \<Rightarrow> string" where
  "opt_text t = (case t of None \<Rightarrow> ''None'' | Some s \<Rightarrow> s)"

definition arrow_text :: "string option \<Rightarrow> string option \<Rightarrow> string" where
  "arrow_text a b = opt_text a @ '' -> '' @ opt_text b"

definition describe_field_change :: "field_change \<Rightarrow> string" where
  "describe_field_change c =
     (let k = fc_kind c; name = fc_field_name c; plain = k @ '' '' @ name;
          entity = (if name = [] then ''entity'' else name) in
      if k = ''renamed_field'' then plain @ '' -> '' @ opt_text (fc_replacement c)
      else if k = ''presence_changed''
        then plain @ '': '' @ describe_bool_word (fc_from_optional c) @ '' -> '' @ describe_bool_word (fc_to_optional c)
      else if k = ''nullability_changed''
        then plain @ '': '' @ describe_nullable_word (fc_from_nullable c) @ '' -> ''
               @ describe_nullable_word (fc_to_nullable c)
      else if k \<in> {''enum_version_changed'', ''enum_reference_changed''}
        then plain @ '': '' @ arrow_text (fc_from_type c) (fc_to_type c)
               @ (if fc_note c = [] then [] else '' ('' @ fc_note c @ '')'')
      else if k = ''union_discriminator_changed'' then plain @ '': '' @ arrow_text (fc_from_type c) (fc_to_type c)
      else if k = ''access_grant_removed''
        then k @ '' '' @ entity @ '' (governance): access grant removed: '' @ opt_text (fc_from_type c)
      else if k = ''access_grant_added''
        then k @ '' '' @ entity @ '' (governance): access grant added: '' @ opt_text (fc_to_type c)
      else if k \<in> {''pii_changed'', ''classification_changed''}
        then plain @ '' (governance): '' @ arrow_text (fc_from_type c) (fc_to_type c)
      else plain)"

section \<open>Index declarations\<close>

definition compare_index_decls :: "index_decl option \<Rightarrow> index_decl option \<Rightarrow> field_change list" where
  "compare_index_decls old_index new_index =
     (if old_index = None \<and> new_index = None then []
      else
        let primary = (\<lambda>i. case i of None \<Rightarrow> [] | Some d \<Rightarrow> ix_primary d);
            secondary = (\<lambda>i. case i of None \<Rightarrow> [] | Some d \<Rightarrow> dict_by si_name (ix_secondary d)) in
        (if primary old_index \<noteq> primary new_index then [mk_change ''index_changed'' ''primary''] else [])
        @ map (mk_change ''index_changed'')
            (filter (\<lambda>n. map_of (secondary old_index) n \<noteq> map_of (secondary new_index) n)
              (sorted_set (dict_keys (secondary old_index) @ dict_keys (secondary new_index)))))"

section \<open>What breaks, change by change\<close>

named_theorems breaking_simps \<open>which changes of a comparison are breaking\<close>

lemma breaking_kind: "fc_breaking_override c = None \<Longrightarrow> fc_kind c \<in> set breaking_kinds \<Longrightarrow> is_field_change_breaking c"
  by (simp add: is_field_change_breaking_def)

lemma change_fields [simp]:
  "fc_kind (mk_change k n) = k" "fc_breaking_override (mk_change k n) = None"
  "fc_kind (typed_change k n a b) = k" "fc_breaking_override (typed_change k n a b) = None"
  "fc_from_optional (typed_change k n a b) = None" "fc_to_optional (typed_change k n a b) = None"
  "fc_from_nullable (typed_change k n a b) = None" "fc_to_nullable (typed_change k n a b) = None"
  "fc_from_optional (mk_change k n) = None" "fc_to_optional (mk_change k n) = None"
  "fc_from_nullable (mk_change k n) = None" "fc_to_nullable (mk_change k n) = None"
  by (simp_all add: mk_change_def typed_change_def)

lemma breaking_typed [breaking_simps]: "k \<in> set breaking_kinds \<Longrightarrow> is_field_change_breaking (typed_change k n a b)"
  by (simp add: breaking_kind)

lemma breaking_kinds_mem [breaking_simps]:
  "''removed_field'' \<in> set breaking_kinds" "''renamed_field'' \<in> set breaking_kinds"
  "''type_changed'' \<in> set breaking_kinds" "''enum_changed'' \<in> set breaking_kinds"
  "''enum_version_changed'' \<in> set breaking_kinds" "''enum_reference_changed'' \<in> set breaking_kinds"
  "''union_discriminator_changed'' \<in> set breaking_kinds" "''union_variant_added'' \<in> set breaking_kinds"
  "''union_variant_removed'' \<in> set breaking_kinds" "''union_variant_changed'' \<in> set breaking_kinds"
  "''identity_changed'' \<in> set breaking_kinds" "''identity_order_changed'' \<in> set breaking_kinds"
  "''access_grant_removed'' \<in> set breaking_kinds" "''pii_changed'' \<in> set breaking_kinds"
  "''classification_changed'' \<in> set breaking_kinds" "''added_field'' \<notin> set breaking_kinds"
  "''presence_changed'' \<notin> set breaking_kinds" "''nullability_changed'' \<notin> set breaking_kinds"
  "''access_grant_added'' \<notin> set breaking_kinds" "''index_changed'' \<notin> set breaking_kinds"
  by (simp_all add: breaking_kinds_def)

lemma breaking_from_type [breaking_simps]:
  "k \<in> set breaking_kinds \<Longrightarrow> is_field_change_breaking ((mk_change k n)\<lparr>fc_from_type := a\<rparr>)"
  "k \<in> set breaking_kinds \<Longrightarrow> is_field_change_breaking ((mk_change k n)\<lparr>fc_to_type := a\<rparr>)"
  "k \<in> set breaking_kinds \<Longrightarrow> is_field_change_breaking ((mk_change k n)\<lparr>fc_from_optional := x, fc_from_type := a\<rparr>)"
  "k \<in> set breaking_kinds \<Longrightarrow> is_field_change_breaking ((typed_change k n u v)\<lparr>fc_note := m\<rparr>)"
  by (simp_all add: breaking_kind)

lemma breaking_optionality [breaking_simps]:
  "is_field_change_breaking (optionality_change old new n) \<longleftrightarrow> fd_optional old \<and> \<not> fd_optional new"
  "is_field_change_breaking (nullability_change old new n) \<longleftrightarrow> fd_nullable old \<and> \<not> fd_nullable new"
  by (auto simp: is_field_change_breaking_def optionality_change_def nullability_change_def
      is_optionality_breaking_def is_nullability_breaking_def breaking_kinds_mem)

lemma breaking_added [breaking_simps]:
  "is_field_change_breaking ((mk_change ''added_field'' n)\<lparr>fc_to_optional := Some b, fc_to_type := a, fc_to_default := d\<rparr>)
     \<longleftrightarrow> \<not> b"
  "\<not> is_field_change_breaking ((mk_change ''access_grant_added'' n)\<lparr>fc_to_type := a\<rparr>)"
  "\<not> is_field_change_breaking (mk_change ''index_changed'' n)"
  by (auto simp: is_field_change_breaking_def is_optionality_breaking_def is_nullability_breaking_def
      breaking_kinds_mem)

lemma breaking_renamed [breaking_simps]: "list_ex is_field_change_breaking (renamed_changes note old new r)"
  by (simp add: renamed_changes_def breaking_kind breaking_kinds_mem)

text \<open>The signature of every tag of a union.\<close>

definition variant_signature :: "union_variant list \<Rightarrow> string \<Rightarrow> string option" where
  "variant_signature vs t = map_option (\<lambda>v. field_type_signature (uv_type v)) (map_of (dict_by uv_tag vs) t)"

text \<open>
  Types of the same shape: the same signature, or unions with the same discriminator whose tags have
  the same types, in whatever order.
\<close>

definition same_shape :: "field_def \<Rightarrow> field_def \<Rightarrow> bool" where
  "same_shape old new \<longleftrightarrow> type_signature old = type_signature new \<or>
     (case (fd_type old, fd_type new) of
        (UnionType d1 vs1, UnionType d2 vs2) \<Rightarrow> d1 = d2 \<and> variant_signature vs1 = variant_signature vs2
      | _ \<Rightarrow> False)"

lemma filter_Nil_ex: "filter P xs \<noteq> [] \<longleftrightarrow> list_ex P xs"
  by (induction xs) auto

lemma same_bindings:
  assumes "\<And>t. f t = (if t \<in> K then Some (v t) else None)" and "\<And>t. g t = (if t \<in> L then Some (w t) else None)"
  shows "f = g \<longleftrightarrow> K = L \<and> (\<forall>t \<in> K. v t = w t)"
proof
  assume "f = g"
  then have eq: "(if t \<in> K then Some (v t) else None) = (if t \<in> L then Some (w t) else None)" for t
    by (simp add: assms [symmetric])
  have "t \<in> K \<longleftrightarrow> t \<in> L" for t using eq [of t] by (simp split: if_splits)
  moreover have "v t = w t" if "t \<in> K" for t using eq [of t] that by (simp split: if_splits)
  ultimately show "K = L \<and> (\<forall>t \<in> K. v t = w t)" by blast
next
  assume "K = L \<and> (\<forall>t \<in> K. v t = w t)"
  then show "f = g" by (intro ext) (simp add: assms)
qed

lemma variant_signatures_eq:
  "variant_signature vs1 = variant_signature vs2 \<longleftrightarrow>
     set (dict_keys (dict_by uv_tag vs1)) = set (dict_keys (dict_by uv_tag vs2)) \<and>
     (\<forall>t \<in> set (dict_keys (dict_by uv_tag vs1)).
        field_type_signature (uv_type (the (map_of (dict_by uv_tag vs1) t)))
          = field_type_signature (uv_type (the (map_of (dict_by uv_tag vs2) t))))"
proof -
  have val: "variant_signature vs t = (if t \<in> set (dict_keys (dict_by uv_tag vs))
      then Some (field_type_signature (uv_type (the (map_of (dict_by uv_tag vs) t)))) else None)" for vs t
    by (cases "map_of (dict_by uv_tag vs) t")
      (auto simp: variant_signature_def map_of_eq_None_iff dest: map_of_SomeD intro: rev_image_eqI)
  show ?thesis by (rule same_bindings) (rule val)+
qed

lemma breaking_union:
  "list_ex is_field_change_breaking (union_changes n d1 vs1 d2 vs2) \<longleftrightarrow>
     \<not> (d1 = d2 \<and> variant_signature vs1 = variant_signature vs2)"
proof -
  have ex: "list_ex P (sorted_inter xs ys) \<longleftrightarrow> (\<exists>x \<in> set xs \<inter> set ys. P x)" for P and xs ys :: "string list"
    by (simp add: list_ex_iff)
  show ?thesis
    unfolding variant_signatures_eq
    by (simp add: union_changes_def Let_def view_simps breaking_simps filter_Nil_ex ex del: set_map)
      blast
qed

lemma breaking_types [breaking_simps]:
  "list_ex is_field_change_breaking (compare_field_types old new n) \<longleftrightarrow> \<not> same_shape old new"
  by (auto simp: compare_field_types_def same_shape_def Let_def breaking_union breaking_simps
      split: field_type.split)

text \<open>A field may be widened, not narrowed; its type and its part in the key are kept.\<close>

definition field_compatible :: "field_def \<Rightarrow> field_def \<Rightarrow> bool" where
  "field_compatible old new \<longleftrightarrow>
     (fd_optional old \<longrightarrow> fd_optional new) \<and> (fd_nullable old \<longrightarrow> fd_nullable new)
     \<and> fd_is_key old = fd_is_key new \<and> same_shape old new"

lemma breaking_common [breaking_simps]:
  "list_ex is_field_change_breaking (common_field_changes old new n) \<longleftrightarrow> \<not> field_compatible old new"
  by (auto simp: common_field_changes_def field_compatible_def breaking_simps)

lemma breaking_governance [breaking_simps]:
  "list_ex is_field_change_breaking (field_governance_changes old new n) \<longleftrightarrow>
     \<not> (fd_is_pii old = fd_is_pii new \<and> fd_classification old = fd_classification new)"
  by (auto simp: field_governance_changes_def breaking_simps)

end
