(* ===== verification/Diff_Contract.thy ===== *)
theory Diff_Contract
  imports Diff
begin

text \<open>
  What the comparison of two model versions (theory \<^verbatim>\<open>Diff\<close>) promises: which pairs of versions it
  calls compatible, stated on the fields themselves and not on the changes the comparison lists, and
  what its treatment of deprecated fields does to a version compared with itself.
\<close>

section \<open>Renames always break\<close>

text \<open>What the two rename loops keep: nothing is matched without a breaking change.\<close>

definition is_rename :: "field_change \<Rightarrow> bool" where
  "is_rename c \<longleftrightarrow> fc_kind c = ''renamed_field'' \<and> fc_breaking_override c = None"

lemma rename_breaks: "is_rename c \<Longrightarrow> is_field_change_breaking c"
  by (simp add: is_rename_def breaking_kind breaking_kinds_mem)

lemma renamed_is_rename: "list_ex is_rename (renamed_changes note old new r)"
  by (simp add: renamed_changes_def is_rename_def)

definition rename_invariant :: "rename_state \<Rightarrow> bool" where
  "rename_invariant st \<longleftrightarrow> (case st of (changes, matched_old, matched_new) \<Rightarrow>
     (changes = [] \<and> matched_old = [] \<and> matched_new = []) \<or> list_ex is_rename changes)"

lemma rename_invariant_extend: "list_ex is_rename cs \<Longrightarrow> rename_invariant (changes @ cs, mo, mn)"
  by (simp add: rename_invariant_def)

lemma provenance_step_invariant:
  assumes "rename_invariant st"
  shows "rename_invariant (provenance_step ofs nfs st e)"
proof -
  obtain c mo mn where st: "st = (c, mo, mn)" by (cases st)
  then show ?thesis
    using assms by (auto simp: provenance_step_def renamed_is_rename
        intro!: rename_invariant_extend split: option.split)
qed

lemma deprecated_step_invariant:
  assumes "rename_invariant st"
  shows "rename_invariant (deprecated_step nfs st f)"
proof -
  obtain c mo mn where st: "st = (c, mo, mn)" by (cases st)
  then show ?thesis
    using assms by (auto simp: deprecated_step_def renamed_is_rename
        intro!: rename_invariant_extend split: option.split)
qed

lemma foldl_invariant: "I s \<Longrightarrow> (\<And>s x. I s \<Longrightarrow> I (step s x)) \<Longrightarrow> I (foldl step s xs)"
  by (induction xs arbitrary: s) auto

lemma detect_renames_invariant: "rename_invariant (detect_renames old new)"
proof -
  have "rename_invariant ([], [], [])" by (simp add: rename_invariant_def)
  then have "rename_invariant (foldl (provenance_step (dict_by fd_name (mv_fields old)) (dict_by fd_name (mv_fields new)))
      ([], [], []) (mv_provenance new))"
    by (rule foldl_invariant [where I = rename_invariant]) (rule provenance_step_invariant)
  then show ?thesis
    unfolding detect_renames_def
    by (rule foldl_invariant [where I = rename_invariant]) (rule deprecated_step_invariant)
qed

definition no_renames :: "model_version \<Rightarrow> model_version \<Rightarrow> bool" where
  "no_renames old new \<longleftrightarrow> detect_renames old new = ([], [], [])"

text \<open>What holds of every rename, and of no other list, tells whether there is one.\<close>

lemma renames_ex:
  assumes "detect_renames old new = (changes, mo, mn)" and "\<And>c. is_rename c \<Longrightarrow> P c"
  shows "list_ex P changes \<longleftrightarrow> \<not> no_renames old new"
  using detect_renames_invariant [of old new] assms
  by (auto simp: rename_invariant_def no_renames_def list_ex_iff)

lemmas breaking_renames = renames_ex [where P = is_field_change_breaking, OF _ rename_breaks]

section \<open>The contract of a compatible version\<close>

definition unique_fields :: "model_version \<Rightarrow> bool" where
  "unique_fields v \<longleftrightarrow> distinct (map fd_name (mv_fields v))"

definition find_field :: "model_version \<Rightarrow> string \<Rightarrow> field_def option" where
  "find_field v n = List.find (\<lambda>f. fd_name f = n) (mv_fields v)"

text \<open>
  Every old field is still there, not narrowed, of the same shape, the same part of the key, the same
  personal-data mark and classification; every new field is optional; the key components are not
  reordered; no access grant is gone.
\<close>

definition model_compatible :: "model_version \<Rightarrow> model_version \<Rightarrow> bool" where
  "model_compatible old new \<longleftrightarrow>
     list_all (\<lambda>f. case find_field new (fd_name f) of None \<Rightarrow> False
        | Some g \<Rightarrow> field_compatible f g \<and> fd_is_pii f = fd_is_pii g \<and> fd_classification f = fd_classification g)
       (mv_fields old)
     \<and> list_all (\<lambda>g. find_field old (fd_name g) = None \<longrightarrow> fd_optional g) (mv_fields new)
     \<and> (set (key_names old) = set (key_names new) \<longrightarrow> key_names old = key_names new)
     \<and> set (access_grant_triples (mv_access old)) \<subseteq> set (access_grant_triples (mv_access new))"

lemma find_field_None: "find_field v n = None \<longleftrightarrow> n \<notin> fd_name ` set (mv_fields v)"
  by (auto simp: find_field_def find_None_iff)

lemma find_field_Some: "find_field v n = Some f \<Longrightarrow> f \<in> set (mv_fields v) \<and> fd_name f = n"
  by (auto simp: find_field_def dest: find_Some_D)

lemma dict_find_field:
  "unique_fields v \<Longrightarrow> map_of (dict_by fd_name (mv_fields v)) n = find_field v n"
proof (cases "find_field v n")
  case None
  then have "n \<notin> fd_name ` set (mv_fields v)" by (simp add: find_field_None)
  then have "map_of (dict_by fd_name (mv_fields v)) n = None" by (simp only: map_of_dict_by_None not_False_eq_True)
  with None show ?thesis by simp
next
  case (Some f)
  assume "unique_fields v"
  with find_field_Some [OF Some] Some show ?thesis
    by (auto simp: unique_fields_def map_of_dict_by_distinct)
qed

lemma unique_dict: "unique_fields v \<Longrightarrow> dict_by fd_name (mv_fields v) = map (\<lambda>f. (fd_name f, f)) (mv_fields v)"
  unfolding dict_by_def unique_fields_def by (rule dict_of_distinct) (simp add: o_def)

lemma breaking_removed:
  "list_ex is_field_change_breaking (removed_changes old new []) \<longleftrightarrow>
     list_ex (\<lambda>f. find_field new (fd_name f) = None) (mv_fields old)"
  by (simp add: removed_changes_def view_simps breaking_simps filter_Nil_ex find_field_None)

lemma list_ex_filter: "list_ex P (filter Q xs) \<longleftrightarrow> list_ex (\<lambda>x. Q x \<and> P x) xs"
  by (induction xs) auto

lemma breaking_added_changes:
  "list_ex is_field_change_breaking (added_changes old new []) \<longleftrightarrow>
     list_ex (\<lambda>g. find_field old (fd_name g) = None \<and> \<not> fd_optional g) (mv_fields new)"
  by (simp add: added_changes_def view_simps breaking_simps list_ex_filter find_field_None)

lemma breaking_key_order:
  "list_ex is_field_change_breaking (key_order_changes old new) \<longleftrightarrow>
     key_names old \<noteq> key_names new \<and> set (key_names old) = set (key_names new)"
  by (simp add: key_order_changes_def breaking_simps)

lemma breaking_grants:
  "list_ex is_field_change_breaking (grant_changes old new) \<longleftrightarrow>
     \<not> set (access_grant_triples (mv_access old)) \<subseteq> set (access_grant_triples (mv_access new))"
  by (simp add: grant_changes_def Let_def view_simps breaking_simps case_prod_unfold)

lemma find_own_field:
  "unique_fields v \<Longrightarrow> f \<in> set (mv_fields v) \<Longrightarrow> find_field v (fd_name f) = Some f"
  using dict_find_field [of v "fd_name f"] by (simp add: unique_fields_def map_of_dict_by_distinct)

lemma field_names_dict:
  "unique_fields v \<Longrightarrow> map (\<lambda>(k, f). fd_name f) (dict_by fd_name (mv_fields v)) = map fd_name (mv_fields v)"
  "unique_fields v \<Longrightarrow> dict_keys (dict_by fd_name (mv_fields v)) = map fd_name (mv_fields v)"
  by (simp_all add: unique_dict)

lemma find_field_mem: "n \<in> fd_name ` set (mv_fields v) \<longleftrightarrow> (\<exists>f. find_field v n = Some f)"
  using find_field_None [of v n] by (cases "find_field v n") auto

text \<open>A common change of a certain sort, where one common field tells by itself whether it has one.\<close>

lemma common_changes_ex:
  assumes "unique_fields old" and "unique_fields new"
    and part: "\<And>f g n. list_ex P (common_field_changes f g n) \<longleftrightarrow> \<not> kept f g"
  shows "list_ex P (common_changes old new) \<longleftrightarrow>
     list_ex (\<lambda>f. \<exists>g. find_field new (fd_name f) = Some g \<and> \<not> kept f g) (mv_fields old)"
proof -
  have "list_ex P (common_changes old new) \<longleftrightarrow>
      list_ex (\<lambda>n. find_field new n \<noteq> None \<and> \<not> kept (the (find_field old n)) (the (find_field new n)))
        (map fd_name (mv_fields old))"
    unfolding common_changes_def Let_def common_field_names_def dict_find_field [OF assms(1)]
      dict_find_field [OF assms(2)] field_names_dict(1) [OF assms(1)]
    by (simp only: list_ex_concat list_ex_map list_ex_filter part)
  also have "\<dots> \<longleftrightarrow> list_ex (\<lambda>f. \<exists>g. find_field new (fd_name f) = Some g \<and> \<not> kept f g) (mv_fields old)"
    unfolding list_ex_map unfolding list_ex_iff by (rule bex_cong) (auto simp: find_own_field [OF assms(1)])
  finally show ?thesis .
qed

lemmas breaking_common_changes =
  common_changes_ex [where P = is_field_change_breaking and kept = field_compatible, OF _ _ breaking_common]

lemma breaking_model_governance:
  assumes "unique_fields old" and "unique_fields new"
  shows "list_ex is_field_change_breaking (compare_model_governance old new) \<longleftrightarrow>
     \<not> set (access_grant_triples (mv_access old)) \<subseteq> set (access_grant_triples (mv_access new)) \<or>
     list_ex (\<lambda>f. \<exists>g. find_field new (fd_name f) = Some g \<and>
        \<not> (fd_is_pii f = fd_is_pii g \<and> fd_classification f = fd_classification g)) (mv_fields old)"
proof -
  let ?bad = "\<lambda>f g. \<not> (fd_is_pii f = fd_is_pii g \<and> fd_classification f = fd_classification g)"
  have "list_ex (\<lambda>n. ?bad (the (find_field old n)) (the (find_field new n)))
        (sorted_inter (map fd_name (mv_fields old)) (map fd_name (mv_fields new)))
      \<longleftrightarrow> (\<exists>f \<in> set (mv_fields old). fd_name f \<in> fd_name ` set (mv_fields new) \<and>
             ?bad (the (find_field old (fd_name f))) (the (find_field new (fd_name f))))"
    unfolding list_ex_iff by (simp only: set_sorted_inter set_map) blast
  also have "\<dots> \<longleftrightarrow> list_ex (\<lambda>f. \<exists>g. find_field new (fd_name f) = Some g \<and> ?bad f g) (mv_fields old)"
    unfolding list_ex_iff find_field_mem by (rule bex_cong) (auto simp: find_own_field [OF assms(1)])
  finally have fields: "list_ex (\<lambda>n. ?bad (the (find_field old n)) (the (find_field new n)))
        (sorted_inter (map fd_name (mv_fields old)) (map fd_name (mv_fields new)))
      \<longleftrightarrow> list_ex (\<lambda>f. \<exists>g. find_field new (fd_name f) = Some g \<and> ?bad f g) (mv_fields old)" .
  show ?thesis
    unfolding compare_model_governance_def Let_def dict_find_field [OF assms(1)] dict_find_field [OF assms(2)]
      field_names_dict(2) [OF assms(1)] field_names_dict(2) [OF assms(2)]
    by (simp only: list_ex_append list_ex_concat list_ex_map breaking_governance breaking_grants fields)
qed

lemma model_compatible_iff:
  assumes "unique_fields old" and "unique_fields new"
  shows "\<not> has_breaking_change (compare_model_versions old new) \<longleftrightarrow> no_renames old new \<and> model_compatible old new"
proof -
  obtain changes mo mn where det: "detect_renames old new = (changes, mo, mn)" by (cases "detect_renames old new")
  show ?thesis
  proof (cases "no_renames old new")
    case False
    with breaking_renames [OF det] show ?thesis
      by (simp add: has_breaking_change_def compare_model_versions_def det)
  next
    case True
    with det have "changes = []" "mo = []" "mn = []" by (simp_all add: no_renames_def)
    then have "\<not> has_breaking_change (compare_model_versions old new) \<longleftrightarrow>
       \<not> (list_ex (\<lambda>f. find_field new (fd_name f) = None) (mv_fields old)
        \<or> list_ex (\<lambda>f. \<exists>g. find_field new (fd_name f) = Some g \<and> \<not> field_compatible f g) (mv_fields old)
        \<or> list_ex (\<lambda>g. find_field old (fd_name g) = None \<and> \<not> fd_optional g) (mv_fields new)
        \<or> key_names old \<noteq> key_names new \<and> set (key_names old) = set (key_names new)
        \<or> \<not> set (access_grant_triples (mv_access old)) \<subseteq> set (access_grant_triples (mv_access new))
        \<or> list_ex (\<lambda>f. \<exists>g. find_field new (fd_name f) = Some g \<and>
            \<not> (fd_is_pii f = fd_is_pii g \<and> fd_classification f = fd_classification g)) (mv_fields old))"
      by (simp add: has_breaking_change_def compare_model_versions_def det breaking_removed breaking_added_changes
          breaking_key_order breaking_common_changes [OF assms] breaking_model_governance [OF assms])
    also have "\<dots> \<longleftrightarrow> model_compatible old new"
      by (auto simp: model_compatible_def list_all_iff list_ex_iff split: option.splits)
    finally show ?thesis using True by simp
  qed
qed

text \<open>The comparison itself overrides nothing, and only added fields are reported as added.\<close>

named_theorems plain_simps \<open>changes without an override\<close>

abbreviation plain_changes :: "field_change list \<Rightarrow> bool" where
  "plain_changes \<equiv> list_all (\<lambda>c. fc_breaking_override c = None \<and> fc_kind c \<noteq> ''added_field'')"

lemma plain_changes_simps [plain_simps]:
  "fc_breaking_override (optionality_change f g n) = None"
  "fc_breaking_override (nullability_change f g n) = None"
  "fc_breaking_override (with_nullable f g c) = fc_breaking_override c"
  "fc_kind (optionality_change f g n) = ''presence_changed''" "fc_kind (nullability_change f g n) = ''nullability_changed''"
  "fc_kind (with_nullable f g c) = fc_kind c"
  by (simp_all add: optionality_change_def nullability_change_def with_nullable_def)

lemma plain_types [plain_simps]: "plain_changes (compare_field_types f g n)"
  by (auto simp: compare_field_types_def union_changes_def Let_def list_all_iff split: field_type.split)

lemma plain_renamed [plain_simps]: "plain_changes (renamed_changes m f g r)"
  by (simp add: renamed_changes_def plain_simps)

lemma plain_renames: "detect_renames old new = (changes, mo, mn) \<Longrightarrow> plain_changes changes"
proof -
  define I where "I = (\<lambda>st :: rename_state. plain_changes (fst st))"
  have prov: "I (provenance_step ofs nfs st e)" if "I st" for ofs nfs st e
    using that by (cases st) (auto simp: I_def provenance_step_def plain_simps split: option.split)
  have dep: "I (deprecated_step nfs st f)" if "I st" for nfs st f
    using that by (cases st) (auto simp: I_def deprecated_step_def plain_simps split: option.split)
  have "I (foldl (provenance_step (dict_by fd_name (mv_fields old)) (dict_by fd_name (mv_fields new)))
      ([], [], []) (mv_provenance new))"
    by (rule foldl_invariant [where I = I]) (simp_all add: prov, simp add: I_def)
  then have "I (detect_renames old new)"
    unfolding detect_renames_def by (rule foldl_invariant [where I = I]) (rule dep)
  then show "detect_renames old new = (changes, mo, mn) \<Longrightarrow> plain_changes changes" by (simp add: I_def)
qed

lemma plain_concat [plain_simps]: "(\<And>x. x \<in> set xs \<Longrightarrow> plain_changes (f x)) \<Longrightarrow> plain_changes (concat (map f xs))"
  by (auto simp: list_all_iff)

lemma plain_or_added:
  assumes "c \<in> set (compare_model_versions old new)"
  shows "fc_breaking_override c = None \<and> (fc_kind c = ''added_field'' \<longrightarrow> (\<exists>mn. c \<in> set (added_changes old new mn)))"
proof -
  obtain changes mo mn where det: "detect_renames old new = (changes, mo, mn)" by (cases "detect_renames old new")
  have "plain_changes (removed_changes old new mo)" "plain_changes (key_order_changes old new)"
    by (simp_all add: removed_changes_def key_order_changes_def list_all_iff)
  moreover have "\<forall>c \<in> set (added_changes old new mn). fc_breaking_override c = None" by (auto simp: added_changes_def)
  moreover have "plain_changes (common_changes old new)"
    unfolding common_changes_def Let_def by (rule plain_concat) (simp add: common_field_changes_def plain_simps)
  moreover have "plain_changes (compare_model_governance old new)"
  proof -
    have "plain_changes (grant_changes old new)"
      by (auto simp: grant_changes_def Let_def list_all_iff)
    moreover have "plain_changes (concat (map (\<lambda>n. field_governance_changes
        (the (map_of (dict_by fd_name (mv_fields old)) n)) (the (map_of (dict_by fd_name (mv_fields new)) n)) n)
        (sorted_inter (dict_keys (dict_by fd_name (mv_fields old))) (dict_keys (dict_by fd_name (mv_fields new))))))"
      by (rule plain_concat) (simp add: field_governance_changes_def)
    ultimately show ?thesis by (simp add: compare_model_governance_def Let_def)
  qed
  ultimately show ?thesis
    using plain_renames [OF det] assms by (auto simp: compare_model_versions_def det list_all_iff)
qed

lemma plain_comparison: "list_all (\<lambda>c. fc_breaking_override c = None) (compare_model_versions old new)"
  using plain_or_added by (auto simp: list_all_iff)

text \<open>
  C1. The comparison of two model versions reports no breaking change exactly when no field is renamed
  and the new version keeps the contract of the old one: every old field is still there under its name,
  not narrowed from optional to required or from nullable to non-null, of the same shape, of the same
  part of the key, with the same personal-data mark and classification; every field that is only in the
  new version is optional; the key components are not reordered; and every access grant is kept.
\<close>

theorem compatible_iff:
  assumes "unique_fields old" and "unique_fields new"
  shows "\<not> has_breaking_change (compare_model_versions old new) \<longleftrightarrow> no_renames old new \<and> model_compatible old new"
  by (rule model_compatible_iff [OF assms])


definition field_n :: "string \<Rightarrow> annotation list \<Rightarrow> bool \<Rightarrow> field_def" where
  "field_n n anns opt = FieldDef n (PrimitiveType KString 0) opt False None anns []"

definition version_of :: "field_def list \<Rightarrow> model_version" where
  "version_of fs =
     \<lparr>mv_model_kind = Entity, mv_version = 1, mv_change_kind = Additive, mv_fields = fs, mv_access = None,
      mv_has_version_header = True, mv_has_change_kind = True, mv_annotations = [],
      mv_protobuf_reservations = None, mv_provenance = []\<rparr>"

lemmas witness_simps = version_of_def field_n_def unique_fields_def

theorem compatible_iff_witness:
  "\<not> has_breaking_change (compare_model_versions (version_of [field_n ''id'' [AnnKey] False])
       (version_of [field_n ''id'' [AnnKey] False, field_n ''note'' [] True]))
   \<longleftrightarrow> no_renames (version_of [field_n ''id'' [AnnKey] False])
         (version_of [field_n ''id'' [AnnKey] False, field_n ''note'' [] True])
       \<and> model_compatible (version_of [field_n ''id'' [AnnKey] False])
         (version_of [field_n ''id'' [AnnKey] False, field_n ''note'' [] True])"
  by (rule compatible_iff) (simp_all add: witness_simps)

section \<open>A version compared with itself\<close>

lemma detect_renames_deprecated:
  assumes prov: "mv_provenance v = []"
    and f: "f \<in> set (mv_fields v)" and dep: "deprecated_replacement f = Some b"
    and b: "b \<in> fd_name ` set (mv_fields v)"
  shows "\<not> no_renames v v"
proof
  assume none: "no_renames v v"
  let ?step = "deprecated_step (dict_by fd_name (mv_fields v))"
  have keep: "foldl ?step s fs = ([], [], []) \<Longrightarrow> s = ([], [], []) \<and> (\<forall>g \<in> set fs. ?step ([], [], []) g = ([], [], []))"
    for s fs
  proof (induction fs arbitrary: s)
    case (Cons g fs)
    then have s': "?step s g = ([], [], [])" and rest: "\<forall>g \<in> set fs. ?step ([], [], []) g = ([], [], [])" by auto
    obtain c mo mn where "s = (c, mo, mn)" by (cases s)
    with s' have "s = ([], [], [])"
      by (auto simp: deprecated_step_def split: if_splits option.splits)
    with s' rest show ?case by auto
  qed simp
  have "?step ([], [], []) f = ([], [], [])"
    using none keep [of "([], [], [])" "mv_fields v"] f by (simp add: no_renames_def detect_renames_def prov)
  moreover obtain g where "map_of (dict_by fd_name (mv_fields v)) b = Some g"
    using b map_of_dict_by_None [of fd_name "mv_fields v" b] by (cases "map_of (dict_by fd_name (mv_fields v)) b") auto
  ultimately show False by (simp add: deprecated_step_def dep)
qed

text \<open>
  A version that keeps a deprecated field beside its declared replacement is reported as breaking
  against itself: the loop over deprecated fields pairs the old field with the replacement without
  asking whether the old name is still there, so an unchanged model is an incompatible change.
\<close>

theorem deprecated_pair_breaks_itself:
  assumes "mv_provenance v = []"
    and "f \<in> set (mv_fields v)" and "deprecated_replacement f = Some b"
    and "b \<in> fd_name ` set (mv_fields v)"
  shows "has_breaking_change (compare_model_versions v v)"
proof -
  obtain changes mo mn where det: "detect_renames v v = (changes, mo, mn)" by (cases "detect_renames v v")
  with breaking_renames [OF det] detect_renames_deprecated [OF assms] show ?thesis
    by (simp add: has_breaking_change_def compare_model_versions_def det)
qed

theorem deprecated_pair_breaks_itself_witness:
  "has_breaking_change (compare_model_versions
     (version_of [field_n ''mail'' [AnnDeprecated ''email''] True, field_n ''email'' [] True])
     (version_of [field_n ''mail'' [AnnDeprecated ''email''] True, field_n ''email'' [] True]))"
  by (rule deprecated_pair_breaks_itself [where f = "field_n ''mail'' [AnnDeprecated ''email''] True"
        and b = "''email''"])
    (simp_all add: witness_simps deprecated_replacement_def)

end
