(* ===== verification/Wire.thy ===== *)
theory Wire
  imports Ir
begin

text \<open>
  \<^verbatim>\<open>cli/src/modelable/parser/wire.py\<close>: the wire hints of a field, merged over all its annotations, and
  the text of a wire annotation. Two hints that disagree end the merge with an exception.
\<close>

section \<open>Merging\<close>

datatype wire_conflict =
    EncodingConflict string string string
  | WireTypeConflict string string string
  | CaseConflict string string string
  | OverrideConflict string string string string
  | FieldCaseConflict string string string

definition empty_hint :: wire_target_hint where
  "empty_hint = \<lparr>wh_encoding = None, wh_type = None, wh_case = None, wh_overrides = [], wh_field_case = None\<rparr>"

text \<open>One optional entry: a second value has to agree with the first.\<close>

definition merge_entry :: "(string \<Rightarrow> string \<Rightarrow> wire_conflict) \<Rightarrow> string option \<Rightarrow> string option \<Rightarrow> wire_conflict + string option" where
  "merge_entry conflict merged new =
     (case new of
        None \<Rightarrow> Inr merged
      | Some b \<Rightarrow> (case merged of None \<Rightarrow> Inr (Some b) | Some a \<Rightarrow> if a \<noteq> b then Inl (conflict a b) else Inr (Some b)))"

text \<open>The members of both dictionaries have to agree; the first one that does not is reported.\<close>

definition merge_overrides ::
    "string \<Rightarrow> (string, string) dict \<Rightarrow> (string, string) dict \<Rightarrow> wire_conflict + (string, string) dict" where
  "merge_overrides target merged new =
     (case List.find (\<lambda>k. map_of merged k \<noteq> map_of new k) (sorted_inter (dict_keys merged) (dict_keys new)) of
        Some k \<Rightarrow> Inl (OverrideConflict target k (the (map_of merged k)) (the (map_of new k)))
      | None \<Rightarrow> Inr (foldl (\<lambda>d kv. dict_put (fst kv) (snd kv) d) merged new))"

definition merge_hint :: "string \<Rightarrow> wire_target_hint \<Rightarrow> wire_target_hint \<Rightarrow> wire_conflict + wire_target_hint" where
  "merge_hint target merged hint =
     sbind (merge_entry (EncodingConflict target) (wh_encoding merged) (wh_encoding hint)) (\<lambda>encoding.
     sbind (merge_entry (WireTypeConflict target) (wh_type merged) (wh_type hint)) (\<lambda>type.
     sbind (merge_entry (CaseConflict target) (wh_case merged) (wh_case hint)) (\<lambda>cs.
     sbind (merge_overrides target (wh_overrides merged) (wh_overrides hint)) (\<lambda>overrides.
     sbind (merge_entry (FieldCaseConflict target) (wh_field_case merged) (wh_field_case hint)) (\<lambda>field_case.
       Inr \<lparr>wh_encoding = encoding, wh_type = type, wh_case = cs, wh_overrides = overrides,
            wh_field_case = field_case\<rparr>)))))"

type_synonym wire_targets = "(string, wire_target_hint) dict"

text \<open>\<^verbatim>\<open>targets.get(target, WireTargetHint())\<close>\<close>

definition target_hint :: "wire_targets \<Rightarrow> string \<Rightarrow> wire_target_hint" where
  "target_hint targets t = (case map_of targets t of None \<Rightarrow> empty_hint | Some h \<Rightarrow> h)"

fun merge_targets :: "wire_targets \<Rightarrow> (string \<times> wire_target_hint) list \<Rightarrow> wire_conflict + wire_targets" where
  "merge_targets targets [] = Inr targets"
| "merge_targets targets ((t, hint) # rest) =
     sbind (merge_hint t (target_hint targets t) hint) (\<lambda>merged. merge_targets (dict_put t merged targets) rest)"

text \<open>The targets of the wire annotations, in order.\<close>

fun annotation_hints :: "annotation list \<Rightarrow> (string \<times> wire_target_hint) list" where
  "annotation_hints [] = []"
| "annotation_hints (AnnWire ts # anns) = ts @ annotation_hints anns"
| "annotation_hints (_ # anns) = annotation_hints anns"

definition wire_targets_from_annotations :: "annotation list \<Rightarrow> wire_conflict + wire_targets" where
  "wire_targets_from_annotations anns = merge_targets [] (annotation_hints anns)"

section \<open>Rendering\<close>

definition quoted :: "string \<Rightarrow> string" where
  "quoted s = [CHR 0x22] @ s @ [CHR 0x22]"

definition option_part :: "string \<Rightarrow> string option \<Rightarrow> string list" where
  "option_part key v = (case v of None \<Rightarrow> [] | Some s \<Rightarrow> [key @ '': '' @ quoted s])"

definition hint_parts :: "string \<Rightarrow> wire_target_hint \<Rightarrow> string list" where
  "hint_parts t h =
     option_part t (wh_encoding h)
     @ option_part (t @ ''.type'') (wh_type h)
     @ option_part (t @ ''.case'') (wh_case h)
     @ (if wh_overrides h = [] then []
        else [t @ ''.overrides: { ''
              @ join '', '' (map (\<lambda>k. k @ '': '' @ quoted (the (map_of (wh_overrides h) k)))
                  (sorted_set (dict_keys (wh_overrides h)))) @ '' }''])
     @ option_part (t @ ''.fieldCase'') (wh_field_case h)"

text \<open>\<^const>\<open>None\<close> where the source raises: an annotation without any option.\<close>

definition render_wire_annotation :: "wire_targets \<Rightarrow> string option" where
  "render_wire_annotation ts =
     (let parts = concat (map (\<lambda>t. hint_parts t (the (map_of ts t))) (sorted_set (dict_keys ts))) in
      if parts = [] then None else Some (''@wire('' @ join '', '' parts @ '')''))"

section \<open>What the merged hints say\<close>

datatype wire_slot = SEncoding | SType | SCase | SOverride string | SFieldCase

fun says :: "wire_target_hint \<Rightarrow> wire_slot \<Rightarrow> string option" where
  "says h SEncoding = wh_encoding h"
| "says h SType = wh_type h"
| "says h SCase = wh_case h"
| "says h (SOverride k) = map_of (wh_overrides h) k"
| "says h SFieldCase = wh_field_case h"

definition agree :: "'a option \<Rightarrow> 'a option \<Rightarrow> bool" where
  "agree a b \<longleftrightarrow> a = None \<or> b = None \<or> a = b"

definition merged_value :: "'a option \<Rightarrow> 'a option \<Rightarrow> 'a option" where
  "merged_value a b = (case b of None \<Rightarrow> a | Some v \<Rightarrow> Some v)"

lemma merge_entry_Inr: "merge_entry c a b = Inr r \<longleftrightarrow> agree a b \<and> r = merged_value a b"
  by (auto simp: merge_entry_def agree_def merged_value_def split: option.splits)

lemma find_None_all: "List.find P xs = None \<longleftrightarrow> (\<forall>x \<in> set xs. \<not> P x)"
  by (auto simp: find_None_iff)

lemma merge_overrides_Inr:
  assumes "distinct (dict_keys new)"
  shows "merge_overrides t merged new = Inr r \<longleftrightarrow>
     (\<forall>k. agree (map_of merged k) (map_of new k)) \<and> r = foldl (\<lambda>d kv. dict_put (fst kv) (snd kv) d) merged new"
proof -
  have "List.find (\<lambda>k. map_of merged k \<noteq> map_of new k) (sorted_inter (dict_keys merged) (dict_keys new)) = None
      \<longleftrightarrow> (\<forall>k \<in> set (dict_keys merged) \<inter> set (dict_keys new). map_of merged k = map_of new k)"
    by (simp only: find_None_all set_sorted_inter not_not)
  also have "\<dots> \<longleftrightarrow> (\<forall>k. agree (map_of merged k) (map_of new k))"
    by (auto simp: agree_def map_of_eq_None_iff)
  finally show ?thesis
    by (auto simp: merge_overrides_def split: option.split)
qed

lemma says_overrides:
  "distinct (dict_keys new) \<Longrightarrow>
   map_of (foldl (\<lambda>d kv. dict_put (fst kv) (snd kv) d) merged new) k = merged_value (map_of merged k) (map_of new k)"
  by (simp add: alist.get_fold_put merged_value_def map_of_rev_distinct)

text \<open>The overrides of a hint are a dictionary.\<close>

definition hint_dict :: "wire_target_hint \<Rightarrow> bool" where
  "hint_dict h \<longleftrightarrow> distinct (dict_keys (wh_overrides h))"

lemma merge_hint_says:
  assumes "hint_dict h" and "merge_hint t m h = Inr m'"
  shows "agree (says m s) (says h s)" and "says m' s = merged_value (says m s) (says h s)"
  using assms
  by (cases s; auto simp: merge_hint_def hint_dict_def merge_entry_Inr merge_overrides_Inr says_overrides)+

lemma merge_hint_succeeds:
  assumes "hint_dict h" and agree: "\<And>s. agree (says m s) (says h s)"
  obtains m' where "merge_hint t m h = Inr m'"
proof -
  have "\<exists>m'. merge_hint t m h = Inr m'"
    using assms(1) agree [of SEncoding] agree [of SType] agree [of SCase] agree [of SFieldCase]
      agree [of "SOverride k" for k]
    by (simp add: merge_hint_def hint_dict_def merge_entry_Inr merge_overrides_Inr)
  with that show thesis by blast
qed

definition look :: "wire_targets \<Rightarrow> string \<Rightarrow> wire_slot \<Rightarrow> string option" where
  "look targets t s = says (target_hint targets t) s"

text \<open>What the hints say of a slot of a target.\<close>

definition stated :: "(string \<times> wire_target_hint) list \<Rightarrow> string \<Rightarrow> wire_slot \<Rightarrow> string \<Rightarrow> bool" where
  "stated hints t s v \<longleftrightarrow> (\<exists>h. (t, h) \<in> set hints \<and> says h s = Some v)"

definition consistent :: "(string \<times> wire_target_hint) list \<Rightarrow> bool" where
  "consistent hints \<longleftrightarrow> (\<forall>t s v w. stated hints t s v \<longrightarrow> stated hints t s w \<longrightarrow> v = w)"

definition said :: "wire_targets \<Rightarrow> (string \<times> wire_target_hint) list \<Rightarrow> string \<Rightarrow> wire_slot \<Rightarrow> string \<Rightarrow> bool" where
  "said targets hints t s v \<longleftrightarrow> look targets t s = Some v \<or> stated hints t s v"

lemma look_put:
  "look (dict_put t m targets) t' s = (if t' = t then says m s else look targets t' s)"
  by (simp add: look_def target_hint_def alist.get_put)

lemma said_step:
  assumes "hint_dict h" and "merge_hint t (target_hint targets t) h = Inr m"
  shows "said (dict_put t m targets) rest = said targets ((t, h) # rest)"
proof (intro ext)
  fix t' s v
  note step = merge_hint_says [OF assms, of s, folded look_def]
  show "said (dict_put t m targets) rest t' s v = said targets ((t, h) # rest) t' s v"
  proof (cases "t' = t")
    case True
    with step show ?thesis
      by (cases "look targets t s"; cases "says h s")
        (auto simp: said_def look_put stated_def merged_value_def agree_def)
  qed (auto simp: said_def look_put stated_def)
qed

lemma merge_targets_exact:
  assumes "\<And>t h. (t, h) \<in> set hints \<Longrightarrow> hint_dict h"
  shows "case merge_targets targets hints of
      Inl _ \<Rightarrow> \<exists>t s v w. said targets hints t s v \<and> said targets hints t s w \<and> v \<noteq> w
    | Inr out \<Rightarrow> (\<forall>t s v. look out t s = Some v \<longleftrightarrow> said targets hints t s v)"
  using assms
proof (induction targets hints rule: merge_targets.induct)
  case (1 targets)
  then show ?case by (simp add: said_def stated_def)
next
  case (2 targets t hint rest)
  have dict: "hint_dict hint" by (rule "2.prems" [of t]) simp
  show ?case
  proof (cases "merge_hint t (target_hint targets t) hint")
    case (Inl e)
    then obtain s where "\<not> agree (says (target_hint targets t) s) (says hint s)"
      using merge_hint_succeeds [OF dict, of "target_hint targets t" t] by fastforce
    then obtain v w where "look targets t s = Some v" "says hint s = Some w" "v \<noteq> w"
      by (auto simp: agree_def look_def)
    then have "said targets ((t, hint) # rest) t s v \<and> said targets ((t, hint) # rest) t s w \<and> v \<noteq> w"
      by (auto simp: said_def stated_def)
    with Inl show ?thesis by (simp only: merge_targets.simps sbind_simps sum.case) blast
  next
    case (Inr m)
    then have run: "merge_targets targets ((t, hint) # rest) = merge_targets (dict_put t m targets) rest" by simp
    have "hint_dict h" if "(t2, h) \<in> set rest" for t2 h
      using that by (intro "2.prems" [of t2]) simp
    then show ?thesis
      using "2.IH" [of m] unfolding run said_step [OF dict Inr] by blast
  qed
qed

lemma wire_merge:
  assumes "\<And>t h. (t, h) \<in> set (annotation_hints anns) \<Longrightarrow> hint_dict h"
  shows "case wire_targets_from_annotations anns of
      Inl _ \<Rightarrow> \<not> consistent (annotation_hints anns)
    | Inr out \<Rightarrow> consistent (annotation_hints anns)
        \<and> (\<forall>t s v. look out t s = Some v \<longleftrightarrow> stated (annotation_hints anns) t s v)"
proof -
  have said: "said [] hints = stated hints" for hints
    by (intro ext) (auto simp: said_def look_def target_hint_def empty_hint_def elim: says.elims)
  note exact = merge_targets_exact [where targets = "[]" and hints = "annotation_hints anns", OF assms]
  show ?thesis
  proof (cases "merge_targets [] (annotation_hints anns)")
    case (Inl e)
    with exact [unfolded said] show ?thesis by (auto simp: wire_targets_from_annotations_def consistent_def)
  next
    case (Inr out)
    with exact [unfolded said] have look: "\<forall>t s v. look out t s = Some v \<longleftrightarrow> stated (annotation_hints anns) t s v"
      by simp
    then have "consistent (annotation_hints anns)"
      unfolding consistent_def by (metis option.inject)
    with look Inr show ?thesis by (simp add: wire_targets_from_annotations_def)
  qed
qed

text \<open>
  C9. The wire hints of a field are merged exactly: where no two hints of the same target disagree on an
  entry, the merged hint of a target says of every entry what the annotations say and nothing else;
  the merge ends with a conflict precisely where two of them disagree.
\<close>

theorem wire_merge_exact:
  assumes "\<forall>(t, h) \<in> set (annotation_hints anns). hint_dict h"
  shows "case wire_targets_from_annotations anns of
      Inl _ \<Rightarrow> \<not> consistent (annotation_hints anns)
    | Inr out \<Rightarrow> consistent (annotation_hints anns)
        \<and> (\<forall>t s v. look out t s = Some v \<longleftrightarrow> stated (annotation_hints anns) t s v)"
  using assms by (intro wire_merge) auto

definition sample_hints :: "annotation list" where
  "sample_hints =
     [AnnWire [(''json'', empty_hint\<lparr>wh_encoding := Some ''base64''\<rparr>)],
      AnnWire [(''json'', empty_hint\<lparr>wh_overrides := [(''A'', ''a'')]\<rparr>)]]"

theorem wire_merge_exact_witness:
  "\<exists>out. wire_targets_from_annotations sample_hints = Inr out \<and> consistent (annotation_hints sample_hints)
     \<and> (look out ''json'' (SOverride ''A'') = Some ''a'') = stated (annotation_hints sample_hints) ''json'' (SOverride ''A'') ''a''"
  using wire_merge_exact [of sample_hints]
  by (simp add: sample_hints_def hint_dict_def empty_hint_def wire_targets_from_annotations_def target_hint_def
      merge_hint_def merge_entry_def merge_overrides_def sorted_inter_def sorted_set_def)

end
