(* ===== verification/Projection_Diff.thy ===== *)
theory Projection_Diff
  imports Diff Dependency Wire
begin

text \<open>
  The second half of \<^verbatim>\<open>cli/src/modelable/compat/diff.py\<close>: the comparison of two versions of a
  projection in the dimensions shape, lineage, governance, wire and storage. The types of the fields
  come from the lookup of theory \<^verbatim>\<open>Dependency\<close>, which need not return, so the shape and the whole
  comparison are options; hints that contradict each other end the comparison with their conflict.
\<close>

section \<open>Texts of values\<close>

text \<open>\<^verbatim>\<open>repr\<close> of a text of code points below 256\<close>

definition repr_char :: "char \<Rightarrow> char \<Rightarrow> string" where
  "repr_char quote c =
     (if c = quote \<or> c = CHR 0x5C then [CHR 0x5C, c]
      else if c = CHR 0x0A then [CHR 0x5C, CHR ''n'']
      else if c = CHR 0x0D then [CHR 0x5C, CHR ''r'']
      else if c = CHR 0x09 then [CHR 0x5C, CHR ''t'']
      else if code c < 32 \<or> 127 \<le> code c \<and> code c \<le> 160 \<or> code c = 173
        then [CHR 0x5C, CHR ''x'', hex_char (code c div 16), hex_char (code c mod 16)]
      else [c])"

definition py_repr :: "string \<Rightarrow> string" where
  "py_repr s =
     (let quote = (if CHR 0x27 \<in> set s \<and> CHR 0x22 \<notin> set s then CHR 0x22 else CHR 0x27) in
      [quote] @ concat (map (repr_char quote) s) @ [quote])"

definition repr_opt :: "string option \<Rightarrow> string" where
  "repr_opt v = (case v of None \<Rightarrow> ''None'' | Some s \<Rightarrow> py_repr s)"

definition repr_list :: "string list \<Rightarrow> string" where
  "repr_list xs = ''['' @ join '', '' (map py_repr xs) @ '']''"

definition py_bool :: "bool \<Rightarrow> string" where
  "py_bool b = (if b then ''True'' else ''False'')"

definition py_opt_bool :: "bool option \<Rightarrow> string" where
  "py_opt_bool v = (case v of None \<Rightarrow> ''None'' | Some b \<Rightarrow> py_bool b)"

text \<open>A text in single quotes, as the messages have it.\<close>

definition tick :: "string \<Rightarrow> string" where
  "tick s = [CHR 0x27] @ s @ [CHR 0x27]"

section \<open>Changes\<close>

record projection_change =
  pj_dimension :: string
  pj_kind :: string
  pj_breaking :: bool
  pj_field_name :: "string option"
  pj_message :: string

definition pchange :: "string \<Rightarrow> string \<Rightarrow> bool \<Rightarrow> string option \<Rightarrow> string \<Rightarrow> projection_change" where
  "pchange dimension kind breaking name message =
     \<lparr>pj_dimension = dimension, pj_kind = kind, pj_breaking = breaking, pj_field_name = name, pj_message = message\<rparr>"

text \<open>\<^verbatim>\<open>field 'name' ...\<close>\<close>

definition field_text :: "string \<Rightarrow> string \<Rightarrow> string" where
  "field_text name rest = ''field '' @ tick name @ rest"

definition pfields :: "projection_version \<Rightarrow> (string, projection_field) dict" where
  "pfields pv = dict_by pf_name (pv_fields pv)"

definition common_pfields :: "projection_version \<Rightarrow> projection_version \<Rightarrow> string list" where
  "common_pfields old new = sorted_inter (dict_keys (pfields old)) (dict_keys (pfields new))"

section \<open>Shape\<close>

type_synonym resolved_type = "field_type option \<times> bool option"

definition shape_changes :: "string \<Rightarrow> resolved_type \<Rightarrow> resolved_type \<Rightarrow> projection_change list" where
  "shape_changes name old new =
     (case (fst old, fst new) of
        (Some t, Some u) \<Rightarrow>
          (if shape_type_signature (Some t) \<noteq> shape_type_signature (Some u)
           then [pchange ''shape'' ''type_changed'' True (Some name) (field_text name '' changed type'')] else [])
          @ (if snd old \<noteq> snd new
             then [pchange ''shape'' ''optionality_changed'' (snd old = Some True \<and> snd new = Some False) (Some name)
                     (field_text name ('' optionality changed: '' @ py_opt_bool (snd old) @ '' -> '' @ py_opt_bool (snd new)))]
             else [])
      | (None, None) \<Rightarrow> []
      | _ \<Rightarrow> [pchange ''shape'' ''type_unresolvable'' True (Some name)
                (field_text name '' type can no longer be resolved (mapping became unresolvable)'')])"

text \<open>Every lookup of a loop has to return.\<close>

fun omap :: "('a \<Rightarrow> 'b option) \<Rightarrow> 'a list \<Rightarrow> 'b list option" where
  "omap f [] = Some []"
| "omap f (x # xs) = Option.bind (f x) (\<lambda>y. Option.bind (omap f xs) (\<lambda>ys. Some (y # ys)))"

definition compare_shape ::
    "signature_fn \<Rightarrow> mdl_file \<Rightarrow> projection_version \<Rightarrow> projection_version \<Rightarrow> projection_change list option" where
  "compare_shape sig mdl old new =
     Option.bind
       (omap (\<lambda>name.
          Option.bind (projection_field_type sig mdl old (the (map_of (pfields old) name))) (\<lambda>old_type.
          Option.bind (projection_field_type sig mdl new (the (map_of (pfields new) name))) (\<lambda>new_type.
            Some (shape_changes name old_type new_type))))
        (common_pfields old new))
       (\<lambda>common. Some
         (map (\<lambda>n. pchange ''shape'' ''field_removed'' True (Some n) (field_text n '' was removed''))
            (sorted_diff (dict_keys (pfields old)) (dict_keys (pfields new)))
          @ map (\<lambda>n. pchange ''shape'' ''field_added'' False (Some n) (field_text n '' was added''))
            (sorted_diff (dict_keys (pfields new)) (dict_keys (pfields old)))
          @ concat common))"

section \<open>Lineage\<close>

definition lineage_changes :: "string \<Rightarrow> projection_mapping \<Rightarrow> projection_mapping \<Rightarrow> projection_change list" where
  "lineage_changes name old new =
     (case (old, new) of
        (DirectMapping a f, DirectMapping b g) \<Rightarrow>
          if (a, f) \<noteq> (b, g)
          then [pchange ''lineage'' ''source_remapped'' False (Some name)
                  (field_text name ('' source remapped: '' @ a @ ''.'' @ f @ '' -> '' @ b @ ''.'' @ g))]
          else []
      | (ComputedMapping d, ComputedMapping e) \<Rightarrow>
          if d \<noteq> e
          then [pchange ''lineage'' ''expression_changed'' False (Some name)
                  (field_text name '' computed expression changed'')]
          else []
      | (DirectMapping _ _, ComputedMapping _) \<Rightarrow>
          [pchange ''lineage'' ''mapping_kind_changed'' False (Some name)
             (field_text name '' mapping changed from direct to computed'')]
      | (ComputedMapping _, DirectMapping _ _) \<Rightarrow>
          [pchange ''lineage'' ''mapping_kind_changed'' False (Some name)
             (field_text name '' mapping changed from computed to direct'')])"

definition compare_lineage :: "projection_version \<Rightarrow> projection_version \<Rightarrow> projection_change list" where
  "compare_lineage old new =
     concat (map (\<lambda>n. lineage_changes n (pf_mapping (the (map_of (pfields old) n))) (pf_mapping (the (map_of (pfields new) n))))
       (common_pfields old new))"

section \<open>Governance\<close>

definition classification_index :: "classification_level option \<Rightarrow> int" where
  "classification_index l =
     (case l of
        None \<Rightarrow> -1
      | Some OpenLevel \<Rightarrow> 0 | Some Internal \<Rightarrow> 1 | Some Confidential \<Rightarrow> 2 | Some Restricted \<Rightarrow> 3 | Some Secret \<Rightarrow> 4)"

definition grant_change :: "string \<Rightarrow> string \<Rightarrow> bool \<Rightarrow> string \<times> string \<times> string \<Rightarrow> projection_change" where
  "grant_change kind verb breaking grant =
     (case grant of (scope, who, permission) \<Rightarrow>
        pchange ''governance'' kind breaking (if scope = ''entity'' then None else Some scope)
          (''access grant '' @ verb @ '': '' @ scope @ '' principal '' @ tick who @ '' permission '' @ tick permission))"

definition governance_changes :: "string \<Rightarrow> projection_field \<Rightarrow> projection_field \<Rightarrow> projection_change list" where
  "governance_changes name old new =
     (if pf_is_pii old \<noteq> pf_is_pii new
      then [pchange ''governance'' ''pii_changed'' (pf_is_pii new) (Some name)
              (field_text name ('' @pii changed: '' @ py_bool (pf_is_pii old) @ '' -> '' @ py_bool (pf_is_pii new)))]
      else [])
     @ (if pf_classification old \<noteq> pf_classification new
        then [pchange ''governance'' ''classification_changed''
                (classification_index (pf_classification new) > classification_index (pf_classification old)) (Some name)
                (field_text name ('' classification changed: '' @ classification_text (pf_classification old) @ '' -> ''
                   @ classification_text (pf_classification new)))]
        else [])"

definition compare_governance :: "projection_version \<Rightarrow> projection_version \<Rightarrow> projection_change list" where
  "compare_governance old new =
     (let old_grants = access_grant_triples (pv_access old); new_grants = access_grant_triples (pv_access new) in
      map (grant_change ''access_grant_removed'' ''removed'' True) (sorted_diff old_grants new_grants)
      @ map (grant_change ''access_grant_added'' ''added'' False) (sorted_diff new_grants old_grants)
      @ concat (map (\<lambda>n. governance_changes n (the (map_of (pfields old) n)) (the (map_of (pfields new) n)))
          (common_pfields old new)))"

section \<open>Wire\<close>

text \<open>Equality of hints; their overrides are dictionaries, whose order does not count.\<close>

definition same_hint :: "wire_target_hint \<Rightarrow> wire_target_hint \<Rightarrow> bool" where
  "same_hint a b \<longleftrightarrow>
     wh_encoding a = wh_encoding b \<and> wh_type a = wh_type b \<and> wh_case a = wh_case b \<and> wh_field_case a = wh_field_case b
     \<and> set (dict_keys (wh_overrides a)) = set (dict_keys (wh_overrides b))
     \<and> list_all (\<lambda>k. map_of (wh_overrides a) k = map_of (wh_overrides b) k) (dict_keys (wh_overrides a))"

definition wire_text :: "string \<Rightarrow> string \<Rightarrow> string \<Rightarrow> string \<Rightarrow> string" where
  "wire_text name verb target rest = field_text name ('' @wire hint '' @ verb @ tick target @ rest)"

definition wire_changes :: "string \<Rightarrow> wire_targets \<Rightarrow> wire_targets \<Rightarrow> projection_change list" where
  "wire_changes name old new =
     map (\<lambda>t. pchange ''wire'' ''wire_hint_changed'' True (Some name) (wire_text name ''for '' t '' changed''))
       (filter (\<lambda>t. \<not> same_hint (the (map_of old t)) (the (map_of new t))) (sorted_inter (dict_keys old) (dict_keys new)))
     @ map (\<lambda>t. pchange ''wire'' ''wire_hint_added'' False (Some name) (wire_text name ''added for '' t []))
         (sorted_diff (dict_keys new) (dict_keys old))
     @ map (\<lambda>t. pchange ''wire'' ''wire_hint_removed'' False (Some name) (wire_text name ''removed for '' t []))
         (sorted_diff (dict_keys old) (dict_keys new))"

definition pf_wire_targets :: "projection_field \<Rightarrow> wire_conflict + wire_targets" where
  "pf_wire_targets f = wire_targets_from_annotations (pf_annotations f)"

definition compare_wire :: "projection_version \<Rightarrow> projection_version \<Rightarrow> wire_conflict + projection_change list" where
  "compare_wire old new =
     sbind (smap (\<lambda>n.
        sbind (pf_wire_targets (the (map_of (pfields old) n))) (\<lambda>old_targets.
        sbind (pf_wire_targets (the (map_of (pfields new) n))) (\<lambda>new_targets.
          Inr (wire_changes n old_targets new_targets)))) (common_pfields old new))
       (\<lambda>css. Inr (concat css))"

section \<open>Storage\<close>

definition joins_of :: "projection_version \<Rightarrow> (string, join_ref) dict" where
  "joins_of pv = dict_by jr_alias (pv_joins pv)"

definition join_key :: "join_ref \<Rightarrow> string option \<times> string \<times> string" where
  "join_key j = (jr_cardinality j, jr_join_kind j, jr_on j)"

definition join_text :: "string \<Rightarrow> string \<Rightarrow> string" where
  "join_text alias rest = ''join '' @ tick alias @ rest"

definition compare_storage :: "projection_version \<Rightarrow> projection_version \<Rightarrow> projection_change list" where
  "compare_storage old new =
     (let old_joins = joins_of old; new_joins = joins_of new in
      (if pv_where old \<noteq> pv_where new
       then [pchange ''storage'' ''where_changed'' True None
               (''where clause changed: '' @ repr_opt (pv_where old) @ '' -> '' @ repr_opt (pv_where new))] else [])
      @ (if pv_group_by old \<noteq> pv_group_by new
         then [pchange ''storage'' ''group_by_changed'' True None
                 (''group by changed: '' @ repr_list (pv_group_by old) @ '' -> '' @ repr_list (pv_group_by new))] else [])
      @ map (\<lambda>a. pchange ''storage'' ''join_removed'' True (Some a) (join_text a '' was removed''))
          (sorted_diff (dict_keys old_joins) (dict_keys new_joins))
      @ map (\<lambda>a. pchange ''storage'' ''join_added'' True (Some a) (join_text a '' was added''))
          (sorted_diff (dict_keys new_joins) (dict_keys old_joins))
      @ map (\<lambda>a. pchange ''storage'' ''join_changed'' True (Some a) (join_text a '' cardinality/kind/predicate changed''))
          (filter (\<lambda>a. join_key (the (map_of old_joins a)) \<noteq> join_key (the (map_of new_joins a)))
            (sorted_inter (dict_keys old_joins) (dict_keys new_joins))))"

section \<open>The comparison\<close>

definition compare_projection_versions ::
    "signature_fn \<Rightarrow> mdl_file \<Rightarrow> projection_version \<Rightarrow> projection_version
     \<Rightarrow> (wire_conflict + projection_change list) option" where
  "compare_projection_versions sig mdl old new =
     Option.bind (compare_shape sig mdl old new) (\<lambda>shape. Some
       (sbind (compare_wire old new) (\<lambda>wire.
          Inr (shape @ compare_lineage old new @ compare_governance old new @ wire @ compare_storage old new))))"

definition any_pbreaking :: "projection_change list \<Rightarrow> bool" where
  "any_pbreaking cs \<longleftrightarrow> list_ex pj_breaking cs"

end
