(* ===== verification/Projection_Contract.thy ===== *)
theory Projection_Contract
  imports Projection_Diff Diff_Contract
begin

text \<open>
  What the comparison of two projection versions (theory \<^verbatim>\<open>Projection_Diff\<close>) promises: which pairs of
  versions it calls compatible, stated on the projections themselves, and when it returns.
\<close>

section \<open>The contract of a compatible projection version\<close>

text \<open>The type of a field can still be resolved, is the same, and does not become required.\<close>

definition type_kept :: "resolved_type \<Rightarrow> resolved_type \<Rightarrow> bool" where
  "type_kept old new =
     (case (fst old, fst new) of
        (Some t, Some u) \<Rightarrow> shape_type_signature (Some t) = shape_type_signature (Some u)
          \<and> \<not> (snd old = Some True \<and> snd new = Some False)
      | (None, None) \<Rightarrow> True
      | _ \<Rightarrow> False)"

text \<open>No new personal data, no tighter classification.\<close>

definition marks_kept :: "projection_field \<Rightarrow> projection_field \<Rightarrow> bool" where
  "marks_kept f g \<longleftrightarrow>
     (pf_is_pii g \<longrightarrow> pf_is_pii f)
     \<and> classification_index (pf_classification g) \<le> classification_index (pf_classification f)"

text \<open>The hints of a target that both fields have are the same.\<close>

definition hints_kept :: "wire_targets \<Rightarrow> wire_targets \<Rightarrow> bool" where
  "hints_kept old new \<longleftrightarrow>
     list_all (\<lambda>t. case map_of new t of None \<Rightarrow> True | Some h \<Rightarrow> same_hint (the (map_of old t)) h) (dict_keys old)"

definition pfield_kept ::
    "signature_fn \<Rightarrow> mdl_file \<Rightarrow> projection_version \<Rightarrow> projection_field \<Rightarrow> projection_version \<Rightarrow> projection_field \<Rightarrow> bool" where
  "pfield_kept sig mdl old f new g \<longleftrightarrow>
     (case (projection_field_type sig mdl old f, projection_field_type sig mdl new g) of
        (Some t, Some u) \<Rightarrow> type_kept t u
      | _ \<Rightarrow> False)
     \<and> marks_kept f g
     \<and> (case (pf_wire_targets f, pf_wire_targets g) of (Inr a, Inr b) \<Rightarrow> hints_kept a b | _ \<Rightarrow> False)"

text \<open>Filter, grouping and joins are untouched.\<close>

definition same_storage :: "projection_version \<Rightarrow> projection_version \<Rightarrow> bool" where
  "same_storage old new \<longleftrightarrow>
     pv_where old = pv_where new \<and> pv_group_by old = pv_group_by new
     \<and> set (dict_keys (joins_of old)) = set (dict_keys (joins_of new))
     \<and> list_all (\<lambda>a. join_key (the (map_of (joins_of old) a)) = join_key (the (map_of (joins_of new) a)))
         (dict_keys (joins_of old))"

definition projection_compatible :: "signature_fn \<Rightarrow> mdl_file \<Rightarrow> projection_version \<Rightarrow> projection_version \<Rightarrow> bool" where
  "projection_compatible sig mdl old new \<longleftrightarrow>
     list_all (\<lambda>n. case map_of (pfields new) n of
         None \<Rightarrow> False
       | Some g \<Rightarrow> pfield_kept sig mdl old (the (map_of (pfields old) n)) new g) (dict_keys (pfields old))
     \<and> set (access_grant_triples (pv_access old)) \<subseteq> set (access_grant_triples (pv_access new))
     \<and> same_storage old new"

section \<open>What breaks in each dimension\<close>

lemma pchange_breaking [simp]: "pj_breaking (pchange d k b n m) = b"
  by (simp add: pchange_def)

lemma omap_eq_Some: "omap f xs = Some ys \<longleftrightarrow> list_all2 (\<lambda>x y. f x = Some y) xs ys"
proof (induction xs arbitrary: ys)
  case (Cons x xs)
  then show ?case by (cases ys) (auto simp: Option.bind_eq_Some_conv)
qed auto

lemma omap_defined: "omap f xs = Some ys \<Longrightarrow> x \<in> set xs \<Longrightarrow> f x \<noteq> None"
  by (induction xs arbitrary: ys) (auto simp: Option.bind_eq_Some_conv)

lemma smap_defined: "smap f xs = Inr ys \<Longrightarrow> x \<in> set xs \<Longrightarrow> \<exists>y. f x = Inr y"
  by (induction xs arbitrary: ys) auto

lemma list_ex_results:
  "list_all2 R xs ys \<Longrightarrow> (\<And>x y z. R x y \<Longrightarrow> R x z \<Longrightarrow> y = z) \<Longrightarrow>
   list_ex P (concat ys) \<longleftrightarrow> (\<exists>x \<in> set xs. \<exists>y. R x y \<and> list_ex P y)"
  by (induction rule: list_all2_induct) (simp_all, blast)

lemma shape_breaking [breaking_simps]: "list_ex pj_breaking (shape_changes n t u) \<longleftrightarrow> \<not> type_kept t u"
  by (auto simp: shape_changes_def type_kept_def split: option.split)

lemma lineage_breaking [breaking_simps]: "\<not> list_ex pj_breaking (compare_lineage old new)"
  by (auto simp: compare_lineage_def lineage_changes_def list_ex_iff split: projection_mapping.splits if_splits)

lemma governance_breaking [breaking_simps]:
  "list_ex pj_breaking (governance_changes n f g) \<longleftrightarrow> \<not> marks_kept f g"
  by (auto simp: governance_changes_def marks_kept_def)

lemma key_iff: "n \<in> set (dict_keys d) \<longleftrightarrow> (\<exists>v. map_of d n = Some v)"
  using map_of_eq_None_iff [of d n] by (cases "map_of d n") auto

lemma mem_common:
  "n \<in> set (common_pfields old new) \<longleftrightarrow> (\<exists>f g. map_of (pfields old) n = Some f \<and> map_of (pfields new) n = Some g)"
  unfolding common_pfields_def set_sorted_inter Int_iff key_iff by blast

lemma compare_shape_breaking:
  assumes "compare_shape sig mdl old new = Some cs"
  shows "list_ex pj_breaking cs \<longleftrightarrow>
      \<not> set (dict_keys (pfields old)) \<subseteq> set (dict_keys (pfields new)) \<or>
      (\<exists>n f g. map_of (pfields old) n = Some f \<and> map_of (pfields new) n = Some g \<and>
         \<not> (case (projection_field_type sig mdl old f, projection_field_type sig mdl new g) of
             (Some t, Some u) \<Rightarrow> type_kept t u | _ \<Rightarrow> False))"
    and "\<And>n f g. map_of (pfields old) n = Some f \<Longrightarrow> map_of (pfields new) n = Some g \<Longrightarrow>
      projection_field_type sig mdl old f \<noteq> None \<and> projection_field_type sig mdl new g \<noteq> None"
proof -
  let ?f = "\<lambda>name. Option.bind (projection_field_type sig mdl old (the (map_of (pfields old) name))) (\<lambda>old_type.
          Option.bind (projection_field_type sig mdl new (the (map_of (pfields new) name))) (\<lambda>new_type.
            Some (shape_changes name old_type new_type)))"
  obtain common where run: "omap ?f (common_pfields old new) = Some common"
    and cs: "cs = map (\<lambda>n. pchange ''shape'' ''field_removed'' True (Some n) (field_text n '' was removed''))
            (sorted_diff (dict_keys (pfields old)) (dict_keys (pfields new)))
          @ map (\<lambda>n. pchange ''shape'' ''field_added'' False (Some n) (field_text n '' was added''))
            (sorted_diff (dict_keys (pfields new)) (dict_keys (pfields old)))
          @ concat common"
    using assms by (auto simp: compare_shape_def Option.bind_eq_Some_conv)
  note all = run [unfolded omap_eq_Some]
  show returned: "projection_field_type sig mdl old f \<noteq> None \<and> projection_field_type sig mdl new g \<noteq> None"
    if "map_of (pfields old) n = Some f" and "map_of (pfields new) n = Some g" for n f g
  proof -
    have "n \<in> set (common_pfields old new)" using that by (auto simp: mem_common)
    then have "?f n \<noteq> None" by (rule omap_defined [OF run])
    with that show ?thesis by (auto simp: Option.bind_eq_None_conv)
  qed
  have "list_ex pj_breaking (concat common) \<longleftrightarrow>
      (\<exists>n \<in> set (common_pfields old new). \<exists>y. ?f n = Some y \<and> list_ex pj_breaking y)"
    by (rule list_ex_results [OF all]) simp
  also have "\<dots> \<longleftrightarrow> (\<exists>n f g. map_of (pfields old) n = Some f \<and> map_of (pfields new) n = Some g \<and>
         \<not> (case (projection_field_type sig mdl old f, projection_field_type sig mdl new g) of
             (Some t, Some u) \<Rightarrow> type_kept t u | _ \<Rightarrow> False))" (is "_ \<longleftrightarrow> ?kept")
  proof -
    have "(\<exists>y. ?f n = Some y \<and> list_ex pj_breaking y) \<longleftrightarrow>
        \<not> (case (projection_field_type sig mdl old f, projection_field_type sig mdl new g) of
             (Some t, Some u) \<Rightarrow> type_kept t u | _ \<Rightarrow> False)"
      if "map_of (pfields old) n = Some f" and "map_of (pfields new) n = Some g" for n f g
      using that returned [OF that] by (auto simp: Option.bind_eq_Some_conv shape_breaking)
    then show ?thesis unfolding Bex_def mem_common by metis
  qed
  finally have common: "list_ex pj_breaking (concat common) \<longleftrightarrow> ?kept" .
  show "list_ex pj_breaking cs \<longleftrightarrow> \<not> set (dict_keys (pfields old)) \<subseteq> set (dict_keys (pfields new)) \<or> ?kept"
    unfolding cs list_ex_append common list_ex_map pchange_breaking list_ex_const sorted_diff_Nil by blast
qed

lemma compare_governance_breaking:
  "list_ex pj_breaking (compare_governance old new) \<longleftrightarrow>
     \<not> set (access_grant_triples (pv_access old)) \<subseteq> set (access_grant_triples (pv_access new)) \<or>
     (\<exists>n f g. map_of (pfields old) n = Some f \<and> map_of (pfields new) n = Some g \<and> \<not> marks_kept f g)"
proof -
  have grant: "pj_breaking (grant_change k v b g) = b" for k v b g
    by (cases g) (simp add: grant_change_def)
  have "(\<exists>n \<in> set (common_pfields old new). \<not> marks_kept (the (map_of (pfields old) n)) (the (map_of (pfields new) n)))
      \<longleftrightarrow> (\<exists>n f g. map_of (pfields old) n = Some f \<and> map_of (pfields new) n = Some g \<and> \<not> marks_kept f g)"
    unfolding Bex_def mem_common by (metis option.sel)
  then show ?thesis
    unfolding compare_governance_def Let_def list_ex_append list_ex_concat list_ex_map grant list_ex_const
      governance_breaking sorted_diff_Nil
    unfolding list_ex_iff by blast
qed

lemma wire_breaking [breaking_simps]: "list_ex pj_breaking (wire_changes n a b) \<longleftrightarrow> \<not> hints_kept a b"
proof -
  have "list_ex pj_breaking (wire_changes n a b) \<longleftrightarrow>
      filter (\<lambda>t. \<not> same_hint (the (map_of a t)) (the (map_of b t))) (sorted_inter (dict_keys a) (dict_keys b)) \<noteq> []"
    unfolding wire_changes_def list_ex_append list_ex_map pchange_breaking list_ex_const by simp
  also have "\<dots> \<longleftrightarrow> (\<exists>t h. t \<in> set (dict_keys a) \<and> map_of b t = Some h \<and> \<not> same_hint (the (map_of a t)) h)"
    unfolding filter_empty_conv set_sorted_inter Ball_def Int_iff key_iff by (metis option.sel)
  also have "\<dots> \<longleftrightarrow> \<not> hints_kept a b"
    by (auto simp: hints_kept_def list_all_iff split: option.split)
  finally show ?thesis .
qed

lemma compare_wire_breaking:
  assumes "compare_wire old new = Inr cs"
  shows "list_ex pj_breaking cs \<longleftrightarrow> (\<exists>n f g. map_of (pfields old) n = Some f \<and> map_of (pfields new) n = Some g \<and>
      \<not> (case (pf_wire_targets f, pf_wire_targets g) of (Inr a, Inr b) \<Rightarrow> hints_kept a b | _ \<Rightarrow> False))"
proof -
  let ?f = "\<lambda>n. sbind (pf_wire_targets (the (map_of (pfields old) n))) (\<lambda>old_targets.
        sbind (pf_wire_targets (the (map_of (pfields new) n))) (\<lambda>new_targets.
          Inr (wire_changes n old_targets new_targets)))"
  obtain css where run: "smap ?f (common_pfields old new) = Inr css" and cs: "cs = concat css"
    using assms by (auto simp: compare_wire_def)
  note all = run [unfolded smap_eq_Inr_iff]
  have "list_ex pj_breaking cs \<longleftrightarrow>
      (\<exists>n \<in> set (common_pfields old new). \<exists>y. ?f n = Inr y \<and> list_ex pj_breaking y)"
    unfolding cs by (rule list_ex_results [OF all]) simp
  also have "\<dots> \<longleftrightarrow> (\<exists>n f g. map_of (pfields old) n = Some f \<and> map_of (pfields new) n = Some g \<and>
      \<not> (case (pf_wire_targets f, pf_wire_targets g) of (Inr a, Inr b) \<Rightarrow> hints_kept a b | _ \<Rightarrow> False))"
  proof -
    have "(\<exists>y. ?f n = Inr y \<and> list_ex pj_breaking y) \<longleftrightarrow>
        \<not> (case (pf_wire_targets f, pf_wire_targets g) of (Inr a, Inr b) \<Rightarrow> hints_kept a b | _ \<Rightarrow> False)"
      if "map_of (pfields old) n = Some f" and "map_of (pfields new) n = Some g" for n f g
    proof -
      have "n \<in> set (common_pfields old new)" using that by (auto simp: mem_common)
      then obtain y where "?f n = Inr y" using smap_defined [OF run] by blast
      with that show ?thesis by (auto simp: wire_breaking)
    qed
    then show ?thesis unfolding Bex_def mem_common by metis
  qed
  finally show ?thesis .
qed

lemma compare_storage_breaking: "list_ex pj_breaking (compare_storage old new) \<longleftrightarrow> \<not> same_storage old new"
proof -
  have "list_ex pj_breaking (compare_storage old new) \<longleftrightarrow>
      pv_where old \<noteq> pv_where new \<or> pv_group_by old \<noteq> pv_group_by new
      \<or> \<not> set (dict_keys (joins_of old)) \<subseteq> set (dict_keys (joins_of new))
      \<or> \<not> set (dict_keys (joins_of new)) \<subseteq> set (dict_keys (joins_of old))
      \<or> filter (\<lambda>a. join_key (the (map_of (joins_of old) a)) \<noteq> join_key (the (map_of (joins_of new) a)))
            (sorted_inter (dict_keys (joins_of old)) (dict_keys (joins_of new))) \<noteq> []"
    unfolding compare_storage_def Let_def list_ex_append list_ex_map pchange_breaking list_ex_const list_ex_if
      sorted_diff_Nil by simp
  also have "\<dots> \<longleftrightarrow> \<not> same_storage old new"
    unfolding same_storage_def filter_empty_conv set_sorted_inter list_all_iff by blast
  finally show ?thesis .
qed

section \<open>Properties\<close>

lemma projection_contract:
  assumes "compare_projection_versions sig mdl old new = Some (Inr cs)"
  shows "\<not> any_pbreaking cs \<longleftrightarrow> projection_compatible sig mdl old new"
proof -
  obtain shape wire where shape: "compare_shape sig mdl old new = Some shape" and wire: "compare_wire old new = Inr wire"
    and cs: "cs = shape @ compare_lineage old new @ compare_governance old new @ wire @ compare_storage old new"
    using assms by (auto simp: compare_projection_versions_def Option.bind_eq_Some_conv)
  have fields: "list_all (\<lambda>n. case map_of (pfields new) n of None \<Rightarrow> False
        | Some g \<Rightarrow> pfield_kept sig mdl old (the (map_of (pfields old) n)) new g) (dict_keys (pfields old))
      \<longleftrightarrow> set (dict_keys (pfields old)) \<subseteq> set (dict_keys (pfields new)) \<and>
        (\<forall>n f g. map_of (pfields old) n = Some f \<longrightarrow> map_of (pfields new) n = Some g \<longrightarrow> pfield_kept sig mdl old f new g)"
    unfolding list_all_iff subset_iff Ball_def key_iff by (auto split: option.split) (metis option.sel)
  show ?thesis
    unfolding any_pbreaking_def cs list_ex_append compare_shape_breaking(1) [OF shape] compare_governance_breaking
      compare_wire_breaking [OF wire] compare_storage_breaking projection_compatible_def fields pfield_kept_def
    using lineage_breaking [of old new] by blast
qed

text \<open>
  C8. Where the comparison of two projection versions returns changes, it reports a breaking one exactly
  when the new version does not keep the contract of the old one: every field is still there, its type
  still resolves to the same type and does not become required, it gains no personal-data mark and no
  tighter classification, its wire hints agree; every access grant is kept; and filter, grouping and
  joins are unchanged. A change of the mapping alone never breaks.
\<close>

theorem projection_compatible_iff:
  assumes "compare_projection_versions sig mdl old new = Some (Inr cs)"
  shows "\<not> any_pbreaking cs \<longleftrightarrow> projection_compatible sig mdl old new"
  by (rule projection_contract [OF assms])

lemma omap_total: "(\<And>x. x \<in> set xs \<Longrightarrow> f x \<noteq> None) \<Longrightarrow> omap f xs \<noteq> None"
  by (induction xs) (auto simp: Option.bind_eq_None_conv)

text \<open>
  The comparison returns, with changes or with the conflict of two wire hints, whenever the
  projections of the workspace do not refer to each other in a circle.
\<close>

theorem projection_comparison_returns:
  assumes "ranked sig mdl rk"
  shows "\<exists>r. compare_projection_versions sig mdl old new = Some r"
proof -
  have "compare_shape sig mdl old new \<noteq> None"
    unfolding compare_shape_def Option.bind_eq_None_conv
    by (simp add: omap_total ranked_returns [OF assms] Option.bind_eq_None_conv del: not_None_eq)
  then show ?thesis by (auto simp: compare_projection_versions_def)
qed

theorem projection_comparison_returns_witness:
  "\<exists>r. compare_projection_versions no_signature (projection_workspace good_projection) good_projection good_projection
     = Some r"
  by (rule projection_comparison_returns [OF good_ranked])

definition wider_projection :: projection_version where
  "wider_projection = good_projection\<lparr>pv_fields := pv_fields good_projection @
     [\<lparr>pf_name = ''y'', pf_mapping = ComputedMapping ''s.total * 2'', pf_annotations = [], pf_constraints = []\<rparr>]\<rparr>"

lemmas field_type_code [code] = projection_field_type.simps

lemma wider_changes:
  "compare_projection_versions no_signature (projection_workspace good_projection) good_projection wider_projection
     = Some (Inr [pchange ''shape'' ''field_added'' False (Some ''y'') (field_text ''y'' '' was added'')])"
  by code_simp

theorem projection_compatible_iff_witness:
  "projection_compatible no_signature (projection_workspace good_projection) good_projection wider_projection"
  using projection_compatible_iff [OF wider_changes] by (simp add: any_pbreaking_def)

end
