(* ===== verification/Py_Number.thy ===== *)
theory Py_Number
  imports Json Complex_Main "HOL-Library.Log_Nat"
begin

text \<open>
  Numbers as Python compares them. A float is the text Python prints for it; its value is the
  rational number of the double nearest to that text (\<^verbatim>\<open>repr\<close> and \<^verbatim>\<open>float\<close> are inverse), so that
  comparisons between integers and floats are exact, as in Python. An integer beyond the range of
  a double raises \<^verbatim>\<open>OverflowError\<close> where the code converts it, which \<^verbatim>\<open>math.isfinite\<close> does.
\<close>

definition round_half_even :: "rat \<Rightarrow> int" where
  "round_half_even r =
     (let f = \<lfloor>r\<rfloor>; d = r - of_int f
      in if d < 1 / 2 then f else if 1 / 2 < d then f + 1 else if even f then f else f + 1)"

text \<open>The exponent of the leading bit of a positive number.\<close>

definition leading_exponent :: "rat \<Rightarrow> int" where
  "leading_exponent r =
     (let (n, d) = quotient_of r;
          e = int (floorlog 2 (nat n)) - int (floorlog 2 (nat d))
      in if 2 powi e \<le> r then e else e - 1)"

definition to_double :: "rat \<Rightarrow> rat" where
  "to_double r =
     (if r = 0 then 0
      else let q = max (leading_exponent \<bar>r\<bar> - 52) (- 1074)
           in of_int (round_half_even (r / 2 powi q)) * 2 powi q)"

text \<open>A decimal text such as \<^verbatim>\<open>-12.5e-07\<close>\<close>

definition signed_digits :: "string \<Rightarrow> int" where
  "signed_digits s =
     (case s of
        [] \<Rightarrow> 0
      | c # t \<Rightarrow> if c = CHR ''-'' then - int (nat_of_digits t)
                else if c = CHR ''+'' then int (nat_of_digits t)
                else int (nat_of_digits s))"

definition decimal_value :: "string \<Rightarrow> rat" where
  "decimal_value s =
     (let (mantissa, has_exponent, exponent) = partition1 (CHR ''e'') s;
          (whole, point, fraction) = partition1 (CHR ''.'') mantissa
      in of_int (signed_digits (whole @ fraction))
         * 10 powi ((if has_exponent then signed_digits exponent else 0) - int (length fraction)))"

definition float_value :: "string \<Rightarrow> rat" where
  "float_value s = to_double (decimal_value s)"

text \<open>The texts of the values that are not finite.\<close>

definition finite_float :: "string \<Rightarrow> bool" where
  "finite_float s \<longleftrightarrow> s \<notin> {''NaN'', ''Infinity'', ''-Infinity''}"

text \<open>
  The integers that convert to a double: halfway between the largest double and \<open>2^1024\<close> rounding
  goes up, and the conversion raises.
\<close>

definition double_limit :: int where
  "double_limit = 2 ^ 1024 - 2 ^ 970"

definition in_double_range :: "int \<Rightarrow> bool" where
  "in_double_range i \<longleftrightarrow> \<bar>i\<bar> < double_limit"

fun number_value :: "json \<Rightarrow> rat" where
  "number_value (JInt i) = of_int i"
| "number_value (JFloat s) = float_value s"
| "number_value _ = 0"

lemma number_value_less [simp]: "number_value (JInt i) < number_value (JInt j) \<longleftrightarrow> i < j"
  by simp

text \<open>Every object of a value has distinct keys, as a dictionary has.\<close>

fun json_wf :: "json \<Rightarrow> bool" where
  "json_wf (JList xs) = list_all json_wf xs"
| "json_wf (JObj kvs) = (distinct (map fst kvs) \<and> list_all (\<lambda>kv. json_wf (snd kv)) kvs)"
| "json_wf _ = True"

text \<open>No float of a value is infinite or undefined.\<close>

fun json_finite :: "json \<Rightarrow> bool" where
  "json_finite (JFloat s) = finite_float s"
| "json_finite (JList xs) = list_all json_finite xs"
| "json_finite (JObj kvs) = list_all (\<lambda>kv. json_finite (snd kv)) kvs"
| "json_finite _ = True"

text \<open>Every integer of a value converts to a double.\<close>

fun json_in_range :: "json \<Rightarrow> bool" where
  "json_in_range (JInt i) = in_double_range i"
| "json_in_range (JList xs) = list_all json_in_range xs"
| "json_in_range (JObj kvs) = list_all (\<lambda>kv. json_in_range (snd kv)) kvs"
| "json_in_range _ = True"

lemma map_of_size:
  assumes "map_of kvs k = Some (v :: json)"
  shows "size v < size_list (size_prod (\<lambda>_. 0) size) kvs"
proof -
  have "(k, v) \<in> set kvs" using assms by (rule map_of_SomeD)
  then show ?thesis by (induction kvs) auto
qed

end
