(* ===== verification/Py_Equal.thy ===== *)
theory Py_Equal
  imports Py_Number Type_Signature
begin

text \<open>
  Python's \<^verbatim>\<open>==\<close> on JSON values and on the classes of \<^verbatim>\<open>cli/src/modelable/parser/ir.py\<close>, where a comparison of the
  code depends on it: numbers and Booleans are equal by their value, so that \<^verbatim>\<open>1 == 1.0 == True\<close>, and
  dictionaries by their entries in any order.
\<close>

section \<open>JSON values\<close>

definition py_number :: "json \<Rightarrow> rat option" where
  "py_number j =
     (case j of
        JInt i \<Rightarrow> Some (of_int i)
      | JFloat s \<Rightarrow> if finite_float s then Some (float_value s) else None
      | JBool b \<Rightarrow> Some (if b then 1 else 0)
      | _ \<Rightarrow> None)"

definition same_atom :: "json \<Rightarrow> json \<Rightarrow> bool" where
  "same_atom a b \<longleftrightarrow>
     (case (py_number a, py_number b) of
        (Some x, Some y) \<Rightarrow> x = y
      | (None, None) \<Rightarrow> a = b \<and> a \<noteq> JFloat ''NaN''
      | _ \<Rightarrow> False)"

lemma zip_size [termination_simp]: "(a, b) \<in> set (zip xs ys) \<Longrightarrow> size a < Suc (size_list size xs)"
  by (auto dest!: set_zip_leftD simp: less_Suc_eq_le intro: size_list_estimation')

fun py_equal :: "json \<Rightarrow> json \<Rightarrow> bool" where
  "py_equal (JList xs) (JList ys) \<longleftrightarrow> length xs = length ys \<and> list_all (\<lambda>(x, y). py_equal x y) (zip xs ys)"
| "py_equal (JObj kvs) (JObj lvs) \<longleftrightarrow>
     fst ` set kvs = fst ` set lvs
     \<and> list_all (\<lambda>(k, v). case map_of lvs k of None \<Rightarrow> False | Some w \<Rightarrow> py_equal v w) kvs"
| "py_equal (JList xs) _ = False"
| "py_equal _ (JList ys) = False"
| "py_equal (JObj kvs) _ = False"
| "py_equal _ (JObj lvs) = False"
| "py_equal a b = same_atom a b"

section \<open>Fields\<close>

definition same_constraint :: "value_constraint \<Rightarrow> value_constraint \<Rightarrow> bool" where
  "same_constraint a b \<longleftrightarrow> vc_kind a = vc_kind b \<and> same_atom (value_json (vc_value a)) (value_json (vc_value b))"

text \<open>Dictionaries with the same keys and related values\<close>

definition same_dict :: "('v \<Rightarrow> 'v \<Rightarrow> bool) \<Rightarrow> (string, 'v) dict \<Rightarrow> (string, 'v) dict \<Rightarrow> bool" where
  "same_dict same a b \<longleftrightarrow>
     list_all (\<lambda>k. case (map_of a k, map_of b k) of (Some v, Some w) \<Rightarrow> same v w | _ \<Rightarrow> False)
       (map fst a @ map fst b)"

definition same_hint :: "wire_target_hint \<Rightarrow> wire_target_hint \<Rightarrow> bool" where
  "same_hint a b \<longleftrightarrow>
     wh_encoding a = wh_encoding b \<and> wh_type a = wh_type b \<and> wh_case a = wh_case b
     \<and> same_dict (=) (wh_overrides a) (wh_overrides b) \<and> wh_field_case a = wh_field_case b"

fun same_annotation :: "annotation \<Rightarrow> annotation \<Rightarrow> bool" where
  "same_annotation (AnnWire ts) (AnnWire us) = same_dict same_hint ts us"
| "same_annotation a b \<longleftrightarrow> a = b"

fun same_type :: "field_type \<Rightarrow> field_type \<Rightarrow> bool"
  and same_field :: "field_def \<Rightarrow> field_def \<Rightarrow> bool"
  and same_variant :: "union_variant \<Rightarrow> union_variant \<Rightarrow> bool" where
  "same_type (ArrayType s) (ArrayType t) = same_type s t"
| "same_type (MapType k s) (MapType l t) \<longleftrightarrow> same_type k l \<and> same_type s t"
| "same_type (ObjectType fs) (ObjectType gs) \<longleftrightarrow>
     length fs = length gs \<and> list_all (\<lambda>(f, g). same_field f g) (zip fs gs)"
| "same_type (UnionType d vs) (UnionType e ws) \<longleftrightarrow>
     d = e \<and> length vs = length ws \<and> list_all (\<lambda>(v, w). same_variant v w) (zip vs ws)"
| "same_type s t \<longleftrightarrow> s = t"
| "same_field (FieldDef n s opt nul def anns cs) (FieldDef m t opt' nul' def' anns' cs') \<longleftrightarrow>
     n = m \<and> same_type s t \<and> opt = opt' \<and> nul = nul' \<and> def = def'
     \<and> list_all2 same_annotation anns anns' \<and> list_all2 same_constraint cs cs'"
| "same_variant (UnionVariant tag s) (UnionVariant tag' t) \<longleftrightarrow> tag = tag' \<and> same_type s t"

lemma same_field_name: "same_field f g \<Longrightarrow> fd_name f = fd_name g"
  by (cases f; cases g) simp

end
