(* ===== verification/Checker.thy ===== *)
theory Checker
  imports Projection_Diff Enum_Compat Py_Equal
begin

text \<open>
  \<^verbatim>\<open>cli/src/modelable/compat/checker.py\<close>: the reports on two versions of a model, of a projection and
  of an API, the refinement of enum version bumps through the declarations they refer to, and the
  impact of a model change on a projection. What the comparison of projections leaves open, a lookup
  that does not return, is the \<^const>\<open>None\<close> of the results here.
\<close>

section \<open>Results\<close>

datatype check_error =
    UnknownModelVersion string string int
  | UnknownProjectionVersion string string int
  | UnknownApiVersion string string int
  | UnresolvedAlias string
  | ConflictingHints wire_conflict

text \<open>A check that may not return, may raise, or gives a value.\<close>

type_synonym 'a outcome = "(check_error + 'a) option"

definition obind :: "'a outcome \<Rightarrow> ('a \<Rightarrow> 'b outcome) \<Rightarrow> 'b outcome" where
  "obind r f = (case r of None \<Rightarrow> None | Some (Inl e) \<Rightarrow> Some (Inl e) | Some (Inr x) \<Rightarrow> f x)"

lemma obind_simps [simp]:
  "obind None f = None" "obind (Some (Inl e)) f = Some (Inl e)" "obind (Some (Inr x)) f = f x"
  by (simp_all add: obind_def)

lemma obind_eq_Inr [simp]: "obind r f = Some (Inr y) \<longleftrightarrow> (\<exists>x. r = Some (Inr x) \<and> f x = Some (Inr y))"
  by (auto simp: obind_def split: option.split sum.split)

text \<open>A loop that collects what its body gives.\<close>

fun ocollect :: "('a \<Rightarrow> 'b list outcome) \<Rightarrow> 'a list \<Rightarrow> 'b list outcome" where
  "ocollect f [] = Some (Inr [])"
| "ocollect f (x # xs) = obind (f x) (\<lambda>ys. obind (ocollect f xs) (\<lambda>zs. Some (Inr (ys @ zs))))"

section \<open>Lookups\<close>

definition find_version :: "mdl_file \<Rightarrow> string \<Rightarrow> string \<Rightarrow> int \<Rightarrow> check_error + model_version" where
  "find_version mdl d n ver =
     (case find_domain mdl d of
        None \<Rightarrow> Inl (UnknownModelVersion d n ver)
      | Some dm \<Rightarrow>
          (case map_of (dm_models dm) n of
             None \<Rightarrow> Inl (UnknownModelVersion d n ver)
           | Some vs \<Rightarrow>
               (case List.find (\<lambda>v. mv_version v = ver) vs of
                  None \<Rightarrow> Inl (UnknownModelVersion d n ver) | Some v \<Rightarrow> Inr v)))"

definition find_projection_version :: "mdl_file \<Rightarrow> string \<Rightarrow> string \<Rightarrow> int \<Rightarrow> check_error + projection_version" where
  "find_projection_version mdl d n ver =
     (case find_domain mdl d of
        None \<Rightarrow> Inl (UnknownProjectionVersion d n ver)
      | Some dm \<Rightarrow>
          (case map_of (dm_projections dm) n of
             None \<Rightarrow> Inl (UnknownProjectionVersion d n ver)
           | Some vs \<Rightarrow>
               (case List.find (\<lambda>v. pv_version v = ver) vs of
                  None \<Rightarrow> Inl (UnknownProjectionVersion d n ver) | Some v \<Rightarrow> Inr v)))"

definition find_api :: "mdl_file \<Rightarrow> string \<Rightarrow> string \<Rightarrow> int \<Rightarrow> check_error + api_decl" where
  "find_api mdl d n ver =
     (case find_domain mdl d of
        None \<Rightarrow> Inl (UnknownApiVersion d n ver)
      | Some dm \<Rightarrow>
          (case List.find (\<lambda>a. ad_model a = n \<and> ad_version a = ver) (dm_apis dm) of
             None \<Rightarrow> Inl (UnknownApiVersion d n ver) | Some a \<Rightarrow> Inr a))"

definition find_index_decl :: "mdl_file \<Rightarrow> string \<Rightarrow> string \<Rightarrow> int \<Rightarrow> index_decl option" where
  "find_index_decl mdl d n ver =
     (case find_domain mdl d of
        None \<Rightarrow> None
      | Some dm \<Rightarrow> List.find (\<lambda>i. ix_model i = n \<and> ix_version i = ver) (dm_index_decls dm))"

section \<open>Enum version bumps\<close>

text \<open>\<^verbatim>\<open>s.rpartition(sep)\<close> for a separator that occurs: the text before and after its last occurrence.\<close>

fun rsplit_str :: "string \<Rightarrow> string \<Rightarrow> (string \<times> string) option" where
  "rsplit_str sep [] = None"
| "rsplit_str sep (c # s) =
     (case rsplit_str sep s of
        Some (before, after) \<Rightarrow> Some (c # before, after)
      | None \<Rightarrow> if starts_with (c # s) sep then Some ([], drop (length sep) (c # s)) else None)"

definition parse_enum_ref :: "string \<Rightarrow> (string \<times> int) option" where
  "parse_enum_ref text =
     (case rsplit_str '' @ '' text of
        None \<Rightarrow> None
      | Some (name, version_text) \<Rightarrow> map_option (\<lambda>v. (name, v)) (py_int version_text))"

text \<open>The changes of the members, for two declarations of the same kind.\<close>

definition refined_change :: "field_change \<Rightarrow> enum_change list \<Rightarrow> field_change" where
  "refined_change c enum_changes =
     c\<lparr>fc_breaking_override := Some (any_breaking enum_changes),
       fc_note := (if enum_changes = [] then ''member sets are identical''
                   else join ''; '' (map describe_enum_change enum_changes)),
       fc_consequences := sorted_set (concat (map ec_consequences enum_changes))\<rparr>"

definition refine_resolved ::
    "field_change \<Rightarrow> bool \<Rightarrow> resolved_declaration \<Rightarrow> resolved_declaration \<Rightarrow> field_change" where
  "refine_resolved c same_name old new =
     (case (rd_declaration old, rd_declaration new) of
        (DEnum p, DEnum q) \<Rightarrow>
          if same_name then refined_change c (compare_enum_projections (rd_domain_name old) p q) else c
      | (DSemantic s, DSemantic t) \<Rightarrow>
          if same_name then refined_change c (compare_semantic_enum_versions s t) else c
      | _ \<Rightarrow> c\<lparr>fc_breaking_override := Some True,
                fc_note := ''nominal enum declaration changed between a semantic enum and an enum projection''\<rparr>)"

definition refine_change :: "signature_fn \<Rightarrow> mdl_file \<Rightarrow> string \<Rightarrow> field_change \<Rightarrow> field_change" where
  "refine_change sig mdl domain c =
     (if fc_kind c \<notin> {''enum_version_changed'', ''enum_reference_changed''} then c
      else case (fc_from_type c, fc_to_type c) of
          (Some from, Some to) \<Rightarrow>
            (case (parse_enum_ref from, parse_enum_ref to) of
               (Some (old_name, old_version), Some (new_name, new_version)) \<Rightarrow>
                 (case (resolve_named_declaration sig mdl domain old_name (Some old_version) True,
                        resolve_named_declaration sig mdl domain new_name (Some new_version) True) of
                    (Inr old, Inr new) \<Rightarrow> refine_resolved c (old_name = new_name) old new
                  | _ \<Rightarrow> c)
             | _ \<Rightarrow> c)
        | _ \<Rightarrow> c)"

definition refine_enum_version_changes ::
    "signature_fn \<Rightarrow> mdl_file \<Rightarrow> field_change list \<Rightarrow> string \<Rightarrow> field_change list" where
  "refine_enum_version_changes sig mdl changes domain = map (refine_change sig mdl domain) changes"

section \<open>Models\<close>

definition status_of :: "bool \<Rightarrow> string" where
  "status_of breaking = (if breaking then ''breaking'' else ''compatible'')"

record compatibility_report =
  cr_domain_name :: string
  cr_model_name :: string
  cr_from_version :: int
  cr_to_version :: int
  cr_status :: string
  cr_findings :: "string list"
  cr_changes :: "field_change list"
  cr_semantic_changes :: "field_change list"
  cr_storage_changes :: "field_change list"

definition model_report ::
    "signature_fn \<Rightarrow> mdl_file \<Rightarrow> string \<Rightarrow> string \<Rightarrow> model_version \<Rightarrow> int \<Rightarrow> model_version \<Rightarrow> int \<Rightarrow> compatibility_report" where
  "model_report sig mdl d n old from new to =
     (let storage = compare_index_decls (find_index_decl mdl d n from) (find_index_decl mdl d n to);
          semantic = refine_enum_version_changes sig mdl (compare_model_versions old new) d;
          changes = semantic @ storage in
      \<lparr>cr_domain_name = d, cr_model_name = n, cr_from_version = from, cr_to_version = to,
       cr_status = status_of (has_breaking_change changes), cr_findings = map describe_field_change changes,
       cr_changes = changes, cr_semantic_changes = semantic, cr_storage_changes = storage\<rparr>)"

definition check_model_version_compatibility ::
    "signature_fn \<Rightarrow> mdl_file \<Rightarrow> string \<Rightarrow> string \<Rightarrow> int \<Rightarrow> int \<Rightarrow> check_error + compatibility_report" where
  "check_model_version_compatibility sig mdl d n from to =
     sbind (find_version mdl d n from) (\<lambda>old. sbind (find_version mdl d n to) (\<lambda>new.
       Inr (model_report sig mdl d n old from new to)))"

section \<open>Projections\<close>

record projection_report =
  pr_domain_name :: string
  pr_projection_name :: string
  pr_from_version :: int
  pr_to_version :: int
  pr_status :: string
  pr_findings :: "string list"
  pr_changes :: "projection_change list"

definition declared_aliases :: "projection_version \<Rightarrow> string list" where
  "declared_aliases pv = sr_alias (pv_source pv) # map jr_alias (pv_joins pv)"

definition require_all_aliases_resolve :: "signature_fn \<Rightarrow> mdl_file \<Rightarrow> projection_version \<Rightarrow> check_error + unit" where
  "require_all_aliases_resolve sig mdl pv =
     (case sorted_diff (declared_aliases pv) (dict_keys (resolve_projection_aliases sig pv mdl)) of
        [] \<Rightarrow> Inr ()
      | alias' # _ \<Rightarrow> Inl (UnresolvedAlias alias'))"

definition source_version_change :: "string \<Rightarrow> resolved_declaration \<Rightarrow> int \<Rightarrow> int \<Rightarrow> string \<Rightarrow> projection_change" where
  "source_version_change al old old_version new_version status =
     pchange ''source_version'' ''source_version_changed'' (status = ''breaking'') (Some al)
       (''source '' @ tick al @ '' moved from '' @ rd_name old @ ''@'' @ int_str old_version @ '' to ''
        @ int_str new_version @ '' ('' @ status @ '')'')"

definition alias_version_changes ::
    "signature_fn \<Rightarrow> mdl_file \<Rightarrow> string \<Rightarrow> resolved_declaration \<Rightarrow> resolved_declaration \<Rightarrow> check_error + projection_change list" where
  "alias_version_changes sig mdl al old new =
     (let old_version = decl_version (rd_declaration old); new_version = decl_version (rd_declaration new) in
      if rd_name old \<noteq> rd_name new then Inr []
      else if old_version = new_version then Inr []
      else sbind (check_model_version_compatibility sig mdl (rd_domain_name old) (rd_name old) old_version new_version)
             (\<lambda>r. Inr [source_version_change al old old_version new_version (cr_status r)]))"

definition compare_source_version ::
    "signature_fn \<Rightarrow> mdl_file \<Rightarrow> projection_version \<Rightarrow> projection_version \<Rightarrow> check_error + projection_change list" where
  "compare_source_version sig mdl old new =
     (let old_aliases = resolve_projection_aliases sig old mdl; new_aliases = resolve_projection_aliases sig new mdl in
      sbind (smap (\<lambda>a. alias_version_changes sig mdl a (the (map_of old_aliases a)) (the (map_of new_aliases a)))
              (sorted_inter (dict_keys old_aliases) (dict_keys new_aliases)))
        (\<lambda>css. Inr (concat css)))"

definition format_projection_finding :: "projection_change \<Rightarrow> string" where
  "format_projection_finding c =
     pj_kind c @ '' '' @ (case pj_field_name c of None \<Rightarrow> ''-'' | Some n \<Rightarrow> if n = [] then ''-'' else n)
     @ '' ('' @ pj_dimension c @ ''): '' @ pj_message c"

definition projection_report_of ::
    "string \<Rightarrow> string \<Rightarrow> int \<Rightarrow> int \<Rightarrow> projection_change list \<Rightarrow> projection_report" where
  "projection_report_of d n from to changes =
     \<lparr>pr_domain_name = d, pr_projection_name = n, pr_from_version = from, pr_to_version = to,
      pr_status = status_of (any_pbreaking changes), pr_findings = map format_projection_finding changes,
      pr_changes = changes\<rparr>"

definition check_projection_version_compatibility ::
    "signature_fn \<Rightarrow> mdl_file \<Rightarrow> string \<Rightarrow> string \<Rightarrow> int \<Rightarrow> int \<Rightarrow> projection_report outcome" where
  "check_projection_version_compatibility sig mdl d n from to =
     obind (Some (find_projection_version mdl d n from)) (\<lambda>old.
     obind (Some (find_projection_version mdl d n to)) (\<lambda>new.
     obind (Some (require_all_aliases_resolve sig mdl old)) (\<lambda>_.
     obind (Some (require_all_aliases_resolve sig mdl new)) (\<lambda>_.
     obind (map_option (map_sum ConflictingHints id) (compare_projection_versions sig mdl old new)) (\<lambda>changes.
     obind (Some (compare_source_version sig mdl old new)) (\<lambda>moved.
       Some (Inr (projection_report_of d n from to (changes @ moved)))))))))"

section \<open>APIs\<close>

record api_change =
  ac_kind :: string
  ac_subject :: string
  ac_breaking :: bool
  ac_message :: string

record api_report =
  apr_domain_name :: string
  apr_model_name :: string
  apr_from_version :: int
  apr_to_version :: int
  apr_status :: string
  apr_findings :: "string list"
  apr_changes :: "api_change list"

definition api_change_of :: "string \<Rightarrow> string \<Rightarrow> bool \<Rightarrow> string \<Rightarrow> api_change" where
  "api_change_of kind subject breaking message =
     \<lparr>ac_kind = kind, ac_subject = subject, ac_breaking = breaking, ac_message = message\<rparr>"

definition operation_change :: "string \<Rightarrow> string \<Rightarrow> bool \<Rightarrow> string \<Rightarrow> api_change" where
  "operation_change kind name breaking rest = api_change_of kind name breaking (''operation '' @ tick name @ rest)"

definition operation_signature :: "api_operation \<Rightarrow> http_method \<times> string" where
  "operation_signature o1 = (ao_method o1, ao_path o1)"

text \<open>The parameters of a path: \<^verbatim>\<open>re.findall\<close> of a brace, characters that are no braces, and a brace.\<close>

definition is_brace :: "char \<Rightarrow> bool" where
  "is_brace c \<longleftrightarrow> c = CHR ''{'' \<or> c = CHR ''}''"

lemma length_tl_dropWhile: "length (dropWhile P s) - Suc 0 < Suc (length s)"
  using length_dropWhile_le [of P s] by simp

function path_parameters :: "string \<Rightarrow> string list" where
  "path_parameters [] = []"
| "path_parameters (c # s) =
     (let name = takeWhile (\<lambda>x. \<not> is_brace x) s; rest = dropWhile (\<lambda>x. \<not> is_brace x) s in
      if c = CHR ''{'' \<and> name \<noteq> [] \<and> starts_with rest ''}'' then name # path_parameters (tl rest)
      else path_parameters s)"
  by pat_completeness auto
termination
  by (relation "measure length") (auto simp: length_tl_dropWhile)

text \<open>The removed operations, each paired with the first remaining added one of the same method and path.\<close>

definition rename_operation ::
    "(string, api_operation) dict \<times> api_change list \<Rightarrow> string \<times> api_operation
     \<Rightarrow> (string, api_operation) dict \<times> api_change list" where
  "rename_operation st removed =
     (case st of (added, changes) \<Rightarrow> case removed of (old_name, old_operation) \<Rightarrow>
        (case List.find (\<lambda>(n, op). operation_signature op = operation_signature old_operation) added of
           Some (new_name, _) \<Rightarrow>
             (filter (\<lambda>(n, op). n \<noteq> new_name) added,
              changes @ [operation_change ''operation_renamed'' old_name True ('' renamed to '' @ tick new_name)])
         | None \<Rightarrow> (added, changes @ [operation_change ''operation_removed'' old_name True '' removed''])))"

definition operations_of :: "api_decl \<Rightarrow> (string, api_operation) dict" where
  "operations_of api = dict_by ao_name (ad_operations api)"

definition renamed_operations ::
    "(string, api_operation) dict \<Rightarrow> (string, api_operation) dict \<Rightarrow> (string, api_operation) dict \<times> api_change list" where
  "renamed_operations old new =
     foldl rename_operation (filter (\<lambda>(n, op). n \<notin> set (dict_keys old)) new, [])
       (map (\<lambda>n. (n, the (map_of old n))) (sorted_diff (dict_keys old) (dict_keys new)))"

definition path_key_changes ::
    "mdl_file \<Rightarrow> string \<Rightarrow> string \<Rightarrow> int \<Rightarrow> int \<Rightarrow> api_operation \<Rightarrow> api_operation \<Rightarrow> api_change list" where
  "path_key_changes mdl d n old_version new_version old new =
     (if ao_path old \<noteq> ao_path new then []
      else case (find_version mdl d n old_version, find_version mdl d n new_version) of
          (Inr old_model, Inr new_model) \<Rightarrow>
            (let old_fields = dict_by fd_name (filter fd_is_key (mv_fields old_model));
                 new_fields = dict_by fd_name (filter fd_is_key (mv_fields new_model)) in
             map (\<lambda>p. operation_change ''path_key_type_changed'' (ao_name old) True
                    ('' path key '' @ tick p @ '' type changed''))
               (filter (\<lambda>p. case (map_of old_fields p, map_of new_fields p) of
                    (Some f, Some g) \<Rightarrow> \<not> same_type (fd_type f) (fd_type g)
                  | _ \<Rightarrow> False)
                 (sorted_inter (path_parameters (ao_path old)) (path_parameters (ao_path new)))))
        | _ \<Rightarrow> [])"

definition compare_request ::
    "signature_fn \<Rightarrow> mdl_file \<Rightarrow> string \<Rightarrow> api_operation \<Rightarrow> api_operation \<Rightarrow> api_change list outcome" where
  "compare_request sig mdl d old new =
     (let changed = Some (Inr [operation_change ''request_changed'' (ao_name old) True '' request projection changed'']) in
      if ao_request old = ao_request new then Some (Inr [])
      else case (ao_request old, ao_request new) of
          (Some (old_name, old_version), Some (new_name, new_version)) \<Rightarrow>
            if old_name \<noteq> new_name then changed
            else obind (check_projection_version_compatibility sig mdl d old_name old_version new_version) (\<lambda>report.
              Some (Inr [operation_change ''request_changed'' (ao_name old) (pr_status report = ''breaking'')
                ('' request projection changed ('' @ pr_status report @ '')'')]))
        | _ \<Rightarrow> changed)"

definition response_status ::
    "signature_fn \<Rightarrow> mdl_file \<Rightarrow> string \<Rightarrow> api_response \<Rightarrow> api_response \<Rightarrow> string outcome" where
  "response_status sig mdl d old new =
     (if ar_projection old \<noteq> ar_projection new then Some (Inr ''breaking'')
      else obind (check_projection_version_compatibility sig mdl d (ar_projection old) (ar_version old) (ar_version new))
             (\<lambda>report. Some (Inr (pr_status report))))"

definition response_changes ::
    "signature_fn \<Rightarrow> mdl_file \<Rightarrow> string \<Rightarrow> string \<Rightarrow> int \<Rightarrow> api_response \<Rightarrow> api_response \<Rightarrow> api_change list outcome" where
  "response_changes sig mdl d name code_no old new =
     (if (ar_projection old, ar_version old) = (ar_projection new, ar_version new) then Some (Inr [])
      else obind (response_status sig mdl d old new) (\<lambda>status.
        Some (Inr [operation_change ''response_changed'' name (status = ''breaking'')
          ('' response '' @ int_str code_no @ '' changed ('' @ status @ '')'')])))"

definition compare_responses ::
    "signature_fn \<Rightarrow> mdl_file \<Rightarrow> string \<Rightarrow> api_operation \<Rightarrow> api_operation \<Rightarrow> api_change list outcome" where
  "compare_responses sig mdl d old new =
     (let old_responses = dict_by ar_status_code (ao_responses old);
          new_responses = dict_by ar_status_code (ao_responses new);
          name = ao_name old in
      obind (ocollect (\<lambda>c. response_changes sig mdl d name c (the (map_of old_responses c)) (the (map_of new_responses c)))
               (sorted_inter (dict_keys old_responses) (dict_keys new_responses))) (\<lambda>changed. Some (Inr
        (map (\<lambda>c. operation_change ''response_removed'' name True ('' response '' @ int_str c @ '' removed''))
           (sorted_diff (dict_keys old_responses) (dict_keys new_responses))
         @ map (\<lambda>c. operation_change ''response_added'' name False ('' response '' @ int_str c @ '' added''))
           (sorted_diff (dict_keys new_responses) (dict_keys old_responses))
         @ changed))))"

definition compare_operation ::
    "signature_fn \<Rightarrow> mdl_file \<Rightarrow> string \<Rightarrow> string \<Rightarrow> int \<Rightarrow> int \<Rightarrow> api_operation \<Rightarrow> api_operation \<Rightarrow> api_change list outcome" where
  "compare_operation sig mdl d n old_version new_version old new =
     obind (compare_request sig mdl d old new) (\<lambda>request.
     obind (compare_responses sig mdl d old new) (\<lambda>responses. Some (Inr
       ((if ao_method old \<noteq> ao_method new
         then [operation_change ''method_changed'' (ao_name old) True '' method changed''] else [])
        @ (if ao_path old \<noteq> ao_path new
           then operation_change ''path_changed'' (ao_name old) True '' path changed''
             # (if set (path_parameters (ao_path old)) \<noteq> set (path_parameters (ao_path new))
                then [operation_change ''path_key_renamed'' (ao_name old) True '' path key changed''] else [])
           else [])
        @ path_key_changes mdl d n old_version new_version old new @ request @ responses))))"

definition compare_api_operations ::
    "signature_fn \<Rightarrow> mdl_file \<Rightarrow> string \<Rightarrow> api_decl \<Rightarrow> api_decl \<Rightarrow> api_change list outcome" where
  "compare_api_operations sig mdl d old_api new_api =
     (let old = operations_of old_api; new = operations_of new_api in
      case renamed_operations old new of (added, renames) \<Rightarrow>
        obind (ocollect (\<lambda>n. compare_operation sig mdl d (ad_model old_api) (ad_version old_api) (ad_version new_api)
                   (the (map_of old n)) (the (map_of new n)))
                 (sorted_inter (dict_keys old) (dict_keys new))) (\<lambda>changed. Some (Inr
          (renames
           @ map (\<lambda>n. operation_change ''operation_added'' n False '' added'') (sorted_set (dict_keys added))
           @ changed))))"

definition any_abreaking :: "api_change list \<Rightarrow> bool" where
  "any_abreaking cs \<longleftrightarrow> list_ex ac_breaking cs"

definition check_api_version_compatibility ::
    "signature_fn \<Rightarrow> mdl_file \<Rightarrow> string \<Rightarrow> string \<Rightarrow> int \<Rightarrow> int \<Rightarrow> api_report outcome" where
  "check_api_version_compatibility sig mdl d n from to =
     obind (Some (find_api mdl d n from)) (\<lambda>old_api.
     obind (Some (find_api mdl d n to)) (\<lambda>new_api.
     obind (compare_api_operations sig mdl d old_api new_api) (\<lambda>changes.
       Some (Inr \<lparr>apr_domain_name = d, apr_model_name = n, apr_from_version = from, apr_to_version = to,
         apr_status = status_of (any_abreaking changes), apr_findings = map ac_message changes,
         apr_changes = changes\<rparr>))))"

section \<open>Impact\<close>

record projection_impact =
  pi_domain_name :: string
  pi_projection_name :: string
  pi_version :: int
  pi_status :: string
  pi_reason :: "string option"

definition impact_kinds :: "string list" where
  "impact_kinds = [''removed_field'', ''renamed_field'', ''type_changed'', ''enum_changed'', ''identity_changed'']"

definition is_impact_change :: "field_change \<Rightarrow> bool" where
  "is_impact_change c \<longleftrightarrow>
     fc_kind c \<in> set impact_kinds \<or> (fc_kind c = ''added_field'' \<and> fc_to_optional c = Some False)"

text \<open>\<^verbatim>\<open>ref.rsplit("@", 1)[0]\<close>\<close>

definition ref_root :: "string \<Rightarrow> string" where
  "ref_root ref = (case rpartition1 (CHR ''@'') ref of (before, found, after) \<Rightarrow> if found then before else ref)"

definition source_fields :: "string \<Rightarrow> property_dependency list \<Rightarrow> string list" where
  "source_fields source ds = map pd_source_property (filter (\<lambda>p. ref_root (pd_source_ref p) = source) ds)"

definition impacted_fields :: "compatibility_report \<Rightarrow> string list \<Rightarrow> string list" where
  "impacted_fields report used =
     map (\<lambda>c. field_text (fc_field_name c) ('' ('' @ fc_kind c @ '')''))
       (filter (\<lambda>c. is_impact_change c \<and> fc_field_name c \<in> set used) (cr_changes report))"

definition dependent_version :: "mdl_file \<Rightarrow> string \<times> string \<times> int \<Rightarrow> projection_version option" where
  "dependent_version mdl dep =
     (case dep of (d, n, ver) \<Rightarrow>
        (case find_projection_version mdl d n ver of Inl _ \<Rightarrow> None | Inr pv \<Rightarrow> Some pv))"

definition analyze_impact ::
    "signature_fn \<Rightarrow> mdl_file \<Rightarrow> compatibility_report \<Rightarrow> string \<times> string \<times> int \<Rightarrow> identity_error + projection_impact" where
  "analyze_impact sig mdl report dep =
     (case dep of (d, n, ver) \<Rightarrow>
        let impact = (\<lambda>status reason. \<lparr>pi_domain_name = d, pi_projection_name = n, pi_version = ver,
                        pi_status = status, pi_reason = reason\<rparr>);
            source = cr_domain_name report @ ''.'' @ cr_model_name report in
        (case dependent_version mdl dep of
           None \<Rightarrow> Inr (impact ''affected'' (Some ''unresolved projection''))
         | Some pv \<Rightarrow>
             sbind (build_projection_dependencies sig mdl d n pv) (\<lambda>ds.
               let impacted = impacted_fields report (source_fields source ds) in
               Inr (if impacted \<noteq> [] then impact ''broken'' (Some (''uses '' @ join '', '' impacted))
                    else if cr_status report = ''breaking''
                      then impact ''affected'' (Some (''source '' @ source @ '' is marked breaking''))
                    else impact ''compatible'' None))))"

text \<open>\<^const>\<open>None\<close> where the source raises \<^verbatim>\<open>ValueError\<close>: the text is not \<^verbatim>\<open>domain.model@version\<close>.\<close>

definition find_projection_dependents ::
    "signature_fn \<Rightarrow> mdl_file \<Rightarrow> string \<Rightarrow> (string \<times> string \<times> int) list option" where
  "find_projection_dependents sig mdl ref =
     (case rpartition1 (CHR ''@'') ref of (model_ref, found, version_text) \<Rightarrow>
        if \<not> found then None
        else case partition1 (CHR ''.'') model_ref of (domain, dotted, model) \<Rightarrow>
          if \<not> dotted then None
          else map_option (\<lambda>v. sort (find_dependents sig mdl domain model v)) (py_int version_text))"

end
