(* ===== verification/Checker_Contract.thy ===== *)
theory Checker_Contract
  imports Checker Projection_Contract
begin

text \<open>
  What the compatibility reports of theory \<^verbatim>\<open>Checker\<close> promise: the status of a model, a projection and
  an API report stated on the declarations themselves, the refinement of enum version bumps, and the
  impact of a model change on a projection.
\<close>

section \<open>References to enums in changes\<close>

lemma starts_with_append: "starts_with (s @ t) s"
  by (induction s) auto

lemma starts_with_set: "starts_with s p \<Longrightarrow> set p \<subseteq> set s"
  by (induction s p rule: starts_with.induct) auto

lemma rsplit_str_absent: "d \<in> set sep \<Longrightarrow> d \<notin> set s \<Longrightarrow> rsplit_str sep s = None"
proof (induction s)
  case (Cons c s)
  then have "\<not> starts_with (c # s) sep" using starts_with_set [of "c # s" sep] by auto
  with Cons show ?case by simp
qed simp

lemma rsplit_enum_ref:
  assumes "CHR ''@'' \<notin> set w"
  shows "rsplit_str '' @ '' (n @ '' @ '' @ w) = Some (n, w)"
proof (induction n)
  case Nil
  have none: "rsplit_str '' @ '' w = None" using assms by (intro rsplit_str_absent [of "CHR ''@''"]) auto
  have "\<not> starts_with w ''@ ''" using starts_with_set [of w "''@ ''"] assms by auto
  with none show ?case by simp
qed simp

lemma strip_id: "(\<And>c. c \<in> set s \<Longrightarrow> \<not> is_space c) \<Longrightarrow> strip s = s"
proof -
  assume none: "\<And>c. c \<in> set s \<Longrightarrow> \<not> is_space c"
  then have "dropWhile is_space s = s" by (auto simp: dropWhile_eq_self_iff)
  moreover have "dropWhile is_space (rev s) = rev s"
    using none by (auto simp: dropWhile_eq_self_iff hd_rev)
  ultimately show ?thesis by (simp add: strip_def)
qed

lemma int_digits_decimal: "s \<noteq> [] \<Longrightarrow> (\<And>c. c \<in> set s \<Longrightarrow> is_decimal c) \<Longrightarrow> int_digits s = Some s"
proof (induction s rule: int_digits.induct)
  case (3 c d s)
  have "d \<noteq> CHR ''_''" using "3.prems" (2) [of d] by (auto simp: is_decimal_def code_def)
  with 3 show ?case by simp
qed auto

lemma decimal_class: "is_decimal c \<Longrightarrow> \<not> is_space c \<and> c \<noteq> CHR ''-'' \<and> c \<noteq> CHR ''+'' \<and> c \<noteq> CHR ''@''"
  by (auto simp: is_decimal_def is_space_def code_def)

lemma py_int_nat_str: "py_int (nat_str n) = Some (int n)"
proof -
  have dec: "is_decimal c" if "c \<in> set (nat_str n)" for c using that by (rule nat_str_decimal)
  obtain c s where cs: "nat_str n = c # s" by (cases "nat_str n") auto
  then have "is_decimal c" using dec by simp
  then have sign: "\<not> starts_with (nat_str n) ''-''" "\<not> starts_with (nat_str n) ''+''"
    using cs decimal_class by auto
  have "strip (nat_str n) = nat_str n" using dec decimal_class by (intro strip_id) blast
  with sign show ?thesis by (simp add: py_int_def int_digits_decimal dec)
qed

lemma py_int_int_str: "py_int (int_str v) = Some v"
proof (cases "v < 0")
  case True
  let ?s = "nat_str (nat (- v))"
  have "strip (''-'' @ ?s) = ''-'' @ ?s"
    using nat_str_decimal [of _ "nat (- v)"] decimal_class
    by (intro strip_id) (auto simp: is_space_def code_def)
  then show ?thesis
    using True nat_str_decimal [of _ "nat (- v)"] by (simp add: py_int_def int_str_def int_digits_decimal)
qed (simp add: int_str_nonneg py_int_nat_str)

lemma parse_enum_ref_text: "parse_enum_ref (enum_ref_text n v) = Some (n, v)"
proof -
  have "CHR ''@'' \<notin> set (int_str v)" using int_str_chars [of "CHR ''@''" v] decimal_class by auto
  from rsplit_enum_ref [OF this, of n] show ?thesis
    unfolding parse_enum_ref_def enum_ref_text_def by (simp only: option.case prod.case py_int_int_str option.map)
qed

section \<open>Enum version bumps\<close>

text \<open>
  What a later version of an enum owes to an earlier one: a semantic enum has all the members it had, a
  projection has them, too, and is drawn from the same version of the same source.
\<close>

definition keeps_members :: "declaration_value \<Rightarrow> declaration_value \<Rightarrow> bool" where
  "keeps_members old new \<longleftrightarrow>
     (case (old, new) of
        (DSemantic s, DSemantic t) \<Rightarrow> set (declared_values (st_underlying s)) \<subseteq> set (declared_values (st_underlying t))
      | (DEnum p, DEnum q) \<Rightarrow>
          ep_source_name p = ep_source_name q \<and> ep_source_version p = ep_source_version q
          \<and> set (effective_members p) \<subseteq> set (effective_members q)
      | _ \<Rightarrow> False)"

text \<open>Both versions are declared in the workspace, and the later one keeps the members.\<close>

definition enum_kept :: "signature_fn \<Rightarrow> mdl_file \<Rightarrow> string \<Rightarrow> string \<Rightarrow> int \<Rightarrow> int \<Rightarrow> bool" where
  "enum_kept sig mdl d n v w \<longleftrightarrow>
     (case (resolve_named_declaration sig mdl d n (Some v) True, resolve_named_declaration sig mdl d n (Some w) True) of
        (Inr old, Inr new) \<Rightarrow> keeps_members (rd_declaration old) (rd_declaration new)
      | _ \<Rightarrow> False)"

text \<open>The types have one shape, or refer to two versions of one enum of which the later keeps the members.\<close>

definition type_kept :: "signature_fn \<Rightarrow> mdl_file \<Rightarrow> string \<Rightarrow> field_def \<Rightarrow> field_def \<Rightarrow> bool" where
  "type_kept sig mdl d f g \<longleftrightarrow> same_shape f g \<or>
     (case (fd_type f, fd_type g) of
        (EnumRefType n v, EnumRefType m w) \<Rightarrow> n = m \<and> enum_kept sig mdl d n v w
      | _ \<Rightarrow> False)"

definition field_kept :: "signature_fn \<Rightarrow> mdl_file \<Rightarrow> string \<Rightarrow> field_def \<Rightarrow> field_def \<Rightarrow> bool" where
  "field_kept sig mdl d f g \<longleftrightarrow>
     (fd_optional f \<longrightarrow> fd_optional g) \<and> (fd_nullable f \<longrightarrow> fd_nullable g)
     \<and> fd_is_key f = fd_is_key g \<and> type_kept sig mdl d f g"

text \<open>The contract of theory \<^verbatim>\<open>Diff_Contract\<close> with this reading of the types.\<close>

definition model_kept :: "signature_fn \<Rightarrow> mdl_file \<Rightarrow> string \<Rightarrow> model_version \<Rightarrow> model_version \<Rightarrow> bool" where
  "model_kept sig mdl d old new \<longleftrightarrow>
     list_all (\<lambda>f. case find_field new (fd_name f) of None \<Rightarrow> False
        | Some g \<Rightarrow> field_kept sig mdl d f g \<and> fd_is_pii f = fd_is_pii g \<and> fd_classification f = fd_classification g)
       (mv_fields old)
     \<and> list_all (\<lambda>g. find_field old (fd_name g) = None \<longrightarrow> fd_optional g) (mv_fields new)
     \<and> (set (key_names old) = set (key_names new) \<longrightarrow> key_names old = key_names new)
     \<and> set (access_grant_triples (mv_access old)) \<subseteq> set (access_grant_triples (mv_access new))"

text \<open>The bumps that the refinement takes back.\<close>

abbreviation bump_kinds :: "string set" where
  "bump_kinds \<equiv> {''enum_version_changed'', ''enum_reference_changed''}"

definition enum_growth :: "signature_fn \<Rightarrow> mdl_file \<Rightarrow> string \<Rightarrow> field_change \<Rightarrow> bool" where
  "enum_growth sig mdl domain c \<longleftrightarrow>
     fc_kind c \<in> bump_kinds \<and>
     (case (fc_from_type c, fc_to_type c) of
        (Some from, Some to) \<Rightarrow>
          (case (parse_enum_ref from, parse_enum_ref to) of
             (Some (n, v), Some (m, w)) \<Rightarrow> n = m \<and> enum_kept sig mdl domain n v w
           | _ \<Rightarrow> False)
      | _ \<Rightarrow> False)"

definition unrefined :: "signature_fn \<Rightarrow> mdl_file \<Rightarrow> string \<Rightarrow> field_change \<Rightarrow> bool" where
  "unrefined sig mdl d c \<longleftrightarrow> is_field_change_breaking c \<and> \<not> enum_growth sig mdl d c"

lemma refined_breaking [breaking_simps]: "is_field_change_breaking (refined_change c es) \<longleftrightarrow> any_breaking es"
  by (simp add: refined_change_def is_field_change_breaking_def)

lemma override_breaking [breaking_simps]:
  "is_field_change_breaking (c\<lparr>fc_breaking_override := Some b, fc_note := n\<rparr>) \<longleftrightarrow> b"
  by (simp add: is_field_change_breaking_def)

lemma refine_resolved_breaking:
  "is_field_change_breaking (refine_resolved c same old new) \<longleftrightarrow>
     (if same then \<not> keeps_members (rd_declaration old) (rd_declaration new)
      else case (rd_declaration old, rd_declaration new) of
        (DEnum p, DEnum q) \<Rightarrow> is_field_change_breaking c
      | (DSemantic s, DSemantic t) \<Rightarrow> is_field_change_breaking c
      | _ \<Rightarrow> True)"
  by (simp add: refine_resolved_def keeps_members_def breaking_simps semantic_breaking_iff projection_breaking_iff
      split: declaration_value.split)

lemma refine_breaking:
  assumes "fc_breaking_override c = None"
  shows "is_field_change_breaking (refine_change sig mdl d c) \<longleftrightarrow> unrefined sig mdl d c"
proof (cases "fc_kind c \<in> bump_kinds")
  case True
  then have "is_field_change_breaking c" using assms by (auto simp: breaking_kind breaking_kinds_mem)
  with True show ?thesis
    by (auto simp: unrefined_def refine_change_def enum_growth_def enum_kept_def refine_resolved_breaking
        split: option.splits sum.splits declaration_value.splits prod.splits)
next
  case False
  then show ?thesis by (simp add: unrefined_def refine_change_def enum_growth_def)
qed

text \<open>Only the comparison of two enum references makes bumps.\<close>

lemma unrefined_other: "fc_kind c \<notin> bump_kinds \<Longrightarrow> unrefined sig mdl d c \<longleftrightarrow> is_field_change_breaking c"
  by (simp add: unrefined_def enum_growth_def)

lemma unrefined_others:
  "list_all (\<lambda>c. fc_kind c \<notin> bump_kinds) cs \<Longrightarrow> list_ex (unrefined sig mdl d) cs \<longleftrightarrow> list_ex is_field_change_breaking cs"
  by (induction cs) (simp_all add: unrefined_other)

lemma unrefined_bump:
  "unrefined sig mdl d (typed_change (if n \<noteq> m then ''enum_reference_changed'' else ''enum_version_changed'') f
      (enum_ref_text n v) (enum_ref_text m w)) \<longleftrightarrow> \<not> (n = m \<and> enum_kept sig mdl d n v w)"
  by (auto simp: unrefined_def enum_growth_def breaking_simps typed_change_def [unfolded mk_change_def] parse_enum_ref_text
      is_field_change_breaking_def)

lemma unrefined_types:
  "list_ex (unrefined sig mdl d) (compare_field_types f g n) \<longleftrightarrow> \<not> type_kept sig mdl d f g"
proof (cases "\<exists>a v b w. fd_type f = EnumRefType a v \<and> fd_type g = EnumRefType b w")
  case True
  then obtain a v b w where types: "fd_type f = EnumRefType a v" "fd_type g = EnumRefType b w" by blast
  show ?thesis
  proof (cases "type_signature f = type_signature g")
    case False
    then show ?thesis
      using types unrefined_bump [of sig mdl d a b n v w]
      by (simp add: compare_field_types_def type_kept_def same_shape_def)
  qed (simp add: compare_field_types_def type_kept_def same_shape_def)
next
  case False
  have "list_all (\<lambda>c. fc_kind c \<notin> bump_kinds) (compare_field_types f g n)"
    using False by (auto simp: compare_field_types_def union_changes_def Let_def list_all_iff split: field_type.split)
  moreover have "type_kept sig mdl d f g \<longleftrightarrow> same_shape f g"
    using False by (auto simp: type_kept_def split: field_type.split)
  ultimately show ?thesis by (simp add: unrefined_others breaking_types)
qed

lemma unrefined_common:
  "list_ex (unrefined sig mdl d) (common_field_changes f g n) \<longleftrightarrow> \<not> field_kept sig mdl d f g"
proof -
  let ?own = "(if fd_optional f \<noteq> fd_optional g then [optionality_change f g n] else [])
     @ (if fd_nullable f \<noteq> fd_nullable g then [nullability_change f g n] else [])
     @ (if fd_is_key f \<noteq> fd_is_key g
        then [typed_change ''identity_changed'' n (type_signature f) (type_signature g)] else [])"
  have "list_all (\<lambda>c. fc_kind c \<notin> bump_kinds) ?own"
    by (simp add: optionality_change_def nullability_change_def)
  then have "list_ex (unrefined sig mdl d) ?own \<longleftrightarrow> list_ex is_field_change_breaking ?own" by (rule unrefined_others)
  then show ?thesis
    by (auto simp: common_field_changes_def field_kept_def unrefined_types breaking_simps)
qed

lemma model_kept_iff:
  assumes "unique_fields old" and "unique_fields new"
  shows "list_ex (unrefined sig mdl d) (compare_model_versions old new) \<longleftrightarrow>
    \<not> (no_renames old new \<and> model_kept sig mdl d old new)"
proof -
  obtain changes mo mn where det: "detect_renames old new = (changes, mo, mn)" by (cases "detect_renames old new")
  have rename: "is_rename c \<Longrightarrow> unrefined sig mdl d c" for c
    using unrefined_other [of c sig mdl d] by (simp add: is_rename_def rename_breaks [unfolded is_rename_def])
  show ?thesis
  proof (cases "no_renames old new")
    case False
    with renames_ex [OF det, of "unrefined sig mdl d"] rename show ?thesis by (simp add: compare_model_versions_def det)
  next
    case True
    with det have det: "detect_renames old new = ([], [], [])" by (simp add: no_renames_def)
    have "list_ex (unrefined sig mdl d) (removed_changes old new []) = list_ex is_field_change_breaking (removed_changes old new [])"
      "list_ex (unrefined sig mdl d) (added_changes old new []) = list_ex is_field_change_breaking (added_changes old new [])"
      "list_ex (unrefined sig mdl d) (key_order_changes old new) = list_ex is_field_change_breaking (key_order_changes old new)"
      "list_ex (unrefined sig mdl d) (compare_model_governance old new)
         = list_ex is_field_change_breaking (compare_model_governance old new)"
      by (rule unrefined_others;
          auto simp: list_all_iff removed_changes_def added_changes_def key_order_changes_def
            compare_model_governance_def grant_changes_def field_governance_changes_def Let_def split: if_splits)+
    then have "\<not> list_ex (unrefined sig mdl d) (compare_model_versions old new) \<longleftrightarrow>
       \<not> (list_ex (\<lambda>f. find_field new (fd_name f) = None) (mv_fields old)
        \<or> list_ex (\<lambda>f. \<exists>g. find_field new (fd_name f) = Some g \<and> \<not> field_kept sig mdl d f g) (mv_fields old)
        \<or> list_ex (\<lambda>g. find_field old (fd_name g) = None \<and> \<not> fd_optional g) (mv_fields new)
        \<or> key_names old \<noteq> key_names new \<and> set (key_names old) = set (key_names new)
        \<or> \<not> set (access_grant_triples (mv_access old)) \<subseteq> set (access_grant_triples (mv_access new))
        \<or> list_ex (\<lambda>f. \<exists>g. find_field new (fd_name f) = Some g \<and>
            \<not> (fd_is_pii f = fd_is_pii g \<and> fd_classification f = fd_classification g)) (mv_fields old))"
      by (simp add: compare_model_versions_def det breaking_removed breaking_added_changes breaking_key_order
          common_changes_ex [OF assms unrefined_common] breaking_model_governance [OF assms])
    also have "\<dots> \<longleftrightarrow> model_kept sig mdl d old new"
      by (auto simp: model_kept_def list_all_iff list_ex_iff split: option.splits)
    finally show ?thesis using True by auto
  qed
qed

section \<open>Model reports\<close>

lemma index_never_breaks: "\<not> has_breaking_change (compare_index_decls a b)"
  by (auto simp: has_breaking_change_def compare_index_decls_def Let_def list_ex_iff breaking_simps)

lemma status_compatible [simp]: "status_of b = ''compatible'' \<longleftrightarrow> \<not> b" "status_of b = ''breaking'' \<longleftrightarrow> b"
  by (auto simp: status_of_def)

lemma model_report_status:
  "cr_status (model_report sig mdl d n old from new to) = ''compatible'' \<longleftrightarrow>
     \<not> list_ex (unrefined sig mdl d) (compare_model_versions old new)"
proof -
  have "cr_status (model_report sig mdl d n old from new to) = ''compatible'' \<longleftrightarrow>
      \<not> has_breaking_change (refine_enum_version_changes sig mdl (compare_model_versions old new) d)"
    using index_never_breaks by (simp add: model_report_def Let_def has_breaking_change_def)
  also have "\<dots> \<longleftrightarrow> \<not> list_ex (unrefined sig mdl d) (compare_model_versions old new)"
    using plain_comparison [of old new]
    by (auto simp: has_breaking_change_def refine_enum_version_changes_def list_ex_iff list_all_iff refine_breaking)
  finally show ?thesis .
qed

lemma model_check_Inr:
  "check_model_version_compatibility sig mdl d n from to = Inr r \<longleftrightarrow>
     (\<exists>old new. find_version mdl d n from = Inr old \<and> find_version mdl d n to = Inr new
        \<and> r = model_report sig mdl d n old from new to)"
  by (auto simp: check_model_version_compatibility_def)

section \<open>Projection reports\<close>

text \<open>A source that moved to another version of the same model moved to a compatible one.\<close>

definition source_kept :: "signature_fn \<Rightarrow> mdl_file \<Rightarrow> resolved_declaration \<Rightarrow> resolved_declaration \<Rightarrow> bool" where
  "source_kept sig mdl r q \<longleftrightarrow>
     rd_name r \<noteq> rd_name q \<or> decl_version (rd_declaration r) = decl_version (rd_declaration q) \<or>
     (case check_model_version_compatibility sig mdl (rd_domain_name r) (rd_name r)
          (decl_version (rd_declaration r)) (decl_version (rd_declaration q)) of
        Inr report \<Rightarrow> cr_status report = ''compatible'' | Inl _ \<Rightarrow> False)"

definition sources_kept :: "signature_fn \<Rightarrow> mdl_file \<Rightarrow> projection_version \<Rightarrow> projection_version \<Rightarrow> bool" where
  "sources_kept sig mdl old new \<longleftrightarrow>
     list_all (\<lambda>a.
       case (map_of (resolve_projection_aliases sig old mdl) a, map_of (resolve_projection_aliases sig new mdl) a) of
         (Some r, Some q) \<Rightarrow> source_kept sig mdl r q
       | _ \<Rightarrow> True)
       (dict_keys (resolve_projection_aliases sig old mdl))"

lemma sources_kept_iff:
  "sources_kept sig mdl old new \<longleftrightarrow> (\<forall>a r q. map_of (resolve_projection_aliases sig old mdl) a = Some r \<longrightarrow>
     map_of (resolve_projection_aliases sig new mdl) a = Some q \<longrightarrow> source_kept sig mdl r q)"
  unfolding sources_kept_def list_all_iff Ball_def key_iff by (fastforce split: option.split)

lemma report_status_cases: "check_model_version_compatibility sig mdl d n from to = Inr r \<Longrightarrow>
    cr_status r = ''breaking'' \<longleftrightarrow> cr_status r \<noteq> ''compatible''"
  by (auto simp: model_check_Inr model_report_def Let_def)

lemma alias_changes_breaking:
  "alias_version_changes sig mdl a r q = Inr cs \<Longrightarrow> list_ex pj_breaking cs \<longleftrightarrow> \<not> source_kept sig mdl r q"
  by (auto simp: alias_version_changes_def Let_def source_version_change_def source_kept_def report_status_cases
      split: if_splits)

lemma compare_source_breaking:
  assumes "compare_source_version sig mdl old new = Inr cs"
  shows "list_ex pj_breaking cs \<longleftrightarrow> \<not> sources_kept sig mdl old new"
proof -
  let ?old = "resolve_projection_aliases sig old mdl" and ?new = "resolve_projection_aliases sig new mdl"
  let ?f = "\<lambda>a. alias_version_changes sig mdl a (the (map_of ?old a)) (the (map_of ?new a))"
  let ?common = "sorted_inter (dict_keys ?old) (dict_keys ?new)"
  obtain css where run: "smap ?f ?common = Inr css" and cs: "cs = concat css"
    using assms by (auto simp: compare_source_version_def Let_def)
  have mem: "a \<in> set ?common \<longleftrightarrow> (\<exists>r q. map_of ?old a = Some r \<and> map_of ?new a = Some q)" for a
    unfolding set_sorted_inter Int_iff key_iff by blast
  have one: "(\<exists>y. ?f a = Inr y \<and> list_ex pj_breaking y) \<longleftrightarrow> \<not> source_kept sig mdl r q"
    if look: "map_of ?old a = Some r" "map_of ?new a = Some q" for a r q
  proof -
    have "a \<in> set ?common" using look mem by blast
    then obtain y where "?f a = Inr y" using smap_defined [OF run] by blast
    with look show ?thesis using alias_changes_breaking [of sig mdl a r q] by auto
  qed
  have "list_ex pj_breaking cs \<longleftrightarrow> (\<exists>a \<in> set ?common. \<exists>y. ?f a = Inr y \<and> list_ex pj_breaking y)"
    unfolding cs by (rule list_ex_results [OF run [unfolded smap_eq_Inr_iff]]) simp
  also have "\<dots> \<longleftrightarrow> \<not> sources_kept sig mdl old new"
    unfolding sources_kept_iff Bex_def mem using one by blast
  finally show ?thesis .
qed

lemma map_sum_id_Inr [simp]: "map_sum f id z = Inr x \<longleftrightarrow> z = Inr x"
  by (cases z) auto

lemma projection_status:
  assumes "check_projection_version_compatibility sig mdl d n from to = Some (Inr r)"
  obtains old new where "find_projection_version mdl d n from = Inr old" and "find_projection_version mdl d n to = Inr new"
    and "pr_status r = ''compatible'' \<longleftrightarrow> projection_compatible sig mdl old new \<and> sources_kept sig mdl old new"
    and "pr_status r = ''breaking'' \<longleftrightarrow> \<not> (projection_compatible sig mdl old new \<and> sources_kept sig mdl old new)"
proof -
  obtain old new changes moved where old: "find_projection_version mdl d n from = Inr old"
    and new: "find_projection_version mdl d n to = Inr new"
    and changes: "compare_projection_versions sig mdl old new = Some (Inr changes)"
    and moved: "compare_source_version sig mdl old new = Inr moved"
    and r: "r = projection_report_of d n from to (changes @ moved)"
    using assms by (auto simp: check_projection_version_compatibility_def)
  have "any_pbreaking (changes @ moved) \<longleftrightarrow> \<not> (projection_compatible sig mdl old new \<and> sources_kept sig mdl old new)"
    using projection_contract [OF changes] compare_source_breaking [OF moved] by (auto simp: any_pbreaking_def)
  then show thesis by (intro that [OF old new]) (simp_all add: r projection_report_of_def)
qed

section \<open>API reports\<close>

definition projection_keeps :: "signature_fn \<Rightarrow> mdl_file \<Rightarrow> string \<Rightarrow> string \<Rightarrow> int \<Rightarrow> int \<Rightarrow> bool" where
  "projection_keeps sig mdl d n from to \<longleftrightarrow>
     (case check_projection_version_compatibility sig mdl d n from to of
        Some (Inr r) \<Rightarrow> pr_status r = ''compatible'' | _ \<Rightarrow> False)"

definition request_kept :: "signature_fn \<Rightarrow> mdl_file \<Rightarrow> string \<Rightarrow> api_operation \<Rightarrow> api_operation \<Rightarrow> bool" where
  "request_kept sig mdl d old new \<longleftrightarrow> ao_request old = ao_request new \<or>
     (case (ao_request old, ao_request new) of
        (Some (n, v), Some (m, w)) \<Rightarrow> n = m \<and> projection_keeps sig mdl d n v w | _ \<Rightarrow> False)"

definition response_kept :: "signature_fn \<Rightarrow> mdl_file \<Rightarrow> string \<Rightarrow> api_response \<Rightarrow> api_response \<Rightarrow> bool" where
  "response_kept sig mdl d old new \<longleftrightarrow>
     ar_projection old = ar_projection new \<and>
     (ar_version old = ar_version new \<or> projection_keeps sig mdl d (ar_projection old) (ar_version old) (ar_version new))"

text \<open>The key fields that the path names have the types they had, where both versions of the model are there.\<close>

definition key_field :: "model_version \<Rightarrow> string \<Rightarrow> field_def option" where
  "key_field v p = map_of (dict_by fd_name (filter fd_is_key (mv_fields v))) p"

definition path_keys_kept :: "mdl_file \<Rightarrow> string \<Rightarrow> string \<Rightarrow> int \<Rightarrow> int \<Rightarrow> string \<Rightarrow> bool" where
  "path_keys_kept mdl d n from to path \<longleftrightarrow>
     (case (find_version mdl d n from, find_version mdl d n to) of
        (Inr old, Inr new) \<Rightarrow>
          list_all (\<lambda>p. case (key_field old p, key_field new p) of
              (Some f, Some g) \<Rightarrow> same_type (fd_type f) (fd_type g) | _ \<Rightarrow> True) (path_parameters path)
      | _ \<Rightarrow> True)"

definition responses_of :: "api_operation \<Rightarrow> (int, api_response) dict" where
  "responses_of op = dict_by ar_status_code (ao_responses op)"

text \<open>The method, the path and the types of its keys stay; the request and the responses are kept.\<close>

definition operation_kept ::
    "signature_fn \<Rightarrow> mdl_file \<Rightarrow> string \<Rightarrow> string \<Rightarrow> int \<Rightarrow> int \<Rightarrow> api_operation \<Rightarrow> api_operation \<Rightarrow> bool" where
  "operation_kept sig mdl d n from to old new \<longleftrightarrow>
     ao_method old = ao_method new \<and> ao_path old = ao_path new
     \<and> path_keys_kept mdl d n from to (ao_path old)
     \<and> request_kept sig mdl d old new
     \<and> list_all (\<lambda>c. case map_of (responses_of new) c of None \<Rightarrow> False
          | Some q \<Rightarrow> response_kept sig mdl d (the (map_of (responses_of old) c)) q) (dict_keys (responses_of old))"

definition api_compatible :: "signature_fn \<Rightarrow> mdl_file \<Rightarrow> string \<Rightarrow> api_decl \<Rightarrow> api_decl \<Rightarrow> bool" where
  "api_compatible sig mdl d old new \<longleftrightarrow>
     list_all (\<lambda>n. case map_of (operations_of new) n of None \<Rightarrow> False
       | Some op \<Rightarrow> operation_kept sig mdl d (ad_model old) (ad_version old) (ad_version new)
           (the (map_of (operations_of old) n)) op) (dict_keys (operations_of old))"

lemma operation_change_breaking [simp]: "ac_breaking (operation_change k n b m) = b"
  by (simp add: operation_change_def api_change_of_def)

lemma dict_all_iff:
  "list_all (\<lambda>n. case map_of new n of None \<Rightarrow> False | Some g \<Rightarrow> P (the (map_of old n)) g) (dict_keys old) \<longleftrightarrow>
     set (dict_keys old) \<subseteq> set (dict_keys new) \<and>
     (\<forall>n f g. map_of old n = Some f \<longrightarrow> map_of new n = Some g \<longrightarrow> P f g)"
  unfolding list_all_iff subset_iff Ball_def key_iff by (auto split: option.split) (metis option.sel)

lemma ocollect_ex:
  "ocollect f xs = Some (Inr ys) \<Longrightarrow> list_ex P ys \<longleftrightarrow> (\<exists>x \<in> set xs. \<exists>zs. f x = Some (Inr zs) \<and> list_ex P zs)"
  by (induction xs arbitrary: ys) auto

lemma ocollect_defined: "ocollect f xs = Some (Inr ys) \<Longrightarrow> x \<in> set xs \<Longrightarrow> \<exists>zs. f x = Some (Inr zs)"
  by (induction xs arbitrary: ys) auto

text \<open>A comparison over the common keys of two dictionaries breaks where one of its parts does.\<close>

lemma common_breaking:
  assumes run: "ocollect (\<lambda>n. f n (the (map_of old n)) (the (map_of new n))) (sorted_inter (dict_keys old) (dict_keys new))
      = Some (Inr ys)"
    and part: "\<And>n a b zs. f n a b = Some (Inr zs) \<Longrightarrow> list_ex Q zs \<longleftrightarrow> \<not> P a b"
  shows "list_ex Q ys \<longleftrightarrow> (\<exists>n a b. map_of old n = Some a \<and> map_of new n = Some b \<and> \<not> P a b)"
proof -
  let ?common = "sorted_inter (dict_keys old) (dict_keys new)"
  have mem: "n \<in> set ?common \<longleftrightarrow> (\<exists>a b. map_of old n = Some a \<and> map_of new n = Some b)" for n
    unfolding set_sorted_inter Int_iff key_iff by blast
  have one: "(\<exists>zs. f n (the (map_of old n)) (the (map_of new n)) = Some (Inr zs) \<and> list_ex Q zs) \<longleftrightarrow> \<not> P a b"
    if look: "map_of old n = Some a" "map_of new n = Some b" for n a b
  proof -
    have "n \<in> set ?common" using look mem by blast
    then obtain zs where "f n (the (map_of old n)) (the (map_of new n)) = Some (Inr zs)"
      using ocollect_defined [OF run] by blast
    with look show ?thesis using part [of n a b] by auto
  qed
  show ?thesis
    unfolding ocollect_ex [OF run] Bex_def mem using one by blast
qed

lemma projection_status_keeps:
  assumes "check_projection_version_compatibility sig mdl d n from to = Some (Inr r)"
  shows "pr_status r = ''breaking'' \<longleftrightarrow> \<not> projection_keeps sig mdl d n from to"
  using projection_status [OF assms] by (auto simp: projection_keeps_def assms)

lemma request_breaking:
  "compare_request sig mdl d old new = Some (Inr cs) \<Longrightarrow> list_ex ac_breaking cs \<longleftrightarrow> \<not> request_kept sig mdl d old new"
  by (auto simp: compare_request_def Let_def request_kept_def projection_status_keeps
      split: if_splits option.splits prod.splits)

lemma response_breaking:
  "response_changes sig mdl d n c old new = Some (Inr cs) \<Longrightarrow> list_ex ac_breaking cs \<longleftrightarrow> \<not> response_kept sig mdl d old new"
  by (auto simp: response_changes_def response_status_def response_kept_def projection_status_keeps split: if_splits)

lemma responses_breaking:
  assumes "compare_responses sig mdl d old new = Some (Inr cs)"
  shows "list_ex ac_breaking cs \<longleftrightarrow>
    \<not> list_all (\<lambda>c. case map_of (responses_of new) c of None \<Rightarrow> False
          | Some q \<Rightarrow> response_kept sig mdl d (the (map_of (responses_of old) c)) q) (dict_keys (responses_of old))"
proof -
  obtain changed where run: "ocollect (\<lambda>c. response_changes sig mdl d (ao_name old) c
        (the (map_of (responses_of old) c)) (the (map_of (responses_of new) c)))
      (sorted_inter (dict_keys (responses_of old)) (dict_keys (responses_of new))) = Some (Inr changed)"
    and cs: "cs = map (\<lambda>c. operation_change ''response_removed'' (ao_name old) True ('' response '' @ int_str c @ '' removed''))
           (sorted_diff (dict_keys (responses_of old)) (dict_keys (responses_of new)))
         @ map (\<lambda>c. operation_change ''response_added'' (ao_name old) False ('' response '' @ int_str c @ '' added''))
           (sorted_diff (dict_keys (responses_of new)) (dict_keys (responses_of old))) @ changed"
    using assms by (auto simp: compare_responses_def Let_def responses_of_def)
  have "list_ex ac_breaking changed \<longleftrightarrow> (\<exists>c r q. map_of (responses_of old) c = Some r \<and> map_of (responses_of new) c = Some q
      \<and> \<not> response_kept sig mdl d r q)"
    by (rule common_breaking [where f = "\<lambda>c a b. response_changes sig mdl d (ao_name old) c a b", OF run])
      (rule response_breaking)
  then show ?thesis
    unfolding cs dict_all_iff list_ex_append list_ex_map operation_change_breaking list_ex_const sorted_diff_Nil by blast
qed

lemma path_keys_breaking:
  "ao_path old = ao_path new \<Longrightarrow>
     list_ex ac_breaking (path_key_changes mdl d n from to old new) \<longleftrightarrow> \<not> path_keys_kept mdl d n from to (ao_path old)"
  by (auto simp: path_key_changes_def path_keys_kept_def key_field_def Let_def list_ex_iff list_all_iff
      split: sum.split option.splits)

lemma operation_breaking:
  assumes "compare_operation sig mdl d n from to old new = Some (Inr cs)"
  shows "list_ex ac_breaking cs \<longleftrightarrow> \<not> operation_kept sig mdl d n from to old new"
proof -
  obtain request responses where request: "compare_request sig mdl d old new = Some (Inr request)"
    and responses: "compare_responses sig mdl d old new = Some (Inr responses)"
    and cs: "cs = (if ao_method old \<noteq> ao_method new
         then [operation_change ''method_changed'' (ao_name old) True '' method changed''] else [])
        @ (if ao_path old \<noteq> ao_path new
           then operation_change ''path_changed'' (ao_name old) True '' path changed''
             # (if set (path_parameters (ao_path old)) \<noteq> set (path_parameters (ao_path new))
                then [operation_change ''path_key_renamed'' (ao_name old) True '' path key changed''] else [])
           else [])
        @ path_key_changes mdl d n from to old new @ request @ responses"
    using assms by (auto simp: compare_operation_def)
  have keys: "list_ex ac_breaking (path_key_changes mdl d n from to old new)
      \<longleftrightarrow> \<not> path_keys_kept mdl d n from to (ao_path old)" if "ao_path old = ao_path new"
    using that by (rule path_keys_breaking)
  show ?thesis
    unfolding cs list_ex_append request_breaking [OF request] responses_breaking [OF responses] operation_kept_def
    using keys by auto
qed

lemma rename_step: "\<exists>c. snd (rename_operation st r) = snd st @ [c] \<and> ac_breaking c"
  by (cases st; cases r) (auto simp: rename_operation_def split: option.split)

lemma rename_loop:
  "\<exists>cs. snd (foldl rename_operation st removed) = snd st @ cs \<and> (list_ex ac_breaking cs \<longleftrightarrow> removed \<noteq> [])"
proof (induction removed arbitrary: st)
  case (Cons r removed)
  obtain c where c: "snd (rename_operation st r) = snd st @ [c]" "ac_breaking c" using rename_step by blast
  from Cons.IH [of "rename_operation st r"] c show ?case by auto
qed simp

lemma renames_breaking:
  "list_ex ac_breaking (snd (renamed_operations old new)) \<longleftrightarrow> \<not> set (dict_keys old) \<subseteq> set (dict_keys new)"
proof -
  let ?removed = "map (\<lambda>n. (n, the (map_of old n))) (sorted_diff (dict_keys old) (dict_keys new))"
  obtain cs where "snd (renamed_operations old new) = cs" "list_ex ac_breaking cs \<longleftrightarrow> ?removed \<noteq> []"
    using rename_loop [of "(filter (\<lambda>(n, op). n \<notin> set (dict_keys old)) new, [])" ?removed]
    by (auto simp: renamed_operations_def)
  then show ?thesis by simp
qed

lemma api_breaking:
  assumes "compare_api_operations sig mdl d old new = Some (Inr cs)"
  shows "list_ex ac_breaking cs \<longleftrightarrow> \<not> api_compatible sig mdl d old new"
proof -
  obtain added renames where split: "renamed_operations (operations_of old) (operations_of new) = (added, renames)"
    by (cases "renamed_operations (operations_of old) (operations_of new)")
  obtain changed where run: "ocollect (\<lambda>n. compare_operation sig mdl d (ad_model old) (ad_version old) (ad_version new)
                   (the (map_of (operations_of old) n)) (the (map_of (operations_of new) n)))
      (sorted_inter (dict_keys (operations_of old)) (dict_keys (operations_of new))) = Some (Inr changed)"
    and cs: "cs = renames @ map (\<lambda>n. operation_change ''operation_added'' n False '' added'') (sorted_set (dict_keys added)) @ changed"
    using assms by (auto simp: compare_api_operations_def Let_def split)
  have renames: "list_ex ac_breaking renames \<longleftrightarrow>
      \<not> set (dict_keys (operations_of old)) \<subseteq> set (dict_keys (operations_of new))"
    using renames_breaking [of "operations_of old" "operations_of new"] by (simp add: split)
  have "list_ex ac_breaking changed \<longleftrightarrow> (\<exists>n a b. map_of (operations_of old) n = Some a \<and> map_of (operations_of new) n = Some b
      \<and> \<not> operation_kept sig mdl d (ad_model old) (ad_version old) (ad_version new) a b)"
    by (rule common_breaking [where f = "\<lambda>n a b. compare_operation sig mdl d (ad_model old) (ad_version old) (ad_version new) a b", OF run])
      (rule operation_breaking)
  then show ?thesis
    unfolding cs api_compatible_def dict_all_iff list_ex_append list_ex_map operation_change_breaking list_ex_const renames
    by blast
qed

section \<open>Impact\<close>

lemma impact_kind_breaks: "fc_breaking_override c = None \<Longrightarrow> is_impact_change c \<Longrightarrow> is_field_change_breaking c"
  by (auto simp: is_impact_change_def impact_kinds_def is_field_change_breaking_def breaking_kinds_def)

lemma refine_kind:
  "fc_kind (refine_change sig mdl d c) = fc_kind c" "fc_to_optional (refine_change sig mdl d c) = fc_to_optional c"
  by (simp_all add: refine_change_def refine_resolved_def refined_change_def
      split: option.split sum.split declaration_value.split prod.split)

lemma compatible_no_impact:
  assumes "check_model_version_compatibility sig mdl d n from to = Inr report" and "cr_status report = ''compatible''"
  shows "impacted_fields report used = []"
proof -
  obtain old new where report: "report = model_report sig mdl d n old from new to"
    using assms(1) by (auto simp: model_check_Inr)
  have "\<not> is_impact_change c" if c: "c \<in> set (cr_changes report)" for c
  proof
    assume impact: "is_impact_change c"
    from c consider (semantic) b where "c = refine_change sig mdl d b" "b \<in> set (compare_model_versions old new)"
      | (index) "c \<in> set (compare_index_decls (find_index_decl mdl d n from) (find_index_decl mdl d n to))"
      by (auto simp: report model_report_def Let_def refine_enum_version_changes_def)
    then show False
    proof cases
      case semantic
      then have b: "fc_breaking_override b = None" using plain_comparison [of old new] by (simp add: list_all_iff)
      have "is_impact_change b" using impact semantic(1) by (simp add: is_impact_change_def refine_kind)
      then have "is_field_change_breaking b" "fc_kind b \<notin> {''enum_version_changed'', ''enum_reference_changed''}"
        using impact_kind_breaks [OF b] by (auto simp: is_impact_change_def impact_kinds_def)
      then show False
        using assms(2) semantic(2) unfolding report model_report_status list_ex_iff
        by (auto simp: unrefined_def enum_growth_def)
    next
      case index
      then have "fc_kind c = ''index_changed''" by (auto simp: compare_index_decls_def Let_def split: if_splits)
      with impact show False by (auto simp: is_impact_change_def impact_kinds_def)
    qed
  qed
  then show ?thesis by (simp add: impacted_fields_def filter_empty_conv)
qed

section \<open>Properties\<close>

text \<open>
  C5. The status of a model report is exact: two versions with distinct field names are compatible if and only
  if no field is renamed and the new one keeps the contract of the old one, where the type of a field is kept
  when its shape is, and also when it refers to another version of the same enum, both versions resolve in
  the workspace, and the new one keeps its members: a semantic enum has all it had, an enum projection has
  all it had and is drawn from the same version of the same source. Changes of indexes never count.
\<close>

theorem model_status_exact:
  assumes "check_model_version_compatibility sig mdl d n from to = Inr r"
    and "find_version mdl d n from = Inr old" and "find_version mdl d n to = Inr new"
    and "unique_fields old" and "unique_fields new"
  shows "cr_status r = ''compatible'' \<longleftrightarrow> no_renames old new \<and> model_kept sig mdl d old new"
  using assms by (auto simp: model_check_Inr model_report_status model_kept_iff)

text \<open>
  An enum version bump of a field breaks exactly when the declaration loses a member: the text of
  the change is parsed back to the name and the versions, both are resolved in the workspace, and the
  members of the two declarations decide.
\<close>

theorem enum_bump_decided:
  assumes "resolve_named_declaration sig mdl d n (Some v) True = Inr old" and "rd_declaration old = DSemantic s"
    and "resolve_named_declaration sig mdl d n (Some w) True = Inr new" and "rd_declaration new = DSemantic t"
  shows "is_field_change_breaking
      (refine_change sig mdl d (typed_change ''enum_version_changed'' f (enum_ref_text n v) (enum_ref_text n w)))
    \<longleftrightarrow> \<not> set (declared_values (st_underlying s)) \<subseteq> set (declared_values (st_underlying t))"
proof -
  let ?c = "typed_change ''enum_version_changed'' f (enum_ref_text n v) (enum_ref_text n w)"
  have "unrefined sig mdl d ?c \<longleftrightarrow> \<not> enum_kept sig mdl d n v w"
    using unrefined_bump [of sig mdl d n n f v w] by simp
  then show ?thesis using assms by (simp add: refine_breaking enum_kept_def keeps_members_def)
qed

text \<open>
  C7. The status of a projection report is exact: where the report is given, the versions are compatible
  if and only if the new one keeps the contract of the old one and every source that moved to another
  version of the same model moved to a version with a compatible model report.
\<close>

theorem projection_status_exact:
  assumes "check_projection_version_compatibility sig mdl d n from to = Some (Inr r)"
  shows "\<exists>old new. find_projection_version mdl d n from = Inr old \<and> find_projection_version mdl d n to = Inr new \<and>
    (pr_status r = ''compatible'' \<longleftrightarrow> projection_compatible sig mdl old new \<and> sources_kept sig mdl old new)"
  using projection_status [OF assms] by metis

text \<open>
  C6. The status of an API report is exact: where it is given, it is compatible if and only if every
  operation of the old API is in the new one under its name with the same method, path and key types,
  with its request and its responses kept, through compatible projection reports where a version moved.
  An operation that was renamed never counts as kept.
\<close>

theorem api_status_exact:
  assumes "check_api_version_compatibility sig mdl d n from to = Some (Inr r)"
  shows "\<exists>old new. find_api mdl d n from = Inr old \<and> find_api mdl d n to = Inr new \<and>
    (apr_status r = ''compatible'' \<longleftrightarrow> api_compatible sig mdl d old new)"
  using assms by (auto simp: check_api_version_compatibility_def any_abreaking_def api_breaking)

text \<open>
  C23. A compatible model change harms no projection: where the report on a model is compatible, the
  impact on every projection version that is found is compatible too.
\<close>

theorem compatible_change_harmless:
  assumes "check_model_version_compatibility sig mdl d n from to = Inr report" and "cr_status report = ''compatible''"
    and "dependent_version mdl dep = Some pv" and "analyze_impact sig mdl report dep = Inr i"
  shows "pi_status i = ''compatible''"
  using assms(2,3,4) compatible_no_impact [OF assms(1,2)]
  by (auto simp: analyze_impact_def Let_def split: prod.splits)

section \<open>Witnesses\<close>

definition amount_type :: "string list \<Rightarrow> field_type" where
  "amount_type tags = UnionType ''kind'' (map (\<lambda>t. UnionVariant t (NamedType t)) tags)"

definition order_version :: "int \<Rightarrow> string list \<Rightarrow> field_def list \<Rightarrow> model_version" where
  "order_version v tags fs =
     (version_of (FieldDef ''total'' (amount_type tags) False False None [] [] # fs))\<lparr>mv_version := v\<rparr>"

definition from_source :: "int \<Rightarrow> string \<Rightarrow> int \<Rightarrow> string \<Rightarrow> projection_version" where
  "from_source v model source field =
     (plain_projection (VersionExact source) model (DirectMapping ''s'' field))\<lparr>pv_version := v, pv_where := None\<rparr>"

definition read_order :: "int \<Rightarrow> api_decl" where
  "read_order v = \<lparr>ad_model = ''Order'', ad_version = v, ad_operations =
     [\<lparr>ao_name = ''read'', ao_method = GET, ao_path = ''/orders/{id}'', ao_request = None,
       ao_responses = [\<lparr>ar_status_code = 200, ar_projection = ''P'', ar_version = v\<rparr>]\<rparr>]\<rparr>"

text \<open>
  Version 2 of the model adds an optional field, version 3 drops a variant of the union. The
  projections P read the model, the projections Q read P.
\<close>

definition shop_domain :: domain_def where
  "shop_domain = sample_shop\<lparr>
     dm_models := [(''Order'',
       [order_version 1 [''A'', ''B''] [], order_version 2 [''A'', ''B''] [field_n ''note'' [] True],
        order_version 3 [''A''] []])],
     dm_projections :=
       [(''P'', [from_source 1 ''shop.Order'' 1 ''total'', from_source 2 ''shop.Order'' 2 ''total'']),
        (''Q'', [from_source 1 ''shop.P'' 1 ''x'', from_source 2 ''shop.P'' 2 ''x''])],
     dm_apis := [read_order 1, read_order 2],
     dm_semantic_types :=
       [\<lparr>st_name = ''Color'', st_underlying = EnumType [''R''], st_version = 1, st_change_kind = Additive,
         st_has_version_header = True, st_has_change_kind = True, st_registry = False\<rparr>,
        \<lparr>st_name = ''Color'', st_underlying = EnumType [''R'', ''G''], st_version = 2, st_change_kind = Additive,
         st_has_version_header = True, st_has_change_kind = True, st_registry = False\<rparr>]\<rparr>"

definition shop :: mdl_file where
  "shop = sample_workspace\<lparr>mf_domains := [shop_domain]\<rparr>"

lemma map_sum_Inr: "map_sum id f z = Inr y \<longleftrightarrow> (\<exists>x. z = Inr x \<and> f x = y)"
  by (cases z) auto

lemma shop_model_status:
  "map_sum id cr_status (check_model_version_compatibility no_signature shop ''shop'' ''Order'' 1 2) = Inr ''compatible''"
  by code_simp

lemma shop_model_report:
  "\<exists>r. check_model_version_compatibility no_signature shop ''shop'' ''Order'' 1 2 = Inr r \<and> cr_status r = ''compatible''"
  using shop_model_status by (auto simp: map_sum_Inr)

lemma shop_projection_report:
  "\<exists>r. check_projection_version_compatibility no_signature shop ''shop'' ''P'' 1 2 = Some (Inr r)
     \<and> pr_status r = ''compatible''"
proof -
  have "map_option (map_sum id pr_status) (check_projection_version_compatibility no_signature shop ''shop'' ''P'' 1 2)
      = Some (Inr ''compatible'')"
    by code_simp
  then show ?thesis by (auto simp: map_sum_Inr)
qed

lemma shop_api_report:
  "\<exists>r. check_api_version_compatibility no_signature shop ''shop'' ''Order'' 1 2 = Some (Inr r)
     \<and> apr_status r = ''compatible''"
proof -
  have "map_option (map_sum id apr_status) (check_api_version_compatibility no_signature shop ''shop'' ''Order'' 1 2)
      = Some (Inr ''compatible'')"
    by code_simp
  then show ?thesis by (auto simp: map_sum_Inr)
qed

lemma shop_order_versions:
  "find_version shop ''shop'' ''Order'' 1 = Inr (order_version 1 [''A'', ''B''] [])"
  "find_version shop ''shop'' ''Order'' 2 = Inr (order_version 2 [''A'', ''B''] [field_n ''note'' [] True])"
  by (simp_all add: find_version_def find_domain_def shop_def shop_domain_def sample_shop_def sample_workspace_def
      order_version_def)

theorem model_status_exact_witness:
  "no_renames (order_version 1 [''A'', ''B''] []) (order_version 2 [''A'', ''B''] [field_n ''note'' [] True])
   \<and> model_kept no_signature shop ''shop'' (order_version 1 [''A'', ''B''] [])
       (order_version 2 [''A'', ''B''] [field_n ''note'' [] True])"
proof -
  obtain r where r: "check_model_version_compatibility no_signature shop ''shop'' ''Order'' 1 2 = Inr r"
    "cr_status r = ''compatible''"
    using shop_model_report by blast
  have "unique_fields (order_version 1 [''A'', ''B''] [])"
    "unique_fields (order_version 2 [''A'', ''B''] [field_n ''note'' [] True])"
    by (simp_all add: order_version_def witness_simps)
  from model_status_exact [OF r(1) shop_order_versions this] r(2) show ?thesis by simp
qed

theorem projection_status_exact_witness:
  "\<exists>old new. find_projection_version shop ''shop'' ''P'' 1 = Inr old \<and> find_projection_version shop ''shop'' ''P'' 2 = Inr new \<and>
    projection_compatible no_signature shop old new \<and> sources_kept no_signature shop old new"
  using shop_projection_report projection_status_exact by blast

theorem api_status_exact_witness:
  "\<exists>old new. find_api shop ''shop'' ''Order'' 1 = Inr old \<and> find_api shop ''shop'' ''Order'' 2 = Inr new \<and>
    api_compatible no_signature shop ''shop'' old new"
  using shop_api_report api_status_exact by blast

definition color_decl :: "int \<Rightarrow> semantic_type_decl" where
  "color_decl v = (if v = 1 then hd (dm_semantic_types shop_domain) else last (dm_semantic_types shop_domain))"

definition color :: "int \<Rightarrow> resolved_declaration" where
  "color v = resolved_of (mk_candidate shop_domain ''Color'' (DSemantic (color_decl v)))"

lemma shop_colors:
  "resolve_named_declaration no_signature shop ''shop'' ''Color'' (Some 1) True = Inr (color 1)"
  "resolve_named_declaration no_signature shop ''shop'' ''Color'' (Some 2) True = Inr (color 2)"
  by code_simp+

theorem enum_bump_decided_witness:
  "\<not> is_field_change_breaking (refine_change no_signature shop ''shop''
     (typed_change ''enum_version_changed'' ''color'' (enum_ref_text ''Color'' 1) (enum_ref_text ''Color'' 2)))"
proof -
  have "rd_declaration (color v) = DSemantic (color_decl v)" for v
    by (simp add: color_def resolved_of_def mk_candidate_def)
  from enum_bump_decided [OF shop_colors(1) this shop_colors(2) this] show ?thesis
    by (simp add: color_decl_def shop_domain_def)
qed

theorem compatible_change_harmless_witness:
  "\<exists>i. pi_status i = ''compatible''
     \<and> (\<exists>r. analyze_impact no_signature shop r (''shop'', ''P'', 1) = Inr i)"
proof -
  obtain r where r: "check_model_version_compatibility no_signature shop ''shop'' ''Order'' 1 2 = Inr r" "cr_status r = ''compatible''"
    using shop_model_report by blast
  have pv: "dependent_version shop (''shop'', ''P'', 1) = Some (from_source 1 ''shop.Order'' 1 ''total'')" by code_simp
  have "build_projection_dependencies no_signature shop ''shop'' ''P'' (from_source 1 ''shop.Order'' 1 ''total'')
     = Inr [\<lparr>pd_consumer_ref = ''shop.P@1'', pd_target_property = Some ''x'', pd_usage_kind = UDirect,
       pd_source_ref = ''shop.Order@1'', pd_source_property = ''total''\<rparr>]"
    by code_simp
  then obtain i where "analyze_impact no_signature shop r (''shop'', ''P'', 1) = Inr i"
    by (simp add: analyze_impact_def pv Let_def)
  with compatible_change_harmless [OF r pv] show ?thesis by blast
qed

section \<open>Divergences\<close>

text \<open>
  A projection that reads another projection cannot be checked once that one has a new version: the
  projection Q moves from version 1 to version 2 of the projection P, both resolve, and the check raises
  for an unknown model P, since sources are only looked up among the models.
\<close>

theorem projection_source_bump_raises:
  "validate_references no_signature shop = [] \<and>
   check_projection_version_compatibility no_signature shop ''shop'' ''Q'' 1 2
     = Some (Inl (UnknownModelVersion ''shop'' ''P'' 1))"
  by (intro conjI; code_simp)

text \<open>
  A breaking change of the type of a field that a projection reads may leave it unbroken: version 3
  of the model drops a variant of the union, the projection P reads the field, and its impact is
  reported as affected, since only five kinds of changes are looked at.
\<close>

theorem dropped_variant_not_broken:
  "\<exists>r i. check_model_version_compatibility no_signature shop ''shop'' ''Order'' 2 3 = Inr r
     \<and> list_ex (\<lambda>c. fc_kind c = ''union_variant_removed'' \<and> fc_field_name c = ''total.B'') (cr_changes r)
     \<and> analyze_impact no_signature shop r (''shop'', ''P'', 2) = Inr i \<and> pi_status i = ''affected''"
proof -
  have "case check_model_version_compatibility no_signature shop ''shop'' ''Order'' 2 3 of
      Inl _ \<Rightarrow> False
    | Inr r \<Rightarrow> list_ex (\<lambda>c. fc_kind c = ''union_variant_removed'' \<and> fc_field_name c = ''total.B'') (cr_changes r)
        \<and> map_sum id pi_status (analyze_impact no_signature shop r (''shop'', ''P'', 2)) = Inr ''affected''"
    by code_simp
  then show ?thesis by (auto simp: map_sum_Inr split: sum.splits)
qed

end
