(* ===== verification/Transition.thy ===== *)
theory Transition
  imports Main
begin

text \<open>
  Step relations and the states they reach, with the rule for invariants as a locale: what holds at the
  start and is kept by every step holds in every reachable state. It is interpreted for the lock
  protocol and for the file transaction.
\<close>

inductive reaches :: "('s \<Rightarrow> bool) \<Rightarrow> ('s \<Rightarrow> 's \<Rightarrow> bool) \<Rightarrow> 's \<Rightarrow> bool" for start step where
  initially: "start s \<Longrightarrow> reaches start step s"
| further: "reaches start step s \<Longrightarrow> step s s' \<Longrightarrow> reaches start step s'"

locale kept_by =
  fixes start :: "'s \<Rightarrow> bool" and step :: "'s \<Rightarrow> 's \<Rightarrow> bool" and good :: "'s \<Rightarrow> bool"
  assumes start_good: "start s \<Longrightarrow> good s"
    and step_good: "step s s' \<Longrightarrow> good s \<Longrightarrow> good s'"
begin

lemma reached_good: "reaches start step s \<Longrightarrow> good s"
  by (induction rule: reaches.induct) (auto intro: start_good step_good)

end

end
