(* ===== verification/Lock_Protocol.thy ===== *)
theory Lock_Protocol
  imports Transition
begin

text \<open>
  The workspace lock of \<^verbatim>\<open>cli/src/modelable/operations/file_transaction.py\<close>: any number of processes that
  create the lock file exclusively, write their process number into it, reclaim the file of an owner that
  is dead, and unlink it when they are done. One step is one call to the operating system of one process.
  Process numbers are not reused. The waiter files, the deadline and the clean-up of directories, which do
  not touch the lock file, are left out.
\<close>

text \<open>
  Where a process is: it has not asked, polls, has created the file and not yet written its number, holds
  the lock, or has read the number of a dead owner and is about to unlink the file.
\<close>

datatype lock_phase = Away | Polling | Writing | Owning | Reclaiming

text \<open>The lock file knows who created it and whether the number is written.\<close>

record lock_state =
  lk_file :: "(nat \<times> bool) option"
  lk_phase :: "nat \<Rightarrow> lock_phase"
  lk_alive :: "nat \<Rightarrow> bool"

definition move :: "nat \<Rightarrow> lock_phase \<Rightarrow> lock_state \<Rightarrow> lock_state" where
  "move i p s = s\<lparr>lk_phase := (lk_phase s)(i := p)\<rparr>"

definition set_file :: "(nat \<times> bool) option \<Rightarrow> lock_state \<Rightarrow> lock_state" where
  "set_file f s = s\<lparr>lk_file := f\<rparr>"

text \<open>
  Writing goes through the descriptor, so it does not reach a file that another process created after
  this one's was unlinked. \<open>mortal\<close> says whether processes may die.
\<close>

inductive lock_step :: "bool \<Rightarrow> lock_state \<Rightarrow> lock_state \<Rightarrow> bool" for mortal where
  ask: "lk_alive s i \<Longrightarrow> lk_phase s i = Away \<Longrightarrow> lock_step mortal s (move i Polling s)"
| create: "lk_alive s i \<Longrightarrow> lk_phase s i = Polling \<Longrightarrow> lk_file s = None \<Longrightarrow>
    lock_step mortal s (move i Writing (set_file (Some (i, False)) s))"
| write_pid: "lk_alive s i \<Longrightarrow> lk_phase s i = Writing \<Longrightarrow>
    lock_step mortal s (move i Owning
      (if lk_file s = Some (i, False) then set_file (Some (i, True)) s else s))"
| read_stale: "lk_alive s i \<Longrightarrow> lk_phase s i = Polling \<Longrightarrow> lk_file s = Some (p, True) \<Longrightarrow> \<not> lk_alive s p \<Longrightarrow>
    lock_step mortal s (move i Reclaiming s)"
| reclaim: "lk_alive s i \<Longrightarrow> lk_phase s i = Reclaiming \<Longrightarrow> lock_step mortal s (move i Polling (set_file None s))"
| contention: "lk_alive s i \<Longrightarrow> lk_phase s i = Polling \<Longrightarrow> lock_step mortal s (move i Away s)"
| release: "lk_alive s i \<Longrightarrow> lk_phase s i = Owning \<Longrightarrow> lock_step mortal s (move i Away (set_file None s))"
| die: "mortal \<Longrightarrow> lock_step mortal s (s\<lparr>lk_alive := (lk_alive s)(i := False)\<rparr>)"

definition lock_start :: "lock_state \<Rightarrow> bool" where
  "lock_start s \<longleftrightarrow> lk_file s = None \<and> (\<forall>i. lk_phase s i = Away \<and> lk_alive s i)"

definition owns :: "lock_state \<Rightarrow> nat \<Rightarrow> bool" where
  "owns s i \<longleftrightarrow> lk_alive s i \<and> lk_phase s i \<in> {Writing, Owning}"

section \<open>One owner while nobody dies\<close>

text \<open>The file is there for as long as its creator owns the lock, and nobody reclaims it.\<close>

definition lock_good :: "lock_state \<Rightarrow> bool" where
  "lock_good s \<longleftrightarrow> (\<forall>i. lk_alive s i \<and> lk_phase s i \<noteq> Reclaiming) \<and>
     (\<forall>i. lk_phase s i = Writing \<longrightarrow> lk_file s = Some (i, False)) \<and>
     (\<forall>i. lk_phase s i = Owning \<longrightarrow> lk_file s = Some (i, True))"

lemma lock_good_one:
  assumes "lock_good s" and "lk_phase s i \<in> {Writing, Owning}" and "lk_phase s j \<in> {Writing, Owning}"
  shows "i = j"
proof -
  have created: "\<exists>w. lk_file s = Some (k, w)" if "lk_phase s k \<in> {Writing, Owning}" for k
    using assms(1) that by (auto simp: lock_good_def)
  from created [OF assms(2)] created [OF assms(3)] show ?thesis by auto
qed

lemma lock_good_alone:
  "lock_good s \<Longrightarrow> lk_phase s i \<in> {Writing, Owning} \<Longrightarrow> j \<noteq> i \<Longrightarrow> lk_phase s j \<noteq> Writing \<and> lk_phase s j \<noteq> Owning"
  using lock_good_one [of s i j] by auto

lemma lock_good_step:
  assumes "lock_step False s s'" and "lock_good s"
  shows "lock_good s'"
  using assms
proof cases
  case (create i)
  with assms(2) show ?thesis by (auto simp: lock_good_def move_def set_file_def)
next
  case (write_pid i)
  with lock_good_alone [OF assms(2), of i] assms(2) show ?thesis
    by (auto simp: lock_good_def move_def set_file_def)
next
  case (release i)
  with lock_good_alone [OF assms(2), of i] assms(2) show ?thesis
    by (auto simp: lock_good_def move_def set_file_def)
qed (use assms(2) in \<open>auto simp: lock_good_def move_def set_file_def\<close>)

interpretation immortal_lock: kept_by lock_start "lock_step False" lock_good
proof
  show "lock_start s \<Longrightarrow> lock_good s" for s by (auto simp: lock_start_def lock_good_def)
qed (rule lock_good_step)

text \<open>
  C20. While no process dies, the lock is exclusive: in every reachable state at most one process has
  created the lock file and not yet released it, however the calls of the processes interleave.
\<close>

theorem lock_exclusive:
  assumes "reaches lock_start (lock_step False) s" and "owns s i" and "owns s j"
  shows "i = j"
  using lock_good_one [OF immortal_lock.reached_good [OF assms(1)]] assms(2,3) by (simp add: owns_def)

definition quiet :: lock_state where
  "quiet = \<lparr>lk_file = None, lk_phase = (\<lambda>_. Away), lk_alive = (\<lambda>_. True)\<rparr>"

definition one_owner :: lock_state where
  "one_owner = move 7 Writing (set_file (Some (7, False)) (move 7 Polling quiet))"

lemma one_owner_reached: "reaches lock_start (lock_step False) one_owner"
proof -
  have "reaches lock_start (lock_step False) quiet"
    by (rule initially) (simp add: lock_start_def quiet_def)
  then have "reaches lock_start (lock_step False) (move 7 Polling quiet)"
    by (rule further) (rule ask; simp add: quiet_def)
  then show ?thesis
    unfolding one_owner_def by (rule further) (rule create; simp add: quiet_def move_def)
qed

theorem lock_exclusive_witness: "owns one_owner 7 \<and> \<not> owns one_owner 8"
proof -
  have own: "owns one_owner 7" by (simp add: owns_def one_owner_def move_def set_file_def quiet_def)
  with lock_exclusive [OF one_owner_reached own, of 8] show ?thesis by auto
qed

section \<open>Reclaiming races\<close>

text \<open>The states of a run: an owner dies, and two processes reclaim its lock.\<close>

fun run_ok :: "lock_state \<Rightarrow> lock_state list \<Rightarrow> bool" where
  "run_ok s [] = True"
| "run_ok s (t # ts) = (lock_step True s t \<and> run_ok t ts)"

lemma run_reaches: "reaches lock_start (lock_step True) s \<Longrightarrow> run_ok s ts \<Longrightarrow> reaches lock_start (lock_step True) (last (s # ts))"
proof (induction ts arbitrary: s)
  case (Cons t ts)
  then have "reaches lock_start (lock_step True) t" by (auto intro: further)
  with Cons show ?case by simp
qed simp

definition both_reclaiming :: lock_state where
  "both_reclaiming = \<lparr>lk_file = Some (0, True), lk_phase = (\<lambda>_. Away)(0 := Owning, 1 := Reclaiming, 2 := Reclaiming),
     lk_alive = (\<lambda>_. True)(0 := False)\<rparr>"

lemma both_reclaiming_reached: "reaches lock_start (lock_step True) both_reclaiming"
proof -
  define s1 where "s1 = move 0 Polling quiet"
  define s2 where "s2 = move 0 Writing (set_file (Some (0, False)) s1)"
  define s3 where "s3 = move 0 Owning (set_file (Some (0, True)) s2)"
  define s4 where "s4 = s3\<lparr>lk_alive := (lk_alive s3)(0 := False)\<rparr>"
  define s5 where "s5 = move 1 Polling s4"
  define s6 where "s6 = move 2 Polling s5"
  define s7 where "s7 = move 1 Reclaiming s6"
  define s8 where "s8 = move 2 Reclaiming s7"
  note states = s1_def s2_def s3_def s4_def s5_def s6_def s7_def s8_def quiet_def move_def set_file_def
  have start: "reaches lock_start (lock_step True) quiet" by (rule initially) (simp add: lock_start_def quiet_def)
  have "lock_step True quiet s1" unfolding s1_def by (rule ask) (simp_all add: states)
  moreover have "lock_step True s1 s2" unfolding s2_def by (rule create) (simp_all add: states)
  moreover have "lock_step True s2 s3"
    using write_pid [of s2 0 True] by (simp add: states)
  moreover have "lock_step True s3 s4" unfolding s4_def by (rule die) simp
  moreover have "lock_step True s4 s5" unfolding s5_def by (rule ask) (simp_all add: states)
  moreover have "lock_step True s5 s6" unfolding s6_def by (rule ask) (simp_all add: states)
  moreover have "lock_step True s6 s7" unfolding s7_def by (rule read_stale [where p = 0]) (simp_all add: states)
  moreover have "lock_step True s7 s8" unfolding s8_def by (rule read_stale [where p = 0]) (simp_all add: states)
  ultimately have "reaches lock_start (lock_step True) s8"
    using run_reaches [OF start, of "[s1, s2, s3, s4, s5, s6, s7, s8]"] by simp
  moreover have "s8 = both_reclaiming" by (simp add: states both_reclaiming_def fun_eq_iff)
  ultimately show ?thesis by simp
qed

text \<open>
  The lock is not exclusive once an owner dies: two processes read its number, find it dead and both
  unlink the lock file, the second one after the first has created its own; then both own the lock.
\<close>

theorem reclaim_race:
  "\<exists>s. reaches lock_start (lock_step True) s \<and> owns s 1 \<and> owns s 2"
proof -
  define s1 where "s1 = move 1 Polling (set_file None both_reclaiming)"
  define s2 where "s2 = move 1 Writing (set_file (Some (1, False)) s1)"
  define s3 where "s3 = move 1 Owning (set_file (Some (1, True)) s2)"
  define s4 where "s4 = move 2 Polling (set_file None s3)"
  define s5 where "s5 = move 2 Writing (set_file (Some (2, False)) s4)"
  note states = s1_def s2_def s3_def s4_def s5_def both_reclaiming_def move_def set_file_def
  have "lock_step True both_reclaiming s1" unfolding s1_def by (rule reclaim) (simp_all add: states)
  moreover have "lock_step True s1 s2" unfolding s2_def by (rule create) (simp_all add: states)
  moreover have "lock_step True s2 s3" using write_pid [of s2 1 True] by (simp add: states)
  moreover have "lock_step True s3 s4" unfolding s4_def by (rule reclaim) (simp_all add: states)
  moreover have "lock_step True s4 s5" unfolding s5_def by (rule create) (simp_all add: states)
  ultimately have "reaches lock_start (lock_step True) s5"
    using run_reaches [OF both_reclaiming_reached, of "[s1, s2, s3, s4, s5]"] by simp
  moreover have "owns s5 1" "owns s5 2" by (simp_all add: owns_def states)
  ultimately show ?thesis by blast
qed

end
