(* ===== verification/File_Transaction.thy ===== *)
theory File_Transaction
  imports Transition Py_String
begin

text \<open>
  The promotion of \<^verbatim>\<open>cli/src/modelable/operations/file_transaction.py\<close>: staged files are copied beside
  their destinations, a journal is written, the copies replace the destinations, and removing the
  journal commits; an exception rolls back, and a crash is rolled back by the next transaction. One
  step of the machine is one call to the file system, which may raise without an effect. Paths are lists
  of components, the root always exists. The journal is opened, written and renamed as a file of its own,
  under a name with the token of the transaction; one write writes all of it (\<^verbatim>\<open>_write_journal\<close> does not look at
  how much \<^verbatim>\<open>os.write\<close> has written, as \<^verbatim>\<open>_copy_file\<close> does). SHA-256 is the parameter \<open>hash\<close>, of which nothing is assumed; file modes and times, the
  resolution of symbolic links (parameter \<open>resolve\<close>) and what other programs do to the files are left out.
  The lock under which all this runs is theory \<^verbatim>\<open>Lock_Protocol\<close>.
\<close>

section \<open>Files\<close>

type_synonym path = "string list"

record staged_file =
  sf_destination :: path
  sf_staged :: path
  sf_hash :: string

text \<open>The last file of every destination, in the order of the files that stay.\<close>

fun last_writers :: "(path \<Rightarrow> path) \<Rightarrow> staged_file list \<Rightarrow> staged_file list" where
  "last_writers resolve [] = []"
| "last_writers resolve (f # fs) =
     (if resolve (sf_destination f) \<in> set (map (\<lambda>g. resolve (sf_destination g)) fs) then last_writers resolve fs
      else f # last_writers resolve fs)"

record promotion =
  pm_file :: staged_file
  pm_temporary :: path
  pm_backup :: "path option"

record journal_entry =
  je_destination :: path
  je_temporary :: path
  je_backup :: "path option"
  je_hash :: string

record journal =
  jn_entries :: "journal_entry list"
  jn_created :: "path list"

text \<open>The journal, and the temporary file it is written to, which is empty once it is opened.\<close>

record disk =
  dk_files :: "(path, string) dict"
  dk_dirs :: "path list"
  dk_journal :: "journal option"
  dk_journal_tmp :: "journal option option"

definition file_at :: "disk \<Rightarrow> path \<Rightarrow> string option" where
  "file_at d p = map_of (dk_files d) p"

definition dk_exists :: "disk \<Rightarrow> path \<Rightarrow> bool" where
  "dk_exists d p \<longleftrightarrow> p = [] \<or> file_at d p \<noteq> None \<or> p \<in> set (dk_dirs d)"

definition dk_put :: "path \<Rightarrow> string option \<Rightarrow> disk \<Rightarrow> disk" where
  "dk_put p c d = d\<lparr>dk_files :=
     (case c of None \<Rightarrow> AList.delete p (dk_files d) | Some x \<Rightarrow> dict_put p x (dk_files d))\<rparr>"

text \<open>\<^verbatim>\<open>os.replace(src, dst)\<close>\<close>

definition dk_rename :: "path \<Rightarrow> path \<Rightarrow> disk \<Rightarrow> disk" where
  "dk_rename src dst d = dk_put dst (file_at d src) (dk_put src None d)"

definition dk_mkdir :: "path \<Rightarrow> disk \<Rightarrow> disk" where
  "dk_mkdir p d = d\<lparr>dk_dirs := p # dk_dirs d\<rparr>"

definition dk_rmdir :: "path \<Rightarrow> disk \<Rightarrow> disk" where
  "dk_rmdir p d = d\<lparr>dk_dirs := filter (\<lambda>q. q \<noteq> p) (dk_dirs d)\<rparr>"

definition dk_set_journal :: "journal option \<Rightarrow> disk \<Rightarrow> disk" where
  "dk_set_journal j d = d\<lparr>dk_journal := j\<rparr>"

definition dk_write_tmp :: "journal option option \<Rightarrow> disk \<Rightarrow> disk" where
  "dk_write_tmp c d = d\<lparr>dk_journal_tmp := c\<rparr>"

text \<open>The directories on the way to a path that are missing, outermost first.\<close>

function missing_dirs :: "disk \<Rightarrow> path \<Rightarrow> path list" where
  "missing_dirs d p = (if dk_exists d p then [] else missing_dirs d (butlast p) @ [p])"
  by pat_completeness auto
termination
  by (relation "measure (\<lambda>(d, p). length p)") (auto simp: dk_exists_def)

declare missing_dirs.simps [simp del]

text \<open>A name beside a path: a dot, its name, the marker of this transaction.\<close>

definition beside :: "path \<Rightarrow> string \<Rightarrow> path" where
  "beside p mark = butlast p @ [''.'' @ last p @ mark]"

definition temporary_path :: "string \<Rightarrow> path \<Rightarrow> nat \<Rightarrow> path" where
  "temporary_path token p i = beside p (''.modelable-tmp-'' @ token @ ''-'' @ nat_str i)"

definition backup_path :: "string \<Rightarrow> path \<Rightarrow> nat \<Rightarrow> path" where
  "backup_path token p i = beside p (''.modelable-backup-'' @ token @ ''-'' @ nat_str i)"

definition quarantine_path :: "(string \<Rightarrow> string) \<Rightarrow> string \<Rightarrow> path \<Rightarrow> path" where
  "quarantine_path hash token p = butlast p @ [''.modelable-cleanup-'' @ token @ ''-'' @ take 12 (hash (join ''/'' p))]"

definition promotion_of :: "string \<Rightarrow> nat \<Rightarrow> staged_file \<Rightarrow> bool \<Rightarrow> promotion" where
  "promotion_of token i f existed =
     \<lparr>pm_file = f, pm_temporary = temporary_path token (sf_destination f) i,
      pm_backup = (if existed then Some (backup_path token (sf_destination f) i) else None)\<rparr>"

definition pm_destination :: "promotion \<Rightarrow> path" where
  "pm_destination p = sf_destination (pm_file p)"

definition journal_of :: "promotion list \<Rightarrow> path list \<Rightarrow> journal" where
  "journal_of ps created =
     \<lparr>jn_entries = map (\<lambda>p. \<lparr>je_destination = pm_destination p, je_temporary = pm_temporary p,
        je_backup = pm_backup p, je_hash = sf_hash (pm_file p)\<rparr>) ps, jn_created = firsts created\<rparr>"

section \<open>The machine\<close>

datatype phase =
    Prepare nat "staged_file list"
  | Parents nat staged_file "path list" "staged_file list"
  | Backup nat promotion "staged_file list"
  | Temporary nat promotion "staged_file list"
  | Directories "path list"
  | Directory path "path list" "path list"
  | Journaling
  | Journal_Open
  | Journal_Written
  | Promoting "promotion list"
  | Verifying "promotion list"
  | Committing
  | Disposing "promotion list"
  | Committed
  | Restoring "promotion list"
  | Cleaning "path list"
  | Removing_Dirs "path list"
  | Forgetting
  | Rolled_Back

record txn =
  tx_disk :: disk
  tx_promotions :: "promotion list"
  tx_promoted :: "promotion list"
  tx_created :: "path list"
  tx_errors :: "path list"
  tx_preserved :: "path list"
  tx_phase :: phase

definition goto :: "phase \<Rightarrow> txn \<Rightarrow> txn" where
  "goto ph t = t\<lparr>tx_phase := ph\<rparr>"

definition on_disk :: "(disk \<Rightarrow> disk) \<Rightarrow> txn \<Rightarrow> txn" where
  "on_disk f t = t\<lparr>tx_disk := f (tx_disk t)\<rparr>"

definition promotion_paths :: "promotion list \<Rightarrow> path list" where
  "promotion_paths ps = concat (map (\<lambda>p. pm_temporary p # (case pm_backup p of None \<Rightarrow> [] | Some b \<Rightarrow> [b])) ps)"

text \<open>The phases inside the \<^verbatim>\<open>try\<close> block, whose exceptions start the roll-back.\<close>

fun in_try :: "phase \<Rightarrow> bool" where
  "in_try (Prepare _ _) = True"
| "in_try (Parents _ _ _ _) = True"
| "in_try (Backup _ _ _) = True"
| "in_try (Temporary _ _ _) = True"
| "in_try (Directories _) = True"
| "in_try (Directory _ _ _) = True"
| "in_try Journaling = True"
| "in_try Journal_Open = True"
| "in_try Journal_Written = True"
| "in_try (Promoting _) = True"
| "in_try (Verifying _) = True"
| "in_try Committing = True"
| "in_try _ = False"

definition make_dir :: "path \<Rightarrow> txn \<Rightarrow> txn" where
  "make_dir p t = (on_disk (dk_mkdir p) t)\<lparr>tx_created := tx_created t @ [p]\<rparr>"

definition add_promotion :: "promotion \<Rightarrow> txn \<Rightarrow> txn" where
  "add_promotion p t = t\<lparr>tx_promotions := tx_promotions t @ [p]\<rparr>"

definition promote_file :: "promotion \<Rightarrow> txn \<Rightarrow> txn" where
  "promote_file p t =
     (on_disk (dk_rename (pm_temporary p) (pm_destination p)) t)\<lparr>tx_promoted := tx_promoted t @ [p]\<rparr>"

text \<open>Undoing one promotion: unlink what was new, or put the backup back.\<close>

definition restore_file :: "promotion \<Rightarrow> disk \<Rightarrow> disk" where
  "restore_file p d =
     (case pm_backup p of
        None \<Rightarrow> dk_put (pm_destination p) None d
      | Some b \<Rightarrow> dk_rename b (pm_destination p) d)"

definition add_error :: "path \<Rightarrow> path list \<Rightarrow> txn \<Rightarrow> txn" where
  "add_error p keep t = t\<lparr>tx_errors := tx_errors t @ [p], tx_preserved := tx_preserved t @ keep\<rparr>"

definition kept_backup :: "promotion \<Rightarrow> path list" where
  "kept_backup p = (case pm_backup p of None \<Rightarrow> [] | Some b \<Rightarrow> [b])"

text \<open>A directory can be removed when nothing is in it.\<close>

definition dir_empty :: "disk \<Rightarrow> path \<Rightarrow> bool" where
  "dir_empty d p \<longleftrightarrow> list_all (\<lambda>q. q = p \<or> butlast q \<noteq> p) (dict_keys (dk_files d) @ dk_dirs d)"

text \<open>
  The steps of a roll-back (\<^verbatim>\<open>_rollback\<close> and \<^verbatim>\<open>_cleanup_preparation\<close>): promoted files are restored, last first, with
  the backups of those that fail kept, then the copies and the backups are unlinked and the directories removed.
\<close>

inductive rollback_step :: "txn \<Rightarrow> txn \<Rightarrow> bool" where
  restore: "tx_phase t = Restoring (p # ps) \<Longrightarrow> list_all (\<lambda>b. file_at (tx_disk t) b \<noteq> None) (kept_backup p) \<Longrightarrow>
    rollback_step t (goto (Restoring ps) (on_disk (restore_file p) t))"
| restore_fails: "tx_phase t = Restoring (p # ps) \<Longrightarrow>
    rollback_step t (goto (Restoring ps) (add_error (pm_destination p) (kept_backup p) t))"
| all_restored: "tx_phase t = Restoring [] \<Longrightarrow>
    rollback_step t (goto (Cleaning (promotion_paths (tx_promotions t))) t)"
| clean_kept: "tx_phase t = Cleaning (q # qs) \<Longrightarrow> q \<in> set (tx_preserved t) \<Longrightarrow>
    rollback_step t (goto (Cleaning qs) t)"
| clean: "tx_phase t = Cleaning (q # qs) \<Longrightarrow> q \<notin> set (tx_preserved t) \<Longrightarrow>
    rollback_step t (goto (Cleaning qs) (on_disk (dk_put q None) t))"
| clean_fails: "tx_phase t = Cleaning (q # qs) \<Longrightarrow> q \<notin> set (tx_preserved t) \<Longrightarrow>
    rollback_step t (goto (Cleaning qs) (add_error q [] t))"
| all_cleaned: "tx_phase t = Cleaning [] \<Longrightarrow>
    rollback_step t (goto (Removing_Dirs (rev (firsts (tx_created t)))) t)"
| remove_dir: "tx_phase t = Removing_Dirs (q # qs) \<Longrightarrow> dir_empty (tx_disk t) q \<Longrightarrow>
    rollback_step t (goto (Removing_Dirs qs) (on_disk (dk_rmdir q) t))"
| dir_stays: "tx_phase t = Removing_Dirs (q # qs) \<Longrightarrow> rollback_step t (goto (Removing_Dirs qs) t)"
| dir_fails: "tx_phase t = Removing_Dirs (q # qs) \<Longrightarrow> dir_empty (tx_disk t) q \<Longrightarrow>
    rollback_step t (goto (Removing_Dirs qs) (add_error q [] t))"
| dirs_removed: "tx_phase t = Removing_Dirs [] \<Longrightarrow> rollback_step t (goto Forgetting t)"

text \<open>The steps after the commit (\<^verbatim>\<open>_dispose_after_commit\<close> and \<^verbatim>\<open>_quarantine\<close>): every backup is unlinked or moved out of the way.\<close>

inductive dispose_step :: "(string \<Rightarrow> string) \<Rightarrow> string \<Rightarrow> txn \<Rightarrow> txn \<Rightarrow> bool" for hash token where
  nothing_to_dispose: "tx_phase t = Disposing (p # ps) \<Longrightarrow> pm_backup p = None \<Longrightarrow>
    dispose_step hash token t (goto (Disposing ps) t)"
| dispose: "tx_phase t = Disposing (p # ps) \<Longrightarrow> pm_backup p = Some b \<Longrightarrow>
    dispose_step hash token t (goto (Disposing ps) (on_disk (dk_put b None) t))"
| dispose_fails: "tx_phase t = Disposing (p # ps) \<Longrightarrow> pm_backup p = Some b \<Longrightarrow>
    dispose_step hash token t (goto (Disposing ps) (add_error b [] t))"
| quarantine: "tx_phase t = Disposing (p # ps) \<Longrightarrow> pm_backup p = Some b \<Longrightarrow>
    dispose_step hash token t (goto (Disposing ps)
      (add_error b [] (on_disk (dk_put (quarantine_path hash token b) None \<circ> dk_rename b (quarantine_path hash token b)) t)))"
| quarantine_fails: "tx_phase t = Disposing (p # ps) \<Longrightarrow> pm_backup p = Some b \<Longrightarrow>
    dispose_step hash token t (goto (Disposing ps)
      (add_error b [quarantine_path hash token b] (on_disk (dk_rename b (quarantine_path hash token b)) t)))"

text \<open>
  One call to the file system. \<open>dirs\<close> are the required directories. Copying writes ever longer prefixes of
  the contents; \<open>raise\<close> is any exception inside the \<^verbatim>\<open>try\<close> block, a validation included.
\<close>

inductive promote_step :: "(string \<Rightarrow> string) \<Rightarrow> string \<Rightarrow> path list \<Rightarrow> txn \<Rightarrow> txn \<Rightarrow> bool"
  for hash token dirs where
  prepare: "tx_phase t = Prepare i (f # fs) \<Longrightarrow> file_at (tx_disk t) (sf_staged f) = Some c \<Longrightarrow> hash c = sf_hash f \<Longrightarrow>
    promote_step hash token dirs t
      (goto (Parents i f (missing_dirs (tx_disk t) (butlast (sf_destination f))) fs) t)"
| make_parent: "tx_phase t = Parents i f (q # qs) fs \<Longrightarrow>
    promote_step hash token dirs t (goto (Parents i f qs fs) (make_dir q t))"
| plan_backup: "tx_phase t = Parents i f [] fs \<Longrightarrow> dk_exists (tx_disk t) (sf_destination f) \<Longrightarrow>
    promote_step hash token dirs t (goto (Backup i (promotion_of token i f True) fs) (add_promotion (promotion_of token i f True) t))"
| plan_new: "tx_phase t = Parents i f [] fs \<Longrightarrow> \<not> dk_exists (tx_disk t) (sf_destination f) \<Longrightarrow>
    promote_step hash token dirs t (goto (Temporary i (promotion_of token i f False) fs) (add_promotion (promotion_of token i f False) t))"
| backup_chunk: "tx_phase t = Backup i p fs \<Longrightarrow> pm_backup p = Some b \<Longrightarrow>
    file_at (tx_disk t) (pm_destination p) = Some c \<Longrightarrow>
    file_at (tx_disk t) b = None \<or> file_at (tx_disk t) b = Some (take k c) \<and> k \<le> n \<Longrightarrow>
    promote_step hash token dirs t (on_disk (dk_put b (Some (take n c))) t)"
| backup_done: "tx_phase t = Backup i p fs \<Longrightarrow> pm_backup p = Some b \<Longrightarrow>
    file_at (tx_disk t) (pm_destination p) = Some c \<Longrightarrow> file_at (tx_disk t) b = Some c \<Longrightarrow>
    promote_step hash token dirs t (goto (Temporary i p fs) t)"
| temporary_chunk: "tx_phase t = Temporary i p fs \<Longrightarrow>
    file_at (tx_disk t) (sf_staged (pm_file p)) = Some c \<Longrightarrow>
    file_at (tx_disk t) (pm_temporary p) = None
      \<or> file_at (tx_disk t) (pm_temporary p) = Some (take k c) \<and> k \<le> n \<Longrightarrow>
    promote_step hash token dirs t (on_disk (dk_put (pm_temporary p) (Some (take n c))) t)"
| temporary_done: "tx_phase t = Temporary i p fs \<Longrightarrow>
    file_at (tx_disk t) (sf_staged (pm_file p)) = Some c \<Longrightarrow> file_at (tx_disk t) (pm_temporary p) = Some c \<Longrightarrow>
    promote_step hash token dirs t (goto (Prepare (Suc i) fs) t)"
| all_prepared: "tx_phase t = Prepare i [] \<Longrightarrow> promote_step hash token dirs t (goto (Directories dirs) t)"
| next_directory: "tx_phase t = Directories (q # qs) \<Longrightarrow>
    promote_step hash token dirs t (goto (Directory q (missing_dirs (tx_disk t) q) qs) t)"
| make_directory: "tx_phase t = Directory q (r # rs) qs \<Longrightarrow>
    promote_step hash token dirs t (goto (Directory q rs qs) (make_dir r t))"
| is_directory: "tx_phase t = Directory q [] qs \<Longrightarrow> q = [] \<or> q \<in> set (dk_dirs (tx_disk t)) \<Longrightarrow>
    promote_step hash token dirs t (goto (Directories qs) t)"
| validated: "tx_phase t = Directories [] \<Longrightarrow> promote_step hash token dirs t (goto Journaling t)"
| open_journal: "tx_phase t = Journaling \<Longrightarrow> dk_journal_tmp (tx_disk t) = None \<Longrightarrow>
    promote_step hash token dirs t (goto Journal_Open (on_disk (dk_write_tmp (Some None)) t))"
| write_journal: "tx_phase t = Journal_Open \<Longrightarrow>
    promote_step hash token dirs t (goto Journal_Written
      (on_disk (dk_write_tmp (Some (Some (journal_of (tx_promotions t) (tx_created t))))) t))"
| replace_journal: "tx_phase t = Journal_Written \<Longrightarrow> dk_journal_tmp (tx_disk t) = Some (Some j) \<Longrightarrow>
    promote_step hash token dirs t (goto (Promoting (tx_promotions t))
      (on_disk (dk_write_tmp None \<circ> dk_set_journal (Some j)) t))"
| promote: "tx_phase t = Promoting (p # ps) \<Longrightarrow> file_at (tx_disk t) (pm_temporary p) \<noteq> None \<Longrightarrow>
    pm_destination p \<notin> set (dk_dirs (tx_disk t)) \<Longrightarrow>
    promote_step hash token dirs t (goto (Promoting ps) (promote_file p t))"
| all_promoted: "tx_phase t = Promoting [] \<Longrightarrow> promote_step hash token dirs t (goto (Verifying (tx_promotions t)) t)"
| verify: "tx_phase t = Verifying (p # ps) \<Longrightarrow> file_at (tx_disk t) (pm_destination p) = Some c \<Longrightarrow>
    hash c = sf_hash (pm_file p) \<Longrightarrow> promote_step hash token dirs t (goto (Verifying ps) t)"
| all_verified: "tx_phase t = Verifying [] \<Longrightarrow> promote_step hash token dirs t (goto Committing t)"
| commit: "tx_phase t = Committing \<Longrightarrow>
    promote_step hash token dirs t (goto (Disposing (tx_promotions t)) (on_disk (dk_set_journal None) t))"
| raise: "in_try (tx_phase t) \<Longrightarrow> promote_step hash token dirs t (goto (Restoring (rev (tx_promoted t))) t)"
| roll_back: "rollback_step t t' \<Longrightarrow> promote_step hash token dirs t t'"
| forget: "tx_phase t = Forgetting \<Longrightarrow> tx_errors t = [] \<Longrightarrow>
    promote_step hash token dirs t (goto Rolled_Back (on_disk (dk_set_journal None) t))"
| journal_stays: "tx_phase t = Forgetting \<Longrightarrow> promote_step hash token dirs t (goto Rolled_Back t)"
| dispose_backup: "dispose_step hash token t t' \<Longrightarrow> promote_step hash token dirs t t'"
| all_disposed: "tx_phase t = Disposing [] \<Longrightarrow> promote_step hash token dirs t (goto Committed t)"

definition promote_from :: "disk \<Rightarrow> staged_file list \<Rightarrow> txn" where
  "promote_from d files =
     \<lparr>tx_disk = d, tx_promotions = [], tx_promoted = [], tx_created = [], tx_errors = [], tx_preserved = [],
      tx_phase = Prepare 0 files\<rparr>"

section \<open>Recovery\<close>

text \<open>
  \<^verbatim>\<open>_recover_interrupted_promotion\<close> as the list of its calls: every entry, last first, puts its backup back or
  unlinks the new file it can recognize, then unlinks the temporary copy; then the directories, last first,
  are removed where they are empty, and the journal is unlinked.
\<close>

definition undo_entry :: "(string \<Rightarrow> string) \<Rightarrow> journal_entry \<Rightarrow> disk \<Rightarrow> disk" where
  "undo_entry hash e d =
     (case je_backup e of
        Some b \<Rightarrow> if file_at d b \<noteq> None then dk_rename b (je_destination e) d else d
      | None \<Rightarrow>
          (case file_at d (je_destination e) of
             None \<Rightarrow> d
           | Some c \<Rightarrow> if hash c = je_hash e then dk_put (je_destination e) None d else d))"

definition drop_temporary :: "journal_entry \<Rightarrow> disk \<Rightarrow> disk" where
  "drop_temporary e d = dk_put (je_temporary e) None d"

definition try_rmdir :: "path \<Rightarrow> disk \<Rightarrow> disk" where
  "try_rmdir p d = (if dir_empty d p then dk_rmdir p d else d)"

definition recovery_calls :: "(string \<Rightarrow> string) \<Rightarrow> journal \<Rightarrow> (disk \<Rightarrow> disk) list" where
  "recovery_calls hash j =
     concat (map (\<lambda>e. [undo_entry hash e, drop_temporary e]) (rev (jn_entries j)))
     @ map try_rmdir (rev (jn_created j)) @ [dk_set_journal None]"

definition run_calls :: "(disk \<Rightarrow> disk) list \<Rightarrow> disk \<Rightarrow> disk" where
  "run_calls cs d = foldl (\<lambda>d c. c d) d cs"

definition recover :: "(string \<Rightarrow> string) \<Rightarrow> disk \<Rightarrow> disk" where
  "recover hash d = (case dk_journal d of None \<Rightarrow> d | Some j \<Rightarrow> run_calls (recovery_calls hash j) d)"

text \<open>A recovery that dies after some of its calls.\<close>

definition interrupted_recovery :: "(string \<Rightarrow> string) \<Rightarrow> nat \<Rightarrow> disk \<Rightarrow> disk" where
  "interrupted_recovery hash n d =
     (case dk_journal d of None \<Rightarrow> d | Some j \<Rightarrow> run_calls (take n (recovery_calls hash j)) d)"

end
