(* ===== verification/File_Invariant.thy ===== *)
theory File_Invariant
  imports File_Transaction
begin

text \<open>
  The invariant of the promotion of theory \<^verbatim>\<open>File_Transaction\<close>: what each phase knows of the destinations,
  the temporary copies, the backups and the journal. That every step keeps it is theory \<^verbatim>\<open>File_Atomicity\<close>.
\<close>

section \<open>The names of a transaction\<close>

lemma mark_number: "x @ ''-'' @ nat_str i = y @ ''-'' @ nat_str j \<Longrightarrow> i = j"
proof -
  assume eq: "x @ ''-'' @ nat_str i = y @ ''-'' @ nat_str j"
  have tail: "takeWhile (\<lambda>c. c \<noteq> CHR ''-'') (rev (z @ ''-'' @ nat_str k)) = rev (nat_str k)" for z k
  proof -
    have "\<forall>c \<in> set (rev (nat_str k)). c \<noteq> CHR ''-''" using nat_str_decimal decimal_not_minus by auto
    then have "takeWhile (\<lambda>c. c \<noteq> CHR ''-'') (rev (nat_str k) @ CHR ''-'' # rev z) = rev (nat_str k)"
      by (subst takeWhile_append2) auto
    then show ?thesis by simp
  qed
  from eq have "rev (nat_str i) = rev (nat_str j)" using tail [of x i] tail [of y j] by simp
  then show ?thesis by simp
qed

lemma own_number:
  "temporary_path token p i = temporary_path token q j \<Longrightarrow> i = j"
  "temporary_path token p i = backup_path token q j \<Longrightarrow> i = j"
  "backup_path token p i = backup_path token q j \<Longrightarrow> i = j"
  using mark_number [of "''.'' @ last p @ ''.modelable-tmp-'' @ token" i _ j]
    mark_number [of "''.'' @ last p @ ''.modelable-backup-'' @ token" i _ j]
  by (auto simp: temporary_path_def backup_path_def beside_def)

lemma temporary_not_backup: "temporary_path token p i \<noteq> backup_path token p i"
  by (simp add: temporary_path_def backup_path_def beside_def)

definition own_path :: "(string \<Rightarrow> string) \<Rightarrow> string \<Rightarrow> path \<Rightarrow> bool" where
  "own_path hash token q \<longleftrightarrow> (\<exists>p i. q = temporary_path token p i \<or> q = backup_path token p i) \<or>
     (\<exists>p. q = quarantine_path hash token p)"

section \<open>Files of a disk\<close>

lemma file_at_simps [simp]:
  "file_at (dk_put p c d) q = (if q = p then c else file_at d q)"
  "file_at (dk_mkdir p d) q = file_at d q"
  "file_at (dk_rmdir p d) q = file_at d q"
  "file_at (dk_set_journal j d) q = file_at d q"
  "file_at (dk_write_tmp x d) q = file_at d q"
  by (simp_all add: file_at_def dk_put_def dk_mkdir_def dk_rmdir_def dk_set_journal_def dk_write_tmp_def update_conv' delete_conv'
      split: option.split)

lemma file_at_rename [simp]:
  "file_at (dk_rename a b d) q = (if q = b then file_at d a else if q = a then None else file_at d q)"
  by (simp add: dk_rename_def)

lemma dk_journal_simps [simp]:
  "dk_journal (dk_put p c d) = dk_journal d" "dk_journal (dk_mkdir p d) = dk_journal d"
  "dk_journal (dk_rmdir p d) = dk_journal d" "dk_journal (dk_set_journal j d) = j"
  "dk_journal (dk_rename a b d) = dk_journal d" "dk_journal (dk_write_tmp x d) = dk_journal d"
  by (simp_all add: dk_put_def dk_mkdir_def dk_rmdir_def dk_set_journal_def dk_write_tmp_def dk_rename_def)

lemma dk_journal_tmp_simps [simp]:
  "dk_journal_tmp (dk_put p c d) = dk_journal_tmp d" "dk_journal_tmp (dk_mkdir p d) = dk_journal_tmp d"
  "dk_journal_tmp (dk_rmdir p d) = dk_journal_tmp d" "dk_journal_tmp (dk_set_journal j d) = dk_journal_tmp d"
  "dk_journal_tmp (dk_rename a b d) = dk_journal_tmp d" "dk_journal_tmp (dk_write_tmp x d) = x"
  by (simp_all add: dk_put_def dk_mkdir_def dk_rmdir_def dk_set_journal_def dk_write_tmp_def dk_rename_def)

lemma dk_journal_restore [simp]:
  "dk_journal (restore_file p d) = dk_journal d" "dk_journal_tmp (restore_file p d) = dk_journal_tmp d"
  by (simp_all add: restore_file_def split: option.split)

lemma txn_simps [simp]:
  "tx_disk (goto ph t) = tx_disk t" "tx_promotions (goto ph t) = tx_promotions t"
  "tx_promoted (goto ph t) = tx_promoted t" "tx_created (goto ph t) = tx_created t"
  "tx_errors (goto ph t) = tx_errors t" "tx_preserved (goto ph t) = tx_preserved t"
  "tx_phase (goto ph t) = ph" "tx_phase (on_disk f t) = tx_phase t" "tx_phase (add_promotion p t) = tx_phase t"
  "tx_phase (promote_file p t) = tx_phase t" "tx_created (add_promotion p t) = tx_created t"
  "tx_created (promote_file p t) = tx_created t"
  "tx_disk (on_disk f t) = f (tx_disk t)" "tx_promotions (on_disk f t) = tx_promotions t"
  "tx_promoted (on_disk f t) = tx_promoted t" "tx_created (on_disk f t) = tx_created t"
  "tx_errors (on_disk f t) = tx_errors t" "tx_preserved (on_disk f t) = tx_preserved t"
  "tx_disk (make_dir q t) = dk_mkdir q (tx_disk t)" "tx_promotions (make_dir q t) = tx_promotions t"
  "tx_promoted (make_dir q t) = tx_promoted t"
  "tx_errors (make_dir q t) = tx_errors t" "tx_preserved (make_dir q t) = tx_preserved t"
  "tx_disk (add_promotion p t) = tx_disk t" "tx_promotions (add_promotion p t) = tx_promotions t @ [p]"
  "tx_promoted (add_promotion p t) = tx_promoted t"
  "tx_errors (add_promotion p t) = tx_errors t" "tx_preserved (add_promotion p t) = tx_preserved t"
  "tx_disk (promote_file p t) = dk_rename (pm_temporary p) (pm_destination p) (tx_disk t)"
  "tx_promotions (promote_file p t) = tx_promotions t" "tx_promoted (promote_file p t) = tx_promoted t @ [p]"
  "tx_errors (promote_file p t) = tx_errors t" "tx_preserved (promote_file p t) = tx_preserved t"
  "tx_disk (add_error q ks t) = tx_disk t" "tx_promotions (add_error q ks t) = tx_promotions t"
  "tx_promoted (add_error q ks t) = tx_promoted t"
  "tx_errors (add_error q ks t) = tx_errors t @ [q]" "tx_preserved (add_error q ks t) = tx_preserved t @ ks"
  by (simp_all add: goto_def on_disk_def make_dir_def add_promotion_def promote_file_def add_error_def)

section \<open>The state of one promotion\<close>

text \<open>
  \<open>orig\<close> has the files before the transaction, \<open>g\<close> those of now. Each predicate only looks at the
  destination, the temporary copy and the backup of the promotion.
\<close>

type_synonym files = "path \<Rightarrow> string option"

definition untouched :: "files \<Rightarrow> files \<Rightarrow> promotion \<Rightarrow> bool" where
  "untouched orig g p \<longleftrightarrow> g (pm_destination p) = orig (pm_destination p)"

definition saved :: "files \<Rightarrow> files \<Rightarrow> promotion \<Rightarrow> bool" where
  "saved orig g p \<longleftrightarrow> (case pm_backup p of None \<Rightarrow> orig (pm_destination p) = None
     | Some b \<Rightarrow> g b = orig (pm_destination p) \<and> orig (pm_destination p) \<noteq> None)"

definition is_staged :: "(string \<Rightarrow> string) \<Rightarrow> files \<Rightarrow> promotion \<Rightarrow> string option \<Rightarrow> bool" where
  "is_staged hash orig p x \<longleftrightarrow>
     x = orig (sf_staged (pm_file p)) \<and> (\<exists>c. x = Some c \<and> hash c = sf_hash (pm_file p))"

definition ready :: "(string \<Rightarrow> string) \<Rightarrow> files \<Rightarrow> files \<Rightarrow> promotion \<Rightarrow> bool" where
  "ready hash orig g p \<longleftrightarrow> untouched orig g p \<and> saved orig g p \<and> is_staged hash orig p (g (pm_temporary p))"

definition replaced :: "(string \<Rightarrow> string) \<Rightarrow> files \<Rightarrow> files \<Rightarrow> promotion \<Rightarrow> bool" where
  "replaced hash orig g p \<longleftrightarrow> saved orig g p \<and> is_staged hash orig p (g (pm_destination p))"

definition recoverable :: "(string \<Rightarrow> string) \<Rightarrow> files \<Rightarrow> files \<Rightarrow> promotion \<Rightarrow> bool" where
  "recoverable hash orig g p \<longleftrightarrow>
     (case pm_backup p of
        None \<Rightarrow> orig (pm_destination p) = None \<and>
          (g (pm_destination p) = None \<or> is_staged hash orig p (g (pm_destination p)))
      | Some b \<Rightarrow> orig (pm_destination p) \<noteq> None \<and>
          (g b = orig (pm_destination p) \<or> g b = None \<and> untouched orig g p))"

definition own_paths :: "promotion \<Rightarrow> path set" where
  "own_paths p = insert (pm_temporary p) (set (kept_backup p))"

definition touched_paths :: "promotion \<Rightarrow> path set" where
  "touched_paths p = insert (pm_destination p) (own_paths p)"

lemmas status_defs = untouched_def saved_def ready_def replaced_def recoverable_def is_staged_def

lemma status_cong:
  assumes "\<And>q. q \<in> touched_paths p \<Longrightarrow> g q = g' q"
  shows "untouched orig g p = untouched orig g' p" "saved orig g p = saved orig g' p"
    "ready hash orig g p = ready hash orig g' p" "replaced hash orig g p = replaced hash orig g' p"
    "recoverable hash orig g p = recoverable hash orig g' p"
  using assms by (auto simp: status_defs touched_paths_def own_paths_def kept_backup_def split: option.splits)

lemma ready_recoverable: "ready hash orig g p \<Longrightarrow> recoverable hash orig g p"
  by (auto simp: status_defs split: option.splits)

lemma replaced_recoverable: "replaced hash orig g p \<Longrightarrow> recoverable hash orig g p"
  by (auto simp: status_defs split: option.splits)

section \<open>The promotions of a transaction\<close>

definition numbered :: "string \<Rightarrow> staged_file list \<Rightarrow> promotion list \<Rightarrow> bool" where
  "numbered token files ps \<longleftrightarrow> length ps \<le> length files \<and>
     (\<forall>i < length ps. \<exists>e. ps ! i = promotion_of token i (files ! i) e)"

definition clean_start :: "(string \<Rightarrow> string) \<Rightarrow> string \<Rightarrow> staged_file list \<Rightarrow> disk \<Rightarrow> bool" where
  "clean_start hash token files d \<longleftrightarrow>
     dk_journal d = None \<and> dk_journal_tmp d = None \<and> distinct (map sf_destination files)
     \<and> (\<forall>q. own_path hash token q \<longrightarrow> file_at d q = None)
     \<and> (\<forall>f \<in> set files. \<not> own_path hash token (sf_destination f) \<and> \<not> own_path hash token (sf_staged f)
          \<and> sf_staged f \<notin> sf_destination ` set files)"

lemma promotion_of_simps [simp]:
  "pm_file (promotion_of token i f e) = f" "pm_destination (promotion_of token i f e) = sf_destination f"
  "pm_backup (promotion_of token i f e) = (if e then Some (backup_path token (sf_destination f) i) else None)"
  by (simp_all add: promotion_of_def pm_destination_def)

lemma own_paths_own: "p = promotion_of token i f e \<Longrightarrow> q \<in> own_paths p \<Longrightarrow> own_path hash token q"
  by (auto simp: promotion_of_def own_paths_def kept_backup_def own_path_def split: if_splits)

lemma own_paths_disjoint:
  assumes "p = promotion_of token i f e" and "p' = promotion_of token j f' e'" and "i \<noteq> j"
  shows "own_paths p \<inter> own_paths p' = {}"
  using assms own_number [of token _ i _ j] own_number [of token _ j _ i]
  by (auto simp: promotion_of_def own_paths_def kept_backup_def split: if_splits)

lemma numbered_nth: "numbered token files ps \<Longrightarrow> p \<in> set ps \<Longrightarrow>
    \<exists>i e. i < length files \<and> i < length ps \<and> ps ! i = p \<and> p = promotion_of token i (files ! i) e"
proof -
  assume num: "numbered token files ps" and "p \<in> set ps"
  then obtain i where i: "i < length ps" "ps ! i = p" by (auto simp: in_set_conv_nth)
  with num obtain e where "ps ! i = promotion_of token i (files ! i) e" "i < length files" by (auto simp: numbered_def)
  with i show ?thesis by (intro exI [of _ i] exI [of _ e]) simp
qed

lemma numbered_destination: "numbered token files ps \<Longrightarrow> p \<in> set ps \<Longrightarrow> pm_file p \<in> set files"
  by (drule (1) numbered_nth) (auto simp: promotion_of_def)

lemma touched_disjoint:
  assumes "clean_start hash token files d" and num: "numbered token files ps"
    and "p \<in> set ps" and "q \<in> set ps" and "p \<noteq> q"
  shows "touched_paths p \<inter> touched_paths q = {}"
proof -
  obtain i e where i: "i < length files" "ps ! i = p" "p = promotion_of token i (files ! i) e"
    using numbered_nth [OF num assms(3)] by blast
  obtain j e' where j: "j < length files" "ps ! j = q" "q = promotion_of token j (files ! j) e'"
    using numbered_nth [OF num assms(4)] by blast
  have "i \<noteq> j" using i(2) j(2) assms(5) by auto
  have "own_paths p \<inter> own_paths q = {}" by (rule own_paths_disjoint [OF i(3) j(3) \<open>i \<noteq> j\<close>])
  moreover have "pm_destination p \<noteq> pm_destination q"
    using assms(1) i(1) j(1) \<open>i \<noteq> j\<close> unfolding i(3) j(3)
    by (simp add: clean_start_def pm_destination_def promotion_of_def distinct_conv_nth)
  moreover have "\<not> own_path hash token (pm_destination p)" "\<not> own_path hash token (pm_destination q)"
    using assms(1) numbered_destination [OF num] assms(3,4) by (auto simp: clean_start_def pm_destination_def)
  ultimately show ?thesis
    using own_paths_own [OF i(3), of _ hash] own_paths_own [OF j(3), of _ hash] by (auto simp: touched_paths_def)
qed

lemma touched_distinct:
  assumes "clean_start hash token files d" and num: "numbered token files ps" and "p \<in> set ps"
  shows "pm_destination p \<noteq> pm_temporary p" and "pm_backup p \<noteq> Some (pm_destination p)"
    and "pm_backup p \<noteq> Some (pm_temporary p)"
proof -
  obtain i e where i: "i < length files" "p = promotion_of token i (files ! i) e"
    using numbered_nth [OF num assms(3)] by blast
  have own: "\<not> own_path hash token (pm_destination p)"
    using assms(1) numbered_destination [OF num assms(3)] by (auto simp: clean_start_def pm_destination_def)
  then show "pm_destination p \<noteq> pm_temporary p" and "pm_backup p \<noteq> Some (pm_destination p)"
    using own_paths_own [OF i(2), of _ hash] by (auto simp: own_paths_def kept_backup_def)
  show "pm_backup p \<noteq> Some (pm_temporary p)"
    using temporary_not_backup [of token "sf_destination (files ! i)" i] unfolding i(2)
    by (auto simp: promotion_of_def)
qed

section \<open>The invariant\<close>

definition dests_orig :: "staged_file list \<Rightarrow> files \<Rightarrow> files \<Rightarrow> bool" where
  "dests_orig fs orig g \<longleftrightarrow> (\<forall>f \<in> set fs. g (sf_destination f) = orig (sf_destination f))"

definition dests_new :: "staged_file list \<Rightarrow> files \<Rightarrow> files \<Rightarrow> bool" where
  "dests_new fs orig g \<longleftrightarrow> (\<forall>f \<in> set fs. g (sf_destination f) = orig (sf_staged f) \<and> orig (sf_staged f) \<noteq> None)"

text \<open>Nothing changes but the destinations and the files of the transaction itself.\<close>

definition framed :: "(string \<Rightarrow> string) \<Rightarrow> string \<Rightarrow> staged_file list \<Rightarrow> files \<Rightarrow> files \<Rightarrow> bool" where
  "framed hash token fs orig g \<longleftrightarrow>
     (\<forall>q. \<not> own_path hash token q \<longrightarrow> q \<notin> sf_destination ` set fs \<longrightarrow> g q = orig q)"

abbreviation now :: "txn \<Rightarrow> files" where
  "now t \<equiv> file_at (tx_disk t)"

definition preparing :: "string \<Rightarrow> staged_file list \<Rightarrow> files \<Rightarrow> txn \<Rightarrow> bool" where
  "preparing token fs orig t \<longleftrightarrow> dk_journal (tx_disk t) = None \<and> tx_promoted t = [] \<and> dests_orig fs orig (now t)
     \<and> numbered token fs (tx_promotions t)"

definition journaled :: "string \<Rightarrow> staged_file list \<Rightarrow> txn \<Rightarrow> bool" where
  "journaled token fs t \<longleftrightarrow> (\<exists>cr. dk_journal (tx_disk t) = Some (journal_of (tx_promotions t) cr))
     \<and> numbered token fs (tx_promotions t) \<and> length (tx_promotions t) = length fs"

text \<open>What a promotion is once the roll-back has dealt with it.\<close>

definition settled :: "(string \<Rightarrow> string) \<Rightarrow> files \<Rightarrow> txn \<Rightarrow> promotion \<Rightarrow> bool" where
  "settled hash orig t p \<longleftrightarrow> untouched orig (now t) p \<or>
     (replaced hash orig (now t) p \<and> set (kept_backup p) \<subseteq> set (tx_preserved t) \<and> tx_errors t \<noteq> [])"

definition rolling :: "(string \<Rightarrow> string) \<Rightarrow> string \<Rightarrow> staged_file list \<Rightarrow> files \<Rightarrow> txn \<Rightarrow> promotion list \<Rightarrow> bool" where
  "rolling hash token fs orig t pending \<longleftrightarrow>
     (dk_journal (tx_disk t) = None \<and> pending = [] \<and> dests_orig fs orig (now t) \<and> numbered token fs (tx_promotions t)) \<or>
     (journaled token fs t \<and> distinct pending \<and> set pending \<subseteq> set (tx_promotions t)
      \<and> (\<forall>p \<in> set (tx_promotions t). recoverable hash orig (now t) p)
      \<and> (\<forall>p \<in> set (tx_promotions t). if p \<in> set pending then replaced hash orig (now t) p else settled hash orig t p))"

fun phase_ok :: "(string \<Rightarrow> string) \<Rightarrow> string \<Rightarrow> staged_file list \<Rightarrow> files \<Rightarrow> txn \<Rightarrow> phase \<Rightarrow> bool" where
  "phase_ok hash token fs orig t (Prepare i rest) \<longleftrightarrow>
     preparing token fs orig t \<and> length (tx_promotions t) = i \<and> rest = drop i fs
     \<and> list_all (ready hash orig (now t)) (tx_promotions t)"
| "phase_ok hash token fs orig t (Parents i f ps rest) \<longleftrightarrow>
     preparing token fs orig t \<and> length (tx_promotions t) = i \<and> f # rest = drop i fs
     \<and> (\<exists>c. orig (sf_staged f) = Some c \<and> hash c = sf_hash f)
     \<and> list_all (ready hash orig (now t)) (tx_promotions t)"
| "phase_ok hash token fs orig t (Backup i p rest) \<longleftrightarrow>
     preparing token fs orig t \<and> rest = drop (Suc i) fs
     \<and> (\<exists>c. orig (sf_staged (pm_file p)) = Some c \<and> hash c = sf_hash (pm_file p))
     \<and> (\<exists>qs. tx_promotions t = qs @ [p] \<and> length qs = i \<and> list_all (ready hash orig (now t)) qs)"
| "phase_ok hash token fs orig t (Temporary i p rest) \<longleftrightarrow>
     preparing token fs orig t \<and> rest = drop (Suc i) fs \<and> saved orig (now t) p
     \<and> (\<exists>c. orig (sf_staged (pm_file p)) = Some c \<and> hash c = sf_hash (pm_file p))
     \<and> (\<exists>qs. tx_promotions t = qs @ [p] \<and> length qs = i \<and> list_all (ready hash orig (now t)) qs)"
| "phase_ok hash token fs orig t Journal_Written \<longleftrightarrow>
     preparing token fs orig t \<and> length (tx_promotions t) = length fs
     \<and> list_all (ready hash orig (now t)) (tx_promotions t)
     \<and> (\<exists>cr. dk_journal_tmp (tx_disk t) = Some (Some (journal_of (tx_promotions t) cr)))"
| "phase_ok hash token fs orig t (Promoting ps) \<longleftrightarrow>
     journaled token fs t \<and> tx_promotions t = tx_promoted t @ ps
     \<and> list_all (replaced hash orig (now t)) (tx_promoted t) \<and> list_all (ready hash orig (now t)) ps"
| "phase_ok hash token fs orig t (Verifying ps) \<longleftrightarrow>
     journaled token fs t \<and> tx_promoted t = tx_promotions t \<and> list_all (replaced hash orig (now t)) (tx_promotions t)"
| "phase_ok hash token fs orig t Committing \<longleftrightarrow>
     journaled token fs t \<and> tx_promoted t = tx_promotions t \<and> list_all (replaced hash orig (now t)) (tx_promotions t)"
| "phase_ok hash token fs orig t (Disposing ps) \<longleftrightarrow>
     dk_journal (tx_disk t) = None \<and> dests_new fs orig (now t) \<and> numbered token fs (tx_promotions t)
     \<and> set ps \<subseteq> set (tx_promotions t)"
| "phase_ok hash token fs orig t Committed \<longleftrightarrow> dk_journal (tx_disk t) = None \<and> dests_new fs orig (now t)"
| "phase_ok hash token fs orig t (Restoring ps) \<longleftrightarrow> rolling hash token fs orig t ps"
| "phase_ok hash token fs orig t (Cleaning qs) \<longleftrightarrow>
     rolling hash token fs orig t [] \<and> set qs \<subseteq> set (promotion_paths (tx_promotions t))"
| "phase_ok hash token fs orig t (Removing_Dirs qs) \<longleftrightarrow> rolling hash token fs orig t []"
| "phase_ok hash token fs orig t Forgetting \<longleftrightarrow> rolling hash token fs orig t []"
| "phase_ok hash token fs orig t Rolled_Back \<longleftrightarrow> rolling hash token fs orig t []"
| "phase_ok hash token fs orig t ph \<longleftrightarrow>
     preparing token fs orig t \<and> length (tx_promotions t) = length fs
     \<and> list_all (ready hash orig (now t)) (tx_promotions t)"

text \<open>Which files of its own a transaction may have left.\<close>

fun leftovers :: "txn \<Rightarrow> phase \<Rightarrow> path set" where
  "leftovers t (Disposing ps) = UNIV"
| "leftovers t Committed = UNIV"
| "leftovers t (Cleaning qs) = (if tx_errors t = [] then set qs else UNIV)"
| "leftovers t (Removing_Dirs qs) = (if tx_errors t = [] then {} else UNIV)"
| "leftovers t Forgetting = (if tx_errors t = [] then {} else UNIV)"
| "leftovers t Rolled_Back = (if tx_errors t = [] then {} else UNIV)"
| "leftovers t ph = set (promotion_paths (tx_promotions t))"

definition txn_good :: "(string \<Rightarrow> string) \<Rightarrow> string \<Rightarrow> staged_file list \<Rightarrow> files \<Rightarrow> txn \<Rightarrow> bool" where
  "txn_good hash token fs orig t \<longleftrightarrow>
     framed hash token fs orig (now t) \<and> (tx_errors t = [] \<longrightarrow> tx_preserved t = [])
     \<and> (\<forall>q. own_path hash token q \<longrightarrow> now t q \<noteq> None \<longrightarrow> q \<in> leftovers t (tx_phase t))
     \<and> phase_ok hash token fs orig t (tx_phase t)"

section \<open>What a change of one file keeps\<close>

lemma promotion_paths_own: "q \<in> set (promotion_paths ps) \<longleftrightarrow> (\<exists>p \<in> set ps. q \<in> own_paths p)"
  by (auto simp: promotion_paths_def own_paths_def kept_backup_def split: option.splits)

lemma numbered_snoc:
  assumes "numbered token fs ps" and "f # rest = drop (length ps) fs"
  shows "numbered token fs (ps @ [promotion_of token (length ps) f e])"
proof -
  have len: "length ps < length fs" using assms(2) by (metis drop_all list.distinct(1) not_le)
  then have "fs ! length ps = f" using assms(2) by (metis Cons_nth_drop_Suc list.inject)
  with len assms(1) show ?thesis by (auto simp: numbered_def nth_append less_Suc_eq)
qed

text \<open>A change of files that no promotion of a list looks at.\<close>

lemma list_all_ready_cong:
  assumes "\<And>p q. p \<in> set ps \<Longrightarrow> q \<in> touched_paths p \<Longrightarrow> g q = g' q"
  shows "list_all (ready hash orig g) ps = list_all (ready hash orig g') ps"
    "list_all (replaced hash orig g) ps = list_all (replaced hash orig g') ps"
  using status_cong(3) [of _ g g'] status_cong(4) [of _ g g'] assms unfolding list_all_iff by blast+

lemma file_at_fun [simp]:
  "file_at (dk_put q c d) = (file_at d)(q := c)"
  "file_at (dk_rename a b d) = (file_at d)(a := None, b := file_at d a)"
  "file_at (dk_mkdir q d) = file_at d"
  "file_at (dk_rmdir q d) = file_at d"
  "file_at (dk_set_journal j d) = file_at d"
  "file_at (dk_write_tmp x d) = file_at d"
  by (rule ext, simp)+

lemma dest_not_own: "clean_start hash token fs d0 \<Longrightarrow> f \<in> set fs \<Longrightarrow> \<not> own_path hash token (sf_destination f)"
  by (simp add: clean_start_def)

lemma staged_now:
  "clean_start hash token fs d0 \<Longrightarrow> framed hash token fs (file_at d0) g \<Longrightarrow> f \<in> set fs \<Longrightarrow>
    g (sf_staged f) = file_at d0 (sf_staged f)"
  by (simp add: framed_def clean_start_def)

lemma own_promotion_paths:
  "numbered token fs ps \<Longrightarrow> q \<in> set (promotion_paths ps) \<Longrightarrow> own_path hash token q"
  using numbered_nth own_paths_own by (fastforce simp: promotion_paths_own)

text \<open>Changing a file of the transaction's own does not show in the destinations nor outside.\<close>

lemma put_own:
  assumes "clean_start hash token fs d0" and "own_path hash token q"
  shows "dests_orig fs orig (g(q := c)) = dests_orig fs orig g"
    "dests_new fs orig (g(q := c)) = dests_new fs orig g"
    "framed hash token fs orig (g(q := c)) = framed hash token fs orig g"
proof -
  have apart: "sf_destination f \<noteq> q" if "f \<in> set fs" for f using dest_not_own [OF assms(1) that] assms(2) by auto
  then show "dests_orig fs orig (g(q := c)) = dests_orig fs orig g" "dests_new fs orig (g(q := c)) = dests_new fs orig g"
    by (simp_all add: dests_orig_def dests_new_def)
  show "framed hash token fs orig (g(q := c)) = framed hash token fs orig g"
    using assms(2) unfolding framed_def by (metis fun_upd_other)
qed

text \<open>Changing a file of one promotion does not show in the other promotions.\<close>

lemma others_keep:
  assumes "clean_start hash token fs d0" and "numbered token fs ps" and "p \<in> set ps" and "p' \<in> set ps" and "p' \<noteq> p"
    and "q \<in> touched_paths p"
  shows "untouched orig (g(q := c)) p' = untouched orig g p'" "saved orig (g(q := c)) p' = saved orig g p'"
    "ready hash orig (g(q := c)) p' = ready hash orig g p'" "replaced hash orig (g(q := c)) p' = replaced hash orig g p'"
    "recoverable hash orig (g(q := c)) p' = recoverable hash orig g p'"
proof -
  have "\<And>r. r \<in> touched_paths p' \<Longrightarrow> (g(q := c)) r = g r"
    using touched_disjoint [OF assms(1-4)] assms(5,6) by (metis disjoint_iff fun_upd_other)
  then show "untouched orig (g(q := c)) p' = untouched orig g p'" "saved orig (g(q := c)) p' = saved orig g p'"
    "ready hash orig (g(q := c)) p' = ready hash orig g p'" "replaced hash orig (g(q := c)) p' = replaced hash orig g p'"
    "recoverable hash orig (g(q := c)) p' = recoverable hash orig g p'"
    using status_cong [of p' "g(q := c)" g] by auto
qed

lemma numbered_distinct: "numbered token fs ps \<Longrightarrow> distinct ps"
proof (unfold distinct_conv_nth, intro allI impI)
  fix i j assume "numbered token fs ps" and "i < length ps" "j < length ps" "i \<noteq> j"
  then obtain e e' where "ps ! i = promotion_of token i (fs ! i) e" "ps ! j = promotion_of token j (fs ! j) e'"
    unfolding numbered_def by blast
  then show "ps ! i \<noteq> ps ! j" using own_number(1) [of token _ i _ j] \<open>i \<noteq> j\<close> by (auto simp: promotion_of_def)
qed

lemma numbered_all:
  assumes "numbered token fs ps" and "length ps = length fs" and "\<And>p. p \<in> set ps \<Longrightarrow> P (pm_file p)" and "f \<in> set fs"
  shows "P f"
proof -
  obtain i where i: "i < length fs" "fs ! i = f" using assms(4) by (auto simp: in_set_conv_nth)
  then obtain e where "ps ! i = promotion_of token i f e" using assms(1,2) by (auto simp: numbered_def)
  then have "pm_file (ps ! i) = f" by (simp add: promotion_of_def)
  moreover have "ps ! i \<in> set ps" using i assms(2) by simp
  ultimately show ?thesis using assms(3) by metis
qed

lemma numbered_orig:
  assumes "numbered token fs ps" and "length ps = length fs" and "\<forall>p \<in> set ps. untouched orig g p"
  shows "dests_orig fs orig g"
  unfolding dests_orig_def
  using numbered_all [OF assms(1,2), of "\<lambda>f. g (sf_destination f) = orig (sf_destination f)"] assms(3)
  by (auto simp: untouched_def pm_destination_def)

lemma numbered_new:
  assumes "numbered token fs ps" and "length ps = length fs" and "\<forall>p \<in> set ps. replaced hash orig g p"
  shows "dests_new fs orig g"
proof (unfold dests_new_def, rule ballI)
  fix f assume "f \<in> set fs"
  show "g (sf_destination f) = orig (sf_staged f) \<and> orig (sf_staged f) \<noteq> None"
  proof (rule numbered_all [OF assms(1,2) _ \<open>f \<in> set fs\<close>])
    fix p assume "p \<in> set ps"
    then have "is_staged hash orig p (g (pm_destination p))" using assms(3) by (simp add: replaced_def)
    then show "g (sf_destination (pm_file p)) = orig (sf_staged (pm_file p)) \<and> orig (sf_staged (pm_file p)) \<noteq> None"
      by (cases "orig (sf_staged (pm_file p))") (auto simp: is_staged_def pm_destination_def)
  qed
qed

lemma orig_untouched:
  "numbered token fs ps \<Longrightarrow> dests_orig fs orig g \<Longrightarrow> p \<in> set ps \<Longrightarrow> untouched orig g p"
  using numbered_destination by (fastforce simp: dests_orig_def untouched_def pm_destination_def)

end
