(* ===== verification/File_Atomicity.thy ===== *)
theory File_Atomicity
  imports File_Invariant
begin

text \<open>
  The promotion of theory \<^verbatim>\<open>File_Transaction\<close> is atomic: in every reachable state, thus after a crash at
  any point, recovery leaves all destinations as they were or all as they were staged; a transaction that
  ends as committed has promoted every file, and one that is rolled back without an error has restored every file.
\<close>

section \<open>Steps that change no file\<close>

named_theorems keeps \<open>the invariant after one step of the promotion\<close>

lemmas step_defs = txn_good_def preparing_def journaled_def

lemma keep_prepare [keeps]:
  assumes "clean_start hash token fs d0" and good: "txn_good hash token fs (file_at d0) t"
    and "tx_phase t = Prepare i (f # rest)" and "now t (sf_staged f) = Some c" and "hash c = sf_hash f"
  shows "txn_good hash token fs (file_at d0) (goto (Parents i f ms rest) t)"
proof -
  have "f # rest = drop i fs" using good assms(3) by (simp add: txn_good_def)
  then have "f \<in> set fs" by (metis in_set_dropD list.set_intros(1))
  then have "file_at d0 (sf_staged f) = Some c"
    using staged_now [OF assms(1), of "now t" f] good assms(4) by (simp add: txn_good_def)
  then show ?thesis using good assms(3,5) by (simp add: step_defs)
qed

lemma numbered_complete: "numbered token fs ps \<Longrightarrow> [] = drop (length ps) fs \<Longrightarrow> length ps = length fs"
  by (simp add: numbered_def)

lemma keep_moves [keeps]:
  assumes good: "txn_good hash token fs orig t"
  shows "tx_phase t = Parents i f (q # qs) rest \<Longrightarrow> txn_good hash token fs orig (goto (Parents i f qs rest) (make_dir q t))"
    "tx_phase t = Prepare i [] \<Longrightarrow> txn_good hash token fs orig (goto (Directories dirs) t)"
    "tx_phase t = Directories (q # qs) \<Longrightarrow> txn_good hash token fs orig (goto (Directory q ms qs) t)"
    "tx_phase t = Directory q (r # rs) qs \<Longrightarrow> txn_good hash token fs orig (goto (Directory q rs qs) (make_dir r t))"
    "tx_phase t = Directory q [] qs \<Longrightarrow> txn_good hash token fs orig (goto (Directories qs) t)"
    "tx_phase t = Directories [] \<Longrightarrow> txn_good hash token fs orig (goto Journaling t)"
    "tx_phase t = Promoting [] \<Longrightarrow> txn_good hash token fs orig (goto (Verifying (tx_promotions t)) t)"
    "tx_phase t = Verifying (p # ps) \<Longrightarrow> txn_good hash token fs orig (goto (Verifying ps) t)"
    "tx_phase t = Verifying [] \<Longrightarrow> txn_good hash token fs orig (goto Committing t)"
    "tx_phase t = Disposing (p # ps) \<Longrightarrow> txn_good hash token fs orig (goto (Disposing ps) t)"
    "tx_phase t = Disposing (p # ps) \<Longrightarrow> txn_good hash token fs orig (goto (Disposing ps) (add_error b ks t))"
    "tx_phase t = Disposing [] \<Longrightarrow> txn_good hash token fs orig (goto Committed t)"
  using good numbered_complete [of token fs "tx_promotions t"] by (auto simp: step_defs)

lemma rolling_same:
  assumes "now t' = now t" "dk_journal (tx_disk t') = dk_journal (tx_disk t)" "tx_promotions t' = tx_promotions t"
    and kept: "set (tx_preserved t) \<subseteq> set (tx_preserved t')" "tx_errors t \<noteq> [] \<Longrightarrow> tx_errors t' \<noteq> []"
    and "rolling hash token fs orig t ps"
  shows "rolling hash token fs orig t' ps"
proof -
  have "settled hash orig t p \<Longrightarrow> settled hash orig t' p" for p
    using assms(1) kept by (auto simp: settled_def)
  then show ?thesis using assms(6) unfolding rolling_def journaled_def assms(1-3) by (metis (no_types, lifting))
qed

lemma keep_rolling_moves [keeps]:
  assumes good: "txn_good hash token fs orig t"
  shows "tx_phase t = Restoring [] \<Longrightarrow> txn_good hash token fs orig (goto (Cleaning (promotion_paths (tx_promotions t))) t)"
    "tx_phase t = Cleaning (q # qs) \<Longrightarrow> q \<in> set (tx_preserved t) \<Longrightarrow> txn_good hash token fs orig (goto (Cleaning qs) t)"
    "tx_phase t = Cleaning (q # qs) \<Longrightarrow> txn_good hash token fs orig (goto (Cleaning qs) (add_error q [] t))"
    "tx_phase t = Cleaning [] \<Longrightarrow> txn_good hash token fs orig (goto (Removing_Dirs ds) t)"
    "tx_phase t = Removing_Dirs (q # qs) \<Longrightarrow> txn_good hash token fs orig (goto (Removing_Dirs qs) (on_disk (dk_rmdir q) t))"
    "tx_phase t = Removing_Dirs (q # qs) \<Longrightarrow> txn_good hash token fs orig (goto (Removing_Dirs qs) t)"
    "tx_phase t = Removing_Dirs (q # qs) \<Longrightarrow> txn_good hash token fs orig (goto (Removing_Dirs qs) (add_error q [] t))"
    "tx_phase t = Removing_Dirs [] \<Longrightarrow> txn_good hash token fs orig (goto Forgetting t)"
    "tx_phase t = Forgetting \<Longrightarrow> txn_good hash token fs orig (goto Rolled_Back t)"
  using good rolling_same [of _ t] by (auto simp: txn_good_def)

lemma keep_raise [keeps]:
  assumes good: "txn_good hash token fs orig t" and "in_try (tx_phase t)"
  shows "txn_good hash token fs orig (goto (Restoring (rev (tx_promoted t))) t)"
proof (cases "dk_journal (tx_disk t)")
  case None
  then show ?thesis using good assms(2)
    by (cases "tx_phase t") (auto simp: step_defs rolling_def)
next
  case (Some j)
  have whole: "journaled token fs t"
    and front: "list_all (replaced hash orig (now t)) (tx_promoted t)"
    and rest: "\<exists>ps. tx_promotions t = tx_promoted t @ ps \<and> list_all (ready hash orig (now t)) ps"
    using good assms(2) Some by (cases "tx_phase t"; fastforce simp: step_defs)+
  obtain ps where ps: "tx_promotions t = tx_promoted t @ ps" "list_all (ready hash orig (now t)) ps" using rest by blast
  have "distinct (tx_promotions t)" using whole numbered_distinct by (auto simp: journaled_def)
  then have "distinct (tx_promoted t)" and "set (tx_promoted t) \<inter> set ps = {}" using ps(1) by simp_all
  moreover have "\<forall>p \<in> set (tx_promotions t). recoverable hash orig (now t) p"
    using ps front ready_recoverable replaced_recoverable by (auto simp: list_all_iff)
  moreover have "settled hash orig t p" if "p \<in> set ps" for p
    using ps(2) that by (simp add: list_all_iff settled_def ready_def)
  ultimately have "rolling hash token fs orig t (rev (tx_promoted t))"
    using whole front ps(1) unfolding rolling_def by (auto simp: list_all_iff)
  then show ?thesis using rolling_same [of "goto (Restoring (rev (tx_promoted t))) t" t] good assms(2)
    by (cases "tx_phase t") (auto simp: txn_good_def)
qed

section \<open>Steps that change files\<close>

lemma front_ready:
  assumes "clean_start hash token fs d0" and num: "numbered token fs (qs @ [p])" and "q \<in> own_paths p"
  shows "list_all (ready hash orig (g(q := c))) qs = list_all (ready hash orig g) qs"
proof -
  have "p \<notin> set qs" using numbered_distinct [OF num] by simp
  then have "ready hash orig (g(q := c)) p' = ready hash orig g p'" if "p' \<in> set qs" for p'
    using others_keep(3) [OF assms(1) num, of p p' q] assms(3) that by (auto simp: touched_paths_def)
  then show ?thesis by (simp add: list_all_iff)
qed

text \<open>While it prepares, a transaction writes files of its own only.\<close>

lemma preparing_put:
  assumes "clean_start hash token fs d0" and good: "txn_good hash token fs (file_at d0) t"
    and prep: "preparing token fs (file_at d0) t" and "tx_promotions t = qs @ [p]" and "q \<in> own_paths p"
    and here: "leftovers t (tx_phase t) = set (promotion_paths (tx_promotions t))"
  shows "framed hash token fs (file_at d0) ((now t)(q := c))" "dests_orig fs (file_at d0) ((now t)(q := c))"
    "list_all (ready hash (file_at d0) ((now t)(q := c))) qs = list_all (ready hash (file_at d0) (now t)) qs"
    "\<forall>r. own_path hash token r \<longrightarrow> ((now t)(q := c)) r \<noteq> None \<longrightarrow> r \<in> set (promotion_paths (tx_promotions t))"
proof -
  have num: "numbered token fs (qs @ [p])" using prep assms(4) by (simp add: preparing_def)
  have own: "own_path hash token q" using own_promotion_paths [OF num] assms(5) by (auto simp: promotion_paths_own)
  show "framed hash token fs (file_at d0) ((now t)(q := c))" "dests_orig fs (file_at d0) ((now t)(q := c))"
    using put_own [OF assms(1) own] good prep by (simp_all add: txn_good_def preparing_def)
  show "list_all (ready hash (file_at d0) ((now t)(q := c))) qs = list_all (ready hash (file_at d0) (now t)) qs"
    by (rule front_ready [OF assms(1) num assms(5)])
  have "q \<in> set (promotion_paths (tx_promotions t))" using assms(4,5) by (simp add: promotion_paths_own)
  then show "\<forall>r. own_path hash token r \<longrightarrow> ((now t)(q := c)) r \<noteq> None \<longrightarrow> r \<in> set (promotion_paths (tx_promotions t))"
    using good here by (auto simp: txn_good_def)
qed

lemma keep_backup_chunk [keeps]:
  assumes "clean_start hash token fs d0" and good: "txn_good hash token fs (file_at d0) t"
    and ph: "tx_phase t = Backup i p rest" and "pm_backup p = Some b"
  shows "txn_good hash token fs (file_at d0) (on_disk (dk_put b c) t)"
proof -
  obtain qs where qs: "tx_promotions t = qs @ [p]" and prep: "preparing token fs (file_at d0) t"
    using good ph by (auto simp: txn_good_def)
  have "b \<in> own_paths p" using assms(4) by (simp add: own_paths_def kept_backup_def)
  from preparing_put [OF assms(1) good prep qs this, of c] show ?thesis
    using good ph qs prep by (auto simp: txn_good_def preparing_def on_disk_def)
qed

lemma keep_backup_done [keeps]:
  assumes good: "txn_good hash token fs orig t" and ph: "tx_phase t = Backup i p rest" and "pm_backup p = Some b"
    and "now t (pm_destination p) = Some c" and "now t b = Some c"
  shows "txn_good hash token fs orig (goto (Temporary i p rest) t)"
proof -
  have "untouched orig (now t) p"
    using good ph orig_untouched [of token fs "tx_promotions t" orig "now t" p] by (auto simp: step_defs)
  then have "saved orig (now t) p"
    using assms(3-5) by (cases "orig (pm_destination p)") (auto simp: saved_def untouched_def)
  then show ?thesis using good ph by (auto simp: step_defs)
qed

lemma keep_temporary_chunk [keeps]:
  assumes "clean_start hash token fs d0" and good: "txn_good hash token fs (file_at d0) t"
    and ph: "tx_phase t = Temporary i p rest"
  shows "txn_good hash token fs (file_at d0) (on_disk (dk_put (pm_temporary p) c) t)"
proof -
  obtain qs where qs: "tx_promotions t = qs @ [p]" and prep: "preparing token fs (file_at d0) t"
    using good ph by (auto simp: txn_good_def)
  have "numbered token fs (tx_promotions t)" using prep by (simp add: preparing_def)
  then have "pm_backup p \<noteq> Some (pm_temporary p)" using touched_distinct(3) [OF assms(1)] qs by simp
  then have "saved (file_at d0) ((now t)(pm_temporary p := c)) p = saved (file_at d0) (now t) p"
    by (auto simp: saved_def split: option.split)
  moreover have "pm_temporary p \<in> own_paths p" by (simp add: own_paths_def)
  ultimately show ?thesis
    using preparing_put [OF assms(1) good prep qs, of "pm_temporary p" c] good ph qs prep
    by (auto simp: txn_good_def preparing_def on_disk_def)
qed

lemma keep_temporary_done [keeps]:
  assumes "clean_start hash token fs d0" and good: "txn_good hash token fs (file_at d0) t"
    and ph: "tx_phase t = Temporary i p rest"
    and "now t (sf_staged (pm_file p)) = Some c" and "now t (pm_temporary p) = Some c"
  shows "txn_good hash token fs (file_at d0) (goto (Prepare (Suc i) rest) t)"
proof -
  obtain qs where qs: "tx_promotions t = qs @ [p]" "length qs = i" "list_all (ready hash (file_at d0) (now t)) qs"
    and num: "numbered token fs (tx_promotions t)"
    and staged: "\<exists>c. file_at d0 (sf_staged (pm_file p)) = Some c \<and> hash c = sf_hash (pm_file p)"
    using good ph by (auto simp: step_defs)
  have "untouched (file_at d0) (now t) p"
    using good ph qs(1) orig_untouched [OF num, of "file_at d0" "now t" p] by (auto simp: step_defs)
  moreover have "now t (sf_staged (pm_file p)) = file_at d0 (sf_staged (pm_file p))"
    using staged_now [OF assms(1)] numbered_destination [OF num, of p] good qs(1) by (simp add: txn_good_def)
  ultimately have "ready hash (file_at d0) (now t) p"
    using good ph assms(4,5) staged by (auto simp: txn_good_def ready_def is_staged_def)
  then show ?thesis using good ph qs by (auto simp: step_defs)
qed

lemma keep_plan [keeps]:
  assumes good: "txn_good hash token fs orig t" and ph: "tx_phase t = Parents i f [] rest"
  shows "txn_good hash token fs orig (goto (Backup i (promotion_of token i f True) rest) (add_promotion (promotion_of token i f True) t))"
    "\<not> dk_exists (tx_disk t) (sf_destination f) \<Longrightarrow>
      txn_good hash token fs orig (goto (Temporary i (promotion_of token i f False) rest) (add_promotion (promotion_of token i f False) t))"
proof -
  have rest: "f # rest = drop i fs" and num: "numbered token fs (tx_promotions t)" "length (tx_promotions t) = i"
    using good ph by (auto simp: step_defs)
  then have snoc: "numbered token fs (tx_promotions t @ [promotion_of token i f e])" for e
    using numbered_snoc by blast
  have "drop (Suc i) fs = rest" using rest by (metis drop_Suc list.sel(3) tl_drop)
  moreover have "f \<in> set fs" using rest by (metis in_set_dropD list.set_intros(1))
  ultimately show "txn_good hash token fs orig (goto (Backup i (promotion_of token i f True) rest) (add_promotion (promotion_of token i f True) t))"
    and "\<not> dk_exists (tx_disk t) (sf_destination f) \<Longrightarrow>
      txn_good hash token fs orig (goto (Temporary i (promotion_of token i f False) rest) (add_promotion (promotion_of token i f False) t))"
    using good ph num snoc
    by (auto simp: step_defs promotion_paths_own saved_def dk_exists_def dests_orig_def)
qed

lemma keep_journal [keeps]:
  assumes good: "txn_good hash token fs orig t"
  shows "tx_phase t = Journaling \<Longrightarrow> txn_good hash token fs orig (goto Journal_Open (on_disk (dk_write_tmp x) t))"
    "tx_phase t = Journal_Open \<Longrightarrow> txn_good hash token fs orig
      (goto Journal_Written (on_disk (dk_write_tmp (Some (Some (journal_of (tx_promotions t) cr)))) t))"
    "tx_phase t = Journal_Written \<Longrightarrow> dk_journal_tmp (tx_disk t) = Some (Some j) \<Longrightarrow> txn_good hash token fs orig
      (goto (Promoting (tx_promotions t)) (on_disk (dk_write_tmp None \<circ> dk_set_journal (Some j)) t))"
  using assms by (auto simp: step_defs)

text \<open>One promotion of a journaled transaction changes: all that is known of the others stays.\<close>

lemma move_others:
  assumes "clean_start hash token fs d0" and "numbered token fs ps" and "p \<in> set ps" and "p' \<in> set ps" and "p' \<noteq> p"
    and "a \<in> touched_paths p" and "b \<in> touched_paths p"
  shows "untouched orig (g(a := c, b := e)) p' = untouched orig g p'"
    "ready hash orig (g(a := c, b := e)) p' = ready hash orig g p'"
    "replaced hash orig (g(a := c, b := e)) p' = replaced hash orig g p'"
    "recoverable hash orig (g(a := c, b := e)) p' = recoverable hash orig g p'"
  using others_keep [OF assms(1-5), of _ orig] assms(6,7) by simp_all

lemma framed_dest:
  "framed hash token fs orig g \<Longrightarrow> f \<in> set fs \<Longrightarrow> framed hash token fs orig (g(sf_destination f := c))"
  by (auto simp: framed_def)

lemma framed_move:
  assumes "clean_start hash token fs d0" and "numbered token fs ps" and "p \<in> set ps" and "a \<in> own_paths p"
    and "framed hash token fs orig g"
  shows "framed hash token fs orig (g(a := c, pm_destination p := e))"
proof -
  have "own_path hash token a" using own_promotion_paths [OF assms(2)] assms(3,4) by (auto simp: promotion_paths_own)
  then have "framed hash token fs orig (g(a := c))" using put_own(3) [OF assms(1)] assms(5) by simp
  from framed_dest [OF this numbered_destination [OF assms(2,3)]] show ?thesis by (simp add: pm_destination_def)
qed

lemma move_leftovers:
  assumes "clean_start hash token fs d0" and "numbered token fs ps" and "p \<in> set ps"
    and "\<forall>q. own_path hash token q \<longrightarrow> g q \<noteq> None \<longrightarrow> q \<in> A"
  shows "\<forall>q. own_path hash token q \<longrightarrow> (g(a := None, pm_destination p := e)) q \<noteq> None \<longrightarrow> q \<in> A"
  using assms(4) dest_not_own [OF assms(1) numbered_destination [OF assms(2,3)]] by (auto simp: pm_destination_def)

lemma keep_promote [keeps]:
  assumes "clean_start hash token fs d0" and good: "txn_good hash token fs (file_at d0) t"
    and ph: "tx_phase t = Promoting (p # ps)"
  shows "txn_good hash token fs (file_at d0) (goto (Promoting ps) (promote_file p t))"
proof -
  let ?g = "(now t)(pm_temporary p := None, pm_destination p := now t (pm_temporary p))"
  have whole: "journaled token fs t" and split: "tx_promotions t = tx_promoted t @ p # ps"
    and front: "list_all (replaced hash (file_at d0) (now t)) (tx_promoted t)"
    and later: "ready hash (file_at d0) (now t) p" "list_all (ready hash (file_at d0) (now t)) ps"
    using good ph by (simp_all add: txn_good_def)
  have num: "numbered token fs (tx_promotions t)" and p: "p \<in> set (tx_promotions t)"
    using whole split by (simp_all add: journaled_def)
  have "distinct (tx_promotions t)" using numbered_distinct [OF num] .
  then have apart: "p \<notin> set (tx_promoted t)" "p \<notin> set ps" using split by auto
  note others = move_others [OF assms(1) num p, of _ "pm_temporary p" "pm_destination p"]
  have "list_all (replaced hash (file_at d0) ?g) (tx_promoted t)" "list_all (ready hash (file_at d0) ?g) ps"
    unfolding list_all_iff
  proof (safe)
    fix p' assume "p' \<in> set (tx_promoted t)"
    then have "p' \<in> set (tx_promotions t)" "p' \<noteq> p" using split apart by auto
    from others(3) [OF this] show "replaced hash (file_at d0) ?g p'"
      using front \<open>p' \<in> set (tx_promoted t)\<close> by (simp add: list_all_iff touched_paths_def own_paths_def)
  next
    fix p' assume "p' \<in> set ps"
    then have "p' \<in> set (tx_promotions t)" "p' \<noteq> p" using split apart by auto
    from others(2) [OF this] show "ready hash (file_at d0) ?g p'"
      using later(2) \<open>p' \<in> set ps\<close> by (simp add: list_all_iff touched_paths_def own_paths_def)
  qed
  moreover have "replaced hash (file_at d0) ?g p"
    using later(1) touched_distinct [OF assms(1) num p]
    by (auto simp: ready_def replaced_def saved_def split: option.splits)
  moreover have "framed hash token fs (file_at d0) ?g"
    using framed_move [OF assms(1) num p, of "pm_temporary p"] good by (simp add: own_paths_def txn_good_def)
  ultimately show ?thesis
    using good ph split move_leftovers [OF assms(1) num p, of "now t" _ "pm_temporary p"]
    by (simp add: txn_good_def journaled_def fun_upd_def [symmetric])
qed

lemma keep_commit [keeps]:
  assumes good: "txn_good hash token fs orig t" and ph: "tx_phase t = Committing"
  shows "txn_good hash token fs orig (goto (Disposing (tx_promotions t)) (on_disk (dk_set_journal None) t))"
  using assms numbered_new [of token fs "tx_promotions t" hash orig "now t"] by (auto simp: step_defs list_all_iff)

lemma keep_restore [keeps]:
  assumes "clean_start hash token fs d0" and good: "txn_good hash token fs (file_at d0) t"
    and ph: "tx_phase t = Restoring (p # ps)"
  shows "txn_good hash token fs (file_at d0) (goto (Restoring ps) (on_disk (restore_file p) t))"
proof -
  let ?orig = "file_at d0" and ?g = "file_at (restore_file p (tx_disk t))"
  let ?t = "goto (Restoring ps) (on_disk (restore_file p) t)"
  have whole: "journaled token fs t" and pend: "distinct (p # ps)" "set (p # ps) \<subseteq> set (tx_promotions t)"
    and rec: "\<forall>q \<in> set (tx_promotions t). recoverable hash ?orig (now t) q"
    and all: "\<forall>q \<in> set (tx_promotions t). if q \<in> set (p # ps) then replaced hash ?orig (now t) q else settled hash ?orig t q"
    using good ph by (simp_all add: txn_good_def rolling_def)
  have num: "numbered token fs (tx_promotions t)" and p: "p \<in> set (tx_promotions t)"
    using whole pend by (simp_all add: journaled_def)
  have rep: "replaced hash ?orig (now t) p" using all p by simp
  obtain a x where a: "a \<in> own_paths p" and g: "?g = (now t)(a := x, pm_destination p := ?orig (pm_destination p))"
    and x: "x = now t a \<or> x = None \<and> pm_backup p = Some a"
    using rep touched_distinct [OF assms(1) num p]
    by (cases "pm_backup p")
      (force simp: restore_file_def replaced_def saved_def own_paths_def kept_backup_def)+
  have touched: "a \<in> touched_paths p" "pm_destination p \<in> touched_paths p" using a by (simp_all add: touched_paths_def)
  note others = move_others [OF assms(1) num p _ _ touched, of _ ?orig]
  have here: "untouched ?orig ?g p" "recoverable hash ?orig ?g p"
    using rep g x touched_distinct [OF assms(1) num p]
    by (auto simp: untouched_def recoverable_def replaced_def saved_def split: option.splits)
  have rest: "recoverable hash ?orig ?g q \<and>
      (if q \<in> set ps then replaced hash ?orig ?g q else settled hash ?orig ?t q)" if q: "q \<in> set (tx_promotions t)" for q
  proof (cases "q = p")
    case True
    then show ?thesis using here pend(1) by (simp add: settled_def)
  next
    case False
    note same = others [OF q this, where g = "now t" and c = x and e = "?orig (pm_destination p)", folded g]
    have "settled hash ?orig t q \<Longrightarrow> settled hash ?orig ?t q" using same by (simp add: settled_def)
    then show ?thesis using rec all q False same by (auto split: if_splits)
  qed
  then have "rolling hash token fs ?orig ?t ps"
    using whole pend unfolding rolling_def journaled_def by simp
  moreover have "framed hash token fs ?orig ?g"
    using framed_move [OF assms(1) num p a] good unfolding g by (simp add: txn_good_def)
  moreover have "\<forall>q. own_path hash token q \<longrightarrow> ?g q \<noteq> None \<longrightarrow> q \<in> set (promotion_paths (tx_promotions t))"
    using good ph x dest_not_own [OF assms(1) numbered_destination [OF num p]] unfolding g
    by (auto simp: txn_good_def pm_destination_def)
  ultimately show ?thesis using good ph by (simp add: txn_good_def)
qed

lemma keep_restore_fails [keeps]:
  assumes good: "txn_good hash token fs orig t" and ph: "tx_phase t = Restoring (p # ps)"
  shows "txn_good hash token fs orig (goto (Restoring ps) (add_error (pm_destination p) (kept_backup p) t))"
proof -
  let ?t = "goto (Restoring ps) (add_error (pm_destination p) (kept_backup p) t)"
  have roll: "rolling hash token fs orig t (p # ps)" using good ph by (simp add: txn_good_def)
  have "if q \<in> set ps then replaced hash orig (now ?t) q else settled hash orig ?t q"
    if "if q \<in> set (p # ps) then replaced hash orig (now t) q else settled hash orig t q" for q
    using that by (auto simp: settled_def split: if_splits)
  then have "rolling hash token fs orig ?t ps"
    using roll unfolding rolling_def journaled_def by simp
  then show ?thesis using good ph by (simp add: txn_good_def)
qed

lemma keep_clean [keeps]:
  assumes "clean_start hash token fs d0" and good: "txn_good hash token fs (file_at d0) t"
    and ph: "tx_phase t = Cleaning (q # qs)" and "q \<notin> set (tx_preserved t)"
  shows "txn_good hash token fs (file_at d0) (goto (Cleaning qs) (on_disk (dk_put q None) t))"
proof -
  let ?orig = "file_at d0" and ?t = "goto (Cleaning qs) (on_disk (dk_put q None) t)"
  have roll: "rolling hash token fs ?orig t []" and num: "numbered token fs (tx_promotions t)"
    and sub: "set (q # qs) \<subseteq> set (promotion_paths (tx_promotions t))"
    using good ph by (auto simp: txn_good_def rolling_def journaled_def)
  obtain p where p: "p \<in> set (tx_promotions t)" "q \<in> own_paths p" using sub by (auto simp: promotion_paths_own)
  have own: "own_path hash token q" using own_promotion_paths [OF num] sub by simp
  have dest: "q \<noteq> pm_destination p'" if "p' \<in> set (tx_promotions t)" for p'
    using dest_not_own [OF assms(1) numbered_destination [OF num that]] own by (auto simp: pm_destination_def)
  have one: "recoverable hash ?orig (now ?t) p' \<and> settled hash ?orig ?t p'"
    if p': "p' \<in> set (tx_promotions t)" and "recoverable hash ?orig (now t) p'" "settled hash ?orig t p'" for p'
  proof (cases "p' = p")
    case False
    then show ?thesis using others_keep [OF assms(1) num p(1) p', of q ?orig] p(2) that
      by (auto simp: settled_def touched_paths_def)
  next
    case True
    show ?thesis
    proof (cases "q = pm_temporary p")
      case True
      then show ?thesis using that \<open>p' = p\<close> dest [OF p(1)] touched_distinct(3) [OF assms(1) num p(1)]
        by (auto simp: settled_def status_defs split: option.splits)
    next
      case False
      then have b: "pm_backup p = Some q" using p(2) by (auto simp: own_paths_def kept_backup_def split: option.splits)
      then have "untouched ?orig (now t) p" using that \<open>p' = p\<close> assms(4) by (auto simp: settled_def kept_backup_def)
      then show ?thesis using that \<open>p' = p\<close> b dest [OF p(1)] by (auto simp: settled_def recoverable_def untouched_def)
    qed
  qed
  have "rolling hash token fs ?orig ?t []"
    using roll one put_own(1) [OF assms(1) own] by (auto simp: rolling_def journaled_def)
  then show ?thesis using good ph sub put_own(3) [OF assms(1) own] by (auto simp: txn_good_def)
qed

lemma keep_forget [keeps]:
  assumes good: "txn_good hash token fs orig t" and ph: "tx_phase t = Forgetting" and "tx_errors t = []"
  shows "txn_good hash token fs orig (goto Rolled_Back (on_disk (dk_set_journal None) t))"
proof -
  have roll: "rolling hash token fs orig t []" using good ph by (simp add: txn_good_def)
  have "\<forall>p \<in> set (tx_promotions t). untouched orig (now t) p" if "journaled token fs t"
    using roll that assms(3) by (auto simp: rolling_def journaled_def settled_def)
  then have "dests_orig fs orig (now t)"
    using roll numbered_orig [of token fs "tx_promotions t" orig "now t"] by (auto simp: rolling_def journaled_def)
  moreover have "numbered token fs (tx_promotions t)" using roll by (auto simp: rolling_def journaled_def)
  ultimately have "dests_orig fs orig (now t) \<and> numbered token fs (tx_promotions t)" ..
  then show ?thesis using good ph by (simp add: txn_good_def rolling_def)
qed

lemma keep_dispose [keeps]:
  assumes "clean_start hash token fs d0" and good: "txn_good hash token fs (file_at d0) t"
    and ph: "tx_phase t = Disposing (p # ps)" and "pm_backup p = Some b"
  shows "txn_good hash token fs (file_at d0) (goto (Disposing ps) (on_disk (dk_put b None) t))"
    "txn_good hash token fs (file_at d0) (goto (Disposing ps)
      (add_error b [] (on_disk (dk_put (quarantine_path hash token b) None \<circ> dk_rename b (quarantine_path hash token b)) t)))"
    "txn_good hash token fs (file_at d0) (goto (Disposing ps)
      (add_error b [quarantine_path hash token b] (on_disk (dk_rename b (quarantine_path hash token b)) t)))"
proof -
  have "numbered token fs (tx_promotions t)" and "p \<in> set (tx_promotions t)" using good ph by (auto simp: txn_good_def)
  moreover have "b \<in> own_paths p" using assms(4) by (simp add: own_paths_def kept_backup_def)
  ultimately have own: "own_path hash token b" using own_promotion_paths promotion_paths_own by blast
  moreover have "own_path hash token (quarantine_path hash token b)" by (auto simp: own_path_def)
  ultimately show "txn_good hash token fs (file_at d0) (goto (Disposing ps) (on_disk (dk_put b None) t))"
    and "txn_good hash token fs (file_at d0) (goto (Disposing ps)
      (add_error b [] (on_disk (dk_put (quarantine_path hash token b) None \<circ> dk_rename b (quarantine_path hash token b)) t)))"
    and "txn_good hash token fs (file_at d0) (goto (Disposing ps)
      (add_error b [quarantine_path hash token b] (on_disk (dk_rename b (quarantine_path hash token b)) t)))"
    using good ph put_own(2,3) [OF assms(1)] by (simp_all add: txn_good_def)
qed

section \<open>Reachable states\<close>

lemma rollback_keeps:
  assumes "clean_start hash token fs d0" and "rollback_step t t'" and "txn_good hash token fs (file_at d0) t"
  shows "txn_good hash token fs (file_at d0) t'"
  using assms(2,1,3) by (induction rule: rollback_step.induct) (rule keeps; assumption)+

lemma dispose_keeps:
  assumes "clean_start hash token fs d0" and "dispose_step hash token t t'" and "txn_good hash token fs (file_at d0) t"
  shows "txn_good hash token fs (file_at d0) t'"
  using assms(2,1,3) by (induction rule: dispose_step.induct) (rule keeps; assumption)+

lemma step_keeps:
  assumes "clean_start hash token fs d0" and "promote_step hash token dirs t t'" and "txn_good hash token fs (file_at d0) t"
  shows "txn_good hash token fs (file_at d0) t'"
  using assms(2,1,3)
  by (induction rule: promote_step.induct) (rule rollback_keeps dispose_keeps keeps; assumption)+

interpretation promotion: kept_by
  "\<lambda>t. clean_start hash token fs d0 \<and> t = promote_from d0 fs" "promote_step hash token dirs"
  "\<lambda>t. clean_start hash token fs d0 \<and> txn_good hash token fs (file_at d0) t"
  for hash token fs d0 dirs
proof
  fix t assume "clean_start hash token fs d0 \<and> t = promote_from d0 fs"
  then show "clean_start hash token fs d0 \<and> txn_good hash token fs (file_at d0) t"
    by (auto simp: promote_from_def txn_good_def preparing_def framed_def dests_orig_def numbered_def clean_start_def)
qed (auto intro: step_keeps)

section \<open>The temporary file of the journal\<close>

fun rolls_back :: "phase \<Rightarrow> bool" where
  "rolls_back (Restoring _) = True"
| "rolls_back (Cleaning _) = True"
| "rolls_back (Removing_Dirs _) = True"
| "rolls_back Forgetting = True"
| "rolls_back Rolled_Back = True"
| "rolls_back _ = False"

fun writes_journal :: "phase \<Rightarrow> bool" where
  "writes_journal Journaling = True"
| "writes_journal Journal_Open = True"
| "writes_journal Journal_Written = True"
| "writes_journal _ = False"

text \<open>It is there while the journal is written, and after a roll-back that began there.\<close>

definition tmp_ok :: "txn \<Rightarrow> bool" where
  "tmp_ok t \<longleftrightarrow>
     (if dk_journal_tmp (tx_disk t) = None then True
      else tx_promoted t = [] \<and> dk_journal (tx_disk t) = None
        \<and> (writes_journal (tx_phase t) \<or> rolls_back (tx_phase t)))
     \<and> (if writes_journal (tx_phase t)
        then tx_promoted t = [] \<and> dk_journal (tx_disk t) = None else True)"

lemma rollback_tmp: "rollback_step t t' \<Longrightarrow> tmp_ok t \<Longrightarrow> tmp_ok t'"
  by (induction rule: rollback_step.induct) (simp_all add: tmp_ok_def split: if_splits)

lemma dispose_tmp: "dispose_step hash token t t' \<Longrightarrow> tmp_ok t \<Longrightarrow> tmp_ok t'"
  by (induction rule: dispose_step.induct) (simp_all add: tmp_ok_def split: if_splits)

text \<open>What the invariant of the files says when the journal is about to be written\<close>

lemma good_journaling:
  "txn_good hash token fs orig t \<Longrightarrow> tx_phase t = Directories [] \<Longrightarrow> tx_promoted t = [] \<and> dk_journal (tx_disk t) = None"
  by (simp add: step_defs)

lemma step_tmp:
  assumes "promote_step hash token dirs t t'"
    and "tx_phase t = Directories [] \<Longrightarrow> tx_promoted t = [] \<and> dk_journal (tx_disk t) = None" and "tmp_ok t"
  shows "tmp_ok t'"
  using assms
proof (induction rule: promote_step.induct)
  case (roll_back t t')
  then show ?case using rollback_tmp by blast
next
  case (dispose_backup t t')
  then show ?case using dispose_tmp by blast
next
  case (raise t)
  have "\<not> rolls_back (tx_phase t)" using raise(1) by (cases "tx_phase t") simp_all
  then show ?case using raise by (simp add: tmp_ok_def split: if_splits)
qed (simp_all add: tmp_ok_def split: if_splits)

interpretation journal_copy: kept_by
  "\<lambda>t. clean_start hash token fs d0 \<and> t = promote_from d0 fs" "promote_step hash token dirs"
  "\<lambda>t. (clean_start hash token fs d0 \<and> txn_good hash token fs (file_at d0) t) \<and> tmp_ok t"
  for hash token fs d0 dirs
proof
  fix t assume start: "clean_start hash token fs d0 \<and> t = promote_from d0 fs"
  then show "(clean_start hash token fs d0 \<and> txn_good hash token fs (file_at d0) t) \<and> tmp_ok t"
    using promotion.start_good [OF start] by (auto simp: tmp_ok_def promote_from_def clean_start_def)
next
  fix t t'
  assume step: "promote_step hash token dirs t t'"
    and good: "(clean_start hash token fs d0 \<and> txn_good hash token fs (file_at d0) t) \<and> tmp_ok t"
  have "tmp_ok t'" using good by (intro step_tmp [OF step] good_journaling [of hash token fs "file_at d0"]) simp_all
  then show "(clean_start hash token fs d0 \<and> txn_good hash token fs (file_at d0) t') \<and> tmp_ok t'"
    using good step_keeps [OF _ step] by simp
qed

end
