(* ===== verification/File_Recovery.thy ===== *)
theory File_Recovery
  imports File_Atomicity
begin

text \<open>
  Recovery of an interrupted promotion, itself interrupted any number of times, and the properties of
  \<^verbatim>\<open>FileTransaction.promote\<close> for every run: atomicity under crashes, commit, and roll-back.
\<close>

section \<open>Lists of calls\<close>

lemma run_calls_simps [simp]: "run_calls [] d = d" "run_calls (c # cs) d = run_calls cs (c d)"
  by (simp_all add: run_calls_def)

lemma run_calls_append: "run_calls (xs @ ys) d = run_calls ys (run_calls xs d)"
  by (simp add: run_calls_def)

lemma run_calls_keep: "P d \<Longrightarrow> (\<And>c d. c \<in> set cs \<Longrightarrow> P d \<Longrightarrow> P (c d)) \<Longrightarrow> P (run_calls cs d)"
  by (induction cs arbitrary: d) auto

lemma run_calls_establish:
  assumes "P d" and keep: "\<And>c d. c \<in> set cs \<Longrightarrow> P d \<Longrightarrow> P (c d)"
    and "c \<in> set cs" and est: "\<And>d. P d \<Longrightarrow> Q (c d)" and stay: "\<And>c d. c \<in> set cs \<Longrightarrow> P d \<Longrightarrow> Q d \<Longrightarrow> Q (c d)"
  shows "Q (run_calls cs d)"
proof -
  obtain xs ys where cs: "cs = xs @ c # ys" using assms(3) by (auto simp: in_set_conv_decomp)
  have "P (run_calls xs d)" using assms(1) keep cs by (intro run_calls_keep [where P = P]) auto
  then have "P (c (run_calls xs d)) \<and> Q (c (run_calls xs d))" using keep est cs by auto
  then have "P (run_calls ys (c (run_calls xs d))) \<and> Q (run_calls ys (c (run_calls xs d)))"
    using keep stay cs by (intro run_calls_keep [where P = "\<lambda>d. P d \<and> Q d"]) auto
  then show ?thesis by (simp add: cs run_calls_append)
qed

section \<open>One call of the recovery\<close>

definition entry_of :: "promotion \<Rightarrow> journal_entry" where
  "entry_of p = \<lparr>je_destination = pm_destination p, je_temporary = pm_temporary p, je_backup = pm_backup p,
     je_hash = sf_hash (pm_file p)\<rparr>"

lemma entry_of_simps [simp]:
  "je_destination (entry_of p) = pm_destination p" "je_temporary (entry_of p) = pm_temporary p"
  "je_backup (entry_of p) = pm_backup p" "je_hash (entry_of p) = sf_hash (pm_file p)"
  by (simp_all add: entry_of_def)

lemma journal_entries [simp]: "jn_entries (journal_of ps cr) = map entry_of ps"
  by (simp add: journal_of_def entry_of_def)

lemma try_rmdir_simps [simp]: "file_at (try_rmdir q d) = file_at d" "dk_journal (try_rmdir q d) = dk_journal d"
  by (simp_all add: try_rmdir_def)

lemma undo_journal [simp]: "dk_journal (undo_entry hash e d) = dk_journal d"
  "dk_journal (drop_temporary e d) = dk_journal d"
  by (simp_all add: undo_entry_def drop_temporary_def split: option.split)

text \<open>All that recovery needs: nothing strange has changed, and every promotion can be undone.\<close>

definition revocable :: "(string \<Rightarrow> string) \<Rightarrow> string \<Rightarrow> staged_file list \<Rightarrow> disk \<Rightarrow> promotion list \<Rightarrow> disk \<Rightarrow> bool" where
  "revocable hash token fs d0 ps d \<longleftrightarrow> framed hash token fs (file_at d0) (file_at d)
     \<and> (\<forall>p \<in> set ps. recoverable hash (file_at d0) (file_at d) p)"

lemma undo_shape:
  assumes "clean_start hash token fs d0" and num: "numbered token fs ps" and p: "p \<in> set ps"
    and "recoverable hash (file_at d0) (file_at d) p"
  shows "\<exists>a x. a \<in> own_paths p \<and> (x = file_at d a \<or> x = None \<and> pm_backup p = Some a) \<and>
    file_at (undo_entry hash (entry_of p) d) = (file_at d)(a := x, pm_destination p := file_at d0 (pm_destination p))"
proof (cases "pm_backup p")
  case None
  then have "file_at (undo_entry hash (entry_of p) d) =
      (file_at d)(pm_temporary p := file_at d (pm_temporary p), pm_destination p := file_at d0 (pm_destination p))"
    using assms(4) by (auto simp: undo_entry_def recoverable_def is_staged_def fun_eq_iff split: option.splits)
  then show ?thesis by (intro exI [of _ "pm_temporary p"] exI [of _ "file_at d (pm_temporary p)"]) (simp add: own_paths_def)
next
  case (Some b)
  moreover have "b \<noteq> pm_destination p" using touched_distinct(2) [OF assms(1) num p] Some by simp
  ultimately have "file_at (undo_entry hash (entry_of p) d) =
      (file_at d)(b := None, pm_destination p := file_at d0 (pm_destination p))"
    using assms(4) by (auto simp: undo_entry_def recoverable_def untouched_def fun_eq_iff split: option.splits)
  then show ?thesis using Some by (intro exI [of _ b] exI [of _ None]) (simp add: own_paths_def kept_backup_def)
qed

lemma undo_keeps:
  assumes "clean_start hash token fs d0" and num: "numbered token fs ps" and p: "p \<in> set ps"
    and rev: "revocable hash token fs d0 ps d"
  shows "revocable hash token fs d0 ps (undo_entry hash (entry_of p) d)"
    "untouched (file_at d0) (file_at (undo_entry hash (entry_of p) d)) p"
    "p' \<in> set ps \<Longrightarrow> untouched (file_at d0) (file_at d) p' \<Longrightarrow>
      untouched (file_at d0) (file_at (undo_entry hash (entry_of p) d)) p'"
proof -
  let ?g = "file_at (undo_entry hash (entry_of p) d)" and ?orig = "file_at d0"
  have rec: "recoverable hash ?orig (file_at d) p" using rev p by (simp add: revocable_def)
  obtain a x where a: "a \<in> own_paths p" and x: "x = file_at d a \<or> x = None \<and> pm_backup p = Some a"
    and g: "?g = (file_at d)(a := x, pm_destination p := ?orig (pm_destination p))"
    using undo_shape [OF assms(1) num p rec] by blast
  have touched: "a \<in> touched_paths p" "pm_destination p \<in> touched_paths p" using a by (simp_all add: touched_paths_def)
  note others = move_others [OF assms(1) num p _ _ touched, where g = "file_at d" and c = x
      and e = "?orig (pm_destination p)", folded g]
  show here: "untouched ?orig ?g p" by (simp add: g untouched_def)
  then have "recoverable hash ?orig ?g p"
    using rec g x touched_distinct [OF assms(1) num p]
    by (auto simp: untouched_def recoverable_def split: option.splits)
  then have "\<forall>q \<in> set ps. recoverable hash ?orig ?g q" using others(4) rev by (metis revocable_def)
  moreover have "framed hash token fs ?orig ?g"
    using framed_move [OF assms(1) num p a] rev unfolding g by (simp add: revocable_def)
  ultimately show "revocable hash token fs d0 ps (undo_entry hash (entry_of p) d)" by (simp add: revocable_def)
  show "untouched ?orig ?g p'" if "p' \<in> set ps" "untouched ?orig (file_at d) p'"
    using here others(1) that by metis
qed

lemma drop_keeps:
  assumes "clean_start hash token fs d0" and num: "numbered token fs ps" and p: "p \<in> set ps"
    and rev: "revocable hash token fs d0 ps d"
  shows "revocable hash token fs d0 ps (drop_temporary (entry_of p) d)"
    "p' \<in> set ps \<Longrightarrow> untouched (file_at d0) (file_at d) p' \<Longrightarrow>
      untouched (file_at d0) (file_at (drop_temporary (entry_of p) d)) p'"
proof -
  let ?orig = "file_at d0"
  have g: "file_at (drop_temporary (entry_of p) d) = (file_at d)(pm_temporary p := None)"
    by (simp add: drop_temporary_def)
  have temp: "pm_temporary p \<in> own_paths p" "pm_temporary p \<in> touched_paths p" by (simp_all add: own_paths_def touched_paths_def)
  note others = others_keep [OF assms(1) num p _ _ temp(2), where g = "file_at d" and c = None, folded g]
  have own: "own_path hash token (pm_temporary p)"
    using own_promotion_paths [OF num] p temp(1) promotion_paths_own by blast
  have here: "recoverable hash ?orig (file_at d) p \<Longrightarrow> recoverable hash ?orig (file_at (drop_temporary (entry_of p) d)) p"
    "untouched ?orig (file_at d) p \<Longrightarrow> untouched ?orig (file_at (drop_temporary (entry_of p) d)) p"
    using touched_distinct [OF assms(1) num p]
    by (auto simp: g recoverable_def untouched_def is_staged_def split: option.splits)
  have "\<forall>q \<in> set ps. recoverable hash ?orig (file_at (drop_temporary (entry_of p) d)) q"
    using here(1) others(5) rev by (metis revocable_def)
  then show "revocable hash token fs d0 ps (drop_temporary (entry_of p) d)"
    using rev put_own(3) [OF assms(1) own] by (simp add: revocable_def g)
  show "untouched ?orig (file_at (drop_temporary (entry_of p) d)) p'" if "p' \<in> set ps" "untouched ?orig (file_at d) p'"
    using here(2) others(1) that by metis
qed

section \<open>Recovery as a whole\<close>

lemma recovery_call_cases:
  "c \<in> set (recovery_calls hash (journal_of ps cr)) \<Longrightarrow>
    (\<exists>p \<in> set ps. c = undo_entry hash (entry_of p) \<or> c = drop_temporary (entry_of p)) \<or> (\<exists>q. c = try_rmdir q)
      \<or> c = dk_set_journal None"
  by (auto simp: recovery_calls_def)

lemma calls_keep:
  assumes "clean_start hash token fs d0" and "numbered token fs ps"
    and "c \<in> set (recovery_calls hash (journal_of ps cr))" and "revocable hash token fs d0 ps d"
  shows "revocable hash token fs d0 ps (c d)"
    "p' \<in> set ps \<Longrightarrow> untouched (file_at d0) (file_at d) p' \<Longrightarrow> untouched (file_at d0) (file_at (c d)) p'"
  using recovery_call_cases [OF assms(3)] undo_keeps(1,3) [OF assms(1,2) _ assms(4)] drop_keeps [OF assms(1,2) _ assms(4)] assms(4)
  by (auto simp: revocable_def)

lemma run_calls_journal:
  "n < length (recovery_calls hash (journal_of ps cr)) \<Longrightarrow>
    dk_journal (run_calls (take n (recovery_calls hash (journal_of ps cr))) d) = dk_journal d"
  "dk_journal (run_calls (recovery_calls hash (journal_of ps cr)) d) = None"
proof -
  let ?cs = "concat (map (\<lambda>e. [undo_entry hash e, drop_temporary e]) (rev (jn_entries (journal_of ps cr))))
     @ map try_rmdir (rev (jn_created (journal_of ps cr)))"
  have cs: "recovery_calls hash (journal_of ps cr) = ?cs @ [dk_set_journal None]" by (simp add: recovery_calls_def)
  have keep: "dk_journal (run_calls (take n ?cs) d) = dk_journal d"
    by (rule run_calls_keep [where P = "\<lambda>d'. dk_journal d' = dk_journal d"]) (auto dest!: in_set_takeD)
  show "n < length (recovery_calls hash (journal_of ps cr)) \<Longrightarrow>
      dk_journal (run_calls (take n (recovery_calls hash (journal_of ps cr))) d) = dk_journal d"
    using keep unfolding cs by simp
  show "dk_journal (run_calls (recovery_calls hash (journal_of ps cr)) d) = None"
    unfolding cs by (simp add: run_calls_append)
qed

lemma recover_revocable:
  assumes "clean_start hash token fs d0" and num: "numbered token fs ps" and "length ps = length fs"
    and rev: "revocable hash token fs d0 ps d"
  shows "framed hash token fs (file_at d0) (file_at (run_calls (recovery_calls hash (journal_of ps cr)) d))"
    "dests_orig fs (file_at d0) (file_at (run_calls (recovery_calls hash (journal_of ps cr)) d))"
proof -
  let ?cs = "recovery_calls hash (journal_of ps cr)"
  have "revocable hash token fs d0 ps (run_calls ?cs d)"
    by (rule run_calls_keep [where P = "revocable hash token fs d0 ps"]) (use rev calls_keep(1) [OF assms(1,2)] in auto)
  then show "framed hash token fs (file_at d0) (file_at (run_calls ?cs d))" by (simp add: revocable_def)
  have "untouched (file_at d0) (file_at (run_calls ?cs d)) p" if p: "p \<in> set ps" for p
  proof (rule run_calls_establish [where P = "revocable hash token fs d0 ps" and c = "undo_entry hash (entry_of p)"])
    show "undo_entry hash (entry_of p) \<in> set ?cs" using p by (auto simp: recovery_calls_def)
  qed (use rev calls_keep [OF assms(1,2)] undo_keeps(2) [OF assms(1,2) p] p in auto)
  then show "dests_orig fs (file_at d0) (file_at (run_calls ?cs d))" using numbered_orig [OF num assms(3)] by simp
qed

text \<open>The disks a crash can leave: the journal is there and every promotion can be undone, or it is settled.\<close>

definition crashed :: "(string \<Rightarrow> string) \<Rightarrow> string \<Rightarrow> staged_file list \<Rightarrow> disk \<Rightarrow> disk \<Rightarrow> bool" where
  "crashed hash token fs d0 d \<longleftrightarrow>
     dk_journal d = None \<and> framed hash token fs (file_at d0) (file_at d) \<and> dests_orig fs (file_at d0) (file_at d) \<or>
     (\<exists>ps cr. dk_journal d = Some (journal_of ps cr) \<and> numbered token fs ps \<and> length ps = length fs
        \<and> revocable hash token fs d0 ps d)"

lemma crashed_recovery:
  assumes "clean_start hash token fs d0" and "crashed hash token fs d0 d"
  shows "crashed hash token fs d0 (interrupted_recovery hash n d)"
    "framed hash token fs (file_at d0) (file_at (recover hash d))" "dests_orig fs (file_at d0) (file_at (recover hash d))"
    "dk_journal (recover hash d) = None"
proof -
  consider "dk_journal d = None" "framed hash token fs (file_at d0) (file_at d)" "dests_orig fs (file_at d0) (file_at d)"
    | ps cr where "dk_journal d = Some (journal_of ps cr)" "numbered token fs ps" "length ps = length fs"
        "revocable hash token fs d0 ps d"
    using assms(2) unfolding crashed_def by (elim disjE exE conjE) auto
  then have "crashed hash token fs d0 (interrupted_recovery hash n d)
      \<and> framed hash token fs (file_at d0) (file_at (recover hash d)) \<and> dests_orig fs (file_at d0) (file_at (recover hash d))
      \<and> dk_journal (recover hash d) = None"
  proof cases
    case 1
    then show ?thesis using assms(2) by (simp add: recover_def interrupted_recovery_def)
  next
    case 2
    let ?cs = "recovery_calls hash (journal_of ps cr)"
    have whole: "framed hash token fs (file_at d0) (file_at (run_calls ?cs d))"
      "dests_orig fs (file_at d0) (file_at (run_calls ?cs d))" "dk_journal (run_calls ?cs d) = None"
      using recover_revocable [OF assms(1) 2(2,3,4), of cr] run_calls_journal(2) by auto
    have "crashed hash token fs d0 (run_calls (take n ?cs) d)"
    proof (cases "n < length ?cs")
      case True
      have "revocable hash token fs d0 ps (run_calls (take n ?cs) d)"
        by (rule run_calls_keep [where P = "revocable hash token fs d0 ps"])
          (use 2(4) calls_keep(1) [OF assms(1) 2(2)] in \<open>auto dest: in_set_takeD\<close>)
      then show ?thesis using run_calls_journal(1) [OF True, of d] 2 unfolding crashed_def by auto
    next
      case False
      then show ?thesis using whole by (simp add: crashed_def)
    qed
    then show ?thesis using 2(1) whole by (simp add: recover_def interrupted_recovery_def)
  qed
  then show "crashed hash token fs d0 (interrupted_recovery hash n d)"
    "framed hash token fs (file_at d0) (file_at (recover hash d))" "dests_orig fs (file_at d0) (file_at (recover hash d))"
    "dk_journal (recover hash d) = None" by auto
qed

text \<open>Whether the journal has been removed with every file promoted.\<close>

fun past_commit :: "phase \<Rightarrow> bool" where
  "past_commit (Disposing _) = True"
| "past_commit Committed = True"
| "past_commit _ = False"

lemma good_crashed:
  assumes "txn_good hash token fs (file_at d0) t" and "\<not> past_commit (tx_phase t)"
  shows "crashed hash token fs d0 (tx_disk t)"
proof (cases "dk_journal (tx_disk t)")
  case None
  then show ?thesis using assms
    by (cases "tx_phase t") (auto simp: crashed_def step_defs rolling_def)
next
  case (Some j)
  have "journaled token fs t" "\<forall>p \<in> set (tx_promotions t). recoverable hash (file_at d0) (now t) p"
    using assms Some ready_recoverable replaced_recoverable
    by (cases "tx_phase t"; fastforce simp: step_defs rolling_def list_all_iff)+
  then show ?thesis using assms Some by (auto simp: crashed_def journaled_def revocable_def txn_good_def)
qed

lemma crashed_again:
  "clean_start hash token fs d0 \<Longrightarrow> crashed hash token fs d0 d \<Longrightarrow>
    crashed hash token fs d0 (foldl (\<lambda>d n. interrupted_recovery hash n d) d ns)"
  by (induction ns arbitrary: d) (auto intro: crashed_recovery)

lemma no_journal_recovery: "dk_journal d = None \<Longrightarrow> foldl (\<lambda>d n. interrupted_recovery hash n d) d ns = d"
  by (induction ns) (simp_all add: interrupted_recovery_def)

section \<open>A small run\<close>

text \<open>One file replaces one that is there; the contents are their own hash.\<close>

definition sample_file :: staged_file where
  "sample_file = \<lparr>sf_destination = [''a''], sf_staged = [''s''], sf_hash = ''new''\<rparr>"

definition sample_disk :: disk where
  "sample_disk = \<lparr>dk_files = [([''a''], ''old''), ([''s''], ''new'')], dk_dirs = [], dk_journal = None,
     dk_journal_tmp = None\<rparr>"

definition sample_promotion :: promotion where
  "sample_promotion = promotion_of ''t'' 0 sample_file True"

definition sample_start :: txn where
  "sample_start = promote_from sample_disk [sample_file]"

definition sample_planned :: txn where
  "sample_planned = goto (Backup 0 sample_promotion []) (add_promotion sample_promotion (goto (Parents 0 sample_file [] []) sample_start))"

definition sample_saved :: txn where
  "sample_saved = goto (Temporary 0 sample_promotion [])
     (on_disk (dk_put (backup_path ''t'' [''a''] 0) (Some ''old'')) sample_planned)"

definition sample_prepared :: txn where
  "sample_prepared = goto Journaling (goto (Directories []) (goto (Prepare 1 [])
     (on_disk (dk_put (temporary_path ''t'' [''a''] 0) (Some ''new'')) sample_saved)))"

definition sample_journal :: txn where
  "sample_journal = goto Journal_Open (on_disk (dk_write_tmp (Some None)) sample_prepared)"

definition sample_written :: txn where
  "sample_written = goto Journal_Written
     (on_disk (dk_write_tmp (Some (Some (journal_of [sample_promotion] [])))) sample_journal)"

definition sample_crash :: txn where
  "sample_crash = goto (Promoting []) (promote_file sample_promotion (goto (Promoting [sample_promotion])
     (on_disk (dk_write_tmp None \<circ> dk_set_journal (Some (journal_of [sample_promotion] []))) sample_written)))"

definition sample_committed :: txn where
  "sample_committed = goto Committed (goto (Disposing []) (on_disk (dk_put (backup_path ''t'' [''a''] 0) None)
     (goto (Disposing [sample_promotion]) (on_disk (dk_set_journal None)
       (goto Committing (goto (Verifying []) (goto (Verifying [sample_promotion]) sample_crash)))))))"

definition sample_restored :: txn where
  "sample_restored = goto (Cleaning [temporary_path ''t'' [''a''] 0, backup_path ''t'' [''a''] 0])
     (goto (Restoring []) (on_disk (restore_file sample_promotion) (goto (Restoring [sample_promotion]) sample_crash)))"

definition sample_undone :: txn where
  "sample_undone = goto Rolled_Back (on_disk (dk_set_journal None) (goto Forgetting (goto (Removing_Dirs [])
     (goto (Cleaning []) (on_disk (dk_put (backup_path ''t'' [''a''] 0) None)
       (goto (Cleaning [backup_path ''t'' [''a''] 0]) (on_disk (dk_put (temporary_path ''t'' [''a''] 0) None)
         sample_restored)))))))"

text \<open>Writing the journal fails: the roll-back unlinks the copies and ends.\<close>

definition sample_failed :: txn where
  "sample_failed = goto (Cleaning [temporary_path ''t'' [''a''] 0, backup_path ''t'' [''a''] 0])
     (goto (Restoring []) sample_journal)"

definition sample_left :: txn where
  "sample_left = goto Rolled_Back (on_disk (dk_set_journal None) (goto Forgetting (goto (Removing_Dirs [])
     (goto (Cleaning []) (on_disk (dk_put (backup_path ''t'' [''a''] 0) None)
       (goto (Cleaning [backup_path ''t'' [''a''] 0]) (on_disk (dk_put (temporary_path ''t'' [''a''] 0) None)
         sample_failed)))))))"

lemma sample_promotion_simps [simp]:
  "pm_file sample_promotion = sample_file" "pm_destination sample_promotion = [''a'']"
  "pm_backup sample_promotion = Some (backup_path ''t'' [''a''] 0)"
  "pm_temporary sample_promotion = temporary_path ''t'' [''a''] 0"
  by (simp_all add: sample_promotion_def sample_file_def promotion_of_def pm_destination_def)

lemma sample_names [simp]:
  "temporary_path ''t'' [''a''] 0 \<noteq> [''a'']" "backup_path ''t'' [''a''] 0 \<noteq> [''a'']"
  "temporary_path ''t'' [''a''] 0 \<noteq> [''s'']" "backup_path ''t'' [''a''] 0 \<noteq> [''s'']"
  "[''a''] \<noteq> temporary_path ''t'' [''a''] 0" "[''a''] \<noteq> backup_path ''t'' [''a''] 0"
  "[''s''] \<noteq> temporary_path ''t'' [''a''] 0" "[''s''] \<noteq> backup_path ''t'' [''a''] 0"
  "temporary_path ''t'' [''a''] 0 \<noteq> backup_path ''t'' [''a''] 0" "backup_path ''t'' [''a''] 0 \<noteq> temporary_path ''t'' [''a''] 0"
  by (simp_all add: temporary_path_def backup_path_def beside_def)

lemma own_path_dot: "own_path hash token q \<Longrightarrow> q \<noteq> [] \<and> hd (last q) = CHR ''.''"
  by (auto simp: own_path_def temporary_path_def backup_path_def quarantine_path_def beside_def)

lemma sample_clean: "clean_start (\<lambda>c. c) ''t'' [sample_file] sample_disk"
  using own_path_dot [of "\<lambda>c. c" "''t''" "[''a'']"] own_path_dot [of "\<lambda>c. c" "''t''" "[''s'']"]
  by (auto simp: clean_start_def sample_disk_def sample_file_def file_at_def)

lemma sample_files [simp]:
  "file_at sample_disk [''a''] = Some ''old''" "file_at sample_disk [''s''] = Some ''new''"
  "file_at sample_disk (temporary_path ''t'' [''a''] 0) = None" "file_at sample_disk (backup_path ''t'' [''a''] 0) = None"
  by (simp_all add: sample_disk_def file_at_def temporary_path_def backup_path_def beside_def)

lemma start_simps [simp]:
  "tx_phase sample_start = Prepare 0 [sample_file]" "tx_disk sample_start = sample_disk" "tx_promotions sample_start = []"
  "tx_promoted sample_start = []" "tx_created sample_start = []" "tx_errors sample_start = []" "tx_preserved sample_start = []"
  by (simp_all add: sample_start_def promote_from_def)

lemma sample_file_simps [simp]:
  "sf_destination sample_file = [''a'']" "sf_staged sample_file = [''s'']" "sf_hash sample_file = ''new''"
  by (simp_all add: sample_file_def)

lemma missing_root [simp]: "missing_dirs d [] = []"
  by (subst missing_dirs.simps) (simp add: dk_exists_def)

abbreviation sample_reaches :: "txn \<Rightarrow> bool" where
  "sample_reaches \<equiv> reaches (\<lambda>t. clean_start (\<lambda>c. c) ''t'' [sample_file] sample_disk \<and> t = promote_from sample_disk [sample_file])
     (promote_step (\<lambda>c. c) ''t'' [])"

lemma planned_simps [simp]:
  "tx_phase sample_planned = Backup 0 sample_promotion []" "tx_disk sample_planned = sample_disk"
  "tx_promotions sample_planned = [sample_promotion]" "tx_promoted sample_planned = []"
  "tx_created sample_planned = []" "tx_errors sample_planned = []" "tx_preserved sample_planned = []"
  by (simp_all add: sample_planned_def)

lemma saved_simps [simp]:
  "tx_phase sample_saved = Temporary 0 sample_promotion []"
  "tx_disk sample_saved = dk_put (backup_path ''t'' [''a''] 0) (Some ''old'') sample_disk"
  "tx_promotions sample_saved = [sample_promotion]" "tx_promoted sample_saved = []"
  "tx_created sample_saved = []" "tx_errors sample_saved = []" "tx_preserved sample_saved = []"
  by (simp_all add: sample_saved_def)

lemma sample_further: "promote_step (\<lambda>c. c) ''t'' [] t t' \<Longrightarrow> sample_reaches t \<Longrightarrow> sample_reaches t'"
  by (rule reaches.further)

lemmas go = promote_step.intros [where hash = "\<lambda>c. c" and token = "''t''" and dirs = "[]", THEN sample_further, rotated -1]

lemmas go_back = rollback_step.intros [THEN promote_step.roll_back [where hash = "\<lambda>c. c" and token = "''t''" and dirs = "[]"],
  THEN sample_further, rotated -1]

lemmas go_dispose = dispose_step.intros [where hash = "\<lambda>c. c" and token = "''t''",
  THEN promote_step.dispose_backup [where dirs = "[]"], THEN sample_further, rotated -1]

lemma sample_begin: "sample_reaches sample_start"
  by (rule reaches.initially) (simp add: sample_clean sample_start_def)

lemma sample_reaches_planned: "sample_reaches sample_planned"
proof -
  have "sample_reaches (goto (Parents 0 sample_file (missing_dirs (tx_disk sample_start) (butlast (sf_destination sample_file))) []) sample_start)"
    by (rule go(1) [OF sample_begin, where c = "''new''"]) simp_all
  then have "sample_reaches (goto (Parents 0 sample_file [] []) sample_start)" by simp
  then show ?thesis
    unfolding sample_planned_def sample_promotion_def by (rule go(3)) (simp_all add: dk_exists_def)
qed

lemma sample_reaches_saved: "sample_reaches sample_saved"
proof -
  let ?b = "backup_path ''t'' [''a''] 0"
  have "sample_reaches (on_disk (dk_put ?b (Some (take 3 ''old''))) sample_planned)"
    by (rule go(5) [OF sample_reaches_planned, where p = sample_promotion and i = 0 and fs = "[]" and k = 0]) simp_all
  then have "sample_reaches (on_disk (dk_put ?b (Some ''old'')) sample_planned)" by simp
  then show ?thesis
    unfolding sample_saved_def
    by (rule go(6) [where b = ?b and c = "''old''"]) simp_all
qed

lemma sample_reaches_prepared: "sample_reaches sample_prepared"
proof -
  let ?q = "temporary_path ''t'' [''a''] 0"
  have "sample_reaches (on_disk (dk_put ?q (Some (take 3 ''new''))) sample_saved)"
    using go(7) [OF sample_reaches_saved, where p = sample_promotion and i = 0 and fs = "[]" and k = 0 and n = 3 and c = "''new''"]
    by simp
  then have "sample_reaches (on_disk (dk_put ?q (Some ''new'')) sample_saved)" by simp
  then have "sample_reaches (goto (Prepare (Suc 0) []) (on_disk (dk_put ?q (Some ''new'')) sample_saved))"
    by (rule go(8) [where c = "''new''" and p = sample_promotion]) simp_all
  then show ?thesis
    unfolding sample_prepared_def One_nat_def by (intro go(13) go(9)) simp_all
qed

lemma prepared_simps [simp]:
  "tx_phase sample_prepared = Journaling" "tx_promotions sample_prepared = [sample_promotion]"
  "tx_promoted sample_prepared = []" "tx_created sample_prepared = []" "tx_errors sample_prepared = []"
  "tx_preserved sample_prepared = []"
  "tx_disk sample_prepared = dk_put (temporary_path ''t'' [''a''] 0) (Some ''new'')
     (dk_put (backup_path ''t'' [''a''] 0) (Some ''old'') sample_disk)"
  by (simp_all add: sample_prepared_def)

lemma sample_disk_dirs [simp]:
  "dk_dirs (dk_put p c d) = dk_dirs d" "dk_dirs (dk_set_journal j d) = dk_dirs d" "dk_dirs sample_disk = []"
  "dk_dirs (dk_write_tmp x d) = dk_dirs d" "dk_journal_tmp sample_disk = None"
  by (simp_all add: dk_put_def dk_set_journal_def dk_write_tmp_def sample_disk_def split: option.split)

lemma sample_reaches_journal: "sample_reaches sample_journal"
  unfolding sample_journal_def by (rule go(14) [OF sample_reaches_prepared]) simp_all

lemma journal_simps [simp]:
  "tx_phase sample_journal = Journal_Open" "tx_promotions sample_journal = [sample_promotion]"
  "tx_promoted sample_journal = []" "tx_created sample_journal = []" "tx_errors sample_journal = []"
  "tx_preserved sample_journal = []" "tx_disk sample_journal = dk_write_tmp (Some None) (tx_disk sample_prepared)"
  by (simp_all add: sample_journal_def)

lemma sample_reaches_crash: "sample_reaches sample_crash"
proof -
  have "sample_reaches (goto Journal_Written (on_disk (dk_write_tmp
      (Some (Some (journal_of (tx_promotions sample_journal) (tx_created sample_journal))))) sample_journal))"
    by (rule go(15) [OF sample_reaches_journal]) simp
  then have "sample_reaches sample_written" by (simp add: sample_written_def)
  then have "sample_reaches (goto (Promoting (tx_promotions sample_written))
      (on_disk (dk_write_tmp None \<circ> dk_set_journal (Some (journal_of [sample_promotion] []))) sample_written))"
    by (rule go(16)) (simp_all add: sample_written_def)
  then have "sample_reaches (goto (Promoting [sample_promotion])
      (on_disk (dk_write_tmp None \<circ> dk_set_journal (Some (journal_of [sample_promotion] []))) sample_written))"
    by (simp add: sample_written_def)
  then show ?thesis unfolding sample_crash_def by (rule go(17)) (simp_all add: sample_written_def)
qed

lemma crash_simps [simp]:
  "tx_phase sample_crash = Promoting []" "tx_promotions sample_crash = [sample_promotion]"
  "tx_promoted sample_crash = [sample_promotion]" "tx_created sample_crash = []" "tx_errors sample_crash = []"
  "tx_preserved sample_crash = []"
  "tx_disk sample_crash = dk_rename (temporary_path ''t'' [''a''] 0) [''a'']
     (dk_write_tmp None (dk_set_journal (Some (journal_of [sample_promotion] [])) (tx_disk sample_written)))"
  by (simp_all add: sample_crash_def sample_written_def)

lemma written_files [simp]: "file_at (tx_disk sample_written) = file_at (tx_disk sample_prepared)"
  by (simp add: sample_written_def)

lemma sample_reaches_committed: "sample_reaches sample_committed"
proof -
  have "sample_reaches (goto (Verifying (tx_promotions sample_crash)) sample_crash)"
    by (rule go(18) [OF sample_reaches_crash]) simp
  then have "sample_reaches (goto (Verifying [sample_promotion]) sample_crash)" by simp
  then have "sample_reaches (goto (Verifying []) (goto (Verifying [sample_promotion]) sample_crash))"
    by (rule go(19) [where c = "''new''" and p = sample_promotion]) simp_all
  then have "sample_reaches (goto Committing (goto (Verifying []) (goto (Verifying [sample_promotion]) sample_crash)))"
    by (rule go(20)) simp
  from go(21) [OF this] show ?thesis
    unfolding sample_committed_def by (intro go(27) go_dispose(2) [where p = sample_promotion]) simp_all
qed

lemma sample_reaches_undone: "sample_reaches sample_undone"
proof -
  have "sample_reaches (goto (Restoring (rev (tx_promoted sample_crash))) sample_crash)"
    by (rule go(22) [OF sample_reaches_crash]) simp
  then have "sample_reaches (goto (Restoring [sample_promotion]) sample_crash)" by simp
  then have "sample_reaches (goto (Restoring []) (on_disk (restore_file sample_promotion) (goto (Restoring [sample_promotion]) sample_crash)))"
    by (rule go_back(1)) (simp_all add: kept_backup_def)
  from go_back(3) [OF this] have restored: "sample_reaches sample_restored"
    unfolding sample_restored_def by (simp add: promotion_paths_def)
  have "sample_reaches (goto (Cleaning []) (on_disk (dk_put (backup_path ''t'' [''a''] 0) None)
       (goto (Cleaning [backup_path ''t'' [''a''] 0]) (on_disk (dk_put (temporary_path ''t'' [''a''] 0) None) sample_restored))))"
    by (rule go_back(5), rule go_back(5), rule restored) (simp_all add: sample_restored_def)
  from go_back(7) [OF this] show ?thesis
    unfolding sample_undone_def by (intro go(24) go_back(11)) (simp_all add: sample_restored_def firsts_def)
qed

lemma sample_reaches_left: "sample_reaches sample_left"
proof -
  have "sample_reaches (goto (Restoring (rev (tx_promoted sample_journal))) sample_journal)"
    by (rule go(22) [OF sample_reaches_journal]) simp
  then have "sample_reaches (goto (Restoring []) sample_journal)" by simp
  from go_back(3) [OF this] have failed: "sample_reaches sample_failed"
    unfolding sample_failed_def by (simp add: promotion_paths_def)
  have "sample_reaches (goto (Cleaning []) (on_disk (dk_put (backup_path ''t'' [''a''] 0) None)
       (goto (Cleaning [backup_path ''t'' [''a''] 0]) (on_disk (dk_put (temporary_path ''t'' [''a''] 0) None) sample_failed))))"
    by (rule go_back(5), rule go_back(5), rule failed) (simp_all add: sample_failed_def)
  from go_back(7) [OF this] show ?thesis
    unfolding sample_left_def by (intro go(24) go_back(11)) (simp_all add: sample_failed_def firsts_def)
qed

section \<open>The properties\<close>

abbreviation promotes :: "(string \<Rightarrow> string) \<Rightarrow> string \<Rightarrow> path list \<Rightarrow> disk \<Rightarrow> staged_file list \<Rightarrow> txn \<Rightarrow> bool" where
  "promotes hash token dirs d0 fs \<equiv>
     reaches (\<lambda>t. clean_start hash token fs d0 \<and> t = promote_from d0 fs) (promote_step hash token dirs)"

text \<open>
  C2. A promotion is atomic under crashes. Take any state it reaches and let the process die there; let the
  recovery die any number of times after any number of its calls, then run once to its end. Every destination
  then holds what it held before the transaction when the journal had not been removed with all files
  promoted, and the staged content otherwise; no other file but the transaction's own has changed.
\<close>

theorem promotion_crash_atomic:
  assumes "promotes hash token dirs d0 fs t"
    and "d = recover hash (foldl (\<lambda>d n. interrupted_recovery hash n d) (tx_disk t) ns)"
  shows "framed hash token fs (file_at d0) (file_at d)
    \<and> (if past_commit (tx_phase t) then dests_new fs (file_at d0) (file_at d) else dests_orig fs (file_at d0) (file_at d))"
proof -
  have clean: "clean_start hash token fs d0" and good: "txn_good hash token fs (file_at d0) t"
    using promotion.reached_good [OF assms(1)] by simp_all
  show ?thesis
  proof (cases "past_commit (tx_phase t)")
    case False
    then show ?thesis
      using crashed_recovery(2,3) [OF clean crashed_again [OF clean good_crashed [OF good False]]] assms(2) by simp
  next
    case True
    then have "dk_journal (tx_disk t) = None" "dests_new fs (file_at d0) (now t)"
      using good by (cases "tx_phase t"; simp add: txn_good_def)+
    then show ?thesis using assms(2) good True by (simp add: recover_def no_journal_recovery txn_good_def)
  qed
qed

theorem promotion_crash_atomic_witness:
  "file_at (tx_disk sample_crash) [''a''] = Some ''new''
   \<and> file_at (recover (\<lambda>c. c) (foldl (\<lambda>d n. interrupted_recovery (\<lambda>c. c) n d) (tx_disk sample_crash) [1])) [''a''] = Some ''old''"
  using promotion_crash_atomic [OF sample_reaches_crash refl, of "[1]"] by (simp add: dests_orig_def del: foldl_Cons)

text \<open>
  A transaction that ends as committed has promoted every file: each destination holds the content that was
  staged for it, nothing but the destinations and the transaction's own files has changed, and no journal is left.
\<close>

theorem promotion_commits_all:
  assumes "promotes hash token dirs d0 fs t" and "tx_phase t = Committed"
  shows "list_all (\<lambda>f. file_at (tx_disk t) (sf_destination f) = file_at d0 (sf_staged f) \<and> file_at d0 (sf_staged f) \<noteq> None) fs
    \<and> framed hash token fs (file_at d0) (file_at (tx_disk t)) \<and> dk_journal (tx_disk t) = None"
  using promotion.reached_good [OF assms(1)] assms(2) by (simp add: txn_good_def dests_new_def list_all_iff)

theorem promotion_commits_all_witness:
  "tx_phase sample_committed = Committed \<and> file_at (tx_disk sample_committed) [''a''] = Some ''new''
   \<and> dk_journal (tx_disk sample_committed) = None"
proof -
  have "tx_phase sample_committed = Committed" by (simp add: sample_committed_def)
  with promotion_commits_all [OF sample_reaches_committed this] show ?thesis by simp
qed

text \<open>
  C19. A transaction that is rolled back with nothing to report has restored the files: the destinations, the
  transaction's own temporary copies and backups, and every other file but two are what they were before. The two
  are the journal, whose removal is tried and not reported when it fails, and the temporary file the journal is
  written to. That file is left only if the exception came while the journal was being written: then no
  file had been promoted and no journal is there. That it is left then is theorem
  \<^verbatim>\<open>journal_copy_left\<close>.
\<close>

theorem rolled_back_restores_files:
  assumes "promotes hash token dirs d0 fs t" and "tx_phase t = Rolled_Back" and "tx_errors t = []"
  shows "file_at (tx_disk t) q = file_at d0 q
    \<and> (dk_journal_tmp (tx_disk t) = None \<or> tx_promoted t = [] \<and> dk_journal (tx_disk t) = None)"
proof -
  have tmp: "dk_journal_tmp (tx_disk t) = None \<or> tx_promoted t = [] \<and> dk_journal (tx_disk t) = None"
    using journal_copy.reached_good [OF assms(1)] by (simp add: tmp_ok_def split: if_splits)
  have clean: "clean_start hash token fs d0" and good: "txn_good hash token fs (file_at d0) t"
    using promotion.reached_good [OF assms(1)] by simp_all
  have "rolling hash token fs (file_at d0) t []" using good assms(2) by (simp add: txn_good_def)
  then have "dests_orig fs (file_at d0) (now t)"
    using numbered_orig [of token fs "tx_promotions t" "file_at d0" "now t"] assms(3)
    by (auto simp: rolling_def journaled_def settled_def)
  then show ?thesis
    using good clean assms(2,3) tmp
    by (cases "own_path hash token q") (auto simp: txn_good_def framed_def dests_orig_def clean_start_def)
qed

theorem rolled_back_restores_files_witness:
  "tx_phase sample_undone = Rolled_Back \<and> tx_errors sample_undone = []
   \<and> file_at (tx_disk sample_undone) [''a''] = Some ''old''
   \<and> file_at (tx_disk sample_undone) (temporary_path ''t'' [''a''] 0) = None"
proof -
  have ends: "tx_phase sample_undone = Rolled_Back" "tx_errors sample_undone = []"
    by (simp_all add: sample_undone_def sample_restored_def)
  from rolled_back_restores_files [OF sample_reaches_undone ends] ends show ?thesis by simp
qed

text \<open>
  When writing the journal fails (a full disk), \<^verbatim>\<open>_write_journal\<close> leaves its temporary file behind: the roll-back
  reports no error, and neither it nor a later recovery, which looks for the journal only, removes it.
\<close>

theorem journal_copy_left:
  "sample_reaches sample_left \<and> tx_phase sample_left = Rolled_Back \<and> tx_errors sample_left = []
   \<and> dk_journal_tmp (tx_disk sample_left) = Some None
   \<and> recover (\<lambda>c. c) (tx_disk sample_left) = tx_disk sample_left"
  using sample_reaches_left by (simp add: sample_left_def sample_failed_def recover_def)

lemma find_rev_Cons:
  "find P (rev (x # xs)) = (if P x \<and> \<not> list_ex P xs then Some x else find P (rev xs))"
proof -
  have snoc: "find P (ys @ [x]) = (case find P ys of None \<Rightarrow> if P x then Some x else None | Some y \<Rightarrow> Some y)" for ys
    by (induction ys) auto
  have "find P (rev xs) = None \<longleftrightarrow> \<not> list_ex P xs" by (auto simp: find_None_iff list_ex_iff)
  then show ?thesis by (auto simp: snoc split: option.split)
qed

text \<open>
  Of the files staged for one destination the last is promoted: the resolved destinations that are left
  are those of all files, each once, and the file that is left for one is the last file staged for it.
\<close>

theorem last_writer_wins:
  "map (\<lambda>f. resolve (sf_destination f)) (last_writers resolve fs) = remdups (map (\<lambda>f. resolve (sf_destination f)) fs)
   \<and> find (\<lambda>f. resolve (sf_destination f) = k) (last_writers resolve fs) = find (\<lambda>f. resolve (sf_destination f) = k) (rev fs)"
proof (induction fs)
  case (Cons f fs)
  have "list_ex (\<lambda>g. resolve (sf_destination g) = resolve (sf_destination f)) fs \<longleftrightarrow>
      resolve (sf_destination f) \<in> set (map (\<lambda>g. resolve (sf_destination g)) fs)"
    by (auto simp: list_ex_iff image_iff) metis+
  then show ?case using Cons by (auto simp: find_rev_Cons simp del: rev.simps(2))
qed simp

end
