(* ===== verification/Change_Kind.thy ===== *)
theory Change_Kind
  imports Diff_Contract
begin

text \<open>
  The check of a declared change kind against the changes of a model version
  (\<^verbatim>\<open>_validate_change_kind\<close> of \<^verbatim>\<open>cli/src/modelable/validation/semantic.py\<close>): an additive version must not break
  the one before it, a breaking version must. It is accepted exactly on the contract of theory
  \<^verbatim>\<open>Diff_Contract\<close>.
\<close>

definition origin_str :: "field_origin \<Rightarrow> string" where
  "origin_str origin =
     (case origin of Inherited \<Rightarrow> ''inherited'' | AddOrigin \<Rightarrow> ''add'' | RenameOrigin \<Rightarrow> ''rename'' | ReplaceOrigin \<Rightarrow> ''replace'')"

text \<open>The operation of an \<^verbatim>\<open>evolves\<close> declaration that a field comes from, for the message.\<close>

definition operation_note :: "model_version \<Rightarrow> string \<Rightarrow> string" where
  "operation_note v name =
     (case List.find (\<lambda>p. fp_field_name p = name \<and> fp_origin p \<noteq> Inherited) (mv_provenance v) of
        None \<Rightarrow> []
      | Some p \<Rightarrow> '' (via evolves '' @ origin_str (fp_origin p) @ '')'')"

definition change_note :: "field_change \<Rightarrow> model_version \<Rightarrow> string" where
  "change_note c current =
     (if fc_note c \<noteq> [] then '' ('' @ fc_note c @ '')'' else operation_note current (fc_field_name c))"

text \<open>What a change contributes to the list of incompatible changes: nothing, or one text.\<close>

definition incompatible_change :: "model_version \<Rightarrow> field_change \<Rightarrow> string list" where
  "incompatible_change current c =
     (if \<not> is_field_change_breaking c then []
      else if fc_kind c = ''added_field'' then
        (case find_field current (fc_field_name c) of
           Some f \<Rightarrow> if fd_optional f then [] else [''added required field '' @ fc_field_name c @ operation_note current (fc_field_name c)]
         | None \<Rightarrow> [''added required field '' @ fc_field_name c @ operation_note current (fc_field_name c)])
      else if fc_kind c = ''presence_changed'' then
        (if is_optionality_breaking c then [''presence change '' @ fc_field_name c] else [])
      else [fc_kind c @ '' '' @ fc_field_name c @ change_note c current])"

definition incompatible_changes :: "model_version \<Rightarrow> model_version \<Rightarrow> string list" where
  "incompatible_changes previous current =
     concat (map (incompatible_change current) (compare_model_versions previous current))"

definition validate_change_kind :: "string \<Rightarrow> model_version \<Rightarrow> model_version \<Rightarrow> string option" where
  "validate_change_kind fqn previous current =
     (let changes = incompatible_changes previous current; context = fqn @ ''@'' @ int_str (mv_version current) in
      case mv_change_kind current of
        Additive \<Rightarrow>
          if changes \<noteq> []
          then Some (context @ '': additive declaration includes incompatible changes: '' @ join '', '' changes)
          else None
      | Breaking \<Rightarrow>
          if changes = []
          then Some (context @ '': breaking declaration must include at least one incompatible change'')
          else None)"

section \<open>Every breaking change is counted\<close>

lemma added_only:
  assumes "c \<in> set (compare_model_versions old new)" and "fc_kind c = ''added_field''" and "is_field_change_breaking c"
    and "unique_fields new"
  shows "\<exists>f. find_field new (fc_field_name c) = Some f \<and> \<not> fd_optional f"
proof -
  obtain mn where "c \<in> set (added_changes old new mn)" using plain_or_added [OF assms(1)] assms(2) by blast
  then obtain f where f: "f \<in> set (mv_fields new)" and c: "fc_field_name c = fd_name f" "fc_to_optional c = Some (fd_optional f)"
    by (auto simp: added_changes_def mk_change_def)
  have "\<not> fd_optional f"
    using assms(2,3) c(2) plain_or_added [OF assms(1)]
    by (auto simp: is_field_change_breaking_def is_optionality_breaking_def is_nullability_breaking_def breaking_kinds_def)
  then show ?thesis using find_own_field [OF assms(4) f] c(1) by auto
qed

lemma counted:
  assumes "c \<in> set (compare_model_versions old new)" and "unique_fields new"
  shows "incompatible_change new c = [] \<longleftrightarrow> \<not> is_field_change_breaking c"
proof -
  have plain: "fc_breaking_override c = None" using plain_comparison [of old new] assms(1) by (simp add: list_all_iff)
  have "is_optionality_breaking c" if "is_field_change_breaking c" "fc_kind c = ''presence_changed''"
    using that plain by (auto simp: is_field_change_breaking_def is_nullability_breaking_def breaking_kinds_def)
  moreover have "\<exists>f. find_field new (fc_field_name c) = Some f \<and> \<not> fd_optional f"
    if "is_field_change_breaking c" "fc_kind c = ''added_field''"
    using added_only [OF assms(1) that(2,1) assms(2)] .
  ultimately show ?thesis by (auto simp: incompatible_change_def split: option.split)
qed

lemma incompatible_changes_Nil:
  "unique_fields new \<Longrightarrow> incompatible_changes old new = [] \<longleftrightarrow> \<not> has_breaking_change (compare_model_versions old new)"
  using counted by (auto simp: incompatible_changes_def has_breaking_change_def list_ex_iff)

text \<open>
  C4. A declared change kind is accepted exactly when it is true. An additive version is accepted if and only if
  no field is renamed and it keeps the contract of the version before it; a breaking version if and only
  if it does not.
\<close>

theorem change_kind_exact:
  assumes "unique_fields old" and "unique_fields new"
  shows "validate_change_kind fqn old new = None \<longleftrightarrow>
    (mv_change_kind new = Additive \<longleftrightarrow> no_renames old new \<and> model_compatible old new)"
  using incompatible_changes_Nil [OF assms(2), of old] model_compatible_iff [OF assms]
  by (auto simp: validate_change_kind_def Let_def split: change_kind.split)

theorem change_kind_exact_witness:
  "validate_change_kind ''shop.Order'' (version_of [field_n ''id'' [AnnKey] False])
     ((version_of [field_n ''id'' [AnnKey] False, field_n ''note'' [] False])\<lparr>mv_version := 2\<rparr>)
   = Some ''shop.Order@2: additive declaration includes incompatible changes: added required field note''
   \<and> \<not> model_compatible (version_of [field_n ''id'' [AnnKey] False])
     ((version_of [field_n ''id'' [AnnKey] False, field_n ''note'' [] False])\<lparr>mv_version := 2\<rparr>)"
proof -
  let ?old = "version_of [field_n ''id'' [AnnKey] False]"
  let ?new = "(version_of [field_n ''id'' [AnnKey] False, field_n ''note'' [] False])\<lparr>mv_version := 2\<rparr>"
  have report: "validate_change_kind ''shop.Order'' ?old ?new
      = Some ''shop.Order@2: additive declaration includes incompatible changes: added required field note''"
    by code_simp
  have "no_renames ?old ?new" by code_simp
  moreover have "unique_fields ?old" "unique_fields ?new" "mv_change_kind ?new = Additive" by (simp_all add: witness_simps)
  ultimately show ?thesis using change_kind_exact [of ?old ?new "''shop.Order''"] report by simp
qed

end
