(* ===== verification/Evolution.thy ===== *)
theory Evolution
  imports Change_Kind Py_Equal
begin

text \<open>
  The expansion of \<^verbatim>\<open>evolves @ N\<close> declarations into complete model versions
  (\<^verbatim>\<open>_expand_model_evolutions\<close> of \<^verbatim>\<open>cli/src/modelable/compiler/workspace.py\<close>) and its inverse, the delta between two
  complete versions (\<^verbatim>\<open>compiler/version_delta.py\<close>) with the declaration built from it
  (\<^verbatim>\<open>refactor/compact_version.py\<close>). Errors are constructors instead of message texts. The diagnostics of
  \<^verbatim>\<open>_validate_models\<close> on an expanded version are left out: they are appended to the list of errors and
  change nothing else.
\<close>

section \<open>Operations on fields\<close>

datatype operation_error =
    AddDuplicate string
  | RemoveUnknown string
  | RenameUnknown string
  | RenameOccupied string
  | ReplaceUnknown string

text \<open>\<^verbatim>\<open>field.model_copy(update={"name": n})\<close>\<close>

fun named :: "string \<Rightarrow> field_def \<Rightarrow> field_def" where
  "named n (FieldDef _ t opt nul def anns cs) = FieldDef n t opt nul def anns cs"

text \<open>\<^verbatim>\<open>next((i for i, f in enumerate(fields) if f.name == name), None)\<close>\<close>

fun index_of :: "string \<Rightarrow> field_def list \<Rightarrow> nat option" where
  "index_of n [] = None"
| "index_of n (f # fs) = (if fd_name f = n then Some 0 else map_option Suc (index_of n fs))"

definition has_field :: "string \<Rightarrow> field_def list \<Rightarrow> bool" where
  "has_field n fs \<longleftrightarrow> list_ex (\<lambda>f. fd_name f = n) fs"

text \<open>\<^verbatim>\<open>del xs[i]\<close>\<close>

definition del_nth :: "nat \<Rightarrow> 'a list \<Rightarrow> 'a list" where
  "del_nth i xs = take i xs @ drop (Suc i) xs"

definition provenance_of :: "string \<Rightarrow> field_origin \<Rightarrow> string option \<Rightarrow> field_provenance" where
  "provenance_of n origin from = \<lparr>fp_field_name = n, fp_origin = origin, fp_renamed_from = from\<rparr>"

text \<open>The fields of the new version so far, and where each comes from.\<close>

type_synonym evolving = "field_def list \<times> field_provenance list"

fun apply_operation :: "evolution_operation \<Rightarrow> evolving \<Rightarrow> operation_error + evolving" where
  "apply_operation (AddFieldOp f) (fs, ps) =
     (if has_field (fd_name f) fs then Inl (AddDuplicate (fd_name f))
      else Inr (fs @ [f], ps @ [provenance_of (fd_name f) AddOrigin None]))"
| "apply_operation (RemoveFieldOp n) (fs, ps) =
     (case index_of n fs of
        None \<Rightarrow> Inl (RemoveUnknown n)
      | Some i \<Rightarrow> Inr (del_nth i fs, del_nth i ps))"
| "apply_operation (RenameFieldOp old new) (fs, ps) =
     (case index_of old fs of
        None \<Rightarrow> Inl (RenameUnknown old)
      | Some i \<Rightarrow>
          if new \<noteq> old \<and> has_field new fs then Inl (RenameOccupied new)
          else Inr (fs[i := named new (fs ! i)], ps[i := provenance_of new RenameOrigin (Some old)]))"
| "apply_operation (ReplaceFieldOp f) (fs, ps) =
     (case index_of (fd_name f) fs of
        None \<Rightarrow> Inl (ReplaceUnknown (fd_name f))
      | Some i \<Rightarrow> Inr (fs[i := f], ps[i := provenance_of (fd_name f) ReplaceOrigin (fp_renamed_from (ps ! i))]))"

fun apply_operations :: "evolution_operation list \<Rightarrow> evolving \<Rightarrow> operation_error + evolving" where
  "apply_operations [] st = Inr st"
| "apply_operations (p # ps) st = sbind (apply_operation p st) (apply_operations ps)"

section \<open>Expansion\<close>

datatype evolution_error =
    VersionDeclared
  | NoPriorVersion
  | NotBefore int
  | NotHighest int int
  | KindMismatch model_kind model_kind
  | BadOperation operation_error
  | BadChangeKind string

definition inherited :: "field_def list \<Rightarrow> evolving" where
  "inherited fs = (fs, map (\<lambda>f. provenance_of (fd_name f) Inherited None) fs)"

definition expanded_version :: "model_evolution \<Rightarrow> model_version \<Rightarrow> evolving \<Rightarrow> model_version" where
  "expanded_version ev base st =
     \<lparr>mv_model_kind = ev_model_kind ev, mv_version = ev_version ev, mv_change_kind = ev_change_kind ev,
      mv_fields = fst st,
      mv_access = (case ev_access ev of Some a \<Rightarrow> Some a | None \<Rightarrow> mv_access base),
      mv_has_version_header = True, mv_has_change_kind = ev_has_change_kind ev,
      mv_annotations = (if ev_annotations ev \<noteq> [] then ev_annotations ev else mv_annotations base),
      mv_protobuf_reservations = ev_protobuf_reservations ev, mv_provenance = snd st\<rparr>"

text \<open>\<^verbatim>\<open>max(lower_versions, key=..., default=None)\<close>\<close>

definition highest_lower :: "model_version list \<Rightarrow> model_evolution \<Rightarrow> model_version option" where
  "highest_lower existing ev = max_by mv_version (filter (\<lambda>v. mv_version v < ev_version ev) existing)"

definition expand_evolution :: "model_version list \<Rightarrow> model_evolution \<Rightarrow> evolution_error + model_version" where
  "expand_evolution existing ev =
     (if list_ex (\<lambda>v. mv_version v = ev_version ev) existing then Inl VersionDeclared
      else if existing = [] then Inl NoPriorVersion
      else case highest_lower existing ev of
          None \<Rightarrow> Inl (NotBefore (ev_base_version ev))
        | Some base \<Rightarrow>
            if mv_version base \<noteq> ev_base_version ev then Inl (NotHighest (ev_base_version ev) (mv_version base))
            else if mv_model_kind base \<noteq> ev_model_kind ev then Inl (KindMismatch (mv_model_kind base) (ev_model_kind ev))
            else case apply_operations (ev_operations ev) (inherited (mv_fields base)) of
                Inl e \<Rightarrow> Inl (BadOperation e)
              | Inr st \<Rightarrow> Inr (expanded_version ev base st))"

definition change_kind_errors :: "string \<Rightarrow> model_version list \<Rightarrow> model_evolution \<Rightarrow> model_version \<Rightarrow> evolution_error list" where
  "change_kind_errors d existing ev v =
     (case highest_lower existing ev of
        None \<Rightarrow> []
      | Some base \<Rightarrow>
          (case validate_change_kind (d @ ''.'' @ ev_name ev) base v of None \<Rightarrow> [] | Some m \<Rightarrow> [BadChangeKind m]))"

text \<open>
  The loop over the evolutions of a domain: an evolution that fails is reported and skipped, one that
  expands is appended to the versions of its model, where the next evolution finds it, also when its change
  kind is reported against its base.
\<close>

type_synonym located_error = "string \<times> string \<times> int \<times> evolution_error"

definition versions_of :: "(string, model_version list) dict \<Rightarrow> string \<Rightarrow> model_version list" where
  "versions_of models n = (case map_of models n of None \<Rightarrow> [] | Some vs \<Rightarrow> vs)"

definition evolution_step ::
    "string \<Rightarrow> (string, model_version list) dict \<times> located_error list \<Rightarrow> model_evolution
     \<Rightarrow> (string, model_version list) dict \<times> located_error list" where
  "evolution_step d st ev =
     (case st of (models, errors) \<Rightarrow>
      case expand_evolution (versions_of models (ev_name ev)) ev of
        Inl e \<Rightarrow> (models, errors @ [(d, ev_name ev, ev_version ev, e)])
      | Inr v \<Rightarrow>
          (dict_put (ev_name ev) (versions_of models (ev_name ev) @ [v]) models,
           errors @ map (\<lambda>e. (d, ev_name ev, ev_version ev, e)) (change_kind_errors d (versions_of models (ev_name ev)) ev v)))"

definition expand_domain :: "domain_def \<Rightarrow> domain_def \<times> located_error list" where
  "expand_domain d =
     (case foldl (evolution_step (dm_name d)) (dm_models d, []) (dm_model_evolutions d) of
        (models, errors) \<Rightarrow> (d\<lparr>dm_models := models\<rparr>, errors))"

definition expand_model_evolutions :: "mdl_file \<Rightarrow> mdl_file \<times> located_error list" where
  "expand_model_evolutions mdl =
     (let ds = map expand_domain (mf_domains mdl) in (mdl\<lparr>mf_domains := map fst ds\<rparr>, concat (map snd ds)))"

section \<open>The delta between two versions\<close>

text \<open>A removed field counts as renamed where it is deprecated in favour of a field that is new.\<close>

definition rename_evidence :: "model_version \<Rightarrow> model_version \<Rightarrow> field_def \<Rightarrow> string option" where
  "rename_evidence base target f =
     (if has_field (fd_name f) (mv_fields target) then None
      else case deprecated_replacement f of
          None \<Rightarrow> None
        | Some r \<Rightarrow> if has_field r (mv_fields target) \<and> \<not> has_field r (mv_fields base) then Some r else None)"

definition delta_renames :: "model_version \<Rightarrow> model_version \<Rightarrow> (string, string) dict" where
  "delta_renames base target =
     dict_of (concat (map (\<lambda>f. case rename_evidence base target f of None \<Rightarrow> [] | Some r \<Rightarrow> [(fd_name f, r)]) (mv_fields base)))"

text \<open>The old and the new names of the fields that stay, in the order of the base.\<close>

definition kept_sequence :: "model_version \<Rightarrow> model_version \<Rightarrow> (string \<times> string) list" where
  "kept_sequence base target =
     concat (map (\<lambda>f.
       if has_field (fd_name f) (mv_fields target) then [(fd_name f, fd_name f)]
       else case map_of (delta_renames base target) (fd_name f) of None \<Rightarrow> [] | Some r \<Rightarrow> [(fd_name f, r)])
     (mv_fields base))"

text \<open>\<^verbatim>\<open>_fields_equal_ignoring_name\<close>, with the \<^verbatim>\<open>==\<close> of Python: a bound \<^verbatim>\<open>1\<close> is the bound \<^verbatim>\<open>1.0\<close>.\<close>

definition equal_ignoring_name :: "field_def \<Rightarrow> field_def \<Rightarrow> bool" where
  "equal_ignoring_name f g \<longleftrightarrow> same_field (named (fd_name g) f) g"

text \<open>The operations that take a field that stays to its new state.\<close>

definition kept_operations :: "field_def \<Rightarrow> field_def \<Rightarrow> string \<Rightarrow> string \<Rightarrow> evolution_operation list" where
  "kept_operations old_field new_field old_name new_name =
     (if old_name = new_name then (if equal_ignoring_name old_field new_field then [] else [ReplaceFieldOp new_field])
      else RenameFieldOp old_name new_name
        # (if equal_ignoring_name (named new_name old_field) new_field then [] else [ReplaceFieldOp new_field]))"

definition compute_delta_operations :: "model_version \<Rightarrow> model_version \<Rightarrow> evolution_operation list option" where
  "compute_delta_operations base target =
     (let base_by_name = dict_by fd_name (mv_fields base);
          target_by_name = dict_by fd_name (mv_fields target);
          kept = kept_sequence base target;
          kept_names = map snd kept;
          names = map fd_name (mv_fields target);
          added = drop (length kept_names) names in
      if take (length kept_names) names \<noteq> kept_names then None
      else if set added \<noteq> set (dict_keys target_by_name) - set kept_names then None
      else Some
        (map (\<lambda>f. RemoveFieldOp (fd_name f))
           (filter (\<lambda>f. \<not> has_field (fd_name f) (mv_fields target)
              \<and> map_of (delta_renames base target) (fd_name f) = None) (mv_fields base))
         @ concat (map (\<lambda>(a, b). kept_operations (the (map_of base_by_name a)) (the (map_of target_by_name b)) a b) kept)
         @ map (\<lambda>n. AddFieldOp (the (map_of target_by_name n))) added))"

text \<open>
  \<^verbatim>\<open>_build_evolution_decl\<close>: an evolution can keep or replace the annotations and the access block of its base,
  but cannot drop them. The name is put in by the renderer.
\<close>

definition build_evolution_decl ::
    "string \<Rightarrow> model_version \<Rightarrow> model_version \<Rightarrow> evolution_operation list \<Rightarrow> model_evolution option" where
  "build_evolution_decl name base target operations =
     (if mv_annotations target = [] \<and> mv_annotations base \<noteq> [] then None
      else if mv_access target = None \<and> mv_access base \<noteq> None then None
      else Some \<lparr>ev_model_kind = mv_model_kind target, ev_name = name, ev_version = mv_version target,
        ev_change_kind = mv_change_kind target, ev_has_change_kind = mv_has_change_kind target,
        ev_base_version = mv_version base, ev_operations = operations, ev_annotations = mv_annotations target,
        ev_access = mv_access target, ev_protobuf_reservations = mv_protobuf_reservations target\<rparr>)"

end
