(* ===== verification/Evolution_Delta.thy ===== *)
theory Evolution_Delta
  imports Evolution "HOL-Library.Sublist"
begin

text \<open>
  What expansion and delta promise each other: a version compacted to a delta expands to itself; an
  expanded version stands on the newest version below it, its provenance describes its fields, and the version
  numbers of a model stay distinct.
\<close>

section \<open>Finding and changing a field\<close>

lemma named_simps [simp]:
  "fd_name (named n f) = n" "named (fd_name f) f = f" "named m (named n f) = named m f"
  by (cases f; simp)+

lemma has_field_iff: "has_field n fs \<longleftrightarrow> n \<in> set (map fd_name fs)"
  by (auto simp: has_field_def list_ex_iff)

lemma index_of_None: "index_of n fs = None \<longleftrightarrow> n \<notin> set (map fd_name fs)"
  by (induction fs) auto

lemma index_of_Some: "index_of n fs = Some i \<Longrightarrow> i < length fs \<and> fd_name (fs ! i) = n"
  by (induction fs arbitrary: i) (auto split: if_splits)

lemma index_of_append: "n \<notin> set (map fd_name pre) \<Longrightarrow> fd_name f = n \<Longrightarrow> index_of n (pre @ f # post) = Some (length pre)"
  by (induction pre) auto

lemma del_nth_middle [simp]: "length pre = i \<Longrightarrow> del_nth i (pre @ x # post) = pre @ post"
  by (simp add: del_nth_def)

lemma apply_operations_append:
  "apply_operations (ps @ qs) st = sbind (apply_operations ps st) (apply_operations qs)"
  by (induction ps arbitrary: st) (simp_all add: sbind_def split: sum.splits)

lemma apply_append_Inr:
  "apply_operations ps st = Inr st' \<Longrightarrow> apply_operations (ps @ qs) st = apply_operations qs st'"
  by (simp add: apply_operations_append)

section \<open>The three parts of a delta\<close>

text \<open>Removing fields that are there leaves the others in order.\<close>

lemma apply_removes:
  "distinct (map fd_name fs) \<Longrightarrow> distinct ns \<Longrightarrow> set ns \<subseteq> set (map fd_name fs) \<Longrightarrow>
    \<exists>qs. apply_operations (map RemoveFieldOp ns) (fs, ps) = Inr (filter (\<lambda>f. fd_name f \<notin> set ns) fs, qs)"
proof (induction ns arbitrary: fs ps)
  case (Cons n ns)
  then obtain pre f post where fs: "fs = pre @ f # post" "fd_name f = n" "n \<notin> set (map fd_name pre)"
    using split_list_first [of n "map fd_name fs"] by (auto simp: map_eq_append_conv)
  then have rest: "n \<notin> set (map fd_name post)" using Cons.prems(1) by auto
  have "distinct (map fd_name (pre @ post))" "set ns \<subseteq> set (map fd_name (pre @ post))"
    using Cons.prems fs by auto
  then obtain qs where "apply_operations (map RemoveFieldOp ns) (pre @ post, del_nth (length pre) ps)
      = Inr (filter (\<lambda>f. fd_name f \<notin> set ns) (pre @ post), qs)"
    using Cons.IH [of "pre @ post" "del_nth (length pre) ps"] Cons.prems(2) by auto
  moreover have "filter (\<lambda>f. fd_name f \<notin> set (n # ns)) gs = filter (\<lambda>f. fd_name f \<notin> set ns) gs"
    if "n \<notin> set (map fd_name gs)" for gs
    using that by (induction gs) auto
  then have "filter (\<lambda>f. fd_name f \<notin> set (n # ns)) fs = filter (\<lambda>f. fd_name f \<notin> set ns) (pre @ post)"
    using fs rest by simp
  ultimately show ?case using fs index_of_append [OF fs(3,2)] by auto
qed simp

text \<open>The field itself, or one that Python takes for it.\<close>

definition equal_field :: "field_def \<Rightarrow> field_def \<Rightarrow> bool" where
  "equal_field f g \<longleftrightarrow> f = g \<or> same_field f g"

lemma equal_field_name: "equal_field f g \<Longrightarrow> fd_name f = fd_name g"
  by (auto simp: equal_field_def same_field_name)

lemma equal_field_refl [simp]: "equal_field f f" by (simp add: equal_field_def)

lemma equal_fields_refl [simp]: "list_all2 equal_field fs fs" by (simp add: list_all2_same)

lemma equal_fields_names: "list_all2 equal_field fs gs \<Longrightarrow> map fd_name fs = map fd_name gs"
  by (induction rule: list_all2_induct) (simp_all add: equal_field_name)

lemma apply_kept:
  assumes "fd_name f = a" and "fd_name t = b" and "a \<notin> set (map fd_name pre)"
    and "b = a \<or> b \<notin> set (map fd_name (pre @ f # post))"
  shows "\<exists>t' qs. apply_operations (kept_operations f t a b) (pre @ f # post, ps) = Inr (pre @ t' # post, qs)
    \<and> equal_field t' t"
proof -
  have f: "index_of a (pre @ f # post) = Some (length pre)" by (rule index_of_append [OF assms(3,1)])
  show ?thesis
  proof (cases "a = b")
    case True
    then have "equal_ignoring_name f t \<Longrightarrow> equal_field f t"
      using assms(1,2) by (metis equal_ignoring_name_def equal_field_def named_simps(2))
    then show ?thesis using True f assms(2) by (auto simp: kept_operations_def)
  next
    case False
    then have "\<not> has_field b (pre @ f # post)" using assms(4) by (simp add: has_field_iff)
    moreover have "index_of b (pre @ named b f # post) = Some (length pre)"
      using assms(4) False by (intro index_of_append) auto
    moreover have "equal_ignoring_name (named b f) t \<Longrightarrow> equal_field (named b f) t"
      using assms(2) by (simp add: equal_ignoring_name_def equal_field_def)
    ultimately show ?thesis using f assms(2) False by (auto simp: kept_operations_def)
  qed
qed

lemma apply_all_kept:
  assumes "distinct (map fd_name (pre @ map fst fts))" and "distinct (map fd_name (pre @ map snd fts))"
    and "\<And>f t. (f, t) \<in> set fts \<Longrightarrow> fd_name t = fd_name f \<or> fd_name t \<notin> set (map fd_name (map fst fts))"
  shows "\<exists>ts qs. apply_operations (concat (map (\<lambda>(f, t). kept_operations f t (fd_name f) (fd_name t)) fts)) (pre @ map fst fts, ps)
    = Inr (pre @ ts, qs) \<and> list_all2 equal_field ts (map snd fts)"
  using assms
proof (induction fts arbitrary: pre ps)
  case (Cons ft fts)
  obtain f t where ft: "ft = (f, t)" by (cases ft)
  have cond: "fd_name t = fd_name f \<or> fd_name t \<notin> set (map fd_name (map fst (ft # fts)))"
    using Cons.prems(3) [of f t] ft by simp
  have "fd_name t \<notin> set (map fd_name pre)" "fd_name f \<notin> set (map fd_name pre)"
    using Cons.prems(1,2) ft by auto
  then obtain t' qs where step: "apply_operations (kept_operations f t (fd_name f) (fd_name t)) (pre @ f # map fst fts, ps)
      = Inr (pre @ t' # map fst fts, qs)" and eq: "equal_field t' t"
    using apply_kept [of f "fd_name f" t "fd_name t" pre "map fst fts" ps] cond by auto
  have "fd_name t \<notin> set (map fd_name (map fst fts))" using Cons.prems(1) cond ft by (cases "fd_name t = fd_name f") simp_all
  then have "distinct (map fd_name ((pre @ [t']) @ map fst fts))" "distinct (map fd_name ((pre @ [t']) @ map snd fts))"
    using Cons.prems(1,2) ft equal_field_name [OF eq] by simp_all
  moreover have "\<And>g u. (g, u) \<in> set fts \<Longrightarrow> fd_name u = fd_name g \<or> fd_name u \<notin> set (map fd_name (map fst fts))"
    using Cons.prems(3) by fastforce
  ultimately obtain ts rs where "apply_operations (concat (map (\<lambda>(f, t). kept_operations f t (fd_name f) (fd_name t)) fts))
      ((pre @ [t']) @ map fst fts, qs) = Inr ((pre @ [t']) @ ts, rs)" "list_all2 equal_field ts (map snd fts)"
    using Cons.IH by blast
  then show ?case using ft eq apply_append_Inr [OF step] by (intro exI [of _ "t' # ts"] exI [of _ rs]) simp
qed simp

lemma apply_adds:
  "distinct (map fd_name (fs @ gs)) \<Longrightarrow> \<exists>qs. apply_operations (map AddFieldOp gs) (fs, ps) = Inr (fs @ gs, qs)"
proof (induction gs arbitrary: fs ps)
  case (Cons g gs)
  then have "\<not> has_field (fd_name g) fs" by (auto simp: has_field_iff)
  then show ?case using Cons.IH [of "fs @ [g]"] Cons.prems by auto
qed simp

section \<open>A delta reproduces its target\<close>

definition new_name :: "model_version \<Rightarrow> model_version \<Rightarrow> field_def \<Rightarrow> string option" where
  "new_name base target f =
     (if has_field (fd_name f) (mv_fields target) then Some (fd_name f) else rename_evidence base target f)"

definition kept_fields :: "model_version \<Rightarrow> model_version \<Rightarrow> field_def list" where
  "kept_fields base target = filter (\<lambda>f. new_name base target f \<noteq> None) (mv_fields base)"

lemma distinct_field_eq:
  "distinct (map fd_name fs) \<Longrightarrow> f \<in> set fs \<Longrightarrow> g \<in> set fs \<Longrightarrow> fd_name f = fd_name g \<Longrightarrow> f = g"
  by (auto simp: distinct_map inj_on_def)

lemma map_of_rename:
  "distinct (map fd_name fs) \<Longrightarrow> f \<in> set fs \<Longrightarrow>
    map_of (concat (map (\<lambda>f. case e f of None \<Rightarrow> [] | Some r \<Rightarrow> [(fd_name f, r)]) fs)) (fd_name f) = e f"
proof (induction fs)
  case (Cons g fs)
  have absent: "map_of (concat (map (\<lambda>f. case e f of None \<Rightarrow> [] | Some r \<Rightarrow> [(fd_name f, r)]) fs)) n = None"
    if "n \<notin> set (map fd_name fs)" for n
    using that by (auto simp: map_of_eq_None_iff split: option.splits)
  show ?case
  proof (cases "f = g")
    case True
    then show ?thesis using Cons.prems absent [of "fd_name g"] by (auto split: option.split)
  next
    case False
    then have f: "f \<in> set fs" using Cons.prems(2) by simp
    have "fd_name f \<noteq> fd_name g" using imageI [OF f, of fd_name] Cons.prems(1) by auto
    then show ?thesis using Cons f by (auto split: option.split)
  qed
qed simp

lemma distinct_rename_keys:
  "distinct (map fd_name fs) \<Longrightarrow>
    distinct (map fst (concat (map (\<lambda>f. case e f of None \<Rightarrow> [] | Some r \<Rightarrow> [(fd_name f, r)]) fs)))"
proof (induction fs)
  case (Cons g fs)
  have "set (map fst (concat (map (\<lambda>f. case e f of None \<Rightarrow> [] | Some r \<Rightarrow> [(fd_name f, r)]) fs))) \<subseteq> set (map fd_name fs)"
    by (auto split: option.splits)
  then show ?case using Cons by (auto split: option.split)
qed simp

lemma delta_renames_at:
  assumes "distinct (map fd_name (mv_fields base))" and "f \<in> set (mv_fields base)"
  shows "map_of (delta_renames base target) (fd_name f) = rename_evidence base target f"
  using map_of_rename [OF assms, of "rename_evidence base target"]
    distinct_rename_keys [OF assms(1), of "rename_evidence base target"]
  by (simp add: delta_renames_def map_of_dict_of map_of_rev_distinct)

lemma kept_sequence_fields:
  assumes "distinct (map fd_name (mv_fields base))"
  shows "kept_sequence base target =
    map (\<lambda>f. (fd_name f, the (new_name base target f))) (kept_fields base target)"
proof -
  have "concat (map (\<lambda>f. if has_field (fd_name f) (mv_fields target) then [(fd_name f, fd_name f)]
         else case map_of (delta_renames base target) (fd_name f) of None \<Rightarrow> [] | Some r \<Rightarrow> [(fd_name f, r)]) fs)
     = map (\<lambda>f. (fd_name f, the (new_name base target f))) (filter (\<lambda>f. new_name base target f \<noteq> None) fs)"
    if "set fs \<subseteq> set (mv_fields base)" for fs
    using that by (induction fs) (auto simp: new_name_def delta_renames_at [OF assms] split: option.splits)
  then show ?thesis by (simp add: kept_sequence_def kept_fields_def)
qed

lemma rename_evidence_new: "rename_evidence base target f = Some r \<Longrightarrow> r \<notin> set (map fd_name (mv_fields base))"
  by (auto simp: rename_evidence_def has_field_iff split: if_splits option.splits)

text \<open>The targets of the fields that stay are the first fields of the target version.\<close>

lemma delta_parts:
  assumes base: "distinct (map fd_name (mv_fields base))" and target: "distinct (map fd_name (mv_fields target))"
    and "compute_delta_operations base target = Some ops"
  obtains ts us where "mv_fields target = ts @ us"
    and "map fd_name ts = map (\<lambda>f. the (new_name base target f)) (kept_fields base target)"
    and "ops = map RemoveFieldOp (map fd_name (filter (\<lambda>f. new_name base target f = None) (mv_fields base)))
       @ concat (map (\<lambda>(f, t). kept_operations f t (fd_name f) (fd_name t)) (zip (kept_fields base target) ts))
       @ map AddFieldOp us"
proof -
  let ?ks = "kept_fields base target" and ?n = "length (kept_fields base target)"
  let ?ts = "take ?n (mv_fields target)" and ?us = "drop ?n (mv_fields target)"
  have seq: "kept_sequence base target = map (\<lambda>f. (fd_name f, the (new_name base target f))) ?ks"
    by (rule kept_sequence_fields [OF base])
  have names: "map fd_name ?ts = map (\<lambda>f. the (new_name base target f)) ?ks"
    using assms(3) by (simp add: compute_delta_operations_def seq take_map Let_def comp_def split: if_splits)
  have find: "the (map_of (dict_by fd_name fs) (fd_name f)) = f" if "distinct (map fd_name fs)" "f \<in> set fs" for f fs
    using map_of_dict_by_distinct [OF that] by simp
  have "map (\<lambda>n. AddFieldOp (the (map_of (dict_by fd_name (mv_fields target)) n))) (map fd_name ?us) = map AddFieldOp ?us"
    using find [OF target] by (auto dest: in_set_dropD)
  moreover have "map (\<lambda>(a, b). kept_operations (the (map_of (dict_by fd_name (mv_fields base)) a))
      (the (map_of (dict_by fd_name (mv_fields target)) b)) a b) (kept_sequence base target)
    = map (\<lambda>(f, t). kept_operations f t (fd_name f) (fd_name t)) (zip ?ks ?ts)"
  proof (rule nth_equalityI)
    fix i assume "i < length (map (\<lambda>(a, b). kept_operations (the (map_of (dict_by fd_name (mv_fields base)) a))
      (the (map_of (dict_by fd_name (mv_fields target)) b)) a b) (kept_sequence base target))"
    then have i: "i < ?n" by (simp add: seq)
    have "length ?ts = ?n" using arg_cong [OF names, of length] by simp
    then have ti: "?ts ! i \<in> set (mv_fields target)" "i < length ?ts" "i < length (mv_fields target)"
      using i by (metis in_set_takeD nth_mem, simp, simp)
    have ki: "?ks ! i \<in> set (mv_fields base)" using i nth_mem by (fastforce simp: kept_fields_def)
    have ni: "fd_name (?ts ! i) = the (new_name base target (?ks ! i))"
      using arg_cong [OF names, of "\<lambda>xs. xs ! i"] i ti(2) by simp
    show "map (\<lambda>(a, b). kept_operations (the (map_of (dict_by fd_name (mv_fields base)) a))
        (the (map_of (dict_by fd_name (mv_fields target)) b)) a b) (kept_sequence base target) ! i
      = map (\<lambda>(f, t). kept_operations f t (fd_name f) (fd_name t)) (zip ?ks ?ts) ! i"
      using i ti ki find [OF base ki] find [OF target ti(1)] by (simp add: seq flip: ni)
  qed (use arg_cong [OF names, of length] in \<open>simp add: seq\<close>)
  moreover have "filter (\<lambda>f. \<not> has_field (fd_name f) (mv_fields target) \<and> map_of (delta_renames base target) (fd_name f) = None) (mv_fields base)
    = filter (\<lambda>f. new_name base target f = None) (mv_fields base)"
    by (rule filter_cong) (auto simp: new_name_def delta_renames_at [OF base])
  moreover have "drop (length (map snd (kept_sequence base target))) (map fd_name (mv_fields target)) = map fd_name ?us"
    by (simp add: seq drop_map)
  moreover have "ops = map (\<lambda>f. RemoveFieldOp (fd_name f))
       (filter (\<lambda>f. \<not> has_field (fd_name f) (mv_fields target) \<and> map_of (delta_renames base target) (fd_name f) = None) (mv_fields base))
     @ concat (map (\<lambda>(a, b). kept_operations (the (map_of (dict_by fd_name (mv_fields base)) a))
         (the (map_of (dict_by fd_name (mv_fields target)) b)) a b) (kept_sequence base target))
     @ map (\<lambda>n. AddFieldOp (the (map_of (dict_by fd_name (mv_fields target)) n)))
         (drop (length (map snd (kept_sequence base target))) (map fd_name (mv_fields target)))"
    using assms(3) unfolding compute_delta_operations_def Let_def by (simp split: if_splits)
  ultimately have "ops = map RemoveFieldOp (map fd_name (filter (\<lambda>f. new_name base target f = None) (mv_fields base)))
       @ concat (map (\<lambda>(f, t). kept_operations f t (fd_name f) (fd_name t)) (zip ?ks ?ts)) @ map AddFieldOp ?us"
    by (simp only: map_map comp_def)
  with names show thesis by (intro that [of ?ts ?us]) simp_all
qed

lemma delta_fields:
  assumes base: "distinct (map fd_name (mv_fields base))" and target: "distinct (map fd_name (mv_fields target))"
    and "compute_delta_operations base target = Some ops"
  shows "\<exists>fs qs. apply_operations ops (mv_fields base, ps) = Inr (fs, qs) \<and> list_all2 equal_field fs (mv_fields target)"
proof -
  let ?ks = "kept_fields base target"
  let ?rs = "map fd_name (filter (\<lambda>f. new_name base target f = None) (mv_fields base))"
  obtain ts us where split: "mv_fields target = ts @ us"
    and names: "map fd_name ts = map (\<lambda>f. the (new_name base target f)) ?ks"
    and ops: "ops = map RemoveFieldOp ?rs
       @ concat (map (\<lambda>(f, t). kept_operations f t (fd_name f) (fd_name t)) (zip ?ks ts)) @ map AddFieldOp us"
    using delta_parts [OF assms] .
  have "distinct ?rs" "set ?rs \<subseteq> set (map fd_name (mv_fields base))"
    using base by (auto simp: distinct_map inj_on_def)
  then obtain qs where "apply_operations (map RemoveFieldOp ?rs) (mv_fields base, ps)
      = Inr (filter (\<lambda>f. fd_name f \<notin> set ?rs) (mv_fields base), qs)"
    using apply_removes [OF base] by blast
  moreover have "filter (\<lambda>f. fd_name f \<notin> set ?rs) (mv_fields base) = ?ks"
    unfolding kept_fields_def by (rule filter_cong) (auto dest: distinct_field_eq [OF base])
  ultimately have removed: "apply_operations (map RemoveFieldOp ?rs) (mv_fields base, ps) = Inr (?ks, qs)" by simp
  have len: "length ts = length ?ks" using arg_cong [OF names, of length] by simp
  have "distinct (map fd_name ?ks)" using base by (simp add: kept_fields_def distinct_map inj_on_def)
  moreover have "distinct (map fd_name ts)" using target split by simp
  moreover have "fd_name t = fd_name f \<or> fd_name t \<notin> set (map fd_name ?ks)" if ft: "(f, t) \<in> set (zip ?ks ts)" for f t
  proof -
    obtain i where i: "i < length ?ks" "f = ?ks ! i" "t = ts ! i" using ft len by (auto simp: set_zip)
    then have "fd_name t = the (new_name base target f)" using arg_cong [OF names, of "\<lambda>xs. xs ! i"] len by simp
    moreover have "new_name base target f \<noteq> None" using i nth_mem [of i ?ks] by (simp add: kept_fields_def)
    ultimately have "new_name base target f = Some (fd_name t)" by auto
    then show ?thesis using rename_evidence_new by (fastforce simp: new_name_def kept_fields_def split: if_splits)
  qed
  ultimately obtain ts' rs where kept: "apply_operations
      (concat (map (\<lambda>(f, t). kept_operations f t (fd_name f) (fd_name t)) (zip ?ks ts))) (?ks, qs) = Inr (ts', rs)"
    and eq: "list_all2 equal_field ts' ts"
    using apply_all_kept [of "[]" "zip ?ks ts" qs] len by auto
  have "distinct (map fd_name (ts' @ us))" using target split equal_fields_names [OF eq] by simp
  then obtain vs where "apply_operations (map AddFieldOp us) (ts', rs) = Inr (ts' @ us, vs)"
    using apply_adds by blast
  then show ?thesis using eq
    by (intro exI [of _ "ts' @ us"] exI [of _ vs])
      (simp add: ops split apply_append_Inr [OF removed] apply_append_Inr [OF kept] list_all2_appendI del: map_map)
qed

text \<open>
  C3. Compacting a version keeps it, up to Python's equality of fields. Whenever a delta between two versions
  with distinct field names is computed and a declaration is built from it, expanding that declaration in a
  workspace where the base is the newest version below gives the target version back: its version, kinds,
  annotations, access block and reservations as they were, and its fields in their order, each either the field
  of the target itself or one of the same name that \<^verbatim>\<open>==\<close> takes for it, where \<^verbatim>\<open>1\<close> is \<^verbatim>\<open>1.0\<close> and \<^verbatim>\<open>true\<close>. The version
  header is set, and the provenance of the fields is new.
\<close>

theorem compaction_reproduces:
  assumes "distinct (map fd_name (mv_fields base))" and "distinct (map fd_name (mv_fields target))"
    and "mv_model_kind base = mv_model_kind target"
    and "max_by mv_version (filter (\<lambda>v. mv_version v < mv_version target) existing) = Some base"
    and "mv_version target \<notin> set (map mv_version existing)"
    and "compute_delta_operations base target = Some ops" and "build_evolution_decl name base target ops = Some ev"
  shows "\<exists>fs ps. expand_evolution existing ev
      = Inr (target\<lparr>mv_fields := fs, mv_has_version_header := True, mv_provenance := ps\<rparr>)
    \<and> list_all2 equal_field fs (mv_fields target)"
proof -
  obtain fs ps where ps: "apply_operations ops (inherited (mv_fields base)) = Inr (fs, ps)"
    and eq: "list_all2 equal_field fs (mv_fields target)"
    using delta_fields [OF assms(1,2,6)] by (fastforce simp: inherited_def)
  have ev: "ev_version ev = mv_version target" "ev_base_version ev = mv_version base" "ev_operations ev = ops"
    "ev_model_kind ev = mv_model_kind target"
    and same: "expanded_version ev base (fs, ps)
      = target\<lparr>mv_fields := fs, mv_has_version_header := True, mv_provenance := ps\<rparr>"
    using assms(7) by (auto simp: build_evolution_decl_def expanded_version_def split: if_splits option.splits)
  have "existing \<noteq> []" using assms(4) by auto
  moreover have "\<not> list_ex (\<lambda>v. mv_version v = mv_version target) existing" using assms(5) imageI unfolding list_ex_iff set_map by metis
  ultimately have "expand_evolution existing ev = Inr (expanded_version ev base (fs, ps))"
    using assms(3,4) ps by (simp add: expand_evolution_def highest_lower_def ev)
  then show ?thesis using same eq by auto
qed

section \<open>What an expanded version is\<close>

text \<open>Every field has its provenance, and an inherited field is a field of the base, unchanged.\<close>

definition described :: "field_def set \<Rightarrow> field_def \<Rightarrow> field_provenance \<Rightarrow> bool" where
  "described base f p \<longleftrightarrow> fp_field_name p = fd_name f \<and> (fp_origin p = Inherited \<longrightarrow> f \<in> base)
     \<and> (case fp_renamed_from p of None \<Rightarrow> True | Some _ \<Rightarrow> fp_origin p \<in> {RenameOrigin, ReplaceOrigin})"

definition evolving_ok :: "field_def set \<Rightarrow> evolving \<Rightarrow> bool" where
  "evolving_ok base st \<longleftrightarrow> distinct (map fd_name (fst st)) \<and> list_all2 (described base) (fst st) (snd st)"

lemma list_all2_del_nth: "list_all2 P xs ys \<Longrightarrow> list_all2 P (del_nth i xs) (del_nth i ys)"
  by (simp add: del_nth_def list_all2_appendI list_all2_takeI list_all2_dropI)

lemma distinct_del_nth: "distinct xs \<Longrightarrow> distinct (del_nth i xs)"
  unfolding del_nth_def by (metis distinct_append append_take_drop_id drop_eq_Nil distinct_drop distinct_take
      set_take_disj_set_drop_if_distinct le_SucI order_refl)

lemma map_del_nth: "map f (del_nth i xs) = del_nth i (map f xs)"
  by (simp add: del_nth_def take_map drop_map)

lemma distinct_map_update:
  assumes "distinct (map fd_name fs)" and "i < length fs" and "fd_name f = fd_name (fs ! i) \<or> fd_name f \<notin> set (map fd_name fs)"
  shows "distinct (map fd_name (fs[i := f]))"
  using assms by (auto simp: map_update distinct_list_update)

lemma list_all2_update: "list_all2 P xs ys \<Longrightarrow> P x y \<Longrightarrow> list_all2 P (xs[i := x]) (ys[i := y])"
  by (rule list_all2_update_cong)

lemma apply_operation_ok:
  assumes "apply_operation p st = Inr st'" and "evolving_ok base st"
  shows "evolving_ok base st'"
proof (cases st)
  case (Pair fs ps)
  have ok: "distinct (map fd_name fs)" "list_all2 (described base) fs ps"
    using assms(2) Pair by (simp_all add: evolving_ok_def)
  show ?thesis
  proof (cases p)
    case (AddFieldOp f)
    then show ?thesis using assms(1) Pair ok
      by (auto simp: evolving_ok_def has_field_iff described_def provenance_of_def list_all2_appendI split: if_splits)
  next
    case (RemoveFieldOp n)
    then show ?thesis using assms(1) Pair ok distinct_del_nth [of "map fd_name fs"]
      by (auto simp: evolving_ok_def list_all2_del_nth map_del_nth split: option.splits)
  next
    case (RenameFieldOp old new)
    then obtain i where i: "index_of old fs = Some i" "new = old \<or> \<not> has_field new fs"
      and st': "st' = (fs[i := named new (fs ! i)], ps[i := provenance_of new RenameOrigin (Some old)])"
      using assms(1) Pair by (auto split: option.splits if_splits)
    have "distinct (map fd_name (fs[i := named new (fs ! i)]))"
      using ok(1) index_of_Some [OF i(1)] i(2) by (intro distinct_map_update) (auto simp: has_field_iff)
    then show ?thesis using ok(2) st'
      by (auto simp: evolving_ok_def described_def provenance_of_def intro!: list_all2_update)
  next
    case (ReplaceFieldOp f)
    then obtain i where i: "index_of (fd_name f) fs = Some i"
      and st': "st' = (fs[i := f], ps[i := provenance_of (fd_name f) ReplaceOrigin (fp_renamed_from (ps ! i))])"
      using assms(1) Pair by (auto split: option.splits)
    have "distinct (map fd_name (fs[i := f]))"
      using ok(1) index_of_Some [OF i] by (intro distinct_map_update) auto
    then show ?thesis using ok(2) st'
      by (auto simp: evolving_ok_def described_def provenance_of_def intro!: list_all2_update split: option.split)
  qed
qed

lemma apply_operations_ok: "apply_operations ps st = Inr st' \<Longrightarrow> evolving_ok base st \<Longrightarrow> evolving_ok base st'"
proof (induction ps arbitrary: st)
  case (Cons p ps)
  then obtain mid where "apply_operation p st = Inr mid" "apply_operations ps mid = Inr st'"
    by (auto simp: sbind_eq_Inr)
  then show ?case using Cons.IH [of mid] Cons.prems(2) apply_operation_ok by blast
qed simp

lemma inherited_ok: "distinct (map fd_name fs) \<Longrightarrow> evolving_ok (set fs) (inherited fs)"
  by (auto simp: evolving_ok_def inherited_def described_def provenance_of_def list_all2_conv_all_nth)

lemma expand_evolution_Inr:
  "expand_evolution existing ev = Inr v \<longleftrightarrow>
     (\<exists>base st. ev_version ev \<notin> set (map mv_version existing)
        \<and> max_by mv_version (filter (\<lambda>u. mv_version u < ev_version ev) existing) = Some base
        \<and> mv_version base = ev_base_version ev \<and> mv_model_kind base = ev_model_kind ev
        \<and> apply_operations (ev_operations ev) (inherited (mv_fields base)) = Inr st \<and> v = expanded_version ev base st)"
proof -
  have "list_ex (\<lambda>u. mv_version u = ev_version ev) existing \<longleftrightarrow> ev_version ev \<in> set (map mv_version existing)"
    by (auto simp: list_ex_iff image_iff) metis+
  then show ?thesis by (auto simp: expand_evolution_def highest_lower_def split: option.splits sum.splits)
qed

lemma newest_below:
  assumes "distinct (map mv_version existing)"
  shows "max_by mv_version (filter (\<lambda>u. mv_version u < n) existing) = Some base \<longleftrightarrow>
    base \<in> set existing \<and> mv_version base < n \<and> (\<forall>u \<in> set existing. mv_version u < n \<longrightarrow> mv_version u \<le> mv_version base)"
    (is "?max = _ \<longleftrightarrow> ?newest base")
proof
  assume "?max = Some base"
  then show "?newest base" using max_by_in [of mv_version _ base] max_by_ge [of mv_version _ base] by fastforce
next
  assume newest: "?newest base"
  then obtain b where b: "?max = Some b" by (cases ?max) (auto simp: filter_empty_conv)
  then have "b \<in> set existing" "mv_version b < n" using max_by_in [OF b] by simp_all
  moreover have "mv_version base \<le> mv_version b" using max_by_ge [OF b, of base] newest by simp
  ultimately have "b = base" using newest assms by (force simp: distinct_map inj_on_def)
  then show "?max = Some base" using b by simp
qed

text \<open>
  C16. An evolution expands exactly when it should: where the versions of a model are distinct, the result is a
  version if and only if its number is new, its base is declared, below it and the newest such version, is of
  the same kind, and every operation applies; the version is then the one the operations make of the base.
\<close>

theorem evolution_expands_iff:
  assumes "distinct (map mv_version existing)"
  shows "expand_evolution existing ev = Inr v \<longleftrightarrow>
    (\<exists>base st. base \<in> set existing \<and> mv_version base = ev_base_version ev \<and> ev_base_version ev < ev_version ev
       \<and> (\<forall>u \<in> set existing. mv_version u \<le> ev_base_version ev \<or> ev_version ev < mv_version u)
       \<and> mv_model_kind base = ev_model_kind ev
       \<and> apply_operations (ev_operations ev) (inherited (mv_fields base)) = Inr st \<and> v = expanded_version ev base st)"
  unfolding expand_evolution_Inr newest_below [OF assms]
  by (rule ex_cong1, rule ex_cong1) (auto simp: image_iff not_le order_less_le)

text \<open>
  C17. An expanded version describes itself: its field names are distinct, each field has one entry of provenance
  under its name, and a field called inherited is a field of the base version, unchanged.
\<close>

theorem expanded_version_described:
  assumes "expand_evolution existing ev = Inr v" and "\<forall>u \<in> set existing. distinct (map fd_name (mv_fields u))"
  shows "distinct (map fd_name (mv_fields v)) \<and> map fp_field_name (mv_provenance v) = map fd_name (mv_fields v)
    \<and> (\<exists>base \<in> set existing. mv_version base = ev_base_version ev
        \<and> list_all2 (\<lambda>f p. fp_origin p = Inherited \<longrightarrow> f \<in> set (mv_fields base)) (mv_fields v) (mv_provenance v))"
proof -
  obtain base st where max: "max_by mv_version (filter (\<lambda>u. mv_version u < ev_version ev) existing) = Some base"
    and base: "mv_version base = ev_base_version ev"
    and st: "apply_operations (ev_operations ev) (inherited (mv_fields base)) = Inr st" "v = expanded_version ev base st"
    using assms(1) by (auto simp: expand_evolution_Inr)
  have mem: "base \<in> set existing" using max_by_in [OF max] by simp
  then have "evolving_ok (set (mv_fields base)) st" using apply_operations_ok [OF st(1) inherited_ok] assms(2) by blast
  then have ok: "distinct (map fd_name (mv_fields v))" "list_all2 (described (set (mv_fields base))) (mv_fields v) (mv_provenance v)"
    using st(2) by (simp_all add: evolving_ok_def expanded_version_def)
  have "map fp_field_name (mv_provenance v) = map fd_name (mv_fields v)"
    using ok(2) by (auto simp: list_all2_conv_all_nth described_def intro!: nth_equalityI)
  moreover have "list_all2 (\<lambda>f p. fp_origin p = Inherited \<longrightarrow> f \<in> set (mv_fields base)) (mv_fields v) (mv_provenance v)"
    using ok(2) by (rule list_all2_mono) (simp add: described_def)
  ultimately show ?thesis using ok(1) mem base by blast
qed

section \<open>All evolutions of a workspace\<close>

text \<open>The versions of every model keep distinct numbers, and those that were declared stay where they are.\<close>

definition versions_kept :: "(string, model_version list) dict \<Rightarrow> (string, model_version list) dict \<Rightarrow> bool" where
  "versions_kept before after \<longleftrightarrow>
     (\<forall>n. prefix (versions_of before n) (versions_of after n) \<and>
        (distinct (map mv_version (versions_of before n)) \<longrightarrow> distinct (map mv_version (versions_of after n))))"

lemma versions_kept_trans: "versions_kept a b \<Longrightarrow> versions_kept b c \<Longrightarrow> versions_kept a c"
  unfolding versions_kept_def by (meson prefix_order.trans)

lemma expand_evolution_version: "expand_evolution vs ev = Inr v \<Longrightarrow> mv_version v \<notin> set (map mv_version vs)"
  by (auto simp: expand_evolution_Inr expanded_version_def)

lemma evolution_step_keeps: "versions_kept models (fst (evolution_step d (models, errors) ev))"
proof (cases "expand_evolution (versions_of models (ev_name ev)) ev")
  case (Inl e)
  then show ?thesis by (simp add: evolution_step_def versions_kept_def)
next
  case (Inr v)
  then show ?thesis using expand_evolution_version [OF Inr]
    by (auto simp: evolution_step_def versions_kept_def versions_of_def update_conv')
qed

lemma evolution_loop_keeps: "versions_kept models (fst (foldl (evolution_step d) (models, errors) evs))"
proof (induction evs arbitrary: models errors)
  case Nil
  then show ?case by (simp add: versions_kept_def)
next
  case (Cons ev evs)
  obtain models' errors' where step: "evolution_step d (models, errors) ev = (models', errors')" by (cases "evolution_step d (models, errors) ev")
  then have "versions_kept models models'" using evolution_step_keeps [of models d errors ev] by simp
  then show ?case using Cons.IH [of models' errors'] step by (auto intro: versions_kept_trans)
qed

text \<open>
  C15. Expanding the evolutions of a workspace never changes a declared version: in every domain, the versions of
  each model stay the first ones of its list, and where their numbers were distinct, all numbers are
  distinct afterwards.
\<close>

theorem expansion_keeps_versions:
  "list_all2 (\<lambda>d d'. dm_name d' = dm_name d \<and> versions_kept (dm_models d) (dm_models d'))
     (mf_domains mdl) (mf_domains (fst (expand_model_evolutions mdl)))"
proof -
  have "dm_name (fst (expand_domain d)) = dm_name d \<and> versions_kept (dm_models d) (dm_models (fst (expand_domain d)))" for d
    using evolution_loop_keeps [of "dm_models d" "dm_name d" "[]" "dm_model_evolutions d"]
    by (simp add: expand_domain_def case_prod_beta)
  then show ?thesis by (simp add: expand_model_evolutions_def list_all2_conv_all_nth)
qed

section \<open>Examples\<close>

text \<open>A version that drops \<^verbatim>\<open>tmp\<close>, renames \<^verbatim>\<open>cost\<close> to \<^verbatim>\<open>price\<close>, makes \<^verbatim>\<open>note\<close> required and adds \<^verbatim>\<open>vat\<close>.\<close>

definition order_one :: model_version where
  "order_one = version_of [field_n ''id'' [AnnKey] False, field_n ''tmp'' [] True, field_n ''cost'' [AnnDeprecated ''price''] False,
     field_n ''note'' [] True]"

definition order_two :: model_version where
  "order_two = (version_of [field_n ''id'' [AnnKey] False, field_n ''price'' [] False, field_n ''note'' [] False,
     field_n ''vat'' [] True])\<lparr>mv_version := 2\<rparr>"

definition order_operations :: "evolution_operation list" where
  "order_operations = [RemoveFieldOp ''tmp'', RenameFieldOp ''cost'' ''price'', ReplaceFieldOp (field_n ''price'' [] False),
     ReplaceFieldOp (field_n ''note'' [] False), AddFieldOp (field_n ''vat'' [] True)]"

definition order_evolution :: model_evolution where
  "order_evolution = \<lparr>ev_model_kind = Entity, ev_name = ''Order'', ev_version = 2, ev_change_kind = Additive,
     ev_has_change_kind = True, ev_base_version = 1, ev_operations = order_operations, ev_annotations = [],
     ev_access = None, ev_protobuf_reservations = None\<rparr>"

lemma order_delta: "compute_delta_operations order_one order_two = Some order_operations"
  by code_simp

lemma order_compaction: "build_evolution_decl ''Order'' order_one order_two order_operations = Some order_evolution"
  by code_simp

lemma order_fields: "distinct (map fd_name (mv_fields order_one))" "distinct (map fd_name (mv_fields order_two))"
  by code_simp+

theorem compaction_reproduces_witness:
  "map fd_name (case expand_evolution [order_one] order_evolution of Inl _ \<Rightarrow> [] | Inr v \<Rightarrow> mv_fields v) = [''id'', ''price'', ''note'', ''vat'']"
proof -
  have "max_by mv_version (filter (\<lambda>v. mv_version v < mv_version order_two) [order_one]) = Some order_one" by code_simp
  moreover have "mv_version order_two \<notin> set (map mv_version [order_one])" by code_simp
  moreover have "mv_model_kind order_one = mv_model_kind order_two" by code_simp
  ultimately obtain fs ps where
    "expand_evolution [order_one] order_evolution
       = Inr (order_two\<lparr>mv_fields := fs, mv_has_version_header := True, mv_provenance := ps\<rparr>)"
    "list_all2 equal_field fs (mv_fields order_two)"
    using compaction_reproduces [OF order_fields _ _ _ order_delta order_compaction] by blast
  then show ?thesis by (simp add: equal_fields_names) (simp add: order_two_def witness_simps)
qed

text \<open>
  A bound that changes from \<^verbatim>\<open>1\<close> to \<^verbatim>\<open>1.0\<close> is no operation: the delta is empty, and the version expanded from it
  has the old bound.
\<close>

definition bounded_order :: "int \<Rightarrow> constraint_value \<Rightarrow> model_version" where
  "bounded_order n v =
     (version_of [FieldDef ''size'' (PrimitiveType KInt 4) False False None [AnnKey] [\<lparr>vc_kind = ''min'', vc_value = v\<rparr>]])
       \<lparr>mv_version := n\<rparr>"

lemma number_type_forgotten:
  "compute_delta_operations (bounded_order 1 (CvInt 1)) (bounded_order 2 (CvFloat ''1.0'')) = Some []"
  "case build_evolution_decl ''Order'' (bounded_order 1 (CvInt 1)) (bounded_order 2 (CvFloat ''1.0'')) [] of
     None \<Rightarrow> False
   | Some ev \<Rightarrow> map_sum id mv_fields (expand_evolution [bounded_order 1 (CvInt 1)] ev)
       = Inr (mv_fields (bounded_order 2 (CvInt 1)))"
  by code_simp+

lemma order_expansion:
  "expand_evolution [order_one] order_evolution = Inr (order_two\<lparr>mv_provenance :=
     [provenance_of ''id'' Inherited None, provenance_of ''price'' ReplaceOrigin (Some ''cost''),
      provenance_of ''note'' ReplaceOrigin None, provenance_of ''vat'' AddOrigin None]\<rparr>)"
  by code_simp

theorem evolution_expands_iff_witness:
  "(expand_evolution [order_one] order_evolution =
     Inr (expanded_version order_evolution order_one
       (the (case apply_operations order_operations (inherited (mv_fields order_one)) of Inl _ \<Rightarrow> None | Inr st \<Rightarrow> Some st))))"
proof -
  have "distinct (map mv_version [order_one])" by simp
  note iff = evolution_expands_iff [OF this, of order_evolution]
  obtain st where st: "apply_operations order_operations (inherited (mv_fields order_one)) = Inr st"
    using delta_fields [OF order_fields order_delta] by (metis inherited_def)
  have "mv_version order_one = 1" "mv_model_kind order_one = Entity" by (simp_all add: order_one_def witness_simps)
  then show ?thesis using st unfolding iff by (intro exI [of _ order_one] exI [of _ st]) (simp add: order_evolution_def)
qed

theorem expanded_version_described_witness:
  "map fp_field_name [provenance_of ''id'' Inherited None, provenance_of ''price'' ReplaceOrigin (Some ''cost''),
      provenance_of ''note'' ReplaceOrigin None, provenance_of ''vat'' AddOrigin None] = map fd_name (mv_fields order_two)"
proof -
  have "\<forall>u \<in> set [order_one]. distinct (map fd_name (mv_fields u))" using order_fields by simp
  from expanded_version_described [OF order_expansion this] show ?thesis by simp
qed

text \<open>
  An evolution may be inserted below a version that is there: it is appended, so the versions of the model
  are no longer ascending, which the validation of hand-written versions rejects.
\<close>

definition order_three :: model_version where
  "order_three = order_one\<lparr>mv_version := 3\<rparr>"

theorem evolution_out_of_order:
  "case expand_evolution [order_one, order_three] order_evolution of
     Inl _ \<Rightarrow> False
   | Inr v \<Rightarrow> map mv_version ([order_one, order_three] @ [v]) = [1, 3, 2]"
  by code_simp

text \<open>
  A delta can exist where none is computed: moving a field to the end is removing it and adding it again.
\<close>

theorem delta_exists_uncomputed:
  "compute_delta_operations
     (version_of [field_n ''id'' [AnnKey] False, field_n ''note'' [] True, field_n ''vat'' [] True])
     (version_of [field_n ''id'' [AnnKey] False, field_n ''vat'' [] True, field_n ''note'' [] True]) = None
   \<and> map_sum id fst (apply_operations [RemoveFieldOp ''note'', AddFieldOp (field_n ''note'' [] True)]
       (inherited [field_n ''id'' [AnnKey] False, field_n ''note'' [] True, field_n ''vat'' [] True]))
     = Inr [field_n ''id'' [AnnKey] False, field_n ''vat'' [] True, field_n ''note'' [] True]"
  by code_simp

end
