(* ===== verification/Workspace_Types.thy ===== *)
theory Workspace_Types
  imports Resolver
begin

text \<open>
  Two passes over the merged workspace of \<^verbatim>\<open>cli/src/modelable/compiler/workspace.py\<close>: the members of enum projections
  (\<^verbatim>\<open>_expand_enum_projections\<close>), and the check that every named type in a field resolves
  (\<^verbatim>\<open>_validate_named_field_types\<close>). Message texts are constructors with what they are built from.
\<close>

section \<open>Enum projections\<close>

datatype projection_error =
    DeclaredTwice
  | ModelClash
  | ProjectionClash
  | SemanticClash
  | UnresolvedSource lookup_error
  | SourceNotEnum
  | RepeatedMembers "string list"
  | UnknownMembers "string list"
  | NoMembers
  | BadVersion

text \<open>The findings that do not stop the expansion.\<close>

definition projection_clashes :: "domain_def \<Rightarrow> (string \<times> int) list \<Rightarrow> enum_projection_decl \<Rightarrow> projection_error list" where
  "projection_clashes d seen p =
     (if (ep_name p, ep_version p) \<in> set seen then [DeclaredTwice] else [])
     @ (if ep_name p \<in> set (dict_keys (dm_models d)) then [ModelClash] else [])
     @ (if ep_name p \<in> set (dict_keys (dm_projections d)) then [ProjectionClash] else [])
     @ (if list_ex (\<lambda>s. st_name s = ep_name p) (dm_semantic_types d) then [SemanticClash] else [])"

definition source_values :: "declaration_value \<Rightarrow> string list option" where
  "source_values v =
     (case v of DSemantic s \<Rightarrow> (case st_underlying s of EnumType vs \<Rightarrow> Some vs | _ \<Rightarrow> None) | _ \<Rightarrow> None)"

definition select_members :: "enum_projection_decl \<Rightarrow> string list \<Rightarrow> projection_error + string list" where
  "select_members p vs =
     (let repeated = sorted_set (filter (\<lambda>m. count_list (ep_selected p) m > 1) (ep_selected p));
          unknown = sorted_diff (ep_selected p) vs;
          members = (case ep_selection_kind p of
             Pick \<Rightarrow> sorted_set (ep_selected p)
           | Omit \<Rightarrow> sort (filter (\<lambda>v. v \<notin> set (ep_selected p)) vs)) in
      if repeated \<noteq> [] then Inl (RepeatedMembers repeated)
      else if unknown \<noteq> [] then Inl (UnknownMembers unknown)
      else if members = [] then Inl NoMembers
      else if ep_has_version_header p \<and> ep_version p < 1 then Inl BadVersion
      else Inr members)"

definition projection_members ::
    "signature_fn \<Rightarrow> mdl_file \<Rightarrow> string \<Rightarrow> enum_projection_decl \<Rightarrow> projection_error + string list" where
  "projection_members sig mdl d p =
     (case resolve_named_declaration sig mdl d (ep_source_name p) (Some (ep_source_version p)) False of
        Inl e \<Rightarrow> Inl (UnresolvedSource e)
      | Inr r \<Rightarrow>
          (case source_values (rd_declaration r) of
             None \<Rightarrow> Inl SourceNotEnum
           | Some vs \<Rightarrow> select_members p vs))"

text \<open>A projection that cannot be expanded keeps the members it has.\<close>

definition enum_projection_step ::
    "signature_fn \<Rightarrow> mdl_file \<Rightarrow> domain_def
     \<Rightarrow> enum_projection_decl list \<times> (string \<times> int) list \<times> (string \<times> projection_error) list
     \<Rightarrow> enum_projection_decl \<Rightarrow> enum_projection_decl list \<times> (string \<times> int) list \<times> (string \<times> projection_error) list" where
  "enum_projection_step sig mdl d st p =
     (case st of (expanded, seen, errors) \<Rightarrow>
      let clashes = map (Pair (ep_name p)) (projection_clashes d seen p); seen' = seen @ [(ep_name p, ep_version p)] in
      case projection_members sig mdl (dm_name d) p of
        Inl e \<Rightarrow> (expanded @ [p], seen', errors @ clashes @ [(ep_name p, e)])
      | Inr ms \<Rightarrow> (expanded @ [p\<lparr>ep_members := ms\<rparr>], seen', errors @ clashes))"

definition expand_enum_projections :: "signature_fn \<Rightarrow> mdl_file \<Rightarrow> mdl_file \<times> (string \<times> projection_error) list" where
  "expand_enum_projections sig mdl =
     (let ds = map (\<lambda>d. case foldl (enum_projection_step sig mdl d) ([], [], []) (dm_enum_projections d) of
                  (ps, _, errors) \<Rightarrow> (d\<lparr>dm_enum_projections := ps\<rparr>, errors)) (mf_domains mdl) in
      (mdl\<lparr>mf_domains := map fst ds\<rparr>, concat (map snd ds)))"

section \<open>Named types in fields\<close>

datatype type_finding =
    UnresolvedType string lookup_error
  | UnresolvedEnumRef string lookup_error
  | NotAnEnum string string int
  | UnpinnedEnum string string string int

definition is_error :: "type_finding \<Rightarrow> bool" where
  "is_error f = (case f of UnpinnedEnum _ _ _ _ \<Rightarrow> False | _ \<Rightarrow> True)"

text \<open>A name that stands for a model, qualified or not, is left to the reference check; so is \<^verbatim>\<open>bytes\<close>.\<close>

definition is_model_name :: "mdl_file \<Rightarrow> string \<Rightarrow> bool" where
  "is_model_name mdl name =
     (case partition1 (CHR ''.'') name of
        (d, True, m) \<Rightarrow> list_ex (\<lambda>dm. dm_name dm = d \<and> m \<in> set (dict_keys (dm_models dm))) (mf_domains mdl)
      | (_, False, _) \<Rightarrow> list_ex (\<lambda>dm. name \<in> set (dict_keys (dm_models dm))) (mf_domains mdl))"

definition is_enum_declaration :: "declaration_value \<Rightarrow> bool" where
  "is_enum_declaration v = (case v of DEnum _ \<Rightarrow> True | _ \<Rightarrow> source_values v \<noteq> None)"

definition visit_name :: "signature_fn \<Rightarrow> mdl_file \<Rightarrow> string \<Rightarrow> string \<Rightarrow> string \<Rightarrow> type_finding list" where
  "visit_name sig mdl d ctx name =
     (if is_model_name mdl name \<or> name = ''bytes'' then []
      else case resolve_named_declaration sig mdl d name None True of
          Inl e \<Rightarrow> [UnresolvedType ctx e]
        | Inr r \<Rightarrow>
            if is_enum_declaration (rd_declaration r)
            then [UnpinnedEnum ctx name (rd_domain_name r) (decl_version (rd_declaration r))] else [])"

definition visit_enum_ref :: "signature_fn \<Rightarrow> mdl_file \<Rightarrow> string \<Rightarrow> string \<Rightarrow> string \<Rightarrow> int \<Rightarrow> type_finding list" where
  "visit_enum_ref sig mdl d ctx name version =
     (case resolve_named_declaration sig mdl d name (Some version) True of
        Inl e \<Rightarrow> [UnresolvedEnumRef ctx e]
      | Inr r \<Rightarrow> if is_enum_declaration (rd_declaration r) then [] else [NotAnEnum ctx name version])"

fun visit_type :: "signature_fn \<Rightarrow> mdl_file \<Rightarrow> string \<Rightarrow> string \<Rightarrow> field_type \<Rightarrow> type_finding list"
  and visit_field :: "signature_fn \<Rightarrow> mdl_file \<Rightarrow> string \<Rightarrow> string \<Rightarrow> field_def \<Rightarrow> type_finding list"
  and visit_variant :: "signature_fn \<Rightarrow> mdl_file \<Rightarrow> string \<Rightarrow> string \<Rightarrow> union_variant \<Rightarrow> type_finding list" where
  "visit_type sig mdl d ctx (NamedType name) = visit_name sig mdl d ctx name"
| "visit_type sig mdl d ctx (EnumRefType name version) = visit_enum_ref sig mdl d ctx name version"
| "visit_type sig mdl d ctx (ArrayType t) = visit_type sig mdl d ctx t"
| "visit_type sig mdl d ctx (MapType k v) = visit_type sig mdl d ctx v"
| "visit_type sig mdl d ctx (ObjectType fs) = concat (map (visit_field sig mdl d ctx) fs)"
| "visit_type sig mdl d ctx (UnionType dis vs) = concat (map (visit_variant sig mdl d ctx) vs)"
| "visit_type sig mdl d ctx _ = []"
| "visit_field sig mdl d ctx (FieldDef n t opt nul def anns cs) = visit_type sig mdl d (ctx @ ''.'' @ n) t"
| "visit_variant sig mdl d ctx (UnionVariant tag t) = visit_type sig mdl d (ctx @ ''.'' @ tag) t"

definition validate_named_field_types :: "signature_fn \<Rightarrow> mdl_file \<Rightarrow> type_finding list" where
  "validate_named_field_types sig mdl =
     concat (map (\<lambda>d. concat (map (\<lambda>(name, vs). concat (map (\<lambda>v. concat (map (\<lambda>f.
       visit_type sig mdl (dm_name d)
         (dm_name d @ ''.'' @ name @ ''@'' @ int_str (mv_version v) @ ''.'' @ fd_name f) (fd_type f))
       (mv_fields v))) vs)) (dm_models d))) (mf_domains mdl))"

section \<open>What they promise\<close>

lemma repeated_distinct: "filter (\<lambda>m. count_list xs m > 1) xs = [] \<longleftrightarrow> distinct xs"
proof -
  have "distinct xs \<longleftrightarrow> (\<forall>m \<in> set xs. count_list xs m \<le> 1)"
  proof (induction xs)
    case (Cons x xs)
    have "count_list xs x \<le> 0 \<longleftrightarrow> x \<notin> set xs" by (simp add: count_list_0_iff)
    then show ?case using Cons by (auto simp: count_list_0_iff)
  qed simp
  then show ?thesis by (auto simp: filter_empty_conv not_less)
qed

lemma select_members_iff:
  "select_members p vs = Inr ms \<longleftrightarrow>
     distinct (ep_selected p) \<and> set (ep_selected p) \<subseteq> set vs \<and> (ep_has_version_header p \<longrightarrow> 1 \<le> ep_version p) \<and> ms \<noteq> [] \<and>
     ms = (case ep_selection_kind p of Pick \<Rightarrow> sort (ep_selected p) | Omit \<Rightarrow> sort (filter (\<lambda>v. v \<notin> set (ep_selected p)) vs))"
  unfolding select_members_def Let_def sorted_set_Nil repeated_distinct
  by (cases "ep_selection_kind p") (auto simp: sorted_set_def distinct_remdups_id not_less)

text \<open>
  An enum projection is expanded exactly when it means something: its source resolves at the exact version
  to an enum, the selected members are distinct members of the source, and something is left; the members
  are then the selected ones, or the ones of the source that are not selected, in order.
\<close>

theorem projection_members_exact:
  "projection_members sig mdl d p = Inr ms \<longleftrightarrow>
     (\<exists>r s vs. resolve_named_declaration sig mdl d (ep_source_name p) (Some (ep_source_version p)) False = Inr r
        \<and> rd_declaration r = DSemantic s \<and> st_underlying s = EnumType vs
        \<and> distinct (ep_selected p) \<and> set (ep_selected p) \<subseteq> set vs \<and> (ep_has_version_header p \<longrightarrow> 1 \<le> ep_version p) \<and> ms \<noteq> []
        \<and> ms = (case ep_selection_kind p of
                  Pick \<Rightarrow> sort (ep_selected p) | Omit \<Rightarrow> sort (filter (\<lambda>v. v \<notin> set (ep_selected p)) vs)))"
  unfolding projection_members_def
  by (auto simp: select_members_iff source_values_def split: sum.splits declaration_value.splits field_type.splits)

text \<open>The types inside a type that name a declaration, apart from those in the keys of its maps.\<close>

fun leaves_outside_keys :: "field_type \<Rightarrow> field_type list"
  and field_leaves :: "field_def \<Rightarrow> field_type list"
  and variant_leaves :: "union_variant \<Rightarrow> field_type list" where
  "leaves_outside_keys (NamedType n) = [NamedType n]"
| "leaves_outside_keys (EnumRefType n v) = [EnumRefType n v]"
| "leaves_outside_keys (ArrayType t) = leaves_outside_keys t"
| "leaves_outside_keys (MapType k v) = leaves_outside_keys v"
| "leaves_outside_keys (ObjectType fs) = concat (map field_leaves fs)"
| "leaves_outside_keys (UnionType dis vs) = concat (map variant_leaves vs)"
| "leaves_outside_keys _ = []"
| "field_leaves (FieldDef n t opt nul def anns cs) = leaves_outside_keys t"
| "variant_leaves (UnionVariant tag t) = leaves_outside_keys t"

definition leaf_resolves :: "signature_fn \<Rightarrow> mdl_file \<Rightarrow> string \<Rightarrow> field_type \<Rightarrow> bool" where
  "leaf_resolves sig mdl d t =
     (case t of
        NamedType n \<Rightarrow> is_model_name mdl n \<or> n = ''bytes'' \<or> (\<exists>r. resolve_named_declaration sig mdl d n None True = Inr r)
      | EnumRefType n v \<Rightarrow>
          (\<exists>r. resolve_named_declaration sig mdl d n (Some v) True = Inr r \<and> is_enum_declaration (rd_declaration r))
      | _ \<Rightarrow> True)"

lemma visit_errors:
  "list_ex is_error (visit_type sig mdl d ctx t) \<longleftrightarrow> \<not> list_all (leaf_resolves sig mdl d) (leaves_outside_keys t)"
  "list_ex is_error (visit_field sig mdl d ctx f) \<longleftrightarrow> \<not> list_all (leaf_resolves sig mdl d) (field_leaves f)"
  "list_ex is_error (visit_variant sig mdl d ctx v) \<longleftrightarrow> \<not> list_all (leaf_resolves sig mdl d) (variant_leaves v)"
proof (induction sig mdl d ctx t and sig mdl d ctx f and sig mdl d ctx v
    rule: visit_type_visit_field_visit_variant.induct)
qed (auto simp: list_ex_iff list_all_iff visit_name_def visit_enum_ref_def leaf_resolves_def is_error_def split: sum.splits)

text \<open>
  C18. The check of field types, which leaves out the keys of maps: it reports no error if and only if every
  named type in every field, however deeply nested under arrays, the values of maps, inline objects and the
  variants of unions, is a model, \<^verbatim>\<open>bytes\<close> or a declaration that resolves, and every versioned enum reference
  there resolves to an enum. A name in the key of a map is never looked at (\<^verbatim>\<open>map_key_unresolved\<close>).
\<close>

theorem field_types_resolve_iff:
  "\<not> list_ex is_error (validate_named_field_types sig mdl) \<longleftrightarrow>
     list_all (\<lambda>d. list_all (\<lambda>(name, vs). list_all (\<lambda>v. list_all (\<lambda>f.
       list_all (leaf_resolves sig mdl (dm_name d)) (leaves_outside_keys (fd_type f))) (mv_fields v)) vs) (dm_models d)) (mf_domains mdl)"
  unfolding validate_named_field_types_def list_ex_concat list_ex_map visit_errors(1) case_prod_beta
  by (simp add: list_ex_iff list_all_iff)

text \<open>The key of a map may name a type that is not declared.\<close>

definition keyed_by :: "field_type \<Rightarrow> mdl_file" where
  "keyed_by t = sample_workspace\<lparr>mf_domains := [sample_shop\<lparr>dm_models :=
     [(''M'', [(sample_model 1 Additive)\<lparr>mv_fields :=
        [FieldDef ''f'' (MapType t (PrimitiveType KInt 4)) False False None [] []]\<rparr>])]\<rparr>]\<rparr>"

lemma map_key_unresolved:
  "validate_named_field_types sig (keyed_by (NamedType ''Nowhere'')) = []"
  "isl (resolve_named_declaration (\<lambda>_ _ _. []) (keyed_by (NamedType ''Nowhere'')) ''shop'' ''Nowhere'' None True)"
  by (simp add: validate_named_field_types_def keyed_by_def sample_workspace_def sample_shop_def sample_model_def) code_simp

definition sample_status :: semantic_type_decl where
  "sample_status = sample_money\<lparr>st_name := ''Status'', st_underlying := EnumType [''Open'', ''Paid'', ''Lost'']\<rparr>"

definition sample_enums :: mdl_file where
  "sample_enums = sample_workspace\<lparr>mf_domains := [sample_shop\<lparr>dm_semantic_types := [sample_status]\<rparr>]\<rparr>"

definition live_status :: enum_projection_decl where
  "live_status = \<lparr>ep_name = ''Live'', ep_version = 1, ep_change_kind = Additive, ep_has_version_header = True,
     ep_has_change_kind = True, ep_source_name = ''Status'', ep_source_version = 1, ep_selection_kind = Omit,
     ep_selected = [''Lost''], ep_members = []\<rparr>"

lemma live_members: "projection_members (\<lambda>_ _ _. []) sample_enums ''shop'' live_status = Inr [''Open'', ''Paid'']"
  by code_simp

theorem projection_members_exact_witness:
  "distinct (ep_selected live_status) \<and> [''Open'', ''Paid''] = sort (filter (\<lambda>v. v \<notin> {''Lost''}) [''Open'', ''Paid'', ''Lost''])"
proof -
  obtain r s vs where "resolve_named_declaration (\<lambda>_ _ _. []) sample_enums ''shop'' (ep_source_name live_status) (Some (ep_source_version live_status)) False = Inr r"
    and rs: "rd_declaration r = DSemantic s" "st_underlying s = EnumType vs" "distinct (ep_selected live_status)"
    and ms: "[''Open'', ''Paid''] = sort (filter (\<lambda>v. v \<notin> set (ep_selected live_status)) vs)"
    using live_members unfolding projection_members_exact by (auto simp: live_status_def)
  moreover have "map_sum id (\<lambda>r. source_values (rd_declaration r)) (resolve_named_declaration (\<lambda>_ _ _. []) sample_enums ''shop''
      (ep_source_name live_status) (Some (ep_source_version live_status)) False) = Inr (Some [''Open'', ''Paid'', ''Lost''])"
    by code_simp
  ultimately have "vs = [''Open'', ''Paid'', ''Lost'']" by (simp add: source_values_def)
  then show ?thesis using rs(3) ms by (simp add: live_status_def)
qed

end
