(* ===== verification/Facet_Schema.thy ===== *)
theory Facet_Schema
  imports Py_Number Identity
begin

text \<open>
  \<^verbatim>\<open>cli/src/modelable/facets.py\<close>, first half: the identities and subjects of typed facets, the subset
  of JSON Schema that describes their values, the check that a schema is well formed and the check
  of a value against it. The last is compared with a reading of each keyword on its own.
\<close>

declare sbind_cong [fundef_cong] smap_cong [fundef_cong]

datatype facet_error =
    BadNamespace string
  | BadFacetName string
  | BadSchemaVersion
  | BadFacetIdentity string
  | NonCanonicalFacetIdentity string
  | BadSubjectKind string
  | BadSubjectReference string string
  | BadSubject string
  | NonCanonicalSubject string
  | BadSourceText string
  | NotAnObject string
  | UnknownKeys string "string list"
  | MissingKeys string "string list"
  | NotAString string string
  | NonFinite string
  | UnsupportedKeywords string "string list"
  | BadEnum string
  | DuplicateEnum string
  | EmptyPropertyName string
  | BadRequired string
  | DuplicateRequired string
  | BadAdditional string
  | BadItemCount string string
  | ItemCountsCrossed string
  | BadNumericBound string string
  | NumericBoundsCrossed string
  | BadPattern string
  | BadTypes string
  | UnsupportedType string
  | DuplicateType string
  | KeywordNeedsType string string
  | TypeMismatch string
  | ConstMismatch string
  | EnumMismatch string
  | PropertyMissing string string
  | PropertyUnsupported string string
  | TooFewItems string
  | TooManyItems string
  | BelowMinimum string
  | AboveMaximum string
  | PatternMismatch string
  | NoAllowedSubject
  | BadAllowedSubject
  | DuplicateAllowedSubject
  | BadPropagation string
  | BadInterpretation
  | RegistryKeyMismatch string
  | SubjectNotAllowed string string
  | PropagationMismatch string string
  | InvalidFacetValue string string facet_error
  | BadDocumentSchema
  | NotAnArray string
  | DuplicateSchema string
  | UnhashableValue
  | DoubleOverflow

section \<open>Identities\<close>

definition is_lower :: "char \<Rightarrow> bool" where
  "is_lower c \<longleftrightarrow> 97 \<le> code c \<and> code c \<le> 122"

text \<open>\<^verbatim>\<open>_QUALIFIED_IDENTIFIER\<close>: words of lower-case letters and digits, separated by \<^verbatim>\<open>.\<close> or \<^verbatim>\<open>-\<close>\<close>

definition qualified_word :: "string \<Rightarrow> bool" where
  "qualified_word w =
     (case w of [] \<Rightarrow> False | c # t \<Rightarrow> is_lower c \<and> list_all (\<lambda>x. is_lower x \<or> is_decimal x) t)"

definition qualified_identifier :: "string \<Rightarrow> bool" where
  "qualified_identifier s \<longleftrightarrow>
     list_all qualified_word (split_on (CHR ''.'') (map (\<lambda>c. if c = CHR ''-'' then CHR ''.'' else c) s))"

record facet_identity =
  fi_namespace :: string
  fi_name :: string
  fi_version :: int

definition mk_facet_identity :: "string \<Rightarrow> string \<Rightarrow> int \<Rightarrow> facet_error + facet_identity" where
  "mk_facet_identity ns n v =
     (if \<not> qualified_identifier ns then Inl (BadNamespace ns)
      else if \<not> qualified_identifier n then Inl (BadFacetName n)
      else if v \<le> 0 then Inl BadSchemaVersion
      else Inr \<lparr>fi_namespace = ns, fi_name = n, fi_version = v\<rparr>)"

definition fi_canonical :: "facet_identity \<Rightarrow> string" where
  "fi_canonical i = fi_namespace i @ ''/'' @ fi_name i @ ''@'' @ int_str (fi_version i)"

text \<open>\<^verbatim>\<open>_CANONICAL_IDENTITY.fullmatch\<close> with its three groups\<close>

definition match_identity :: "string \<Rightarrow> (string \<times> string \<times> string) option" where
  "match_identity s =
     (let (ns, slash, rest) = partition1 (CHR ''/'') s;
          (n, sep, v) = partition1 (CHR ''@'') rest
      in if slash \<and> sep \<and> qualified_identifier ns \<and> qualified_identifier n
            \<and> v \<noteq> [] \<and> list_all is_decimal v \<and> hd v \<noteq> CHR ''0''
         then Some (ns, n, v) else None)"

definition from_canonical :: "string \<Rightarrow> facet_error + facet_identity" where
  "from_canonical s =
     (case match_identity s of
        None \<Rightarrow> Inl (BadFacetIdentity s)
      | Some (ns, n, v) \<Rightarrow>
          sbind (mk_facet_identity ns n (int (nat_of_digits v))) (\<lambda>result.
            if fi_canonical result \<noteq> s then Inl (NonCanonicalFacetIdentity s) else Inr result))"

section \<open>Subjects\<close>

datatype subject_kind = DeclarationSubject | FieldSubject | ProjectionSubject | ProjectionFieldSubject

fun subject_kind_str :: "subject_kind \<Rightarrow> string" where
  "subject_kind_str DeclarationSubject = ''declaration''"
| "subject_kind_str FieldSubject = ''field''"
| "subject_kind_str ProjectionSubject = ''projection''"
| "subject_kind_str ProjectionFieldSubject = ''projection_field''"

text \<open>\<^verbatim>\<open>_SUBJECT_KINDS\<close>\<close>

definition subject_kind_of :: "string \<Rightarrow> subject_kind option" where
  "subject_kind_of s =
     List.find (\<lambda>k. subject_kind_str k = s)
       [DeclarationSubject, FieldSubject, ProjectionSubject, ProjectionFieldSubject]"

record facet_subject =
  fs_kind :: subject_kind
  fs_reference :: string

definition names_declaration :: "subject_kind \<Rightarrow> bool" where
  "names_declaration k \<longleftrightarrow> k \<in> {DeclarationSubject, ProjectionSubject}"

definition mk_facet_subject :: "string \<Rightarrow> string \<Rightarrow> facet_error + facet_subject" where
  "mk_facet_subject kind reference =
     (case subject_kind_of kind of
        None \<Rightarrow> Inl (BadSubjectKind kind)
      | Some k \<Rightarrow>
          let well_formed = (if names_declaration k
                             then map_sum id (\<lambda>_. ()) (parse_declaration_id reference)
                             else map_sum id (\<lambda>_. ()) (parse_semantic_path reference))
          in case well_formed of
              Inl _ \<Rightarrow> Inl (BadSubjectReference kind reference)
            | Inr _ \<Rightarrow> Inr \<lparr>fs_kind = k, fs_reference = reference\<rparr>)"

definition fs_canonical :: "facet_subject \<Rightarrow> string" where
  "fs_canonical s = subject_kind_str (fs_kind s) @ '':'' @ fs_reference s"

definition parse_facet_subject :: "string \<Rightarrow> facet_error + facet_subject" where
  "parse_facet_subject value =
     (let (kind, sep, reference) = partition1 (CHR '':'') value
      in if \<not> sep \<or> kind = [] \<or> reference = [] then Inl (BadSubject value)
         else sbind (mk_facet_subject kind reference) (\<lambda>result.
           if fs_canonical result \<noteq> value then Inl (NonCanonicalSubject value) else Inr result))"

section \<open>Reading documents\<close>

definition mapping :: "string \<Rightarrow> json \<Rightarrow> facet_error + (string \<times> json) list" where
  "mapping label j = (case j of JObj d \<Rightarrow> Inr d | _ \<Rightarrow> Inl (NotAnObject label))"

definition require_exact_keys ::
    "(string \<times> json) list \<Rightarrow> string list \<Rightarrow> string list \<Rightarrow> string \<Rightarrow> facet_error + unit" where
  "require_exact_keys d allowed required label =
     checks
      [(let unknown = sorted_diff (dict_keys d) allowed
        in raise_if (unknown \<noteq> []) (UnknownKeys label unknown)),
       (let missing = sorted_diff required (dict_keys d)
        in raise_if (missing \<noteq> []) (MissingKeys label missing))]"

definition string_at :: "(string \<times> json) list \<Rightarrow> string \<Rightarrow> string \<Rightarrow> facet_error + string" where
  "string_at d key label =
     (case map_of d key of Some (JStr s) \<Rightarrow> Inr s | _ \<Rightarrow> Inl (NotAString label key))"

definition optional_string :: "json option \<Rightarrow> string \<Rightarrow> facet_error + string option" where
  "optional_string v label =
     (case v of
        None \<Rightarrow> Inr None
      | Some JNull \<Rightarrow> Inr None
      | Some (JStr s) \<Rightarrow> if s = [] then Inl (BadSourceText label) else Inr (Some s)
      | Some _ \<Rightarrow> Inl (BadSourceText label))"

text \<open>
  \<^verbatim>\<open>_copy_json\<close>: the values of the model are trees with string keys, so only the numbers that are
  not finite are refused.
\<close>

fun copy_json :: "string \<Rightarrow> json \<Rightarrow> facet_error + json" where
  "copy_json label (JFloat s) = (if finite_float s then Inr (JFloat s) else Inl (NonFinite label))"
| "copy_json label (JList xs) = sbind (smap (copy_json label) xs) (\<lambda>ys. Inr (JList ys))"
| "copy_json label (JObj kvs) =
     sbind (smap (\<lambda>kv. sbind (copy_json label (snd kv)) (\<lambda>v. Inr (fst kv, v))) kvs)
       (\<lambda>items. Inr (JObj items))"
| "copy_json label j = Inr j"

definition canonical_json_value :: "json \<Rightarrow> facet_error + json" where
  "canonical_json_value j = sbind (copy_json ''facet value'' j) (\<lambda>c. Inr (sort_json c))"

definition canonical_json :: "json \<Rightarrow> facet_error + string" where
  "canonical_json j = sbind (canonical_json_value j) (\<lambda>c. Inr (compact_json c))"

text \<open>\<^verbatim>\<open>math.isfinite\<close> converts an integer to a double first.\<close>

definition is_json_number :: "json \<Rightarrow> facet_error + bool" where
  "is_json_number j =
     (case j of
        JInt i \<Rightarrow> if in_double_range i then Inr True else Inl DoubleOverflow
      | JFloat s \<Rightarrow> Inr (finite_float s)
      | _ \<Rightarrow> Inr False)"

section \<open>Schemas\<close>

text \<open>
  Regular expressions of Python's \<^verbatim>\<open>re\<close> are a parameter: whether a pattern compiles, and whether it
  is found in a text.
\<close>

record patterns =
  compiles :: "string \<Rightarrow> bool"
  found_in :: "string \<Rightarrow> string \<Rightarrow> bool"

type_synonym json_schema = "(string \<times> json) list"

definition schema_keywords :: "string list" where
  "schema_keywords =
     [''type'', ''const'', ''enum'', ''properties'', ''required'', ''items'', ''minItems'', ''maxItems'',
      ''minimum'', ''maximum'', ''pattern'', ''additionalProperties'']"

definition value_types :: "string list" where
  "value_types = [''null'', ''boolean'', ''integer'', ''number'', ''string'', ''array'', ''object'']"

definition has_key :: "json_schema \<Rightarrow> string \<Rightarrow> bool" where
  "has_key d k \<longleftrightarrow> map_of d k \<noteq> None"

definition schema_types :: "json_schema \<Rightarrow> string \<Rightarrow> facet_error + string list option" where
  "schema_types schema label =
     (case map_of schema ''type'' of
        None \<Rightarrow> Inr None
      | Some v \<Rightarrow>
          let types = (case v of
                JStr s \<Rightarrow> Some [s]
              | JList xs \<Rightarrow> if xs \<noteq> [] \<and> list_all (\<lambda>x. json_str x \<noteq> None) xs
                           then Some (List.map_filter json_str xs) else None
              | _ \<Rightarrow> None)
          in case types of
              None \<Rightarrow> Inl (BadTypes label)
            | Some ts \<Rightarrow>
                if list_ex (\<lambda>t. t \<notin> set value_types) ts then Inl (UnsupportedType label)
                else if \<not> distinct ts then Inl (DuplicateType label)
                else Inr (Some ts))"

definition check_const :: "json_schema \<Rightarrow> string \<Rightarrow> facet_error + unit" where
  "check_const schema label =
     (case map_of schema ''const'' of
        None \<Rightarrow> Inr ()
      | Some v \<Rightarrow> sbind (copy_json (label @ ''.const'') v) (\<lambda>_. Inr ()))"

definition check_enum :: "json_schema \<Rightarrow> string \<Rightarrow> facet_error + unit" where
  "check_enum schema label =
     (case map_of schema ''enum'' of
        None \<Rightarrow> Inr ()
      | Some (JList xs) \<Rightarrow>
          if xs = [] then Inl (BadEnum label)
          else sbind (smap (copy_json (label @ ''.enum'')) xs) (\<lambda>values.
               sbind (smap canonical_json values) (\<lambda>texts.
               raise_if (\<not> distinct texts) (DuplicateEnum label)))
      | Some _ \<Rightarrow> Inl (BadEnum label))"

definition nonempty_text :: "json \<Rightarrow> bool" where
  "nonempty_text j = (case j of JStr s \<Rightarrow> s \<noteq> [] | _ \<Rightarrow> False)"

definition check_required :: "json_schema \<Rightarrow> string \<Rightarrow> facet_error + unit" where
  "check_required schema label =
     (case map_of schema ''required'' of
        None \<Rightarrow> Inr ()
      | Some (JList xs) \<Rightarrow>
          if \<not> list_all nonempty_text xs then Inl (BadRequired label)
          else raise_if (\<not> distinct (List.map_filter json_str xs)) (DuplicateRequired label)
      | Some _ \<Rightarrow> Inl (BadRequired label))"

fun is_json_bool :: "json \<Rightarrow> bool" where
  "is_json_bool (JBool _) = True"
| "is_json_bool _ = False"

definition check_additional :: "json_schema \<Rightarrow> string \<Rightarrow> facet_error + unit" where
  "check_additional schema label =
     (case map_of schema ''additionalProperties'' of
        None \<Rightarrow> Inr ()
      | Some v \<Rightarrow> raise_if (\<not> is_json_bool v) (BadAdditional label))"

definition check_item_count :: "json_schema \<Rightarrow> string \<Rightarrow> string \<Rightarrow> facet_error + unit" where
  "check_item_count schema label keyword =
     (case map_of schema keyword of
        None \<Rightarrow> Inr ()
      | Some (JInt n) \<Rightarrow> raise_if (n < 0) (BadItemCount label keyword)
      | Some _ \<Rightarrow> Inl (BadItemCount label keyword))"

definition check_item_counts :: "json_schema \<Rightarrow> string \<Rightarrow> facet_error + unit" where
  "check_item_counts schema label =
     checks
      [check_item_count schema label ''minItems'',
       check_item_count schema label ''maxItems'',
       (case (map_of schema ''minItems'', map_of schema ''maxItems'') of
          (Some (JInt m), Some (JInt n)) \<Rightarrow> raise_if (n < m) (ItemCountsCrossed label)
        | _ \<Rightarrow> Inr ())]"

definition check_numeric_bound :: "json_schema \<Rightarrow> string \<Rightarrow> string \<Rightarrow> facet_error + unit" where
  "check_numeric_bound schema label keyword =
     (case map_of schema keyword of
        None \<Rightarrow> Inr ()
      | Some v \<Rightarrow> sbind (is_json_number v) (\<lambda>b. raise_if (\<not> b) (BadNumericBound label keyword)))"

definition check_numeric_bounds :: "json_schema \<Rightarrow> string \<Rightarrow> facet_error + unit" where
  "check_numeric_bounds schema label =
     checks
      [check_numeric_bound schema label ''minimum'',
       check_numeric_bound schema label ''maximum'',
       (case (map_of schema ''minimum'', map_of schema ''maximum'') of
          (Some m, Some n) \<Rightarrow> raise_if (number_value n < number_value m) (NumericBoundsCrossed label)
        | _ \<Rightarrow> Inr ())]"

definition check_pattern :: "patterns \<Rightarrow> json_schema \<Rightarrow> string \<Rightarrow> facet_error + unit" where
  "check_pattern re schema label =
     (case map_of schema ''pattern'' of
        None \<Rightarrow> Inr ()
      | Some (JStr p) \<Rightarrow> raise_if (\<not> compiles re p) (BadPattern label)
      | Some _ \<Rightarrow> Inl (BadPattern label))"

text \<open>\<^verbatim>\<open>_validate_keyword_types\<close>\<close>

definition check_keyword_types :: "string list option \<Rightarrow> json_schema \<Rightarrow> string \<Rightarrow> facet_error + unit" where
  "check_keyword_types types schema label =
     (case types of
        None \<Rightarrow> Inr ()
      | Some ts \<Rightarrow>
          checks
           [raise_if (list_ex (has_key schema) [''properties'', ''required'', ''additionalProperties'']
                      \<and> ''object'' \<notin> set ts) (KeywordNeedsType label ''object''),
            raise_if (list_ex (has_key schema) [''items'', ''minItems'', ''maxItems'']
                      \<and> ''array'' \<notin> set ts) (KeywordNeedsType label ''array''),
            raise_if (list_ex (has_key schema) [''minimum'', ''maximum'']
                      \<and> ''integer'' \<notin> set ts \<and> ''number'' \<notin> set ts) (KeywordNeedsType label ''number''),
            raise_if (has_key schema ''pattern'' \<and> ''string'' \<notin> set ts)
              (KeywordNeedsType label ''string'')])"

lemma property_size:
  assumes "map_of schema ''properties'' = Some v" and "mapping l v = Inr ps" and "p \<in> set ps"
    and "mapping l' (snd p) = Inr child"
  shows "size_list (size_prod (\<lambda>_. 0) size) child < size_list (size_prod (\<lambda>_. 0) size) (schema :: json_schema)"
proof -
  have "v = JObj ps" and "snd p = JObj child"
    using assms(2,4) by (auto simp: mapping_def split: json.splits)
  moreover have "size_list (size_prod (\<lambda>_. 0) size) child < size_list (size_prod (\<lambda>_. 0) size) ps"
    using \<open>p \<in> set ps\<close> \<open>snd p = JObj child\<close> by (induction ps) auto
  ultimately show ?thesis using map_of_size [OF assms(1)] by simp
qed

lemma items_size:
  assumes "map_of schema ''items'' = Some v" and "mapping l v = Inr child"
  shows "size_list (size_prod (\<lambda>_. 0) size) child < size_list (size_prod (\<lambda>_. 0) size) (schema :: json_schema)"
  using assms(2) map_of_size [OF assms(1)] by (auto simp: mapping_def split: json.splits)

function validate_schema :: "patterns \<Rightarrow> json_schema \<Rightarrow> string \<Rightarrow> facet_error + unit" where
  "validate_schema re schema label =
     checks
      [(let unknown = sorted_diff (dict_keys schema) schema_keywords
        in raise_if (unknown \<noteq> []) (UnsupportedKeywords label unknown)),
       sbind (schema_types schema label) (\<lambda>_. Inr ()),
       check_const schema label,
       check_enum schema label,
       (case map_of schema ''properties'' of
          None \<Rightarrow> Inr ()
        | Some v \<Rightarrow>
            sbind (mapping (label @ ''.properties'') v) (\<lambda>properties.
              checks (map (\<lambda>p.
                if fst p = [] then Inl (EmptyPropertyName label)
                else sbind (mapping (label @ ''.properties.'' @ fst p) (snd p)) (\<lambda>child.
                       validate_schema re child (label @ ''.properties.'' @ fst p))) properties))),
       check_required schema label,
       check_additional schema label,
       (case map_of schema ''items'' of
          None \<Rightarrow> Inr ()
        | Some v \<Rightarrow>
            sbind (mapping (label @ ''.items'') v) (\<lambda>child.
              validate_schema re child (label @ ''.items''))),
       check_item_counts schema label,
       check_numeric_bounds schema label,
       check_pattern re schema label,
       sbind (schema_types schema label) (\<lambda>types. check_keyword_types types schema label)]"
  by pat_completeness auto
termination
  by (relation "measure (\<lambda>(_, schema, _). size_list (size_prod (\<lambda>_. 0) size) schema)")
     (auto intro: property_size items_size)

section \<open>Values\<close>

definition matches_type :: "json \<Rightarrow> string \<Rightarrow> facet_error + bool" where
  "matches_type v t =
     (if t = ''null'' then Inr (v = JNull)
      else if t = ''boolean'' then Inr (is_json_bool v)
      else if t = ''integer'' then Inr (case v of JInt _ \<Rightarrow> True | _ \<Rightarrow> False)
      else if t = ''number'' then is_json_number v
      else if t = ''string'' then Inr (json_str v \<noteq> None)
      else if t = ''array'' then Inr (json_list v \<noteq> None)
      else if t = ''object'' then Inr (case v of JObj _ \<Rightarrow> True | _ \<Rightarrow> False)
      else Inr False)"

fun array_of :: "json \<Rightarrow> json list" where
  "array_of (JList xs) = xs"
| "array_of _ = []"

fun object_of :: "json \<Rightarrow> (string \<times> json) list" where
  "object_of (JObj d) = d"
| "object_of _ = []"

fun int_of :: "json \<Rightarrow> int" where
  "int_of (JInt n) = n"
| "int_of _ = 0"

definition array_at :: "json_schema \<Rightarrow> string \<Rightarrow> json list" where
  "array_at schema key = (case map_of schema key of None \<Rightarrow> [] | Some v \<Rightarrow> array_of v)"

definition properties_of :: "json_schema \<Rightarrow> (string \<times> json) list" where
  "properties_of schema = (case map_of schema ''properties'' of None \<Rightarrow> [] | Some v \<Rightarrow> object_of v)"

definition check_type :: "json_schema \<Rightarrow> json \<Rightarrow> string \<Rightarrow> facet_error + unit" where
  "check_type schema v label =
     sbind (schema_types schema label) (\<lambda>types.
       case types of
         None \<Rightarrow> Inr ()
       | Some ts \<Rightarrow> sbind (any_of (matches_type v) ts) (\<lambda>b. raise_if (\<not> b) (TypeMismatch label)))"

definition same_canonical :: "json \<Rightarrow> json \<Rightarrow> facet_error + bool" where
  "same_canonical v c =
     sbind (canonical_json v) (\<lambda>a. sbind (canonical_json c) (\<lambda>b. Inr (a = b)))"

definition check_equal_const :: "json_schema \<Rightarrow> json \<Rightarrow> string \<Rightarrow> facet_error + unit" where
  "check_equal_const schema v label =
     (case map_of schema ''const'' of
        None \<Rightarrow> Inr ()
      | Some c \<Rightarrow> sbind (same_canonical v c) (\<lambda>b. raise_if (\<not> b) (ConstMismatch label)))"

definition check_in_enum :: "json_schema \<Rightarrow> json \<Rightarrow> string \<Rightarrow> facet_error + unit" where
  "check_in_enum schema v label =
     (if has_key schema ''enum''
      then sbind (any_of (same_canonical v) (array_at schema ''enum''))
             (\<lambda>b. raise_if (\<not> b) (EnumMismatch label))
      else Inr ())"

definition check_has_required :: "json_schema \<Rightarrow> (string \<times> json) list \<Rightarrow> string \<Rightarrow> facet_error + unit" where
  "check_has_required schema d label =
     (let missing = sorted_diff (List.map_filter json_str (array_at schema ''required'')) (dict_keys d)
      in raise_if (missing \<noteq> []) (PropertyMissing label (hd missing)))"

definition check_no_extras :: "json_schema \<Rightarrow> (string \<times> json) list \<Rightarrow> string \<Rightarrow> facet_error + unit" where
  "check_no_extras schema d label =
     (if map_of schema ''additionalProperties'' = Some (JBool False)
      then let extras = sorted_diff (dict_keys d) (dict_keys (properties_of schema))
           in raise_if (extras \<noteq> []) (PropertyUnsupported label (hd extras))
      else Inr ())"

definition check_length :: "json_schema \<Rightarrow> json list \<Rightarrow> string \<Rightarrow> facet_error + unit" where
  "check_length schema xs label =
     checks
      [(case map_of schema ''minItems'' of
          None \<Rightarrow> Inr () | Some n \<Rightarrow> raise_if (int (length xs) < int_of n) (TooFewItems label)),
       (case map_of schema ''maxItems'' of
          None \<Rightarrow> Inr () | Some n \<Rightarrow> raise_if (int_of n < int (length xs)) (TooManyItems label))]"

definition check_number :: "json_schema \<Rightarrow> json \<Rightarrow> string \<Rightarrow> facet_error + unit" where
  "check_number schema v label =
     sbind (is_json_number v) (\<lambda>b.
       if \<not> b then Inr ()
       else checks
        [(case map_of schema ''minimum'' of
            None \<Rightarrow> Inr () | Some m \<Rightarrow> raise_if (number_value v < number_value m) (BelowMinimum label)),
         (case map_of schema ''maximum'' of
            None \<Rightarrow> Inr () | Some m \<Rightarrow> raise_if (number_value m < number_value v) (AboveMaximum label))])"

definition check_found :: "patterns \<Rightarrow> json_schema \<Rightarrow> json \<Rightarrow> string \<Rightarrow> facet_error + unit" where
  "check_found re schema v label =
     (case (v, map_of schema ''pattern'') of
        (JStr s, Some (JStr p)) \<Rightarrow> raise_if (\<not> found_in re p s) (PatternMismatch label)
      | _ \<Rightarrow> Inr ())"

lemma member_size: "map_of d n = Some w \<Longrightarrow> size (w :: json) < size (JObj d)"
  using map_of_size [of d n w] by simp

lemma item_size:
  assumes "ix \<in> set (enumerate k xs)"
  shows "size (snd ix :: json) < size (JList xs)"
proof -
  have "xs ! (fst ix - k) = snd ix" and "fst ix - k < length xs"
    using assms by (auto simp: in_set_enumerate_eq)
  then have "snd ix \<in> set xs" by (metis nth_mem)
  then have "size (snd ix) \<le> size_list size xs" by (rule size_list_estimation') simp
  then show ?thesis by simp
qed

text \<open>
  \<^verbatim>\<open>_validate_value\<close>. The schemas it is used with have passed \<^const>\<open>validate_schema\<close>, which is why the
  code casts what it reads from them.
\<close>

function validate_value :: "patterns \<Rightarrow> json_schema \<Rightarrow> json \<Rightarrow> string \<Rightarrow> facet_error + unit" where
  "validate_value re schema v label =
     checks
      [check_type schema v label,
       check_equal_const schema v label,
       check_in_enum schema v label,
       (case v of
          JObj d \<Rightarrow>
            checks
             [check_has_required schema d label,
              checks (map (\<lambda>n.
                case (map_of (properties_of schema) n, map_of d n) of
                  (Some s, Some w) \<Rightarrow>
                    sbind (mapping (label @ ''.'' @ n) s) (\<lambda>child.
                      validate_value re child w (label @ ''.'' @ n))
                | _ \<Rightarrow> Inr ())
                (sorted_inter (dict_keys d) (dict_keys (properties_of schema)))),
              check_no_extras schema d label]
        | _ \<Rightarrow> Inr ()),
       (case v of
          JList xs \<Rightarrow>
            checks
             [check_length schema xs label,
              (case map_of schema ''items'' of
                 None \<Rightarrow> Inr ()
               | Some s \<Rightarrow>
                   sbind (mapping (label @ ''.items'') s) (\<lambda>child.
                     checks (map (\<lambda>ix. validate_value re child (snd ix) (label @ ''['' @ nat_str (fst ix) @ '']''))
                              (enumerate 0 xs))))]
        | _ \<Rightarrow> Inr ()),
       check_number schema v label,
       check_found re schema v label]"
  by pat_completeness auto
termination
  by (relation "measure (\<lambda>(_, _, v, _). size v)")
     (use member_size item_size in \<open>force\<close>)+

declare validate_schema.simps [simp del] validate_value.simps [simp del]

end
