(* ===== verification/Facet_Conformance.thy ===== *)
theory Facet_Conformance
  imports Facet_Schema
begin

text \<open>
  What the schema language of facets means. \<open>conforms\<close> reads every keyword of a schema as a condition
  of its own; for a schema that \<^const>\<open>validate_schema\<close> accepts, \<^const>\<open>validate_value\<close> accepts exactly
  the values that meet all of them.
\<close>

section \<open>Copies and canonical texts\<close>

lemma copy_json_Inr [simp]: "copy_json label j = Inr k \<longleftrightarrow> json_finite j \<and> k = j"
proof (induction label j arbitrary: k rule: copy_json.induct)
  case (2 label xs)
  have "list_all2 (\<lambda>x y. copy_json label x = Inr y) xs ys \<longleftrightarrow> list_all json_finite xs \<and> ys = xs" for ys
    using 2 by (induction xs arbitrary: ys) (auto simp: list_all2_Cons1)
  then show ?case by (auto simp: smap_eq_Inr_iff)
next
  case (3 label kvs)
  have "list_all2 (\<lambda>kv y. sbind (copy_json label (snd kv)) (\<lambda>v. Inr (fst kv, v)) = Inr y) kvs ys
      \<longleftrightarrow> list_all (\<lambda>kv. json_finite (snd kv)) kvs \<and> ys = kvs" for ys
    using 3 by (induction kvs arbitrary: ys) (auto simp: list_all2_Cons1)
  then show ?case by (auto simp: smap_eq_Inr_iff)
qed auto

lemma sort_json_idem [simp]: "sort_json (sort_json j) = sort_json j"
proof (induction j rule: sort_json.induct)
  case (2 kvs)
  let ?ys = "sort_key fst (map (\<lambda>(k, v). (k, sort_json v)) kvs)"
  have "map (\<lambda>(k, v). (k, sort_json v)) ?ys = ?ys"
    using 2 by (intro map_idI) auto
  then show ?case using sort_json_obj [of ?ys] by simp
qed auto

lemma canonical_json_Inr [simp]:
  "canonical_json j = Inr t \<longleftrightarrow> json_finite j \<and> t = compact_json j"
  by (auto simp: canonical_json_def canonical_json_value_def compact_json_def)

lemma same_canonical_eq:
  assumes "json_finite v" and "json_finite c" and "printable v" and "printable c"
  shows "same_canonical v c = Inr (sort_json v = sort_json c)"
  using assms canonical_json_Inr [of v "compact_json v"] canonical_json_Inr [of c "compact_json c"]
  by (simp add: same_canonical_def compact_inject)

section \<open>Schemas that are accepted\<close>

definition type_names :: "json \<Rightarrow> string list" where
  "type_names j = (case j of JStr s \<Rightarrow> [s] | JList xs \<Rightarrow> List.map_filter json_str xs | _ \<Rightarrow> [])"

lemma schema_types_names:
  "schema_types schema label = Inr ts \<Longrightarrow> ts = map_option type_names (map_of schema ''type'')"
  by (auto simp: schema_types_def type_names_def Let_def split: option.splits json.splits if_splits)

lemma schema_types_label: "schema_types schema label = Inr ts \<Longrightarrow> schema_types schema label' = Inr ts"
  by (auto simp: schema_types_def Let_def split: option.splits json.splits if_splits)

text \<open>The schema was accepted under some label.\<close>

definition good_schema :: "patterns \<Rightarrow> json_schema \<Rightarrow> bool" where
  "good_schema re schema \<longleftrightarrow> (\<exists>label. validate_schema re schema label = Inr ())"

text \<open>The schema of a named property.\<close>

definition property_schema :: "json_schema \<Rightarrow> string \<Rightarrow> json_schema option" where
  "property_schema schema n = map_option object_of (map_of (properties_of schema) n)"

lemma mapping_Inr [simp]: "mapping label j = Inr d \<longleftrightarrow> j = JObj d"
  by (auto simp: mapping_def split: json.splits)

text \<open>What the checks of a schema establish about each keyword.\<close>

lemma good_schema_facts:
  assumes "good_schema re schema"
  shows "\<exists>ts. \<forall>label. schema_types schema label = Inr ts"
    and "map_of schema ''enum'' = Some e \<Longrightarrow> \<exists>xs. e = JList xs \<and> list_all json_finite xs"
    and "map_of schema ''const'' = Some c \<Longrightarrow> json_finite c"
    and "map_of schema ''properties'' = Some v \<Longrightarrow>
           \<exists>ps. v = JObj ps \<and> (\<forall>p \<in> set ps. \<exists>child. snd p = JObj child \<and> good_schema re child)"
    and "map_of schema ''required'' = Some r \<Longrightarrow> \<exists>xs. r = JList xs \<and> list_all nonempty_text xs"
    and "map_of schema ''items'' = Some i \<Longrightarrow> \<exists>child. i = JObj child \<and> good_schema re child"
    and "k \<in> {''minItems'', ''maxItems''} \<Longrightarrow> map_of schema k = Some n \<Longrightarrow> \<exists>i \<ge> 0. n = JInt i"
    and "k \<in> {''minimum'', ''maximum''} \<Longrightarrow> map_of schema k = Some m \<Longrightarrow> is_number m"
    and "map_of schema ''pattern'' = Some p \<Longrightarrow> \<exists>s. p = JStr s \<and> compiles re s"
proof -
  obtain label where ok: "validate_schema re schema label = Inr ()"
    using assms by (auto simp: good_schema_def)
  note parts = ok [unfolded validate_schema.simps [of re schema], simplified]
  from parts have "\<exists>ts. schema_types schema label = Inr ts" by blast
  then show "\<exists>ts. \<forall>label. schema_types schema label = Inr ts"
    using schema_types_label by blast
  from parts have enum: "check_enum schema label = Inr ()" by blast
  from parts have const: "check_const schema label = Inr ()" by blast
  from parts have required: "check_required schema label = Inr ()" by blast
  from parts have counts: "check_item_counts schema label = Inr ()" by blast
  from parts have bounds: "check_numeric_bounds schema label = Inr ()" by blast
  from parts have pattern: "check_pattern re schema label = Inr ()" by blast
  show "\<exists>xs. e = JList xs \<and> list_all json_finite xs" if "map_of schema ''enum'' = Some e"
    using enum that
    by (auto simp: check_enum_def smap_eq_Inr_iff list_all2_conv_all_nth list_all_length
          split: json.splits if_splits)
  show "json_finite c" if "map_of schema ''const'' = Some c"
    using const that by (auto simp: check_const_def)
  show "\<exists>ps. v = JObj ps \<and> (\<forall>p \<in> set ps. \<exists>child. snd p = JObj child \<and> good_schema re child)"
    if "map_of schema ''properties'' = Some v"
  proof -
    from parts that obtain ps where v: "v = JObj ps" and
      each: "list_all (\<lambda>p. (if fst p = [] then Inl (EmptyPropertyName label)
          else sbind (mapping (label @ ''.properties.'' @ fst p) (snd p)) (\<lambda>child.
                 validate_schema re child (label @ ''.properties.'' @ fst p))) = Inr ()) ps"
      by (auto simp: list_all_iff)
    then show ?thesis
      unfolding good_schema_def by (fastforce simp: list_all_iff split: if_splits)
  qed
  show "\<exists>xs. r = JList xs \<and> list_all nonempty_text xs" if "map_of schema ''required'' = Some r"
    using required that by (auto simp: check_required_def split: json.splits if_splits)
  from parts have items: "map_of schema ''items'' = Some i \<Longrightarrow>
      \<exists>child. i = JObj child \<and> validate_schema re child (label @ ''.items'') = Inr ()" for i by auto
  show "\<exists>child. i = JObj child \<and> good_schema re child" if "map_of schema ''items'' = Some i"
    using items [OF that] unfolding good_schema_def by blast
  show "\<exists>i \<ge> 0. n = JInt i" if "k \<in> {''minItems'', ''maxItems''}" "map_of schema k = Some n"
    using counts that by (auto simp: check_item_counts_def check_item_count_def split: json.splits)
  show "is_number m" if "k \<in> {''minimum'', ''maximum''}" "map_of schema k = Some m"
    using bounds that
    by (auto simp: check_numeric_bounds_def check_numeric_bound_def is_json_number_def
          split: json.splits if_splits)
  show "\<exists>s. p = JStr s \<and> compiles re s" if "map_of schema ''pattern'' = Some p"
    using pattern that by (auto simp: check_pattern_def split: json.splits)
qed

section \<open>The meaning of a schema\<close>

fun of_type :: "json \<Rightarrow> string \<Rightarrow> bool" where
  "of_type JNull t \<longleftrightarrow> t = ''null''"
| "of_type (JBool _) t \<longleftrightarrow> t = ''boolean''"
| "of_type (JInt _) t \<longleftrightarrow> t \<in> {''integer'', ''number''}"
| "of_type (JFloat _) t \<longleftrightarrow> t = ''number''"
| "of_type (JStr _) t \<longleftrightarrow> t = ''string''"
| "of_type (JList _) t \<longleftrightarrow> t = ''array''"
| "of_type (JObj _) t \<longleftrightarrow> t = ''object''"

text \<open>The keywords about a value of any kind, about lists, numbers and texts.\<close>

definition plain_conforms :: "patterns \<Rightarrow> json_schema \<Rightarrow> json \<Rightarrow> bool" where
  "plain_conforms re schema v \<longleftrightarrow>
     (\<forall>t. map_of schema ''type'' = Some t \<longrightarrow> (\<exists>n \<in> set (type_names t). of_type v n)) \<and>
     (\<forall>c. map_of schema ''const'' = Some c \<longrightarrow> sort_json v = sort_json c) \<and>
     (\<forall>xs. map_of schema ''enum'' = Some (JList xs) \<longrightarrow> (\<exists>x \<in> set xs. sort_json v = sort_json x)) \<and>
     (\<forall>xs n. v = JList xs \<longrightarrow> map_of schema ''minItems'' = Some (JInt n) \<longrightarrow> n \<le> int (length xs)) \<and>
     (\<forall>xs n. v = JList xs \<longrightarrow> map_of schema ''maxItems'' = Some (JInt n) \<longrightarrow> int (length xs) \<le> n) \<and>
     (\<forall>m. is_number v \<longrightarrow> map_of schema ''minimum'' = Some m \<longrightarrow> number_value m \<le> number_value v) \<and>
     (\<forall>m. is_number v \<longrightarrow> map_of schema ''maximum'' = Some m \<longrightarrow> number_value v \<le> number_value m) \<and>
     (\<forall>s p. v = JStr s \<longrightarrow> map_of schema ''pattern'' = Some (JStr p) \<longrightarrow> found_in re p s)"

definition object_conforms :: "json_schema \<Rightarrow> (string \<times> json) list \<Rightarrow> bool" where
  "object_conforms schema d \<longleftrightarrow>
     (\<forall>xs n. map_of schema ''required'' = Some (JList xs) \<longrightarrow> JStr n \<in> set xs \<longrightarrow> n \<in> fst ` set d) \<and>
     (map_of schema ''additionalProperties'' = Some (JBool False) \<longrightarrow>
        (\<forall>n \<in> fst ` set d. property_schema schema n \<noteq> None))"

text \<open>
  A value conforms when it meets these, every member of an object conforms to the schema of its
  property and every item of a list to the schema of items.
\<close>

inductive conforms :: "patterns \<Rightarrow> json_schema \<Rightarrow> json \<Rightarrow> bool" for re where
  conformsI:
    "plain_conforms re schema v \<Longrightarrow>
     (\<And>d. v = JObj d \<Longrightarrow> object_conforms schema d) \<Longrightarrow>
     (\<And>d n s w. v = JObj d \<Longrightarrow> property_schema schema n = Some s \<Longrightarrow> map_of d n = Some w \<Longrightarrow>
        conforms re s w) \<Longrightarrow>
     (\<And>xs s x. v = JList xs \<Longrightarrow> map_of schema ''items'' = Some (JObj s) \<Longrightarrow> x \<in> set xs \<Longrightarrow>
        conforms re s x) \<Longrightarrow>
     conforms re schema v"

inductive_simps conforms_iff: "conforms re schema v"

section \<open>The check decides it\<close>

lemma good_property:
  assumes "good_schema re schema" and "map_of (properties_of schema) n = Some s"
  shows "\<exists>child. s = JObj child \<and> property_schema schema n = Some child \<and> good_schema re child"
proof -
  from assms(2) obtain v where v: "map_of schema ''properties'' = Some v"
    by (auto simp: properties_of_def split: option.splits)
  with good_schema_facts(4) [OF assms(1)] obtain ps where
    "v = JObj ps" and ps: "\<forall>p \<in> set ps. \<exists>child. snd p = JObj child \<and> good_schema re child" by blast
  with v assms(2) have "(n, s) \<in> set ps" by (auto simp: properties_of_def dest: map_of_SomeD)
  with ps show ?thesis using assms(2) by (fastforce simp: property_schema_def)
qed

lemma number_in_range:
  assumes "json_finite v" and "json_in_range v"
  shows "is_json_number v = Inr (is_number v)"
  using assms by (cases v) (auto simp: is_json_number_def)

lemma matches_type_of:
  assumes "json_finite v" and "json_in_range v" and "t \<in> set value_types"
  shows "matches_type v t = Inr (of_type v t)"
  using assms number_in_range [OF assms(1,2)]
  by (cases v) (auto simp: matches_type_def value_types_def)

lemma check_type_iff:
  assumes "good_schema re schema" and "json_finite v" and "json_in_range v"
  shows "check_type schema v label = Inr () \<longleftrightarrow>
    (\<forall>t. map_of schema ''type'' = Some t \<longrightarrow> (\<exists>n \<in> set (type_names t). of_type v n))"
proof -
  from good_schema_facts(1) [OF assms(1)] obtain ts where ts: "schema_types schema label = Inr ts" by blast
  have "set us \<subseteq> set value_types" if "ts = Some us" for us
    using ts that by (auto simp: schema_types_def Let_def list_ex_iff split: option.splits if_splits)
  then have "any_of (matches_type v) us = Inr (list_ex (of_type v) us)" if "ts = Some us" for us
    using that assms by (intro any_of_Inr matches_type_of) auto
  with ts schema_types_names [OF ts] show ?thesis
    by (auto simp: check_type_def list_ex_iff split: option.splits)
qed

lemma check_const_iff:
  assumes "good_schema re schema" and "json_finite v" and "printable v" and "printable (JObj schema)"
  shows "check_equal_const schema v label = Inr () \<longleftrightarrow>
    (\<forall>c. map_of schema ''const'' = Some c \<longrightarrow> sort_json v = sort_json c)"
proof (cases "map_of schema ''const''")
  case (Some c)
  then have "printable c" using assms(4) map_of_SomeD [OF Some] by (fastforce simp: list_all_iff)
  with Some good_schema_facts(3) [OF assms(1) Some] assms show ?thesis
    by (simp add: check_equal_const_def same_canonical_eq)
qed (simp add: check_equal_const_def)

lemma check_enum_iff:
  assumes "good_schema re schema" and "json_finite v" and "printable v" and "printable (JObj schema)"
  shows "check_in_enum schema v label = Inr () \<longleftrightarrow>
    (\<forall>xs. map_of schema ''enum'' = Some (JList xs) \<longrightarrow> (\<exists>x \<in> set xs. sort_json v = sort_json x))"
proof (cases "map_of schema ''enum''")
  case (Some e)
  with good_schema_facts(2) [OF assms(1)] obtain xs where
    e: "e = JList xs" and fin: "list_all json_finite xs" by blast
  from Some e assms(4) have "list_all printable xs" by (auto simp: list_all_iff dest!: map_of_SomeD)
  with fin assms have "any_of (same_canonical v) xs = Inr (list_ex (\<lambda>x. sort_json v = sort_json x) xs)"
    by (intro any_of_Inr same_canonical_eq) (auto simp: list_all_iff)
  with Some e show ?thesis
    by (auto simp: check_in_enum_def has_key_def array_at_def list_ex_iff)
qed (simp add: check_in_enum_def has_key_def)

lemma check_length_iff:
  assumes "good_schema re schema"
  shows "check_length schema xs label = Inr () \<longleftrightarrow>
    (\<forall>n. map_of schema ''minItems'' = Some (JInt n) \<longrightarrow> n \<le> int (length xs)) \<and>
    (\<forall>n. map_of schema ''maxItems'' = Some (JInt n) \<longrightarrow> int (length xs) \<le> n)"
  using good_schema_facts(7) [OF assms, of "''minItems''"] good_schema_facts(7) [OF assms, of "''maxItems''"]
  by (fastforce simp: check_length_def not_less split: option.splits)

lemma check_number_iff:
  assumes "json_finite v" and "json_in_range v"
  shows "check_number schema v label = Inr () \<longleftrightarrow>
    (\<forall>m. is_number v \<longrightarrow> map_of schema ''minimum'' = Some m \<longrightarrow> number_value m \<le> number_value v) \<and>
    (\<forall>m. is_number v \<longrightarrow> map_of schema ''maximum'' = Some m \<longrightarrow> number_value v \<le> number_value m)"
  using assms by (auto simp: check_number_def number_in_range not_less split: option.splits)

lemma check_found_iff:
  assumes "good_schema re schema"
  shows "check_found re schema v label = Inr () \<longleftrightarrow>
    (\<forall>s p. v = JStr s \<longrightarrow> map_of schema ''pattern'' = Some (JStr p) \<longrightarrow> found_in re p s)"
  using good_schema_facts(9) [OF assms]
  by (auto simp: check_found_def split: json.splits option.splits)

lemma map_filter_json_str: "set (List.map_filter json_str xs) = {n. JStr n \<in> set xs}"
  by (induction xs) (auto simp: map_filter_simps split: option.splits)

lemma check_object_iff:
  assumes "good_schema re schema"
  shows "check_has_required schema d label = Inr () \<and> check_no_extras schema d label = Inr () \<longleftrightarrow>
    object_conforms schema d"
proof -
  have req: "map_of schema ''required'' = Some r \<Longrightarrow> \<exists>xs. r = JList xs" for r
    using good_schema_facts(5) [OF assms] by blast
  have keys: "property_schema schema n \<noteq> None \<longleftrightarrow> n \<in> fst ` set (properties_of schema)" for n
    by (simp add: property_schema_def) (metis map_of_eq_None_iff option.exhaust option.distinct(1))
  have "check_has_required schema d label = Inr () \<longleftrightarrow>
      (\<forall>xs n. map_of schema ''required'' = Some (JList xs) \<longrightarrow> JStr n \<in> set xs \<longrightarrow> n \<in> fst ` set d)"
  proof (cases "map_of schema ''required''")
    case (Some r)
    with req obtain xs where "r = JList xs" by blast
    with Some show ?thesis
      by (auto simp: check_has_required_def Let_def array_at_def map_filter_json_str)
  qed (simp add: check_has_required_def array_at_def map_filter_simps)
  moreover have "check_no_extras schema d label = Inr () \<longleftrightarrow>
      (map_of schema ''additionalProperties'' = Some (JBool False) \<longrightarrow>
        (\<forall>n \<in> fst ` set d. property_schema schema n \<noteq> None))"
    unfolding keys by (auto simp: check_no_extras_def Let_def subset_iff)
  ultimately show ?thesis by (simp add: object_conforms_def)
qed

lemma plain_conforms_iff:
  assumes "good_schema re schema" and "json_finite v" and "json_in_range v" and "printable v"
    and "printable (JObj schema)"
  shows "check_type schema v label = Inr () \<and> check_equal_const schema v label = Inr ()
      \<and> check_in_enum schema v label = Inr () \<and> (\<forall>xs. v = JList xs \<longrightarrow> check_length schema xs label = Inr ())
      \<and> check_number schema v label = Inr () \<and> check_found re schema v label = Inr ()
    \<longleftrightarrow> plain_conforms re schema v"
  unfolding plain_conforms_def check_type_iff [OF assms(1-3)] check_const_iff [OF assms(1,2,4,5)]
    check_enum_iff [OF assms(1,2,4,5)] check_length_iff [OF assms(1)] check_number_iff [OF assms(2,3)]
    check_found_iff [OF assms(1)]
  by blast

text \<open>The parts of the check that descend into the value.\<close>

definition members_ok :: "patterns \<Rightarrow> json_schema \<Rightarrow> (string \<times> json) list \<Rightarrow> string \<Rightarrow> bool" where
  "members_ok re schema d label \<longleftrightarrow>
     (\<forall>n s w. property_schema schema n = Some s \<longrightarrow> map_of d n = Some w \<longrightarrow>
        validate_value re s w (label @ ''.'' @ n) = Inr ())"

definition items_ok :: "patterns \<Rightarrow> json_schema \<Rightarrow> json list \<Rightarrow> string \<Rightarrow> bool" where
  "items_ok re schema xs label \<longleftrightarrow>
     (\<forall>s i. map_of schema ''items'' = Some (JObj s) \<longrightarrow> i < length xs \<longrightarrow>
        validate_value re s (xs ! i) (label @ ''['' @ nat_str i @ '']'') = Inr ())"

lemma validate_members:
  assumes "good_schema re schema"
  shows "list_all (\<lambda>n. (case (map_of (properties_of schema) n, map_of d n) of
           (Some s, Some w) \<Rightarrow>
             sbind (mapping (label @ ''.'' @ n) s) (\<lambda>child. validate_value re child w (label @ ''.'' @ n))
         | _ \<Rightarrow> Inr ()) = Inr ()) (sorted_inter (dict_keys d) (dict_keys (properties_of schema)))
     \<longleftrightarrow> members_ok re schema d label" (is "list_all ?ok ?ns \<longleftrightarrow> _")
proof -
  have "?ok n \<longleftrightarrow> (\<forall>s w. property_schema schema n = Some s \<longrightarrow> map_of d n = Some w \<longrightarrow>
        validate_value re s w (label @ ''.'' @ n) = Inr ())" for n
  proof (cases "map_of (properties_of schema) n")
    case (Some s)
    with good_property [OF assms Some] show ?thesis by (auto split: option.splits)
  qed (simp add: property_schema_def)
  moreover have "n \<in> set ?ns" if "property_schema schema n = Some s" "map_of d n = Some w" for n s w
    using that by (auto simp: property_schema_def dest: map_of_SomeD intro: rev_image_eqI)
  ultimately show ?thesis by (simp add: list_all_iff members_ok_def) blast
qed

lemma validate_items:
  assumes "good_schema re schema"
  shows "(case map_of schema ''items'' of
            None \<Rightarrow> Inr ()
          | Some s \<Rightarrow> sbind (mapping (label @ ''.items'') s) (\<lambda>child.
              checks (map (\<lambda>ix. validate_value re child (snd ix) (label @ ''['' @ nat_str (fst ix) @ '']''))
                        (enumerate 0 xs)))) = Inr () \<longleftrightarrow> items_ok re schema xs label"
proof (cases "map_of schema ''items''")
  case (Some s)
  with good_schema_facts(6) [OF assms Some] obtain child where "s = JObj child" by blast
  with Some show ?thesis
    by (simp add: items_ok_def list.pred_map list_all_length nth_enumerate_eq)
qed (simp add: items_ok_def)

lemma validate_value_iff:
  assumes "good_schema re schema" and "json_finite v" and "json_in_range v" and "printable v"
    and "printable (JObj schema)"
  shows "validate_value re schema v label = Inr () \<longleftrightarrow>
    plain_conforms re schema v \<and>
    (\<forall>d. v = JObj d \<longrightarrow> object_conforms schema d \<and> members_ok re schema d label) \<and>
    (\<forall>xs. v = JList xs \<longrightarrow> items_ok re schema xs label)"
  unfolding validate_value.simps [of re schema v] plain_conforms_iff [OF assms, of label, symmetric]
    check_object_iff [OF assms(1), of _ label, symmetric]
  using validate_members [OF assms(1)] validate_items [OF assms(1)]
  by (cases v) (auto simp: list.pred_map comp_def)

lemma json_parts:
  assumes "json_finite v" and "json_in_range v" and "printable v"
  shows "v = JObj d \<Longrightarrow> map_of d n = Some w \<Longrightarrow> json_finite w \<and> json_in_range w \<and> printable w"
    and "v = JList xs \<Longrightarrow> x \<in> set xs \<Longrightarrow> json_finite x \<and> json_in_range x \<and> printable x"
  using assms by (force simp: list_all_iff dest: map_of_SomeD)+

lemma printable_parts:
  assumes "printable (JObj schema)"
  shows "property_schema schema n = Some s \<Longrightarrow> good_schema re schema \<Longrightarrow> printable (JObj s)"
    and "map_of schema ''items'' = Some j \<Longrightarrow> printable j"
proof -
  have at: "printable j" if "map_of schema k = Some j" for k j
    using assms map_of_SomeD [OF that] by (fastforce simp: list_all_iff)
  then show "map_of schema ''items'' = Some j \<Longrightarrow> printable j" by blast
  assume ps: "property_schema schema n = Some s" and good: "good_schema re schema"
  then obtain t v where t: "map_of (properties_of schema) n = Some t" "s = object_of t"
    and v: "map_of schema ''properties'' = Some v"
    by (auto simp: property_schema_def properties_of_def split: option.splits)
  from good_schema_facts(4) [OF good v] obtain ps where "v = JObj ps" by blast
  with at [OF v] v t(1) have "printable t"
    by (fastforce simp: properties_of_def list_all_iff dest: map_of_SomeD)
  moreover from good_property [OF good t(1)] obtain child where "t = JObj child" by blast
  ultimately show "printable (JObj s)" using t(2) by simp
qed

lemma value_decided:
  "good_schema re schema \<Longrightarrow> json_finite v \<Longrightarrow> json_in_range v \<Longrightarrow> printable v \<Longrightarrow>
   printable (JObj schema) \<Longrightarrow> validate_value re schema v label = Inr () \<longleftrightarrow> conforms re schema v"
proof (induction "size v" arbitrary: schema v label rule: less_induct)
  case less
  note v = json_parts [OF less.prems(2-4)] and schema = printable_parts [OF less.prems(5)]
  have members: "members_ok re schema d label \<longleftrightarrow>
      (\<forall>n s w. property_schema schema n = Some s \<longrightarrow> map_of d n = Some w \<longrightarrow> conforms re s w)"
    if d: "v = JObj d" for d
  proof -
    have each: "validate_value re s w (label @ ''.'' @ n) = Inr () \<longleftrightarrow> conforms re s w"
      if n: "property_schema schema n = Some s" "map_of d n = Some w" for n s w
    proof -
      from n(1) obtain t where "map_of (properties_of schema) n = Some t"
        by (auto simp: property_schema_def)
      from good_property [OF less.prems(1) this] n(1) have good: "good_schema re s" by auto
      have small: "size w < size v" using member_size [OF n(2)] d by simp
      have parts: "json_finite w" "json_in_range w" "printable w" using v(1) [OF d n(2)] by blast+
      show ?thesis by (rule less.hyps [OF small good parts schema(1) [OF n(1) less.prems(1)]])
    qed
    show ?thesis unfolding members_ok_def by (intro iff_allI imp_cong refl) (rule each)
  qed
  have items: "items_ok re schema xs label \<longleftrightarrow>
      (\<forall>s x. map_of schema ''items'' = Some (JObj s) \<longrightarrow> x \<in> set xs \<longrightarrow> conforms re s x)"
    if xs: "v = JList xs" for xs
  proof -
    have each: "validate_value re s (xs ! i) l = Inr () \<longleftrightarrow> conforms re s (xs ! i)"
      if s: "map_of schema ''items'' = Some (JObj s)" and i: "i < length xs" for s i l
    proof -
      have good: "good_schema re s" using good_schema_facts(6) [OF less.prems(1) s] by auto
      have small: "size (xs ! i) < size v"
        using xs size_list_estimation' [OF nth_mem [OF i] order_refl, of size] by simp
      have parts: "json_finite (xs ! i)" "json_in_range (xs ! i)" "printable (xs ! i)"
        using v(2) [OF xs nth_mem [OF i]] by blast+
      show ?thesis by (rule less.hyps [OF small good parts schema(2) [OF s]])
    qed
    have "items_ok re schema xs label \<longleftrightarrow>
        (\<forall>s i. map_of schema ''items'' = Some (JObj s) \<longrightarrow> i < length xs \<longrightarrow> conforms re s (xs ! i))"
      unfolding items_ok_def by (intro iff_allI imp_cong refl) (rule each)
    also have "... \<longleftrightarrow>
        (\<forall>s x. map_of schema ''items'' = Some (JObj s) \<longrightarrow> x \<in> set xs \<longrightarrow> conforms re s x)"
      by (auto simp: in_set_conv_nth)
    finally show ?thesis .
  qed
  show ?case
  proof (cases v)
    case (JList xs)
    show ?thesis
      unfolding validate_value_iff [OF less.prems] conforms_iff [of re schema v]
      using items [OF JList] JList by simp
  next
    case (JObj d)
    show ?thesis
      unfolding validate_value_iff [OF less.prems] conforms_iff [of re schema v]
      using members [OF JObj] JObj by simp
  qed (use validate_value_iff [OF less.prems, of label] conforms_iff [of re schema v] in simp_all)
qed

text \<open>
  C25. The check of a facet value decides the meaning of its schema: for a schema that the schema
  check accepts, a value (finite numbers, integers within the range of a double) is accepted if
  and only if it conforms, that is, every keyword of the schema holds of it on its own: the type,
  the constant, the enumeration up to the order of object keys, required and further properties,
  numbers of items, numeric bounds and patterns, recursively in members and items.
\<close>

theorem facet_value_exact:
  assumes "validate_schema re schema schema_label = Inr ()" and "json_finite v" and "json_in_range v"
    and "printable v" and "printable (JObj schema)"
  shows "validate_value re schema v label = Inr () \<longleftrightarrow> conforms re schema v"
  using assms by (intro value_decided) (auto simp: good_schema_def)

text \<open>A facet that says how long records are kept.\<close>

definition retention_schema :: json_schema where
  "retention_schema =
     [(''type'', JStr ''object''), (''required'', JList [JStr ''days'']),
      (''properties'', JObj [(''days'', JObj [(''type'', JStr ''integer''), (''minimum'', JInt 1)])]),
      (''additionalProperties'', JBool False)]"

definition no_patterns :: patterns where
  "no_patterns = \<lparr>compiles = \<lambda>_. True, found_in = \<lambda>_ _. False\<rparr>"

lemmas schema_defs = check_const_def check_enum_def check_required_def check_additional_def
  check_item_counts_def check_item_count_def check_numeric_bounds_def check_numeric_bound_def
  check_pattern_def check_keyword_types_def has_key_def is_json_number_def schema_types_def
  Let_def schema_keywords_def value_types_def sorted_diff_def sorted_set_def mapping_def
  map_filter_simps nonempty_text_def double_limit_def in_double_range_def

lemmas value_defs = check_type_def check_equal_const_def check_in_enum_def check_has_required_def
  check_no_extras_def check_length_def check_number_def check_found_def matches_type_def
  array_at_def properties_of_def sorted_inter_def

lemma retention_schema_ok: "validate_schema no_patterns retention_schema ''s'' = Inr ()"
  by (simp add: retention_schema_def validate_schema.simps schema_defs)

lemma retention_value_ok:
  "validate_value no_patterns retention_schema (JObj [(''days'', JInt 30)]) ''v'' = Inr ()"
  by (simp add: retention_schema_def validate_value.simps schema_defs value_defs)

theorem facet_value_exact_witness:
  "conforms no_patterns retention_schema (JObj [(''days'', JInt 30)])"
  using facet_value_exact [OF retention_schema_ok, of "JObj [(''days'', JInt 30)]" "''v''"]
    retention_value_ok
  by (simp add: retention_schema_def in_double_range_def double_limit_def)

section \<open>Bounds\<close>

definition integer_schema :: "int \<Rightarrow> int \<Rightarrow> json_schema" where
  "integer_schema m n = [(''type'', JStr ''integer''), (''minimum'', JInt m), (''maximum'', JInt n)]"

text \<open>
  Bounds of integer facets: a schema with a minimum and a maximum is accepted if and only if both
  convert to a double and are in order, and its check of an integer returns exactly on the closed
  interval, with the complaint that names the violated bound; an integer beyond the range of a
  double ends the check with the overflow of its conversion, whatever the bounds are.
\<close>

theorem integer_facet_bounds:
  "validate_schema re (integer_schema m n) label =
     (if in_double_range m \<and> in_double_range n
      then if n < m then Inl (NumericBoundsCrossed label) else Inr ()
      else Inl DoubleOverflow)
   \<and> validate_value re (integer_schema m n) (JInt i) label =
     (if \<not> in_double_range i then Inl DoubleOverflow
      else if i < m then Inl (BelowMinimum label)
      else if n < i then Inl (AboveMaximum label) else Inr ())"
  by (simp add: integer_schema_def validate_schema.simps validate_value.simps
      schema_defs(1-13,15-18) value_defs)

lemma huge_integer_overflows:
  "validate_schema re [(''type'', JStr ''integer'')] label = Inr ()"
  "validate_value re [(''type'', JStr ''integer'')] (JInt (10 ^ 309)) label = Inl DoubleOverflow"
  by (simp_all add: validate_schema.simps validate_value.simps schema_defs value_defs)

end
