(* ===== verification/Facets.thy ===== *)
theory Facets
  imports Facet_Conformance "HOL-Library.Product_Lexorder" "HOL-Library.Multiset"
begin

text \<open>
  \<^verbatim>\<open>cli/src/modelable/facets.py\<close>: facets, their sources and schemas, the registry that interprets
  them, and the sidecar document they are loaded from. The main facts: identities and subjects have
  one spelling each, a facet survives its dictionary form, and a loaded facet is known exactly when
  its schema is in the document, in which case its value conforms to that schema.
\<close>

section \<open>One spelling for each identity\<close>

definition valid_facet_identity :: "facet_identity \<Rightarrow> bool" where
  "valid_facet_identity i \<longleftrightarrow>
     qualified_identifier (fi_namespace i) \<and> qualified_identifier (fi_name i) \<and> 0 < fi_version i"

lemma mk_facet_identity_Inr [simp]:
  "mk_facet_identity ns n v = Inr i \<longleftrightarrow>
     i = \<lparr>fi_namespace = ns, fi_name = n, fi_version = v\<rparr> \<and> valid_facet_identity i"
  by (auto simp: mk_facet_identity_def valid_facet_identity_def)

lemma set_split_on: "c \<in> set s \<Longrightarrow> c \<noteq> sep \<Longrightarrow> \<exists>w \<in> set (split_on sep s). c \<in> set w"
  by (induction sep s rule: split_on.induct) (auto split: list.splits if_splits)

lemma qualified_chars:
  assumes "qualified_identifier s" and "c \<in> set s"
  shows "is_lower c \<or> is_decimal c \<or> c = CHR ''.'' \<or> c = CHR ''-''"
proof (rule ccontr)
  assume other: "\<not> ?thesis"
  let ?s = "map (\<lambda>c. if c = CHR ''-'' then CHR ''.'' else c) s"
  from assms(2) other have "c \<in> set ?s" by force
  with other obtain w where "w \<in> set (split_on (CHR ''.'') ?s)" and "c \<in> set w"
    using set_split_on by blast
  moreover from this(1) assms(1) have "qualified_word w"
    by (auto simp: qualified_identifier_def list_all_iff)
  ultimately show False
    using other by (cases w rule: list.exhaust) (auto simp: qualified_word_def list_all_iff)
qed

lemma qualified_no_mark:
  "qualified_identifier s \<Longrightarrow> CHR ''/'' \<notin> set s"
  "qualified_identifier s \<Longrightarrow> CHR ''@'' \<notin> set s"
  using qualified_chars [of s] by (force simp: is_lower_def is_decimal_def code_def)+

lemma nat_str_head: "0 < n \<Longrightarrow> hd (nat_str n) \<noteq> CHR ''0''"
proof (induction n rule: nat_str.induct)
  case (1 n)
  show ?case
  proof (cases "n < 10")
    case True
    have "digit_char n \<noteq> CHR ''0''"
    proof
      assume "digit_char n = CHR ''0''"
      then have "code (digit_char n) = 48" by (simp add: code_def)
      with True 1 show False by (simp add: code_digit_char)
    qed
    with True show ?thesis by (subst nat_str.simps) simp
  next
    case False
    then have "hd (nat_str (n div 10)) \<noteq> CHR ''0''" using 1 by simp
    with False show ?thesis by (subst nat_str.simps) (simp add: hd_append)
  qed
qed

lemma match_identity_canonical:
  assumes "valid_facet_identity i"
  shows "match_identity (fi_canonical i) = Some (fi_namespace i, fi_name i, nat_str (nat (fi_version i)))"
proof -
  let ?v = "nat_str (nat (fi_version i))"
  from assms have v: "int_str (fi_version i) = ?v" and pos: "0 < nat (fi_version i)"
    by (auto simp: valid_facet_identity_def int_str_def)
  have "partition1 (CHR ''/'') (fi_canonical i) = (fi_namespace i, True, fi_name i @ ''@'' @ ?v)"
    using partition1_append [of "CHR ''/''" "fi_namespace i" "fi_name i @ ''@'' @ ?v"] assms
      qualified_no_mark(1) by (simp add: fi_canonical_def v valid_facet_identity_def)
  moreover have "partition1 (CHR ''@'') (fi_name i @ ''@'' @ ?v) = (fi_name i, True, ?v)"
    using partition1_append [of "CHR ''@''" "fi_name i" ?v] assms qualified_no_mark(2)
    by (simp add: valid_facet_identity_def)
  ultimately show ?thesis
    using assms nat_str_head [OF pos] nat_str_decimal [of _ "nat (fi_version i)"]
    by (simp add: match_identity_def valid_facet_identity_def list_all_iff)
qed

theorem facet_identity_round:
  "from_canonical s = Inr i \<longleftrightarrow> valid_facet_identity i \<and> s = fi_canonical i"
proof
  assume "from_canonical s = Inr i"
  then show "valid_facet_identity i \<and> s = fi_canonical i"
    by (auto simp: from_canonical_def split: option.splits if_splits prod.splits)
next
  assume i: "valid_facet_identity i \<and> s = fi_canonical i"
  then have "mk_facet_identity (fi_namespace i) (fi_name i) (fi_version i) = Inr i" by simp
  with i match_identity_canonical [of i] show "from_canonical s = Inr i"
    by (cases i) (auto simp: from_canonical_def valid_facet_identity_def)
qed

interpretation facet_identity_notation: canonical_notation
    from_canonical valid_facet_identity "\<lambda>i. Inr (fi_canonical i)"
  by unfold_locales (auto simp: facet_identity_round)

definition valid_facet_subject :: "facet_subject \<Rightarrow> bool" where
  "valid_facet_subject s \<longleftrightarrow>
     (if names_declaration (fs_kind s) then (\<exists>d. parse_declaration_id (fs_reference s) = Inr d)
      else (\<exists>p. parse_semantic_path (fs_reference s) = Inr p))"

lemma subject_kind_of_str [simp]: "subject_kind_of (subject_kind_str k) = Some k"
  by (cases k) (simp_all add: subject_kind_of_def)

lemma subject_kind_of_Some: "subject_kind_of s = Some k \<longleftrightarrow> s = subject_kind_str k"
proof
  show "s = subject_kind_str k" if "subject_kind_of s = Some k"
    using find_Some_D [OF that [unfolded subject_kind_of_def]] by simp
qed simp

lemma map_sum_unit: "map_sum id (\<lambda>_. ()) r = Inr u \<longleftrightarrow> (\<exists>x. r = Inr x)"
  by (cases r) auto

lemma mk_facet_subject_Inr:
  "mk_facet_subject kind reference = Inr s \<longleftrightarrow>
     kind = subject_kind_str (fs_kind s) \<and> reference = fs_reference s \<and> valid_facet_subject s"
proof (cases "subject_kind_of kind")
  case None
  then have "kind \<noteq> subject_kind_str (fs_kind s)" by auto
  with None show ?thesis by (simp add: mk_facet_subject_def)
next
  case (Some k)
  let ?r = "if names_declaration k then map_sum id (\<lambda>_. ()) (parse_declaration_id reference)
            else map_sum id (\<lambda>_. ()) (parse_semantic_path reference)"
  have kind: "kind = subject_kind_str l \<longleftrightarrow> l = k" for l
    using Some by (metis option.inject subject_kind_of_str subject_kind_of_Some)
  have "mk_facet_subject kind reference = Inr s \<longleftrightarrow>
      (\<exists>u. ?r = Inr u) \<and> s = \<lparr>fs_kind = k, fs_reference = reference\<rparr>"
    using Some by (simp add: mk_facet_subject_def Let_def split: sum.split) auto
  moreover have "(\<exists>u. ?r = Inr u) \<longleftrightarrow> valid_facet_subject \<lparr>fs_kind = k, fs_reference = reference\<rparr>"
    by (simp add: valid_facet_subject_def map_sum_unit)
  ultimately show ?thesis by (cases s) (auto simp: kind)
qed

lemma subject_parts:
  assumes "valid_facet_subject s"
  shows "fs_reference s \<noteq> []"
proof
  assume "fs_reference s = []"
  with assms show False
    by (auto simp: valid_facet_subject_def parse_declaration_id_def split_identity_def
        parse_semantic_path_def rpartition1_def partition1_def split: if_splits)
qed

theorem facet_subject_round:
  "parse_facet_subject s = Inr x \<longleftrightarrow> valid_facet_subject x \<and> s = fs_canonical x"
proof
  assume "parse_facet_subject s = Inr x"
  then show "valid_facet_subject x \<and> s = fs_canonical x"
    by (auto simp: parse_facet_subject_def mk_facet_subject_Inr split: prod.splits if_splits)
next
  assume x: "valid_facet_subject x \<and> s = fs_canonical x"
  have "CHR '':'' \<notin> set (subject_kind_str (fs_kind x))" by (cases "fs_kind x") simp_all
  then have "partition1 (CHR '':'') s = (subject_kind_str (fs_kind x), True, fs_reference x)"
    using x partition1_append [of "CHR '':''" "subject_kind_str (fs_kind x)" "fs_reference x"]
    by (simp add: fs_canonical_def)
  moreover have "subject_kind_str (fs_kind x) \<noteq> []" by (cases "fs_kind x") simp_all
  moreover have "mk_facet_subject (subject_kind_str (fs_kind x)) (fs_reference x) = Inr x"
    using x by (simp add: mk_facet_subject_Inr)
  ultimately show "parse_facet_subject s = Inr x"
    using x subject_parts by (simp add: parse_facet_subject_def)
qed

interpretation facet_subject_notation: canonical_notation
    parse_facet_subject valid_facet_subject "\<lambda>s. Inr (fs_canonical s)"
  by unfold_locales (auto simp: facet_subject_round)

section \<open>Facets\<close>

datatype propagation = NoPropagation | InheritFacet | ProjectFacet

fun propagation_str :: "propagation \<Rightarrow> string" where
  "propagation_str NoPropagation = ''none''"
| "propagation_str InheritFacet = ''inherit''"
| "propagation_str ProjectFacet = ''project''"

definition propagation_of :: "string \<Rightarrow> propagation option" where
  "propagation_of s =
     List.find (\<lambda>p. propagation_str p = s) [NoPropagation, InheritFacet, ProjectFacet]"

record facet_source =
  fo_subject :: facet_subject
  fo_location :: "string option"
  fo_lineage :: "string option"

definition mk_facet_source ::
    "facet_subject \<Rightarrow> string option \<Rightarrow> string option \<Rightarrow> facet_error + facet_source" where
  "mk_facet_source subject location lineage =
     (if location = Some [] then Inl (BadSourceText ''location'')
      else if lineage = Some [] then Inl (BadSourceText ''lineage'')
      else Inr \<lparr>fo_subject = subject, fo_location = location, fo_lineage = lineage\<rparr>)"

definition source_from_document :: "json \<Rightarrow> facet_error + facet_source" where
  "source_from_document value =
     sbind (mapping ''facet source'' value) (\<lambda>d.
     sbind (require_exact_keys d [''subject'', ''location'', ''lineage''] [''subject''] ''facet source'') (\<lambda>_.
     sbind (sbind (string_at d ''subject'' ''facet source'') parse_facet_subject) (\<lambda>subject.
     sbind (optional_string (map_of d ''location'') ''facet source location'') (\<lambda>location.
     sbind (optional_string (map_of d ''lineage'') ''facet source lineage'') (\<lambda>lineage.
     mk_facet_source subject location lineage)))))"

definition opt_entry :: "string \<Rightarrow> string option \<Rightarrow> (string \<times> json) list" where
  "opt_entry k v = (case v of None \<Rightarrow> [] | Some s \<Rightarrow> [(k, JStr s)])"

definition source_as_dict :: "facet_source \<Rightarrow> json" where
  "source_as_dict src =
     JObj ([(''subject'', JStr (fs_canonical (fo_subject src)))]
           @ opt_entry ''location'' (fo_location src) @ opt_entry ''lineage'' (fo_lineage src))"

record facet_schema =
  fsc_identity :: facet_identity
  fsc_value_schema :: json_schema
  fsc_allowed :: "subject_kind list"
  fsc_propagation :: propagation

definition mk_facet_schema ::
    "patterns \<Rightarrow> facet_identity \<Rightarrow> json_schema \<Rightarrow> string list \<Rightarrow> string \<Rightarrow> facet_error + facet_schema" where
  "mk_facet_schema re identity value_schema allowed propagation =
     sbind (copy_json ''facet value schema'' (JObj value_schema)) (\<lambda>_.
     sbind (validate_schema re value_schema ''facet value schema'') (\<lambda>_.
       if allowed = [] then Inl NoAllowedSubject
       else if list_ex (\<lambda>k. subject_kind_of k = None) allowed then Inl BadAllowedSubject
       else if \<not> distinct allowed then Inl DuplicateAllowedSubject
       else case propagation_of propagation of
           None \<Rightarrow> Inl (BadPropagation propagation)
         | Some p \<Rightarrow> Inr \<lparr>fsc_identity = identity, fsc_value_schema = value_schema,
                           fsc_allowed = List.map_filter subject_kind_of allowed, fsc_propagation = p\<rparr>))"

record facet =
  fa_identity :: facet_identity
  fa_value :: json
  fa_subject :: facet_subject
  fa_propagation :: propagation
  fa_source :: "facet_source option"
  fa_known :: bool

definition mk_facet ::
    "facet_identity \<Rightarrow> json \<Rightarrow> facet_subject \<Rightarrow> string \<Rightarrow> facet_source option \<Rightarrow> bool \<Rightarrow> facet_error + facet" where
  "mk_facet identity v subject propagation source known =
     (case propagation_of propagation of
        None \<Rightarrow> Inl (BadPropagation propagation)
      | Some p \<Rightarrow> sbind (copy_json ''facet value'' v) (\<lambda>w.
          Inr \<lparr>fa_identity = identity, fa_value = w, fa_subject = subject, fa_propagation = p,
               fa_source = source, fa_known = known\<rparr>))"

text \<open>
  \<^verbatim>\<open>interpretation not in {"known", "unknown"}\<close> hashes the value first, which raises \<^verbatim>\<open>TypeError\<close> for
  a list or an object.
\<close>

definition known_of :: "json option \<Rightarrow> facet_error + bool" where
  "known_of v =
     (case v of
        None \<Rightarrow> Inr False
      | Some (JStr s) \<Rightarrow> if s = ''known'' then Inr True
                         else if s = ''unknown'' then Inr False else Inl BadInterpretation
      | Some (JList _) \<Rightarrow> Inl UnhashableValue
      | Some (JObj _) \<Rightarrow> Inl UnhashableValue
      | Some _ \<Rightarrow> Inl BadInterpretation)"

definition optional_source :: "json option \<Rightarrow> facet_error + facet_source option" where
  "optional_source v =
     (case v of
        None \<Rightarrow> Inr None
      | Some JNull \<Rightarrow> Inr None
      | Some j \<Rightarrow> sbind (source_from_document j) (\<lambda>src. Inr (Some src)))"

definition facet_from_document :: "json \<Rightarrow> facet_error + facet" where
  "facet_from_document value =
     sbind (mapping ''facet'' value) (\<lambda>d.
     sbind (require_exact_keys d
              [''identity'', ''value'', ''subject'', ''propagation'', ''source'', ''interpretation'']
              [''identity'', ''value'', ''subject'', ''propagation''] ''facet'') (\<lambda>_.
     sbind (optional_source (map_of d ''source'')) (\<lambda>source.
     sbind (known_of (map_of d ''interpretation'')) (\<lambda>known.
     sbind (sbind (string_at d ''identity'' ''facet'') from_canonical) (\<lambda>identity.
     sbind (sbind (string_at d ''subject'' ''facet'') parse_facet_subject) (\<lambda>subject.
     sbind (string_at d ''propagation'' ''facet'') (\<lambda>propagation.
     mk_facet identity (the (map_of d ''value'')) subject propagation source known)))))))"

definition facet_as_dict :: "facet \<Rightarrow> facet_error + json" where
  "facet_as_dict f =
     sbind (canonical_json_value (fa_value f)) (\<lambda>v.
     Inr (JObj
       ([(''identity'', JStr (fi_canonical (fa_identity f))), (''value'', v),
         (''subject'', JStr (fs_canonical (fa_subject f))),
         (''propagation'', JStr (propagation_str (fa_propagation f)))]
        @ (case fa_source f of None \<Rightarrow> [] | Some src \<Rightarrow> [(''source'', source_as_dict src)])
        @ [(''interpretation'', JStr (if fa_known f then ''known'' else ''unknown''))])))"

section \<open>The registry\<close>

text \<open>\<^verbatim>\<open>FacetRegistry.__post_init__\<close>: the schemas ordered by their canonical identities.\<close>

type_synonym facet_registry = "(facet_identity \<times> facet_schema) list"

definition mk_registry :: "(facet_identity \<times> facet_schema) list \<Rightarrow> facet_error + facet_registry" where
  "mk_registry schemas =
     (case List.find (\<lambda>(i, s). i \<noteq> fsc_identity s) schemas of
        Some (_, s) \<Rightarrow> Inl (RegistryKeyMismatch (fi_canonical (fsc_identity s)))
      | None \<Rightarrow> Inr (sort_key (\<lambda>(i, _). fi_canonical i) schemas))"

definition registry_validate :: "patterns \<Rightarrow> facet_registry \<Rightarrow> facet \<Rightarrow> facet_error + facet" where
  "registry_validate re registry f =
     (case map_of registry (fa_identity f) of
        None \<Rightarrow> Inr (f\<lparr>fa_known := False\<rparr>)
      | Some schema \<Rightarrow>
          let i = fi_canonical (fa_identity f); s = fs_canonical (fa_subject f) in
          if fs_kind (fa_subject f) \<notin> set (fsc_allowed schema) then Inl (SubjectNotAllowed i s)
          else if fa_propagation f \<noteq> fsc_propagation schema then Inl (PropagationMismatch i s)
          else case validate_value re (fsc_value_schema schema) (fa_value f) ''facet value'' of
              Inl DoubleOverflow \<Rightarrow> Inl DoubleOverflow
            | Inl e \<Rightarrow> Inl (InvalidFacetValue i s e)
            | Inr _ \<Rightarrow> Inr (f\<lparr>fa_known := True\<rparr>))"

section \<open>The sidecar document\<close>

definition string_list :: "json \<Rightarrow> string list option" where
  "string_list j =
     (case j of
        JList xs \<Rightarrow> if list_all (\<lambda>x. json_str x \<noteq> None) xs then Some (List.map_filter json_str xs) else None
      | _ \<Rightarrow> None)"

text \<open>One entry of \<^verbatim>\<open>schemas\<close>, given the schemas read before it.\<close>

definition read_schema ::
    "patterns \<Rightarrow> (facet_identity \<times> facet_schema) list \<Rightarrow> nat \<times> json
     \<Rightarrow> facet_error + (facet_identity \<times> facet_schema) list" where
  "read_schema re schemas entry =
     (let label = ''facet schema at index '' @ nat_str (fst entry);
          keys = [''identity'', ''value_schema'', ''allowed_subjects'', ''propagation'']
      in sbind (mapping label (snd entry)) (\<lambda>d.
         sbind (require_exact_keys d keys keys label) (\<lambda>_.
         case string_list (the (map_of d ''allowed_subjects'')) of
           None \<Rightarrow> Inl (NotAnArray label)
         | Some allowed \<Rightarrow>
             sbind (sbind (string_at d ''identity'' label) from_canonical) (\<lambda>identity.
               if identity \<in> fst ` set schemas then Inl (DuplicateSchema (fi_canonical identity))
               else let what = ''facet schema '' @ fi_canonical identity in
                 sbind (mapping (what @ '' value_schema'') (the (map_of d ''value_schema''))) (\<lambda>value_schema.
                 sbind (string_at d ''propagation'' what) (\<lambda>propagation.
                 sbind (mk_facet_schema re identity value_schema allowed propagation) (\<lambda>schema.
                 Inr (schemas @ [(identity, schema)]))))))))"

fun read_schemas ::
    "patterns \<Rightarrow> (facet_identity \<times> facet_schema) list \<Rightarrow> (nat \<times> json) list
     \<Rightarrow> facet_error + (facet_identity \<times> facet_schema) list" where
  "read_schemas re schemas [] = Inr schemas"
| "read_schemas re schemas (e # es) =
     sbind (read_schema re schemas e) (\<lambda>schemas'. read_schemas re schemas' es)"

definition read_facet :: "patterns \<Rightarrow> facet_registry \<Rightarrow> nat \<times> json \<Rightarrow> facet_error + facet" where
  "read_facet re registry entry =
     (let label = ''facet at index '' @ nat_str (fst entry) in
      sbind (mapping label (snd entry)) (\<lambda>d.
      sbind (require_exact_keys d [''identity'', ''value'', ''subject'', ''propagation'', ''source'']
               [''identity'', ''value'', ''subject'', ''propagation''] label) (\<lambda>_.
      sbind (facet_from_document (JObj d)) (registry_validate re registry))))"

definition load_facet_document :: "patterns \<Rightarrow> json \<Rightarrow> facet_error + facet_registry \<times> facet list" where
  "load_facet_document re document =
     (let keys = [''$schema'', ''schemas'', ''facets''] in
      sbind (mapping ''facet document'' document) (\<lambda>d.
      sbind (require_exact_keys d keys keys ''facet document'') (\<lambda>_.
      sbind (string_at d ''$schema'' ''facet document'') (\<lambda>version.
        if version \<noteq> ''modelable.facets/v1'' then Inl BadDocumentSchema
        else case json_list (the (map_of d ''schemas'')) of
          None \<Rightarrow> Inl (NotAnArray ''schemas'')
        | Some schema_values \<Rightarrow>
            sbind (read_schemas re [] (enumerate 0 schema_values)) (\<lambda>schemas.
            sbind (mk_registry schemas) (\<lambda>registry.
              case json_list (the (map_of d ''facets'')) of
                None \<Rightarrow> Inl (NotAnArray ''facets'')
              | Some facet_values \<Rightarrow>
                  sbind (smap (read_facet re registry) (enumerate 0 facet_values)) (\<lambda>facets.
                  Inr (registry,
                       sort_key (\<lambda>f. (fi_canonical (fa_identity f), fs_canonical (fa_subject f))) facets))))))))"

section \<open>The dictionary form\<close>

definition valid_facet_source :: "facet_source \<Rightarrow> bool" where
  "valid_facet_source src \<longleftrightarrow>
     valid_facet_subject (fo_subject src) \<and> fo_location src \<noteq> Some [] \<and> fo_lineage src \<noteq> Some []"

definition valid_facet :: "facet \<Rightarrow> bool" where
  "valid_facet f \<longleftrightarrow>
     valid_facet_identity (fa_identity f) \<and> valid_facet_subject (fa_subject f)
     \<and> json_finite (fa_value f) \<and> (\<forall>src. fa_source f = Some src \<longrightarrow> valid_facet_source src)"

lemma propagation_of_str [simp]: "propagation_of (propagation_str p) = Some p"
  by (cases p) (simp_all add: propagation_of_def)

lemma json_finite_sort [simp]: "json_finite (sort_json j) = json_finite j"
  by (induction j rule: sort_json.induct) (auto simp: list_all_iff split: prod.splits)

lemma require_exact_keys_Inr [simp]:
  "require_exact_keys d allowed required label = Inr u \<longleftrightarrow>
     set (dict_keys d) \<subseteq> set allowed \<and> set required \<subseteq> set (dict_keys d)"
  by (simp add: require_exact_keys_def Let_def)

lemma mk_facet_source_Inr [simp]:
  "mk_facet_source subject location lineage = Inr src \<longleftrightarrow>
     src = \<lparr>fo_subject = subject, fo_location = location, fo_lineage = lineage\<rparr>
     \<and> location \<noteq> Some [] \<and> lineage \<noteq> Some []"
  by (auto simp: mk_facet_source_def)

lemma fs_canonical_inject [simp]: "fs_canonical s = fs_canonical t \<longleftrightarrow> s = t"
proof
  assume eq: "fs_canonical s = fs_canonical t"
  have "CHR '':'' \<notin> set (subject_kind_str k)" for k by (cases k) simp_all
  then have "partition1 (CHR '':'') (fs_canonical x) = (subject_kind_str (fs_kind x), True, fs_reference x)"
    for x using partition1_append [of "CHR '':''" "subject_kind_str (fs_kind x)" "fs_reference x"]
    by (simp add: fs_canonical_def)
  with eq have "subject_kind_str (fs_kind s) = subject_kind_str (fs_kind t) \<and> fs_reference s = fs_reference t"
    by (metis prod.inject)
  then show "s = t" by (metis facet_subject.equality old.unit.exhaust option.inject subject_kind_of_str)
qed simp

lemma marks_in_identity:
  assumes "c \<in> {CHR ''/'', CHR ''@''}"
  shows "count_list (fi_canonical i) c = count_list (fi_namespace i) c + count_list (fi_name i) c + 1"
proof -
  have "c \<notin> set (int_str (fi_version i))"
    using assms int_str_chars [of c "fi_version i"] by (auto simp: is_decimal_def code_def)
  then have "count_list (int_str (fi_version i)) c = 0" by (simp add: count_list_0_iff)
  with assms show ?thesis by (auto simp: fi_canonical_def)
qed

lemma fi_canonical_valid:
  assumes "valid_facet_identity x" and eq: "fi_canonical i = fi_canonical x"
  shows "i = x"
proof -
  have none: "c \<notin> set (fi_namespace i)" "c \<notin> set (fi_name i)"
    "c \<notin> set (fi_namespace x)" "c \<notin> set (fi_name x)" if "c \<in> {CHR ''/'', CHR ''@''}" for c
  proof -
    show x: "c \<notin> set (fi_namespace x)" "c \<notin> set (fi_name x)"
      using assms(1) that qualified_no_mark by (auto simp: valid_facet_identity_def)
    then have "count_list (fi_namespace x) c = 0" "count_list (fi_name x) c = 0"
      by (simp_all add: count_list_0_iff)
    moreover have "count_list (fi_canonical i) c = count_list (fi_canonical x) c" by (simp only: eq)
    ultimately have "count_list (fi_namespace i) c = 0 \<and> count_list (fi_name i) c = 0"
      unfolding marks_in_identity [OF that] by linarith
    then show "c \<notin> set (fi_namespace i)" "c \<notin> set (fi_name i)"
      by (simp_all add: count_list_0_iff)
  qed
  let ?rest = "\<lambda>y. fi_name y @ ''@'' @ int_str (fi_version y)"
  have parts: "partition1 (CHR ''/'') (fi_canonical y) = (fi_namespace y, True, ?rest y)"
    "partition1 (CHR ''@'') (?rest y) = (fi_name y, True, int_str (fi_version y))"
    if "CHR ''/'' \<notin> set (fi_namespace y)" "CHR ''@'' \<notin> set (fi_name y)" for y
    using that partition1_append [of "CHR ''/''" "fi_namespace y" "?rest y"]
      partition1_append [of "CHR ''@''" "fi_name y" "int_str (fi_version y)"]
    by (simp_all add: fi_canonical_def)
  have i: "CHR ''/'' \<notin> set (fi_namespace i)" "CHR ''@'' \<notin> set (fi_name i)"
    and x: "CHR ''/'' \<notin> set (fi_namespace x)" "CHR ''@'' \<notin> set (fi_name x)"
    using none [of "CHR ''/''"] none [of "CHR ''@''"] by simp_all
  from parts(1) [OF i] parts(1) [OF x] eq have ns: "fi_namespace i = fi_namespace x" and
    rest: "?rest i = ?rest x" by simp_all
  from parts(2) [OF i] parts(2) [OF x] rest have "fi_name i = fi_name x" "int_str (fi_version i) = int_str (fi_version x)"
    by (metis prod.inject)+
  with ns show ?thesis by simp
qed

lemma from_canonical_identity [simp]:
  "from_canonical (fi_canonical i) = Inr x \<longleftrightarrow> valid_facet_identity i \<and> x = i"
  by (auto simp: facet_identity_round dest: fi_canonical_valid)

lemma parse_canonical_subject [simp]:
  "parse_facet_subject (fs_canonical s) = Inr x \<longleftrightarrow> valid_facet_subject s \<and> x = s"
  by (auto simp: facet_subject_round)

lemma source_round:
  "source_from_document (source_as_dict src) = Inr r \<longleftrightarrow> valid_facet_source src \<and> r = src"
proof -
  obtain subject location lineage where
    src: "src = \<lparr>fo_subject = subject, fo_location = location, fo_lineage = lineage\<rparr>" by (cases src)
  show ?thesis
    unfolding src
    by (cases location; cases lineage)
       (auto simp: source_from_document_def source_as_dict_def string_at_def opt_entry_def
         optional_string_def facet_subject_round valid_facet_source_def)
qed

lemma optional_source_simps [simp]:
  "optional_source None = Inr None"
  "optional_source (Some (source_as_dict src)) = Inr r \<longleftrightarrow> valid_facet_source src \<and> r = Some src"
proof -
  have "optional_source (Some (source_as_dict src))
      = sbind (source_from_document (source_as_dict src)) (\<lambda>x. Inr (Some x))"
    by (simp add: optional_source_def source_as_dict_def)
  then show "optional_source (Some (source_as_dict src)) = Inr r \<longleftrightarrow> valid_facet_source src \<and> r = Some src"
    by (auto simp: source_round)
qed (simp add: optional_source_def)

text \<open>
  C32. A facet survives its dictionary form: what \<^verbatim>\<open>as_dict\<close> writes is read back by
  \<^verbatim>\<open>from_document\<close> if and only if the facet is well formed, and then it is the same facet with the
  keys of its value in order.
\<close>

theorem facet_dict_round:
  "sbind (facet_as_dict f) facet_from_document = Inr g \<longleftrightarrow>
     valid_facet f \<and> g = f\<lparr>fa_value := sort_json (fa_value f)\<rparr>"
proof -
  obtain i v s p src k where
    f: "f = \<lparr>fa_identity = i, fa_value = v, fa_subject = s, fa_propagation = p, fa_source = src, fa_known = k\<rparr>"
    by (cases f)
  have dict: "facet_as_dict f = Inr j \<longleftrightarrow> json_finite v \<and> j = JObj
      ([(''identity'', JStr (fi_canonical i)), (''value'', sort_json v), (''subject'', JStr (fs_canonical s)),
        (''propagation'', JStr (propagation_str p))]
       @ (case src of None \<Rightarrow> [] | Some src \<Rightarrow> [(''source'', source_as_dict src)])
       @ [(''interpretation'', JStr (if k then ''known'' else ''unknown''))])" for j
    by (auto simp: f facet_as_dict_def canonical_json_value_def)
  have known: "known_of (Some (JStr (if k then ''known'' else ''unknown''))) = Inr k"
    by (simp add: known_of_def)
  have "sbind (facet_as_dict f) facet_from_document = Inr g \<longleftrightarrow>
      (\<exists>j. facet_as_dict f = Inr j \<and> facet_from_document j = Inr g)" by simp
  also have "... \<longleftrightarrow> valid_facet f \<and> g = f\<lparr>fa_value := sort_json (fa_value f)\<rparr>"
    unfolding dict facet_from_document_def
    by (cases src) (auto simp: known string_at_def mk_facet_def valid_facet_def f)
  finally show ?thesis .
qed

section \<open>What a loaded document holds\<close>

text \<open>A part of a printable document within the range of doubles is such a value, too.\<close>

definition plain_json :: "json \<Rightarrow> bool" where
  "plain_json j \<longleftrightarrow> printable j \<and> json_in_range j"

lemma plain_json_parts:
  "plain_json (JObj d) \<Longrightarrow> map_of d k = Some v \<Longrightarrow> plain_json v"
  "plain_json (JList xs) \<Longrightarrow> x \<in> set xs \<Longrightarrow> plain_json x"
  by (force simp: plain_json_def list_all_iff dest: map_of_SomeD)+

definition sound_schema :: "patterns \<Rightarrow> facet_identity \<times> facet_schema \<Rightarrow> bool" where
  "sound_schema re s \<longleftrightarrow>
     fst s = fsc_identity (snd s) \<and> good_schema re (fsc_value_schema (snd s))
     \<and> printable (JObj (fsc_value_schema (snd s)))"

lemma required_key:
  "require_exact_keys d allowed required label = Inr u \<Longrightarrow> k \<in> set required \<Longrightarrow> \<exists>v. map_of d k = Some v"
  by (auto simp: map_of_eq_None_iff subset_iff dest!: not_None_eq [THEN iffD1])
     (metis map_of_eq_None_iff not_None_eq subset_iff image_eqI)

lemma mk_facet_schema_sound:
  "mk_facet_schema re i vs allowed p = Inr s \<Longrightarrow> printable (JObj vs) \<Longrightarrow> sound_schema re (i, s)"
  by (auto simp: mk_facet_schema_def sound_schema_def good_schema_def split: if_splits option.splits)

lemma read_schema_sound:
  assumes "read_schema re schemas entry = Inr schemas'" and "plain_json (snd entry)"
    and "list_all (sound_schema re) schemas"
  shows "list_all (sound_schema re) schemas'"
proof -
  let ?keys = "[''identity'', ''value_schema'', ''allowed_subjects'', ''propagation'']"
  from assms(1) obtain d label i vs allowed p s where
    d: "snd entry = JObj d" and keys: "require_exact_keys d ?keys ?keys label = Inr ()" and
    vs: "the (map_of d ''value_schema'') = JObj vs" and
    s: "mk_facet_schema re i vs allowed p = Inr s" and new: "schemas' = schemas @ [(i, s)]"
    by (auto simp: read_schema_def Let_def simp del: require_exact_keys_Inr split: option.splits if_splits)
  from required_key [OF keys, of "''value_schema''"] vs have "map_of d ''value_schema'' = Some (JObj vs)"
    by auto
  with assms(2) d have "printable (JObj vs)" using plain_json_parts(1) by (metis plain_json_def)
  with s new assms(3) mk_facet_schema_sound show ?thesis by simp
qed

lemma read_schemas_sound:
  "read_schemas re schemas es = Inr schemas' \<Longrightarrow> list_all (\<lambda>e. plain_json (snd e)) es \<Longrightarrow>
   list_all (sound_schema re) schemas \<Longrightarrow> list_all (sound_schema re) schemas'"
  by (induction re schemas es rule: read_schemas.induct) (auto dest: read_schema_sound)

lemma smap_mem: "smap f xs = Inr ys \<Longrightarrow> y \<in> set ys \<Longrightarrow> \<exists>x \<in> set xs. f x = Inr y"
  by (induction xs arbitrary: ys) auto

text \<open>What validation by the registry establishes of a facet.\<close>

definition interpreted :: "patterns \<Rightarrow> facet_registry \<Rightarrow> facet \<Rightarrow> bool" where
  "interpreted re registry f \<longleftrightarrow>
     (case map_of registry (fa_identity f) of
        None \<Rightarrow> \<not> fa_known f
      | Some schema \<Rightarrow>
          fa_known f \<and> fs_kind (fa_subject f) \<in> set (fsc_allowed schema)
          \<and> fa_propagation f = fsc_propagation schema
          \<and> conforms re (fsc_value_schema schema) (fa_value f))"

lemma registry_validate_interprets:
  assumes "registry_validate re registry f = Inr g" and "list_all (sound_schema re) registry"
    and "json_finite (fa_value f)" and "plain_json (fa_value f)"
  shows "interpreted re registry g"
proof (cases "map_of registry (fa_identity f)")
  case None
  with assms(1) show ?thesis by (auto simp: registry_validate_def interpreted_def)
next
  case (Some schema)
  then have "sound_schema re (fa_identity f, schema)"
    using assms(2) map_of_SomeD by (fastforce simp: list_all_iff)
  moreover from Some assms(1) have
    "validate_value re (fsc_value_schema schema) (fa_value f) ''facet value'' = Inr ()"
    "fs_kind (fa_subject f) \<in> set (fsc_allowed schema)" "fa_propagation f = fsc_propagation schema"
    "g = f\<lparr>fa_known := True\<rparr>"
    by (auto simp: registry_validate_def Let_def split: if_splits sum.splits facet_error.splits)
  ultimately show ?thesis
    using Some assms(3,4)
      value_decided [of re "fsc_value_schema schema" "fa_value f" "''facet value''"]
    by (simp add: interpreted_def sound_schema_def plain_json_def)
qed

lemma mk_facet_Inr:
  "mk_facet i v s p src k = Inr f \<Longrightarrow> fa_value f = v \<and> json_finite v"
  by (auto simp: mk_facet_def split: option.splits)

lemma read_facet_interprets:
  assumes "read_facet re registry entry = Inr f" and "plain_json (snd entry)"
    and "list_all (sound_schema re) registry"
  shows "interpreted re registry f"
proof -
  from assms(1) obtain d label g where d: "snd entry = JObj d" and
    keys: "require_exact_keys d [''identity'', ''value'', ''subject'', ''propagation'', ''source'']
       [''identity'', ''value'', ''subject'', ''propagation''] label = Inr ()" and
    g: "facet_from_document (JObj d) = Inr g" and f: "registry_validate re registry g = Inr f"
    by (auto simp: read_facet_def Let_def simp del: require_exact_keys_Inr)
  from required_key [OF keys, of "''value''"] obtain v where v: "map_of d ''value'' = Some v" by auto
  with g have "fa_value g = v \<and> json_finite v"
    by (auto simp: facet_from_document_def dest!: mk_facet_Inr)
  moreover from v assms(2) d have "plain_json v" using plain_json_parts(1) by simp
  ultimately show ?thesis using registry_validate_interprets [OF f assms(3)] by simp
qed

section \<open>What the document states\<close>

text \<open>
  The entries of \<^verbatim>\<open>schemas\<close> and \<^verbatim>\<open>facets\<close> as the reader of a document understands them: each key
  has the canonical spelling of the part of the schema or of the facet it stands for.
\<close>

definition states_schema :: "json \<Rightarrow> facet_identity \<times> facet_schema \<Rightarrow> bool" where
  "states_schema j entry \<longleftrightarrow>
     (case j of
        JObj d \<Rightarrow>
          fst entry = fsc_identity (snd entry) \<and> valid_facet_identity (fst entry)
          \<and> map_of d ''identity'' = Some (JStr (fi_canonical (fst entry)))
          \<and> map_of d ''value_schema'' = Some (JObj (fsc_value_schema (snd entry)))
          \<and> map_of d ''allowed_subjects'' = Some (JList (map (\<lambda>k. JStr (subject_kind_str k)) (fsc_allowed (snd entry))))
          \<and> map_of d ''propagation'' = Some (JStr (propagation_str (fsc_propagation (snd entry))))
      | _ \<Rightarrow> False)"

definition states_text :: "json option \<Rightarrow> string option \<Rightarrow> bool" where
  "states_text j v \<longleftrightarrow> (case v of None \<Rightarrow> j = None \<or> j = Some JNull | Some s \<Rightarrow> j = Some (JStr s) \<and> s \<noteq> [])"

definition states_source :: "json option \<Rightarrow> facet_source option \<Rightarrow> bool" where
  "states_source j src \<longleftrightarrow>
     (case (j, src) of
        (None, None) \<Rightarrow> True
      | (Some JNull, None) \<Rightarrow> True
      | (Some (JObj d), Some s) \<Rightarrow>
          valid_facet_subject (fo_subject s) \<and> map_of d ''subject'' = Some (JStr (fs_canonical (fo_subject s)))
          \<and> states_text (map_of d ''location'') (fo_location s) \<and> states_text (map_of d ''lineage'') (fo_lineage s)
      | _ \<Rightarrow> False)"

definition states_facet :: "json \<Rightarrow> facet \<Rightarrow> bool" where
  "states_facet j f \<longleftrightarrow>
     (case j of
        JObj d \<Rightarrow>
          valid_facet_identity (fa_identity f) \<and> map_of d ''identity'' = Some (JStr (fi_canonical (fa_identity f)))
          \<and> map_of d ''value'' = Some (fa_value f)
          \<and> valid_facet_subject (fa_subject f) \<and> map_of d ''subject'' = Some (JStr (fs_canonical (fa_subject f)))
          \<and> map_of d ''propagation'' = Some (JStr (propagation_str (fa_propagation f)))
          \<and> states_source (map_of d ''source'') (fa_source f)
      | _ \<Rightarrow> False)"

text \<open>A document, entry by entry and in its order: one schema of each identity, and the facets.\<close>

definition document_states :: "json \<Rightarrow> (facet_identity \<times> facet_schema) list \<Rightarrow> facet list \<Rightarrow> bool" where
  "document_states document schemas facets \<longleftrightarrow>
     (case document of
        JObj d \<Rightarrow>
          (case (map_of d ''schemas'', map_of d ''facets'') of
             (Some (JList sv), Some (JList fv)) \<Rightarrow>
               list_all2 states_schema sv schemas \<and> distinct (map fst schemas) \<and> list_all2 states_facet fv facets
           | _ \<Rightarrow> False)
      | _ \<Rightarrow> False)"

lemma string_at_Inr: "string_at d k label = Inr s \<longleftrightarrow> map_of d k = Some (JStr s)"
  by (auto simp: string_at_def split: option.splits json.splits)

lemma string_list_Some: "string_list j = Some xs \<longleftrightarrow> j = JList (map JStr xs)"
proof -
  have "list_all (\<lambda>x. json_str x \<noteq> None) js \<and> List.map_filter json_str js = xs \<longleftrightarrow> js = map JStr xs" for js
  proof (induction js arbitrary: xs)
    case (Cons j js)
    then show ?case by (cases j; cases xs) (auto simp: map_filter_simps)
  qed (auto simp: map_filter_simps)
  then show ?thesis by (auto simp: string_list_def split: json.split)
qed

lemma propagation_of_Some: "propagation_of s = Some p \<longleftrightarrow> s = propagation_str p"
  by (cases p) (auto simp: propagation_of_def split: if_splits)

lemma subject_kinds_listed:
  "\<not> list_ex (\<lambda>k. subject_kind_of k = None) ks \<Longrightarrow> ks = map subject_kind_str (List.map_filter subject_kind_of ks)"
  by (induction ks) (auto simp: map_filter_simps subject_kind_of_Some split: option.split)

lemma mk_facet_schema_Inr:
  assumes "mk_facet_schema re i vs allowed p = Inr s"
  shows "fsc_identity s = i \<and> fsc_value_schema s = vs \<and> allowed = map subject_kind_str (fsc_allowed s)
    \<and> p = propagation_str (fsc_propagation s)"
proof -
  from assms obtain q where kinds: "\<not> list_ex (\<lambda>k. subject_kind_of k = None) allowed" and q: "propagation_of p = Some q"
    and s: "s = \<lparr>fsc_identity = i, fsc_value_schema = vs,
      fsc_allowed = List.map_filter subject_kind_of allowed, fsc_propagation = q\<rparr>"
    by (auto simp: mk_facet_schema_def split: if_splits option.splits)
  show ?thesis using q subject_kinds_listed [OF kinds] by (simp add: s propagation_of_Some)
qed

lemma read_schema_states:
  assumes "read_schema re schemas entry = Inr schemas'"
  shows "\<exists>s. schemas' = schemas @ [s] \<and> states_schema (snd entry) s \<and> fst s \<notin> fst ` set schemas"
proof -
  let ?keys = "[''identity'', ''value_schema'', ''allowed_subjects'', ''propagation'']"
  from assms obtain d label i vs allowed p s where
    d: "snd entry = JObj d" and keys: "require_exact_keys d ?keys ?keys label = Inr ()" and
    allowed: "string_list (the (map_of d ''allowed_subjects'')) = Some allowed" and
    i: "map_of d ''identity'' = Some (JStr (fi_canonical i))" "valid_facet_identity i" and
    vs: "the (map_of d ''value_schema'') = JObj vs" and p: "map_of d ''propagation'' = Some (JStr p)" and
    s: "mk_facet_schema re i vs allowed p = Inr s" and new: "schemas' = schemas @ [(i, s)]" "i \<notin> fst ` set schemas"
    by (auto simp: read_schema_def Let_def string_at_Inr facet_identity_round simp del: require_exact_keys_Inr
        split: option.splits if_splits)
  from required_key [OF keys, of "''value_schema''"] vs have "map_of d ''value_schema'' = Some (JObj vs)" by auto
  moreover from required_key [OF keys, of "''allowed_subjects''"] allowed
  have "map_of d ''allowed_subjects'' = Some (JList (map JStr allowed))" by (auto simp: string_list_Some)
  ultimately have "states_schema (snd entry) (i, s)"
    using d i p mk_facet_schema_Inr [OF s] by (simp add: states_schema_def comp_def)
  with new show ?thesis by (intro exI [of _ "(i, s)"]) simp
qed

lemma read_schemas_states:
  "read_schemas re schemas es = Inr schemas' \<Longrightarrow>
     \<exists>more. schemas' = schemas @ more \<and> list_all2 states_schema (map snd es) more
       \<and> (distinct (map fst schemas) \<longrightarrow> distinct (map fst schemas'))"
proof (induction re schemas es rule: read_schemas.induct)
  case (2 re schemas e es)
  then obtain mid where mid: "read_schema re schemas e = Inr mid" "read_schemas re mid es = Inr schemas'" by auto
  obtain s where s: "mid = schemas @ [s]" "states_schema (snd e) s" "fst s \<notin> fst ` set schemas"
    using read_schema_states [OF mid(1)] by blast
  obtain more where more: "schemas' = mid @ more" "list_all2 states_schema (map snd es) more"
    "distinct (map fst mid) \<longrightarrow> distinct (map fst schemas')"
    using 2(1) [OF mid] by blast
  show ?case using s more by (intro exI [of _ "s # more"]) simp
qed simp

lemma optional_string_Inr: "optional_string j label = Inr v \<longleftrightarrow> states_text j v"
  by (auto simp: optional_string_def states_text_def split: option.split json.split)

lemma optional_source_Inr: "optional_source j = Inr src \<Longrightarrow> states_source j src"
proof -
  assume src: "optional_source j = Inr src"
  show "states_source j src"
  proof (cases "j = None \<or> j = Some JNull")
    case True
    then show ?thesis using src by (auto simp: optional_source_def states_source_def)
  next
    case False
    then obtain v s where "j = Some v" "src = Some s" "source_from_document v = Inr s"
      using src by (auto simp: optional_source_def split: option.splits json.splits)
    then show ?thesis
      by (auto simp: source_from_document_def states_source_def string_at_Inr optional_string_Inr facet_subject_round)
  qed
qed

lemma states_same_known: "states_facet j (g\<lparr>fa_known := k\<rparr>) = states_facet j g"
  by (cases j) (simp_all add: states_facet_def)

lemma map_of_sort_key: "distinct (map fst xs) \<Longrightarrow> map_of (sort_key (\<lambda>s. k (fst s)) xs) = map_of xs"
  by (intro map_of_inject_set [THEN iffD2]) (simp_all add: distinct_map)

lemma read_facet_states:
  assumes "read_facet re registry entry = Inr f"
  shows "states_facet (snd entry) f"
proof -
  from assms obtain d label g where d: "snd entry = JObj d" and
    keys: "require_exact_keys d [''identity'', ''value'', ''subject'', ''propagation'', ''source'']
       [''identity'', ''value'', ''subject'', ''propagation''] label = Inr ()" and
    g: "facet_from_document (JObj d) = Inr g" and f: "registry_validate re registry g = Inr f"
    by (auto simp: read_facet_def Let_def simp del: require_exact_keys_Inr)
  from required_key [OF keys, of "''value''"] obtain v where v: "map_of d ''value'' = Some v" by auto
  have "states_facet (JObj d) g"
    using g v by (auto simp: facet_from_document_def states_facet_def string_at_Inr facet_subject_round
        facet_identity_round mk_facet_def propagation_of_Some optional_source_Inr split: option.splits)
  moreover from f have "f = g\<lparr>fa_known := fa_known f\<rparr>"
    by (auto simp: registry_validate_def Let_def split: option.splits if_splits sum.splits facet_error.splits)
  ultimately show ?thesis unfolding d using states_same_known [of "JObj d" "fa_known f" g] by simp
qed

lemma smap_all2: "smap f xs = Inr ys \<Longrightarrow> list_all2 (\<lambda>x y. f x = Inr y) xs ys"
  by (induction xs arbitrary: ys) auto

lemma enumerate_entries: "map snd (enumerate n xs) = xs"
  by simp

text \<open>
  C26. Facets are loaded soundly. A sidecar document that loads states schemas, one of each identity, and facets;
  the registry has exactly these schemas and the result exactly these facets, in the orders of their names. Each of
  the facets is known if and only if the document states a schema of its identity, and then its subject kind
  and its propagation are those the schema allows and its value conforms to the value schema.
\<close>

theorem loaded_facets_interpreted:
  assumes "load_facet_document re document = Inr (registry, facets)" and "plain_json document"
  shows "\<exists>schemas found. document_states document schemas found \<and> mset registry = mset schemas \<and> mset facets = mset found
    \<and> sorted (map (\<lambda>s. fi_canonical (fst s)) registry)
    \<and> sorted (map (\<lambda>f. (fi_canonical (fa_identity f), fs_canonical (fa_subject f))) facets)
    \<and> list_all (interpreted re schemas) found"
proof -
  let ?keys = "[''$schema'', ''schemas'', ''facets'']"
  from assms(1) obtain d sv schemas fv found where
    d: "document = JObj d" and keys: "require_exact_keys d ?keys ?keys ''facet document'' = Inr ()" and
    sv: "the (map_of d ''schemas'') = JList sv" and
    schemas: "read_schemas re [] (enumerate 0 sv) = Inr schemas" and
    registry: "mk_registry schemas = Inr registry" and
    fv: "the (map_of d ''facets'') = JList fv" and
    found: "smap (read_facet re registry) (enumerate 0 fv) = Inr found" and
    sorted: "facets = sort_key (\<lambda>f. (fi_canonical (fa_identity f), fs_canonical (fa_subject f))) found"
    by (auto simp: load_facet_document_def Let_def simp del: require_exact_keys_Inr
        split: option.splits if_splits)
  from required_key [OF keys, of "''schemas''"] required_key [OF keys, of "''facets''"] sv fv
  have lists: "map_of d ''schemas'' = Some (JList sv)" "map_of d ''facets'' = Some (JList fv)" by auto
  with assms(2) d have plain: "plain_json (JList sv)" "plain_json (JList fv)"
    using plain_json_parts(1) by blast+
  have "list_all (\<lambda>e. plain_json (snd e)) (enumerate 0 xs)" if "plain_json (JList xs)" for xs
    by (simp add: list_all_length nth_enumerate_eq plain_json_parts(2) [OF that])
  note entries = this [OF plain(1)] this [OF plain(2)]
  have ordered: "registry = sort_key (\<lambda>s. fi_canonical (fst s)) schemas"
    using registry by (auto simp: mk_registry_def case_prod_unfold split: option.splits)
  have stated: "list_all2 states_schema sv schemas" "distinct (map fst schemas)"
    using read_schemas_states [OF schemas] by auto
  have "list_all2 (\<lambda>e. states_facet (snd e)) (enumerate 0 fv) found"
    using smap_all2 [OF found] by (rule list_all2_mono) (rule read_facet_states)
  then have "list_all2 states_facet fv found"
    using list_all2_map1 [of states_facet snd "enumerate 0 fv" found] by simp
  then have "document_states document schemas found" using d lists stated by (simp add: document_states_def)
  moreover from read_schemas_sound [OF schemas entries(1)] have "list_all (sound_schema re) registry"
    by (simp add: ordered list_all_iff)
  then have "interpreted re registry f" if "f \<in> set found" for f
    using smap_mem [OF found that] entries(2) read_facet_interprets by (auto simp: list_all_iff)
  then have "interpreted re schemas f" if "f \<in> set found" for f
    using that by (simp add: interpreted_def ordered map_of_sort_key [OF stated(2)])
  ultimately show ?thesis
    using sorted ordered by (intro exI [of _ schemas] exI [of _ found]) (simp add: list_all_iff)
qed

text \<open>A document with one schema, a facet of it and a facet nobody declared.\<close>

definition sample_facet :: "string \<Rightarrow> json \<Rightarrow> json" where
  "sample_facet identity v =
     JObj [(''identity'', JStr identity), (''value'', v),
           (''subject'', JStr ''field:shop.Order@1#id''), (''propagation'', JStr ''project'')]"

definition sample_document :: json where
  "sample_document =
     JObj
      [(''$schema'', JStr ''modelable.facets/v1''),
       (''schemas'', JList
         [JObj [(''identity'', JStr ''acme/retention@1''), (''value_schema'', JObj retention_schema),
                (''allowed_subjects'', JList [JStr ''field'']), (''propagation'', JStr ''project'')]]),
       (''facets'', JList
         [sample_facet ''acme/retention@1'' (JObj [(''days'', JInt 30)]),
          sample_facet ''acme/owner@1'' (JStr ''billing'')])]"

definition sample_loaded :: "facet_registry \<times> facet list" where
  "sample_loaded =
     (let identity = \<lparr>fi_namespace = ''acme'', fi_name = ''retention'', fi_version = 1\<rparr>;
          subject = \<lparr>fs_kind = FieldSubject, fs_reference = ''shop.Order@1#id''\<rparr>
      in ([(identity, \<lparr>fsc_identity = identity, fsc_value_schema = retention_schema,
                       fsc_allowed = [FieldSubject], fsc_propagation = ProjectFacet\<rparr>)],
          [\<lparr>fa_identity = identity\<lparr>fi_name := ''owner''\<rparr>, fa_value = JStr ''billing'', fa_subject = subject,
            fa_propagation = ProjectFacet, fa_source = None, fa_known = False\<rparr>,
           \<lparr>fa_identity = identity, fa_value = JObj [(''days'', JInt 30)], fa_subject = subject,
            fa_propagation = ProjectFacet, fa_source = None, fa_known = True\<rparr>]))"

lemma sample_document_loads: "load_facet_document no_patterns sample_document = Inr sample_loaded"
  by code_simp

theorem loaded_facets_interpreted_witness:
  "\<exists>schemas found. document_states sample_document schemas found \<and> mset (fst sample_loaded) = mset schemas
    \<and> mset (snd sample_loaded) = mset found
    \<and> sorted (map (\<lambda>s. fi_canonical (fst s)) (fst sample_loaded))
    \<and> sorted (map (\<lambda>f. (fi_canonical (fa_identity f), fs_canonical (fa_subject f))) (snd sample_loaded))
    \<and> list_all (interpreted no_patterns schemas) found"
  using loaded_facets_interpreted [of no_patterns sample_document "fst sample_loaded" "snd sample_loaded"]
    sample_document_loads
  by (simp add: sample_document_def sample_facet_def plain_json_def retention_schema_def
      in_double_range_def double_limit_def)

end
