(* ===== verification/Facet_Propagation.thy ===== *)
theory Facet_Propagation
  imports Facets Dependency
begin

text \<open>
  \<^verbatim>\<open>cli/src/modelable/facets.py\<close>, second half: the facets of every subject of a workspace. Explicit
  facets are kept; known facets go down from declarations to their fields and along the lineage of
  projection fields. The recursion of \<^verbatim>\<open>resolve\<close> keeps what it has resolved and the subjects it is
  resolving; the main fact is that its result is the least set closed under the three rules.
\<close>

datatype propagation_error =
    SubjectMissing string
  | DuplicateFacet string string
  | PropagationCycle facet_subject
  | BadIdentity identity_error
  | BadFacet facet_error

definition lift_id :: "identity_error + 'a \<Rightarrow> propagation_error + 'a" where
  "lift_id = map_sum BadIdentity id"

definition lift_facet :: "facet_error + 'a \<Rightarrow> propagation_error + 'a" where
  "lift_facet = map_sum BadFacet id"

lemma lift_Inr [simp]:
  "lift_id r = Inr x \<longleftrightarrow> r = Inr x"
  "lift_facet q = Inr y \<longleftrightarrow> q = Inr y"
  by (cases r, auto simp: lift_id_def) (cases q, auto simp: lift_facet_def)+

section \<open>Subjects of a workspace\<close>

definition declared_version :: "mdl_file \<Rightarrow> string \<Rightarrow> string \<Rightarrow> int \<Rightarrow> bool \<Rightarrow> declaration_value option" where
  "declared_version mdl d n v projection =
     (case List.find (\<lambda>dm. dm_name dm = d) (mf_domains mdl) of
        None \<Rightarrow> None
      | Some dm \<Rightarrow>
          if projection
          then map_option DProjection (List.find (\<lambda>pv. pv_version pv = v)
                 (case map_of (dm_projections dm) n of None \<Rightarrow> [] | Some pvs \<Rightarrow> pvs))
          else map_option DModel (List.find (\<lambda>mv. mv_version mv = v)
                 (case map_of (dm_models dm) n of None \<Rightarrow> [] | Some mvs \<Rightarrow> mvs)))"

text \<open>\<^verbatim>\<open>text.removesuffix(suffix)\<close>\<close>

definition remove_suffix :: "string \<Rightarrow> string \<Rightarrow> string" where
  "remove_suffix suffix s =
     (if suffix \<noteq> [] \<and> length suffix \<le> length s \<and> drop (length s - length suffix) s = suffix
      then take (length s - length suffix) s else s)"

definition segment_field :: "string \<Rightarrow> string" where
  "segment_field s = remove_suffix ''{key}'' (remove_suffix ''{}'' (remove_suffix ''[]'' s))"

fun field_path_exists :: "field_def list \<Rightarrow> string list \<Rightarrow> bool" where
  "field_path_exists fds [] = False"
| "field_path_exists fds (s # segments) =
     (if s \<in> set container_marks then False
      else case List.find (\<lambda>f. fd_name f = segment_field s) fds of
          None \<Rightarrow> False
        | Some f \<Rightarrow>
            segments = [] \<or>
            (case fd_type f of ObjectType inner \<Rightarrow> field_path_exists inner segments | _ \<Rightarrow> False))"

definition subject_exists :: "mdl_file \<Rightarrow> facet_subject \<Rightarrow> identity_error + bool" where
  "subject_exists mdl s =
     (if names_declaration (fs_kind s)
      then sbind (parse_declaration_id (fs_reference s)) (\<lambda>(d, n, v).
             Inr (declared_version mdl d n v (fs_kind s = ProjectionSubject) \<noteq> None))
      else sbind (parse_semantic_path (fs_reference s)) (\<lambda>path.
           sbind (parse_declaration_id (sp_declaration path)) (\<lambda>(d, n, v).
             Inr (case declared_version mdl d n v (fs_kind s = ProjectionFieldSubject) of
                    Some (DProjection pv) \<Rightarrow>
                      (case sp_segments path of
                         [segment] \<Rightarrow> list_ex (\<lambda>f. pf_name f = segment) (pv_fields pv)
                       | _ \<Rightarrow> False)
                  | Some (DModel mv) \<Rightarrow> field_path_exists (mv_fields mv) (sp_segments path)
                  | _ \<Rightarrow> False))))"

definition declaration_text :: "string \<Rightarrow> string \<Rightarrow> int \<Rightarrow> string" where
  "declaration_text d n v = d @ ''.'' @ n @ ''@'' @ int_str v"

definition subject_texts :: "mdl_file \<Rightarrow> (subject_kind \<times> string) list" where
  "subject_texts mdl =
     concat (map (\<lambda>dm.
       concat (map (\<lambda>(n, mvs). concat (map (\<lambda>mv.
           let declaration = declaration_text (dm_name dm) n (mv_version mv)
           in (DeclarationSubject, declaration)
              # map (\<lambda>f. (FieldSubject, declaration @ ''#'' @ fd_name f)) (mv_fields mv)) mvs)) (dm_models dm))
       @ concat (map (\<lambda>(n, pvs). concat (map (\<lambda>pv.
           let declaration = declaration_text (dm_name dm) n (pv_version pv)
           in (ProjectionSubject, declaration)
              # map (\<lambda>f. (ProjectionFieldSubject, declaration @ ''#'' @ pf_name f)) (pv_fields pv)) pvs))
           (dm_projections dm))) (mf_domains mdl))"

definition workspace_subjects :: "mdl_file \<Rightarrow> facet_error + facet_subject list" where
  "workspace_subjects mdl =
     smap (\<lambda>(k, reference). mk_facet_subject (subject_kind_str k) reference) (subject_texts mdl)"

section \<open>Explicit facets\<close>

definition source_text :: "facet \<Rightarrow> string" where
  "source_text f = (case fa_source f of None \<Rightarrow> [] | Some src \<Rightarrow> fs_canonical (fo_subject src))"

definition facet_key :: "facet \<Rightarrow> string \<times> string \<times> string" where
  "facet_key f = (fs_canonical (fa_subject f), fi_canonical (fa_identity f), source_text f)"

type_synonym explicit_facets = "(facet_subject, facet list) dict"

definition facets_at :: "explicit_facets \<Rightarrow> facet_subject \<Rightarrow> facet list" where
  "facets_at explicit s = (case map_of explicit s of None \<Rightarrow> [] | Some fs \<Rightarrow> fs)"

text \<open>The loop over the facets of the workspace, with what it has \<^verbatim>\<open>seen\<close>.\<close>

fun collect_explicit ::
    "mdl_file \<Rightarrow> explicit_facets \<Rightarrow> (facet_subject \<times> facet_identity) list \<Rightarrow> facet list
     \<Rightarrow> propagation_error + explicit_facets" where
  "collect_explicit mdl explicit seen [] = Inr explicit"
| "collect_explicit mdl explicit seen (f # fs) =
     sbind (lift_id (subject_exists mdl (fa_subject f))) (\<lambda>ok.
       if \<not> ok then Inl (SubjectMissing (fs_canonical (fa_subject f)))
       else if (fa_subject f, fa_identity f) \<in> set seen
       then Inl (DuplicateFacet (fi_canonical (fa_identity f)) (fs_canonical (fa_subject f)))
       else collect_explicit mdl
              (dict_put (fa_subject f) (facets_at explicit (fa_subject f) @ [f]) explicit)
              ((fa_subject f, fa_identity f) # seen) fs)"

definition explicit_by_subject :: "mdl_file \<Rightarrow> facet list \<Rightarrow> propagation_error + explicit_facets" where
  "explicit_by_subject mdl facets =
     sbind (collect_explicit mdl [] [] facets) (\<lambda>explicit.
       Inr (map (\<lambda>(s, fs). (s, sort_key facet_key fs)) explicit))"

section \<open>Inheritance\<close>

definition derive_facet :: "facet_subject \<Rightarrow> facet_subject \<Rightarrow> facet \<Rightarrow> facet" where
  "derive_facet s origin f =
     f\<lparr>fa_subject := s,
       fa_source := Some \<lparr>fo_subject = origin,
                          fo_location = (case fa_source f of None \<Rightarrow> None | Some src \<Rightarrow> fo_location src),
                          fo_lineage = (case fa_source f of None \<Rightarrow> None | Some src \<Rightarrow> fo_lineage src)\<rparr>\<rparr>"

definition inheritance_ancestors :: "facet_subject \<Rightarrow> propagation_error + facet_subject list" where
  "inheritance_ancestors s =
     (case fs_kind s of
        FieldSubject \<Rightarrow>
          sbind (lift_id (parse_semantic_path (fs_reference s))) (\<lambda>path.
          sbind (lift_facet (mk_facet_subject ''declaration'' (sp_declaration path))) (\<lambda>declaration.
          sbind (lift_facet (smap (\<lambda>k. mk_facet_subject ''field''
                   (sp_declaration path @ ''#'' @ join ''.'' (take k (sp_segments path))))
                   [1..<length (sp_segments path)])) (\<lambda>fields.
          Inr (declaration # fields))))
      | ProjectionFieldSubject \<Rightarrow>
          sbind (lift_id (parse_semantic_path (fs_reference s))) (\<lambda>path.
          sbind (lift_facet (mk_facet_subject ''projection'' (sp_declaration path))) (\<lambda>projection.
          Inr [projection]))
      | _ \<Rightarrow> Inr [])"

definition inherited_facets :: "explicit_facets \<Rightarrow> facet_subject \<Rightarrow> propagation_error + facet list" where
  "inherited_facets explicit s =
     sbind (inheritance_ancestors s) (\<lambda>ancestors.
       Inr (concat (map (\<lambda>a. map (derive_facet s a)
              (filter (\<lambda>f. fa_known f \<and> fa_propagation f = InheritFacet) (facets_at explicit a))) ancestors)))"

section \<open>Projection\<close>

fun usage_str :: "usage_kind \<Rightarrow> string" where
  "usage_str UDirect = ''direct''"
| "usage_str UComputed = ''computed''"
| "usage_str UJoin = ''join''"
| "usage_str UFilter = ''filter''"
| "usage_str UGroup = ''group''"

text \<open>The subject a dependency reads: a field of a projection where the source names a projection.\<close>

definition dependency_subject :: "mdl_file \<Rightarrow> property_dependency \<Rightarrow> propagation_error + facet_subject" where
  "dependency_subject mdl dep =
     sbind (lift_id (parse_declaration_id (pd_source_ref dep))) (\<lambda>(d, n, v).
     lift_facet (mk_facet_subject
       (if declared_version mdl d n v True \<noteq> None then ''projection_field'' else ''field'')
       (pd_source_ref dep @ ''#'' @ pd_source_property dep)))"

text \<open>
  The subjects whose facets \<^verbatim>\<open>_projected_facets\<close> resolves, in its order: those of the dependencies
  whose target is the field.
\<close>

definition field_sources ::
    "signature_fn \<Rightarrow> mdl_file \<Rightarrow> facet_subject \<Rightarrow> propagation_error + property_dependency list" where
  "field_sources sig mdl s =
     (if fs_kind s \<noteq> ProjectionFieldSubject then Inr []
      else sbind (lift_id (parse_semantic_path (fs_reference s))) (\<lambda>path.
        if length (sp_segments path) \<noteq> 1 then Inr []
        else sbind (lift_id (parse_declaration_id (sp_declaration path))) (\<lambda>(d, n, v).
          case declared_version mdl d n v True of
            Some (DProjection pv) \<Rightarrow>
              sbind (lift_id (build_projection_dependencies sig mdl d n pv)) (\<lambda>deps.
              Inr (filter (\<lambda>dep. pd_target_property dep = Some (hd (sp_segments path))) deps))
          | _ \<Rightarrow> Inr [])))"

definition projected_sources ::
    "signature_fn \<Rightarrow> mdl_file \<Rightarrow> facet_subject \<Rightarrow> propagation_error + facet_subject list" where
  "projected_sources sig mdl s =
     sbind (field_sources sig mdl s) (\<lambda>deps.
     smap (dependency_subject mdl)
       (sort_key (\<lambda>dep. (pd_source_ref dep, pd_source_property dep, usage_str (pd_usage_kind dep))) deps))"

text \<open>Only the fields of projections have sources.\<close>

definition projection_fields_of :: "mdl_file \<Rightarrow> facet_subject list" where
  "projection_fields_of mdl =
     map (\<lambda>(k, reference). \<lparr>fs_kind = k, fs_reference = reference\<rparr>) (subject_texts mdl)"

lemma dependency_target:
  assumes "build_projection_dependencies sig mdl d n pv = Inr deps" and "dep \<in> set deps"
    and "pd_target_property dep = Some segment"
  shows "\<exists>f \<in> set (pv_fields pv). pf_name f = segment"
proof -
  from assms(1,2) obtain u where u: "u \<in> set (uses_of pv)" and
    "use_dependency (resolve_projection_aliases sig pv mdl) (projection_context d n (pv_version pv)) u = Some (Inr dep)"
    by (auto simp: build_collect dest!: collect_set)
  then have "fst (snd u) = Some segment"
    using assms(3) by (cases u rule: prod_cases4) (auto simp: use_dependency_def mk_dependency_def)
  moreover have "fst (snd u) = Some (pf_name f)" if "u \<in> set (field_uses f)" for f
    using that by (cases "pf_mapping f") (auto simp: field_uses_def)
  ultimately show ?thesis using u by (fastforce simp: uses_of_def)
qed

lemma declared_version_projection:
  assumes "declared_version mdl d n v True = Some (DProjection pv)"
  shows "\<exists>dm pvs. dm \<in> set (mf_domains mdl) \<and> dm_name dm = d \<and> (n, pvs) \<in> set (dm_projections dm)
    \<and> pv \<in> set pvs \<and> pv_version pv = v"
  using assms
  by (auto simp: declared_version_def split: option.splits dest!: find_Some_D map_of_SomeD)

lemma field_sources_field:
  assumes "field_sources sig mdl s = Inr deps" and "dep \<in> set deps"
  shows "s \<in> set (projection_fields_of mdl)"
proof -
  from assms have kind: "fs_kind s = ProjectionFieldSubject"
    by (auto simp: field_sources_def split: if_splits)
  with assms(1) obtain path where path: "parse_semantic_path (fs_reference s) = Inr path"
    by (auto simp: field_sources_def)
  with assms kind have one: "length (sp_segments path) = 1"
    by (auto simp: field_sources_def split: if_splits)
  then obtain segment where segment: "sp_segments path = [segment]" by (auto simp: length_Suc_conv)
  from path obtain dv where "render_sp path = Inr (fs_reference s)"
    by (rule parse_semantic_path_canonical)
  from assms(1) kind path one obtain d n v where
    id: "parse_declaration_id (sp_declaration path) = Inr (d, n, v)"
    by (auto simp: field_sources_def)
  from assms kind path one id obtain pv all where
    pv: "declared_version mdl d n v True = Some (DProjection pv)" and
    all: "build_projection_dependencies sig mdl d n pv = Inr all" and
    dep: "dep \<in> set all" "pd_target_property dep = Some segment"
    using segment by (auto simp: field_sources_def split: option.splits declaration_value.splits)
  obtain f where f: "f \<in> set (pv_fields pv)" "pf_name f = segment"
    using dependency_target [OF all dep] by blast
  from parse_declaration_id_iff [of "sp_declaration path" d n v] id
  have "sp_declaration path = declaration_text d n v" by (simp add: declaration_text_def)
  with \<open>render_sp path = Inr (fs_reference s)\<close> segment f
  have ref: "fs_reference s = declaration_text d n v @ ''#'' @ pf_name f"
    by (simp add: render_sp_eq_Inr)
  obtain dm pvs where "dm \<in> set (mf_domains mdl)" "dm_name dm = d" "(n, pvs) \<in> set (dm_projections dm)"
    "pv \<in> set pvs" "pv_version pv = v"
    using declared_version_projection [OF pv] by blast
  with f ref have "(ProjectionFieldSubject, fs_reference s) \<in> set (subject_texts mdl)"
    by (force simp: subject_texts_def Let_def)
  with kind show ?thesis
    by (cases s) (force simp: projection_fields_of_def)
qed

lemma projected_sources_field:
  assumes "projected_sources sig mdl s = Inr (x # xs)"
  shows "s \<in> set (projection_fields_of mdl)"
proof -
  from assms obtain deps where deps: "field_sources sig mdl s = Inr deps" and
    "smap (dependency_subject mdl)
       (sort_key (\<lambda>dep. (pd_source_ref dep, pd_source_property dep, usage_str (pd_usage_kind dep))) deps)
     = Inr (x # xs)"
    by (auto simp: projected_sources_def)
  then obtain dep where "dep \<in> set deps" by (cases deps) auto
  with field_sources_field [OF deps] show ?thesis .
qed

section \<open>Resolution\<close>

type_synonym resolved_facets = "(facet_subject, facet list) dict"

definition projectable :: "facet \<Rightarrow> bool" where
  "projectable f \<longleftrightarrow> fa_known f \<and> fa_propagation f = ProjectFacet"

text \<open>\<^verbatim>\<open>facet.identity not in explicit_identities\<close>\<close>

definition not_explicit :: "facet list \<Rightarrow> facet \<Rightarrow> bool" where
  "not_explicit explicit f \<longleftrightarrow> fa_identity f \<notin> fa_identity ` set explicit"

definition merge_facets :: "facet list \<Rightarrow> facet list \<Rightarrow> facet list \<Rightarrow> facet list" where
  "merge_facets explicit inherited projected =
     sort_key facet_key
       (explicit @ filter (not_explicit explicit) inherited @ filter (not_explicit explicit) projected)"

declare sbind_cong [fundef_cong]

lemma resolving_measure:
  assumes "s \<notin> set resolving" and "s \<in> set U"
  shows "card (set U - set (s # resolving)) < card (set U - set resolving)"
  using assms by (intro psubset_card_mono) auto

text \<open>
  \<open>resolve_facets\<close> is the inner function \<^verbatim>\<open>resolve\<close> with its two variables: \<open>resolving\<close> is restored when it
  returns, so it is an argument; \<open>resolved\<close> grows, so it is returned. \<open>resolve_sources\<close> is the loop over the
  dependencies of a projection field.
\<close>

function resolve_facets ::
    "signature_fn \<Rightarrow> mdl_file \<Rightarrow> explicit_facets \<Rightarrow> facet_subject list \<Rightarrow> resolved_facets \<Rightarrow> facet_subject
     \<Rightarrow> propagation_error + facet list \<times> resolved_facets"
  and resolve_sources ::
    "signature_fn \<Rightarrow> mdl_file \<Rightarrow> explicit_facets \<Rightarrow> facet_subject list \<Rightarrow> resolved_facets \<Rightarrow> facet_subject
     \<Rightarrow> facet_subject list \<Rightarrow> propagation_error + facet list \<times> resolved_facets" where
  "resolve_facets sig mdl explicit resolving resolved s =
     (case map_of resolved s of
        Some fs \<Rightarrow> Inr (fs, resolved)
      | None \<Rightarrow>
          if s \<in> set resolving then Inl (PropagationCycle s)
          else sbind (inherited_facets explicit s) (\<lambda>inherited.
               sbind (projected_sources sig mdl s) (\<lambda>sources.
               sbind (resolve_sources sig mdl explicit (s # resolving) resolved s sources) (\<lambda>r.
                 let fs = merge_facets (facets_at explicit s) inherited (fst r)
                 in Inr (fs, dict_put s fs (snd r))))))"
| "resolve_sources sig mdl explicit resolving resolved s [] = Inr ([], resolved)"
| "resolve_sources sig mdl explicit resolving resolved s (x # xs) =
     sbind (resolve_facets sig mdl explicit resolving resolved x) (\<lambda>r.
     sbind (resolve_sources sig mdl explicit resolving (snd r) s xs) (\<lambda>q.
       Inr (map (derive_facet s x) (filter projectable (fst r)) @ fst q, snd q)))"
  by pat_completeness auto

termination
proof (relation "measures
    [\<lambda>a. case a of Inl (_, mdl, _, resolving, _, _) \<Rightarrow> card (set (projection_fields_of mdl) - set resolving)
                 | Inr (_, mdl, _, resolving, _, _, _) \<Rightarrow> card (set (projection_fields_of mdl) - set resolving),
     \<lambda>a. case a of Inl _ \<Rightarrow> 1 | Inr (_, _, _, _, _, _, xs) \<Rightarrow> 2 * length xs]", goal_cases)
  case (2 sig mdl explicit resolving resolved s inherited sources)
  have "card (set (projection_fields_of mdl) - set (s # resolving))
      \<le> card (set (projection_fields_of mdl) - set resolving)"
    by (rule card_mono) auto
  with 2 show ?case
    using resolving_measure [of s resolving "projection_fields_of mdl"]
      projected_sources_field [of sig mdl s]
    by (cases sources) (auto simp: le_less simp del: set_simps)
qed auto

declare resolve_facets.simps [simp del]

text \<open>The subjects in order, resolved one after the other with one table.\<close>

fun resolve_all ::
    "signature_fn \<Rightarrow> mdl_file \<Rightarrow> explicit_facets \<Rightarrow> resolved_facets \<Rightarrow> facet_subject list
     \<Rightarrow> propagation_error + facet list" where
  "resolve_all sig mdl explicit resolved [] = Inr []"
| "resolve_all sig mdl explicit resolved (s # ss) =
     sbind (resolve_facets sig mdl explicit [] resolved s) (\<lambda>r.
     sbind (resolve_all sig mdl explicit (snd r) ss) (\<lambda>fs. Inr (fst r @ fs)))"

definition normalize_facets :: "signature_fn \<Rightarrow> mdl_file \<Rightarrow> facet list \<Rightarrow> propagation_error + facet list" where
  "normalize_facets sig mdl facets =
     sbind (explicit_by_subject mdl facets) (\<lambda>explicit.
     sbind (lift_facet (workspace_subjects mdl)) (\<lambda>subjects.
     sbind (resolve_all sig mdl explicit []
              (sort_key fs_canonical (remdups (subjects @ dict_keys explicit)))) (\<lambda>normalized.
     Inr (sort_key facet_key normalized))))"

text \<open>\<^verbatim>\<open>facets_for_subject\<close>\<close>

definition facets_for_subject ::
    "signature_fn \<Rightarrow> mdl_file \<Rightarrow> facet list \<Rightarrow> facet_subject \<Rightarrow> propagation_error + facet list" where
  "facets_for_subject sig mdl facets s =
     sbind (normalize_facets sig mdl facets) (\<lambda>fs. Inr (filter (\<lambda>f. fa_subject f = s) fs))"

section \<open>The facets of a subject\<close>

text \<open>
  What the code computes: the facets given for a subject; those of its ancestors that are inherited;
  and those of the properties a projection field reads that are projected. A facet given for the
  subject hides derived facets of its identity.
\<close>

inductive attached :: "signature_fn \<Rightarrow> mdl_file \<Rightarrow> explicit_facets \<Rightarrow> facet_subject \<Rightarrow> facet \<Rightarrow> bool"
    for sig mdl explicit where
  attached_explicit: "f \<in> set (facets_at explicit s) \<Longrightarrow> attached sig mdl explicit s f"
| attached_inherited:
    "inherited_facets explicit s = Inr fs \<Longrightarrow> f \<in> set fs \<Longrightarrow> not_explicit (facets_at explicit s) f \<Longrightarrow>
     attached sig mdl explicit s f"
| attached_projected:
    "projected_sources sig mdl s = Inr xs \<Longrightarrow> x \<in> set xs \<Longrightarrow> attached sig mdl explicit x g \<Longrightarrow> projectable g \<Longrightarrow>
     not_explicit (facets_at explicit s) (derive_facet s x g) \<Longrightarrow>
     attached sig mdl explicit s (derive_facet s x g)"

text \<open>A table is exact when it holds the facets of each of its subjects.\<close>

definition exact_table :: "signature_fn \<Rightarrow> mdl_file \<Rightarrow> explicit_facets \<Rightarrow> resolved_facets \<Rightarrow> bool" where
  "exact_table sig mdl explicit resolved \<longleftrightarrow>
     (\<forall>s fs. map_of resolved s = Some fs \<longrightarrow> set fs = {f. attached sig mdl explicit s f})"

lemma attached_iff:
  assumes "inherited_facets explicit s = Inr inherited" and "projected_sources sig mdl s = Inr xs"
  shows "attached sig mdl explicit s f \<longleftrightarrow>
    f \<in> set (facets_at explicit s)
    \<or> f \<in> set inherited \<and> not_explicit (facets_at explicit s) f
    \<or> (\<exists>x \<in> set xs. \<exists>g. attached sig mdl explicit x g \<and> projectable g \<and> f = derive_facet s x g
         \<and> not_explicit (facets_at explicit s) f)" (is "_ \<longleftrightarrow> ?rhs")
proof
  assume "attached sig mdl explicit s f"
  then show ?rhs using assms by cases auto
next
  assume ?rhs
  then show "attached sig mdl explicit s f"
    using assms attached_explicit attached_inherited attached_projected by blast
qed

lemma resolve_exact:
  "resolve_facets sig mdl explicit resolving resolved s = Inr r \<Longrightarrow> exact_table sig mdl explicit resolved \<Longrightarrow>
     set (fst r) = {f. attached sig mdl explicit s f} \<and> exact_table sig mdl explicit (snd r)"
  "resolve_sources sig mdl explicit resolving resolved s xs = Inr r \<Longrightarrow> exact_table sig mdl explicit resolved \<Longrightarrow>
     set (fst r) = {f. \<exists>x \<in> set xs. \<exists>g. attached sig mdl explicit x g \<and> projectable g \<and> f = derive_facet s x g}
     \<and> exact_table sig mdl explicit (snd r)"
proof (induction sig mdl explicit resolving resolved s and sig mdl explicit resolving resolved s xs
    arbitrary: r and r rule: resolve_facets_resolve_sources.induct)
  case (1 sig mdl explicit resolving resolved s)
  show ?case
  proof (cases "map_of resolved s")
    case None
    with "1.prems"(1) obtain inherited xs q where
      new: "s \<notin> set resolving" and
      inh: "inherited_facets explicit s = Inr inherited" and
      src: "projected_sources sig mdl s = Inr xs" and
      q: "resolve_sources sig mdl explicit (s # resolving) resolved s xs = Inr q" and
      r: "r = (merge_facets (facets_at explicit s) inherited (fst q),
               dict_put s (merge_facets (facets_at explicit s) inherited (fst q)) (snd q))"
      by (auto simp: resolve_facets.simps Let_def split: if_splits)
    from "1.IH" [OF None new inh src q "1.prems"(2)]
    have all: "set (merge_facets (facets_at explicit s) inherited (fst q)) = {f. attached sig mdl explicit s f}"
      and "exact_table sig mdl explicit (snd q)"
      by (auto simp: merge_facets_def attached_iff [OF inh src])
    then show ?thesis unfolding r by (auto simp: exact_table_def update_conv')
  qed (use "1.prems" in \<open>auto simp: resolve_facets.simps exact_table_def\<close>)
next
  case (3 sig mdl explicit resolving resolved s x xs)
  from "3.prems"(1) obtain p q where
    p: "resolve_facets sig mdl explicit resolving resolved x = Inr p" and
    q: "resolve_sources sig mdl explicit resolving (snd p) s xs = Inr q" and
    r: "r = (map (derive_facet s x) (filter projectable (fst p)) @ fst q, snd q)" by auto
  from "3.IH"(1) [OF p "3.prems"(2)] have first: "set (fst p) = {f. attached sig mdl explicit x f}"
    and table: "exact_table sig mdl explicit (snd p)" by auto
  from "3.IH"(2) [OF p q table] first show ?case unfolding r by auto
qed auto

lemma exact_table_empty [simp]: "exact_table sig mdl explicit []"
  by (simp add: exact_table_def)

lemma resolve_all_exact:
  "resolve_all sig mdl explicit resolved ss = Inr fs \<Longrightarrow> exact_table sig mdl explicit resolved \<Longrightarrow>
     set fs = {f. \<exists>s \<in> set ss. attached sig mdl explicit s f}"
proof (induction ss arbitrary: resolved fs)
  case (Cons s ss)
  then obtain r gs where r: "resolve_facets sig mdl explicit [] resolved s = Inr r" and
    gs: "resolve_all sig mdl explicit (snd r) ss = Inr gs" and "fs = fst r @ gs" by auto
  with resolve_exact(1) [OF r Cons.prems(2)] Cons.IH [OF gs] show ?case by auto
qed simp

text \<open>The subjects that are normalized: those of the workspace and those with explicit facets.\<close>

definition all_subjects :: "mdl_file \<Rightarrow> facet list \<Rightarrow> facet_subject set" where
  "all_subjects mdl facets =
     (case workspace_subjects mdl of Inl _ \<Rightarrow> {} | Inr ss \<Rightarrow> set ss) \<union> fa_subject ` set facets"

lemma collect_explicit_keys:
  "collect_explicit mdl explicit seen fs = Inr e \<Longrightarrow>
     fst ` set e = fst ` set explicit \<union> fa_subject ` set fs"
proof (induction fs arbitrary: explicit seen)
  case (Cons f fs)
  then obtain "collect_explicit mdl (dict_put (fa_subject f) (facets_at explicit (fa_subject f) @ [f]) explicit)
      ((fa_subject f, fa_identity f) # seen) fs = Inr e"
    by (auto split: if_splits)
  from Cons.IH [OF this] show ?case by (auto simp: dom_update)
qed simp

lemma collect_explicit_mem:
  "collect_explicit mdl explicit seen fs = Inr e \<Longrightarrow>
     f \<in> set (facets_at e s) \<longleftrightarrow> f \<in> set (facets_at explicit s) \<or> f \<in> set fs \<and> fa_subject f = s"
proof (induction fs arbitrary: explicit seen)
  case (Cons g fs)
  let ?explicit = "dict_put (fa_subject g) (facets_at explicit (fa_subject g) @ [g]) explicit"
  from Cons.prems have "collect_explicit mdl ?explicit ((fa_subject g, fa_identity g) # seen) fs = Inr e"
    by (auto split: if_splits)
  from Cons.IH [OF this] show ?case by (auto simp: facets_at_def update_conv')
qed simp

lemma facets_at_map [simp]:
  "set (facets_at (map (\<lambda>(s, fs). (s, sort_key facet_key fs)) e) s) = set (facets_at e s)"
  by (induction e) (auto simp: facets_at_def)

lemma explicit_exact:
  assumes "explicit_by_subject mdl facets = Inr explicit"
  shows "f \<in> set (facets_at explicit s) \<longleftrightarrow> f \<in> set facets \<and> fa_subject f = s"
    and "fst ` set explicit = fa_subject ` set facets"
proof -
  from assms obtain e where e: "collect_explicit mdl [] [] facets = Inr e" and
    "explicit = map (\<lambda>(s, fs). (s, sort_key facet_key fs)) e"
    by (auto simp: explicit_by_subject_def)
  have empty: "facets_at [] s = []" by (simp add: facets_at_def)
  show "f \<in> set (facets_at explicit s) \<longleftrightarrow> f \<in> set facets \<and> fa_subject f = s"
    unfolding \<open>explicit = _\<close> facets_at_map collect_explicit_mem [OF e] empty by simp
  show "fst ` set explicit = fa_subject ` set facets"
    using collect_explicit_keys [OF e] \<open>explicit = _\<close> by (simp add: image_image split_beta)
qed

lemma normalized_facets_attached:
  assumes "normalize_facets sig mdl facets = Inr result"
  shows "\<exists>explicit. explicit_by_subject mdl facets = Inr explicit \<and>
    set result = {f. \<exists>s \<in> all_subjects mdl facets. attached sig mdl explicit s f}"
proof -
  from assms obtain explicit ss fs where explicit: "explicit_by_subject mdl facets = Inr explicit" and
    ss: "workspace_subjects mdl = Inr ss" and
    fs: "resolve_all sig mdl explicit [] (sort_key fs_canonical (remdups (ss @ dict_keys explicit))) = Inr fs" and
    "result = sort_key facet_key fs"
    by (auto simp: normalize_facets_def)
  with resolve_all_exact [OF fs] explicit_exact(2) [OF explicit] show ?thesis
    by (auto simp: all_subjects_def)
qed

text \<open>
  C27. Normalization computes exactly the attached facets: when it succeeds, the result holds the
  facets given for a subject, those inherited from its enclosing declarations and fields and those
  projected along the lineage of projection fields, closed under these rules, and no others; the
  table of resolved subjects and the order of resolution do not show.
\<close>

theorem normalized_facets_exact:
  assumes "normalize_facets sig mdl facets = Inr result"
  shows "\<exists>explicit. explicit_by_subject mdl facets = Inr explicit \<and>
    set result = {f. \<exists>s \<in> all_subjects mdl facets. attached sig mdl explicit s f}"
  using assms by (rule normalized_facets_attached)

section \<open>Where facets come from\<close>

lemma inherited_facets_known:
  assumes "inherited_facets explicit s = Inr fs" and "f \<in> set fs"
  shows "\<exists>a g. g \<in> set (facets_at explicit a) \<and> fa_known g \<and> fa_propagation g = InheritFacet
    \<and> f = derive_facet s a g"
  using assms by (fastforce simp: inherited_facets_def)

lemma derive_facet_simps [simp]:
  "fa_subject (derive_facet s a f) = s" "fa_identity (derive_facet s a f) = fa_identity f"
  "fa_value (derive_facet s a f) = fa_value f" "fa_known (derive_facet s a f) = fa_known f"
  "fa_propagation (derive_facet s a f) = fa_propagation f"
  by (simp_all add: derive_facet_def)

definition same_fact :: "facet \<Rightarrow> facet \<Rightarrow> bool" where
  "same_fact f g \<longleftrightarrow>
     fa_identity f = fa_identity g \<and> fa_value f = fa_value g \<and> fa_known f = fa_known g
     \<and> fa_propagation f = fa_propagation g"

lemma attached_origin:
  "attached sig mdl explicit s f \<Longrightarrow>
     \<exists>a g. g \<in> set (facets_at explicit a) \<and> same_fact f g \<and>
       (f \<in> set (facets_at explicit s) \<or> fa_subject f = s \<and> fa_known f \<and> fa_propagation f \<noteq> NoPropagation)"
proof (induction rule: attached.induct)
  case (attached_explicit f s)
  then show ?case by (auto simp: same_fact_def)
next
  case (attached_inherited s fs f)
  from inherited_facets_known [OF attached_inherited(1,2)] show ?case
    by (auto simp: same_fact_def) (metis propagation.distinct(1))
next
  case (attached_projected s xs x g)
  from attached_projected.IH obtain a h where "h \<in> set (facets_at explicit a)" "same_fact g h" by blast
  then have "same_fact (derive_facet s x g) h" by (simp add: same_fact_def)
  with \<open>h \<in> _\<close> attached_projected(4) show ?case by (auto simp: projectable_def)
qed

text \<open>
  C28. Facets nobody understands stay where they are: a facet that normalization adds to those of the
  workspace is known, its schema says that it propagates, and it restates the identity and the value
  of a facet of the workspace, so an unknown facet is never copied to another subject and no value
  is made up.
\<close>

theorem derived_facets_known:
  assumes "normalize_facets sig mdl facets = Inr result" and "f \<in> set result" and "f \<notin> set facets"
  shows "fa_known f \<and> fa_propagation f \<noteq> NoPropagation \<and> (\<exists>g \<in> set facets. same_fact f g)"
proof -
  from normalized_facets_attached [OF assms(1)] obtain explicit s where
    explicit: "explicit_by_subject mdl facets = Inr explicit" and "attached sig mdl explicit s f"
    using assms(2) by auto
  with attached_origin [OF this(2)] explicit_exact(1) [OF explicit] assms(3) show ?thesis by blast
qed

text \<open>
  C29. Explicit facets win: where the workspace gives a subject a facet of some identity, every
  normalized facet of that identity on the subject is one that was given, so nothing inherited or
  projected overrides it; and every facet that was given is kept as it is.
\<close>

theorem explicit_facets_win:
  assumes "normalize_facets sig mdl facets = Inr result"
  shows "set facets \<subseteq> set result
    \<and> (\<forall>f \<in> set result. \<forall>g \<in> set facets.
          fa_subject f = fa_subject g \<and> fa_identity f = fa_identity g \<longrightarrow> f \<in> set facets)"
proof -
  from normalized_facets_attached [OF assms] obtain explicit where
    explicit: "explicit_by_subject mdl facets = Inr explicit" and
    result: "set result = {f. \<exists>s \<in> all_subjects mdl facets. attached sig mdl explicit s f}" by blast
  note given = explicit_exact(1) [OF explicit]
  have "f \<in> set result" if "f \<in> set facets" for f
    using that given attached_explicit [of f explicit "fa_subject f" sig mdl]
    by (auto simp: result all_subjects_def)
  moreover have "f \<in> set facets" if f: "f \<in> set result" and g: "g \<in> set facets"
    and same: "fa_subject f = fa_subject g" "fa_identity f = fa_identity g" for f g
  proof -
    from f result obtain s where "attached sig mdl explicit s f" by blast
    then show ?thesis
    proof cases
      case attached_explicit
      then show ?thesis using given by blast
    next
      case (attached_inherited fs)
      from inherited_facets_known [OF this(1,2)] have "fa_subject f = s" by auto
      with attached_inherited(3) same g given show ?thesis by (auto simp: not_explicit_def)
    next
      case (attached_projected xs x h)
      then have "fa_subject f = s" by simp
      with attached_projected same g given show ?thesis by (auto simp: not_explicit_def)
    qed
  qed
  ultimately show ?thesis by blast
qed

section \<open>Cycles\<close>

definition field_lineage :: "signature_fn \<Rightarrow> mdl_file \<Rightarrow> (facet_subject \<times> facet_subject) set" where
  "field_lineage sig mdl = {(s, x). \<exists>xs. projected_sources sig mdl s = Inr xs \<and> x \<in> set xs}"

lemma lift_no_cycle [simp]: "lift_id r \<noteq> Inl (PropagationCycle s)" "lift_facet q \<noteq> Inl (PropagationCycle s)"
  by (cases r; simp add: lift_id_def) (cases q; simp add: lift_facet_def)

lemma smap_Inl: "smap f xs = Inl e \<Longrightarrow> \<exists>x \<in> set xs. f x = Inl e"
  by (induction xs) (auto simp: sbind_eq_Inl)

lemma sources_no_cycle: "projected_sources sig mdl t \<noteq> Inl (PropagationCycle s)"
proof
  assume "projected_sources sig mdl t = Inl (PropagationCycle s)"
  then have "field_sources sig mdl t = Inl (PropagationCycle s)
      \<or> (\<exists>dep. dependency_subject mdl dep = Inl (PropagationCycle s))"
    by (auto simp: projected_sources_def sbind_eq_Inl dest: smap_Inl)
  then show False
    by (auto simp: field_sources_def dependency_subject_def sbind_eq_Inl
        split: if_splits option.splits declaration_value.splits) (metis declaration_value.exhaust)
qed

lemma inherited_no_cycle: "inherited_facets explicit t \<noteq> Inl (PropagationCycle s)"
  by (auto simp: inherited_facets_def inheritance_ancestors_def sbind_eq_Inl split: subject_kind.split)

lemma cycle_found:
  "resolve_facets sig mdl explicit resolving resolved t = Inl (PropagationCycle s) \<Longrightarrow>
     \<forall>u \<in> set resolving. (u, t) \<in> (field_lineage sig mdl)\<^sup>+ \<Longrightarrow> (s, s) \<in> (field_lineage sig mdl)\<^sup>+"
  "resolve_sources sig mdl explicit resolving resolved t xs = Inl (PropagationCycle s) \<Longrightarrow>
     \<forall>u \<in> set resolving. (u, t) \<in> (field_lineage sig mdl)\<^sup>* \<Longrightarrow> \<forall>x \<in> set xs. (t, x) \<in> field_lineage sig mdl \<Longrightarrow>
     (s, s) \<in> (field_lineage sig mdl)\<^sup>+"
proof (induction sig mdl explicit resolving resolved t and sig mdl explicit resolving resolved t xs
    rule: resolve_facets_resolve_sources.induct)
  case (1 sig mdl explicit resolving resolved t)
  show ?case
  proof (cases "t \<in> set resolving \<or> map_of resolved t \<noteq> None")
    case True
    with 1 show ?thesis by (auto simp: resolve_facets.simps split: option.splits)
  next
    case False
    with "1.prems"(1) obtain inherited xs where
      inh: "inherited_facets explicit t = Inr inherited" and src: "projected_sources sig mdl t = Inr xs" and
      cyc: "resolve_sources sig mdl explicit (t # resolving) resolved t xs = Inl (PropagationCycle s)"
      using inherited_no_cycle sources_no_cycle
      by (auto simp: resolve_facets.simps sbind_eq_Inl Let_def split: option.splits)
    have "\<forall>u \<in> set (t # resolving). (u, t) \<in> (field_lineage sig mdl)\<^sup>*"
      using "1.prems"(2) by (auto intro: trancl_into_rtrancl)
    moreover have "\<forall>x \<in> set xs. (t, x) \<in> field_lineage sig mdl" using src by (auto simp: field_lineage_def)
    ultimately show ?thesis using "1.IH" [of inherited xs] False inh src cyc by auto
  qed
next
  case (3 sig mdl explicit resolving resolved t x xs)
  have "\<forall>u \<in> set resolving. (u, x) \<in> (field_lineage sig mdl)\<^sup>+"
    using "3.prems"(2,3) by (auto intro: rtrancl_into_trancl1)
  with 3 show ?case by (auto simp: sbind_eq_Inl)
qed simp

text \<open>
  C30. A reported cycle is one: when normalization ends with a propagation cycle at a subject, that
  subject reads itself along the lineage of the projection fields of the workspace.
\<close>

theorem propagation_cycle_real:
  assumes "normalize_facets sig mdl facets = Inl (PropagationCycle s)"
  shows "(s, s) \<in> (field_lineage sig mdl)\<^sup>+"
proof -
  have collect: "collect_explicit mdl e seen fs \<noteq> Inl (PropagationCycle s)" for e seen fs
    by (induction mdl e seen fs rule: collect_explicit.induct) (auto simp: sbind_eq_Inl)
  have "\<exists>t \<in> set ss. \<exists>table. resolve_facets sig mdl e [] table t = Inl (PropagationCycle s)"
    if "resolve_all sig mdl e table ss = Inl (PropagationCycle s)" for e table ss
    using that by (induction ss arbitrary: table) (auto simp: sbind_eq_Inl)
  with assms collect obtain e table t where
    "resolve_facets sig mdl e [] table t = Inl (PropagationCycle s)"
    by (auto simp: normalize_facets_def explicit_by_subject_def sbind_eq_Inl) blast
  then show ?thesis by (rule cycle_found(1)) simp
qed

section \<open>Witnesses\<close>

text \<open>An order with a total that a projection shows, and a facet of the total that is projected.\<close>

definition total_workspace :: mdl_file where
  "total_workspace =
     sample_workspace\<lparr>mf_domains := [sample_shop\<lparr>
       dm_models := [(''Order'', [(sample_model 2 Additive)\<lparr>mv_fields :=
         [FieldDef ''total'' (PrimitiveType KInt 0) False False None [] []]\<rparr>])],
       dm_projections := [(''P'', [good_projection])], dm_semantic_types := []\<rparr>]\<rparr>"

definition unit_facet :: "bool \<Rightarrow> facet" where
  "unit_facet known =
     \<lparr>fa_identity = \<lparr>fi_namespace = ''acme'', fi_name = ''unit'', fi_version = 1\<rparr>, fa_value = JStr ''cent'',
      fa_subject = \<lparr>fs_kind = FieldSubject, fs_reference = ''shop.Order@2#total''\<rparr>,
      fa_propagation = ProjectFacet, fa_source = None, fa_known = known\<rparr>"

definition projected_unit :: facet where
  "projected_unit =
     derive_facet \<lparr>fs_kind = ProjectionFieldSubject, fs_reference = ''shop.P@1#x''\<rparr>
       (fa_subject (unit_facet True)) (unit_facet True)"

lemma unit_projected:
  "normalize_facets no_signature total_workspace [unit_facet True] = Inr [unit_facet True, projected_unit]"
  by code_simp

lemma projected_unit_differs:
  "projected_unit \<noteq> unit_facet True" "fa_identity projected_unit = fa_identity (unit_facet True)"
  by (simp_all add: projected_unit_def derive_facet_def unit_facet_def)

theorem normalized_facets_exact_witness:
  "\<exists>explicit. explicit_by_subject total_workspace [unit_facet True] = Inr explicit \<and>
     {unit_facet True, projected_unit}
       = {f. \<exists>s \<in> all_subjects total_workspace [unit_facet True]. attached no_signature total_workspace explicit s f}"
  using normalized_facets_exact [OF unit_projected] by simp

theorem derived_facets_known_witness:
  "fa_known projected_unit \<and> fa_propagation projected_unit \<noteq> NoPropagation
     \<and> same_fact projected_unit (unit_facet True)"
  using derived_facets_known [OF unit_projected, of projected_unit] projected_unit_differs by simp

theorem explicit_facets_win_witness:
  "{unit_facet True} \<subseteq> {unit_facet True, projected_unit} \<and> fa_subject projected_unit \<noteq> fa_subject (unit_facet True)"
  using explicit_facets_win [OF unit_projected] projected_unit_differs by fastforce

theorem propagation_cycle_real_witness:
  "(\<lparr>fs_kind = ProjectionFieldSubject, fs_reference = ''shop.P@1#x''\<rparr>,
    \<lparr>fs_kind = ProjectionFieldSubject, fs_reference = ''shop.P@1#x''\<rparr>)
     \<in> (field_lineage no_signature (projection_workspace looping_projection))\<^sup>+"
proof (rule propagation_cycle_real)
  show "normalize_facets no_signature (projection_workspace looping_projection) []
      = Inl (PropagationCycle \<lparr>fs_kind = ProjectionFieldSubject, fs_reference = ''shop.P@1#x''\<rparr>)"
    by code_simp
qed

end
