(* ===== verification/Naming.thy ===== *)
theory Naming
  imports Resolver
begin

text \<open>
  \<^verbatim>\<open>cli/src/modelable/emitters/naming.py\<close>: names of generated code. The functions split a name at the
  characters that are no letters or digits of ASCII and put the words together again. The last one
  finds the members of an enum that one spelling takes together.
\<close>

section \<open>Characters and words\<close>

definition is_upper_char :: "char \<Rightarrow> bool" where
  "is_upper_char c \<longleftrightarrow> 65 \<le> code c \<and> code c \<le> 90"

definition is_lower_char :: "char \<Rightarrow> bool" where
  "is_lower_char c \<longleftrightarrow> 97 \<le> code c \<and> code c \<le> 122"

definition is_alnum :: "char \<Rightarrow> bool" where
  "is_alnum c \<longleftrightarrow> is_upper_char c \<or> is_lower_char c \<or> is_decimal c"

definition upper_char :: "char \<Rightarrow> char" where
  "upper_char c = (if is_lower_char c then char_of (code c - 32) else c)"

definition upper :: "string \<Rightarrow> string" where
  "upper s = map upper_char s"

text \<open>The pieces between the characters outside \<open>p\<close>; empty pieces are dropped.\<close>

fun pieces :: "(char \<Rightarrow> bool) \<Rightarrow> string \<Rightarrow> string \<Rightarrow> string list" where
  "pieces p w [] = (if w = [] then [] else [w])"
| "pieces p w (c # s) =
     (if p c then pieces p (w @ [c]) s
      else if w = [] then pieces p [] s else w # pieces p [] s)"

text \<open>\<^verbatim>\<open>[part for part in _TOKEN_RE.split(value) if part]\<close>\<close>

definition token_words :: "string \<Rightarrow> string list" where
  "token_words s = pieces is_alnum [] s"

text \<open>\<^verbatim>\<open>re.sub(r"([a-z])([A-Z])", r"\1_\2", value)\<close> with the class of the first character given.\<close>

fun mark_humps :: "(char \<Rightarrow> bool) \<Rightarrow> string \<Rightarrow> string" where
  "mark_humps p [] = []"
| "mark_humps p [c] = [c]"
| "mark_humps p (c # d # s) =
     (if p c \<and> is_upper_char d then c # CHR ''_'' # d # mark_humps p s else c # mark_humps p (d # s))"

text \<open>\<^verbatim>\<open>re.sub(r"[^...]+", "_", text)\<close>: every run of characters outside \<open>p\<close> becomes one underscore.\<close>

fun sub_runs :: "(char \<Rightarrow> bool) \<Rightarrow> bool \<Rightarrow> string \<Rightarrow> string" where
  "sub_runs p inside [] = []"
| "sub_runs p inside (c # s) =
     (if p c then c # sub_runs p False s
      else if inside then sub_runs p True s else CHR ''_'' # sub_runs p True s)"

text \<open>\<^verbatim>\<open>text.strip("_")\<close>\<close>

definition strip_char :: "char \<Rightarrow> string \<Rightarrow> string" where
  "strip_char c s = rev (dropWhile (\<lambda>x. x = c) (rev (dropWhile (\<lambda>x. x = c) s)))"

text \<open>\<^verbatim>\<open>a or b\<close> of two texts\<close>

definition or_text :: "string \<Rightarrow> string \<Rightarrow> string" where
  "or_text a b = (if a = [] then b else a)"

section \<open>Spellings\<close>

definition capitalize :: "string \<Rightarrow> string" where
  "capitalize w = upper (take 1 w) @ lower (drop 1 w)"

text \<open>\<^verbatim>\<open>str.isupper()\<close> of a word of letters and digits\<close>

definition is_upper_word :: "string \<Rightarrow> bool" where
  "is_upper_word w \<longleftrightarrow> list_ex is_upper_char w \<and> \<not> list_ex is_lower_char w"

definition title_part :: "string \<Rightarrow> string" where
  "title_part part =
     (if is_upper_word part then take 1 part @ lower (drop 1 part) else upper (take 1 part) @ drop 1 part)"

definition pascalize_titlecase :: "string \<Rightarrow> string" where
  "pascalize_titlecase s = or_text (concat (map title_part (token_words s))) ''Generated''"

definition pascalize_plain :: "string \<Rightarrow> string \<Rightarrow> string" where
  "pascalize_plain s fallback =
     or_text (concat (map (\<lambda>part. upper (take 1 part) @ drop 1 part) (token_words s))) fallback"

definition snake_case :: "string \<Rightarrow> string" where
  "snake_case s =
     (let text = mark_humps (\<lambda>c. is_lower_char c \<or> is_decimal c) s;
          text = sub_runs is_alnum False text;
          text = lower (strip_char (CHR ''_'') text)
      in or_text text ''generated'')"

definition package_name :: "string \<Rightarrow> string \<Rightarrow> string" where
  "package_name domain separator = or_text (join separator (map lower (token_words domain))) ''modelable''"

definition proto_domain_segment :: "string \<Rightarrow> string" where
  "proto_domain_segment domain =
     lower (strip_char (CHR ''_'') (sub_runs (\<lambda>c. is_alnum c \<or> c = CHR ''_'') False domain))"

definition proto_package_name :: "string \<Rightarrow> int \<Rightarrow> string" where
  "proto_package_name domain v = ''modelable.'' @ proto_domain_segment domain @ ''.v'' @ int_str v"

definition apply_case_style :: "string \<Rightarrow> string \<Rightarrow> string" where
  "apply_case_style s cs =
     (let ws = token_words (mark_humps is_lower_char s) in
      if ws = [] then s
      else if cs = ''SCREAMING_SNAKE_CASE'' then join ''_'' (map upper ws)
      else if cs = ''snake_case'' then join ''_'' (map lower ws)
      else if cs = ''camelCase'' then lower (hd ws) @ concat (map capitalize (tl ws))
      else if cs = ''PascalCase'' then concat (map capitalize ws)
      else s)"

section \<open>Members that share a spelling\<close>

definition claim_step ::
    "(string \<Rightarrow> string) \<Rightarrow> (string, string list) dict \<Rightarrow> string \<Rightarrow> (string, string list) dict" where
  "claim_step f claimed m =
     dict_put (f m) ((case map_of claimed (f m) of None \<Rightarrow> [] | Some ms \<Rightarrow> ms) @ [m]) claimed"

definition find_identifier_collisions ::
    "string list \<Rightarrow> (string \<Rightarrow> string) \<Rightarrow> (string, string list) dict" where
  "find_identifier_collisions members f =
     filter (\<lambda>(_, ms). 1 < length ms) (foldl (claim_step f) [] members)"

lemma filter_spelling: "filter (\<lambda>m. f m = i) ms = [] \<longleftrightarrow> i \<notin> f ` set ms"
  by (auto simp: filter_empty_conv)

lemma claimed_lookup:
  "map_of (foldl (claim_step f) [] members) i =
     (if i \<in> f ` set members then Some (filter (\<lambda>m. f m = i) members) else None)"
proof (induction members rule: rev_induct)
  case (snoc m members)
  then show ?case
    using filter_spelling [of f "f m" members] by (auto simp: claim_step_def update_conv')
qed simp

lemma claimed_distinct: "distinct (dict_keys (foldl (claim_step f) [] members))"
  by (induction members rule: rev_induct) (simp_all add: claim_step_def distinct_update)

text \<open>
  Two members collide exactly when the transformation spells them alike: an identifier is
  reported with the members it stands for, in order, if and only if there are at least two.
\<close>

theorem collisions_exact:
  "(i, ms) \<in> set (find_identifier_collisions members f) \<longleftrightarrow>
     ms = filter (\<lambda>m. f m = i) members \<and> 1 < length ms"
proof -
  have "(i, ms) \<in> set (find_identifier_collisions members f) \<longleftrightarrow>
      map_of (foldl (claim_step f) [] members) i = Some ms \<and> 1 < length ms"
    using claimed_distinct by (simp add: find_identifier_collisions_def)
  also have "... \<longleftrightarrow> ms = filter (\<lambda>m. f m = i) members \<and> 1 < length ms"
    using filter_spelling [of f i members] by (auto simp: claimed_lookup)
  finally show ?thesis .
qed

lemma filter_one:
  "(\<forall>i. length (filter (\<lambda>m. f m = i) ms) \<le> 1) \<longleftrightarrow> distinct (map f ms)"
proof (induction ms)
  case (Cons m ms)
  have "(\<forall>i. length (filter (\<lambda>x. f x = i) (m # ms)) \<le> 1) \<longleftrightarrow>
      filter (\<lambda>x. f x = f m) ms = [] \<and> (\<forall>i. length (filter (\<lambda>x. f x = i) ms) \<le> 1)"
    by (auto simp: le_Suc_eq)
  with Cons show ?case by (simp add: filter_spelling)
qed simp

lemma no_collisions_iff: "find_identifier_collisions members f = [] \<longleftrightarrow> distinct (map f members)"
proof -
  have "find_identifier_collisions members f = [] \<longleftrightarrow> (\<forall>i ms. (i, ms) \<notin> set (find_identifier_collisions members f))"
    by (metis list.set_intros(1) neq_Nil_conv surj_pair empty_iff empty_set)
  also have "... \<longleftrightarrow> distinct (map f members)"
    unfolding collisions_exact filter_one [symmetric] by (auto simp: not_less)
  finally show ?thesis .
qed

end
