(* ===== verification/Policy.thy ===== *)
theory Policy
  imports Facets
begin

text \<open>
  \<^verbatim>\<open>cli/src/modelable/compat/policy.py\<close>: compatibility policies. A policy sets, for each target, the
  lowest severity that fails a report, and names typed facets a workspace has to expose; it is read
  from a YAML document. The main facts: no policy lets a breaking finding pass, a loaded policy
  always decides, and a facet requirement is reported exactly when no known facet meets it.
\<close>

section \<open>Severities and reports\<close>

text \<open>\<^verbatim>\<open>SEVERITIES\<close> and the reports of \<^verbatim>\<open>compat/targets.py\<close> that policies judge\<close>

definition severities :: "string list" where
  "severities = [''compatible'', ''review_required'', ''migration_required'', ''breaking'']"

definition severity_rank :: "string \<Rightarrow> nat option" where
  "severity_rank s = map_of (zip severities [0..<length severities]) s"

record target_finding =
  tf_code :: string
  tf_status :: string
  tf_ref :: string
  tf_message :: string
  tf_axis :: string
  tf_severity :: string
  tf_field :: "string option"
  tf_index :: "string option"

record target_report =
  tr_target :: string
  tr_status :: string
  tr_severity :: string
  tr_findings :: "target_finding list"

record compat_profile =
  cp_name :: string
  cp_targets :: "string list"
  cp_requirement :: string
  cp_thresholds :: "(string, string) dict"

record facet_requirement =
  fr_identity :: string
  fr_subject_kind :: "string option"
  fr_value :: json

record compat_policy =
  po_thresholds :: "(string, string) dict"
  po_profiles :: "(string, compat_profile) dict"
  po_facet_requirements :: "facet_requirement list"

datatype policy_error =
    UnknownProfile string
  | TargetNotInProfile string string
  | InvalidThreshold string string
  | UnknownSeverity string
  | NotYamlMapping
  | LintNotImplemented
  | UnsupportedTopLevel "string list"
  | KeysNotComparable
  | SectionNotMapping string
  | ThresholdNotText
  | ThresholdUnknown string string
  | BadProfileName
  | ProfileNotMapping string
  | ProfileUnsupportedKeys string "string list"
  | BadProfileTargets string
  | BadProfileRequirement string
  | BadProfileThresholds string
  | BadProfileThreshold string
  | FacetsNotArray
  | RequirementNotMapping nat
  | RequirementKeys nat "string list" "string list"
  | RequirementKeysNotText nat
  | RequirementIdentity nat
  | RequirementKind nat
  | RequirementFacet nat facet_error
  | RequirementSubjectKind nat
  | RequirementValue nat

definition default_threshold :: string where
  "default_threshold = ''review_required''"

definition default_policy :: compat_policy where
  "default_policy = \<lparr>po_thresholds = [], po_profiles = [], po_facet_requirements = []\<rparr>"

definition profile_for :: "compat_policy \<Rightarrow> string \<Rightarrow> policy_error + compat_profile" where
  "profile_for p name =
     (case map_of (po_profiles p) name of None \<Rightarrow> Inl (UnknownProfile name) | Some pr \<Rightarrow> Inr pr)"

definition threshold_for :: "compat_policy \<Rightarrow> string \<Rightarrow> string" where
  "threshold_for p target =
     (case map_of (po_thresholds p) target of None \<Rightarrow> default_threshold | Some t \<Rightarrow> t)"

section \<open>Enforcement\<close>

record enforcement_result =
  er_target :: string
  er_threshold :: string
  er_passed :: bool
  er_blocking :: "target_finding list"

text \<open>\<^verbatim>\<open>[f for f in findings if rank[f.severity] >= r]\<close>; an unknown severity raises \<^verbatim>\<open>KeyError\<close>.\<close>

fun blocking_findings :: "nat \<Rightarrow> target_finding list \<Rightarrow> policy_error + target_finding list" where
  "blocking_findings r [] = Inr []"
| "blocking_findings r (f # fs) =
     (case severity_rank (tf_severity f) of
        None \<Rightarrow> Inl (UnknownSeverity (tf_severity f))
      | Some s \<Rightarrow> sbind (blocking_findings r fs) (\<lambda>bs. Inr (if r \<le> s then f # bs else bs)))"

definition enforced_threshold :: "compat_policy \<Rightarrow> string \<Rightarrow> compat_profile option \<Rightarrow> string" where
  "enforced_threshold p target profile =
     (case profile of
        None \<Rightarrow> threshold_for p target
      | Some pr \<Rightarrow> (case map_of (cp_thresholds pr) target of None \<Rightarrow> threshold_for p target | Some t \<Rightarrow> t))"

definition enforce ::
    "compat_policy \<Rightarrow> target_report \<Rightarrow> compat_profile option \<Rightarrow> policy_error + enforcement_result" where
  "enforce p report profile =
     sbind (case profile of
              None \<Rightarrow> Inr ()
            | Some pr \<Rightarrow> raise_if (tr_target report \<notin> set (cp_targets pr))
                         (TargetNotInProfile (cp_name pr) (tr_target report))) (\<lambda>_.
     let threshold = enforced_threshold p (tr_target report) profile in
     case severity_rank threshold of
       None \<Rightarrow> Inl (InvalidThreshold threshold (tr_target report))
     | Some r \<Rightarrow> sbind (blocking_findings r (tr_findings report)) (\<lambda>blocking.
         Inr \<lparr>er_target = tr_target report, er_threshold = threshold, er_passed = (blocking = []),
              er_blocking = blocking\<rparr>))"

section \<open>Facet requirements\<close>

text \<open>Tuples of texts in the order of Python's tuples\<close>

definition requirement_key :: "facet_requirement \<Rightarrow> string \<times> string \<times> string" where
  "requirement_key q =
     (fr_identity q, (case fr_subject_kind q of None \<Rightarrow> [] | Some k \<Rightarrow> k), compact_json (fr_value q))"

definition meets :: "facet_requirement \<Rightarrow> facet \<Rightarrow> bool" where
  "meets q f \<longleftrightarrow>
     fi_canonical (fa_identity f) = fr_identity q
     \<and> (fr_subject_kind q = None \<or> Some (subject_kind_str (fs_kind (fa_subject f))) = fr_subject_kind q)
     \<and> compact_json (fa_value f) = compact_json (fr_value q)"

text \<open>The findings repeat the requirements that no known facet meets.\<close>

definition evaluate_facets :: "facet_requirement list \<Rightarrow> facet list \<Rightarrow> facet_requirement list" where
  "evaluate_facets requirements facets =
     (let known = filter fa_known facets
      in filter (\<lambda>q. \<not> list_ex (meets q) known) (sort_key requirement_key requirements))"

section \<open>Documents\<close>

text \<open>What \<^verbatim>\<open>yaml.safe_load\<close> returns; the last constructor stands for dates, bytes and sets.\<close>

datatype yaml =
    YNull
  | YBool bool
  | YInt int
  | YFloat string
  | YStr string
  | YList "yaml list"
  | YMap "(yaml \<times> yaml) list"
  | YOther string

text \<open>\<^verbatim>\<open>not value\<close>\<close>

fun falsy :: "yaml \<Rightarrow> bool" where
  "falsy YNull = True"
| "falsy (YBool b) = (\<not> b)"
| "falsy (YInt i) = (i = 0)"
| "falsy (YFloat s) = (s \<in> {''0.0'', ''-0.0''})"
| "falsy (YStr s) = (s = [])"
| "falsy (YList xs) = (xs = [])"
| "falsy (YMap kvs) = (kvs = [])"
| "falsy (YOther s) = False"

fun yaml_text :: "yaml \<Rightarrow> string option" where
  "yaml_text (YStr s) = Some s"
| "yaml_text _ = None"

text \<open>The key that \<^verbatim>\<open>json.dumps\<close> writes, where it accepts the key.\<close>

fun json_key :: "yaml \<Rightarrow> string option" where
  "json_key (YStr s) = Some s"
| "json_key (YInt i) = Some (int_str i)"
| "json_key (YFloat s) = (if finite_float s then Some s else None)"
| "json_key (YBool b) = Some (if b then ''true'' else ''false'')"
| "json_key YNull = Some ''null''"
| "json_key _ = None"

definition all_some :: "'a option list \<Rightarrow> 'a list option" where
  "all_some xs = (if None \<in> set xs then None else Some (map the xs))"

text \<open>\<^verbatim>\<open>_copy_json_value\<close>: through \<^verbatim>\<open>json.dumps\<close> and back; equal keys collapse to the last.\<close>

fun copy_json_value :: "yaml \<Rightarrow> json option" where
  "copy_json_value YNull = Some JNull"
| "copy_json_value (YBool b) = Some (JBool b)"
| "copy_json_value (YInt i) = Some (JInt i)"
| "copy_json_value (YFloat s) = (if finite_float s then Some (JFloat s) else None)"
| "copy_json_value (YStr s) = Some (JStr s)"
| "copy_json_value (YList xs) = map_option JList (all_some (map copy_json_value xs))"
| "copy_json_value (YMap kvs) =
     map_option (\<lambda>ps. JObj (dict_of ps))
       (all_some (map (\<lambda>kv. case (json_key (fst kv), copy_json_value (snd kv)) of
                               (Some k, Some v) \<Rightarrow> Some (k, v) | _ \<Rightarrow> None) kvs))"
| "copy_json_value (YOther _) = None"

definition facet_subject_kinds :: "string list" where
  "facet_subject_kinds = [''declaration'', ''field'', ''projection'', ''projection_field'']"

definition mk_facet_requirement ::
    "nat \<Rightarrow> string \<Rightarrow> string option \<Rightarrow> yaml \<Rightarrow> policy_error + facet_requirement" where
  "mk_facet_requirement index identity kind v =
     (case from_canonical identity of
        Inl e \<Rightarrow> Inl (RequirementFacet index e)
      | Inr _ \<Rightarrow>
          if kind \<noteq> None \<and> the kind \<notin> set facet_subject_kinds then Inl (RequirementSubjectKind index)
          else case copy_json_value v of
              None \<Rightarrow> Inl (RequirementValue index)
            | Some j \<Rightarrow> Inr \<lparr>fr_identity = identity, fr_subject_kind = kind, fr_value = j\<rparr>)"

text \<open>\<^verbatim>\<open>', '.join(sorted(unknown))\<close> of keys of a document: \<^verbatim>\<open>TypeError\<close> unless all are texts.\<close>

definition text_keys :: "yaml list \<Rightarrow> policy_error + string list" where
  "text_keys ks =
     (case all_some (map yaml_text ks) of None \<Rightarrow> Inl KeysNotComparable | Some ts \<Rightarrow> Inr (sorted_set ts))"

definition other_keys :: "string list \<Rightarrow> (yaml \<times> yaml) list \<Rightarrow> yaml list" where
  "other_keys known kvs = filter (\<lambda>k. k \<notin> YStr ` set known) (map fst kvs)"

text \<open>\<^verbatim>\<open>doc.get(section) or {}\<close> as a mapping\<close>

definition section_of :: "(yaml \<times> yaml) list \<Rightarrow> string \<Rightarrow> policy_error + (yaml \<times> yaml) list" where
  "section_of d name =
     (case map_of d (YStr name) of
        None \<Rightarrow> Inr []
      | Some v \<Rightarrow> if falsy v then Inr [] else (case v of YMap kvs \<Rightarrow> Inr kvs | _ \<Rightarrow> Inl (SectionNotMapping name)))"

definition read_threshold :: "yaml \<times> yaml \<Rightarrow> policy_error + string \<times> string" where
  "read_threshold entry =
     (case (yaml_text (fst entry), yaml_text (snd entry)) of
        (Some target, Some threshold) \<Rightarrow>
          if severity_rank threshold = None then Inl (ThresholdUnknown target threshold)
          else Inr (target, threshold)
      | _ \<Rightarrow> Inl ThresholdNotText)"

definition read_thresholds :: "(yaml \<times> yaml) list \<Rightarrow> policy_error + (string, string) dict" where
  "read_thresholds kvs = sbind (smap read_threshold kvs) (\<lambda>ps. Inr (dict_of ps))"

definition profile_targets :: "yaml option \<Rightarrow> string list option" where
  "profile_targets v =
     (case v of
        Some (YList xs) \<Rightarrow>
          (case all_some (map yaml_text xs) of
             None \<Rightarrow> None
           | Some ts \<Rightarrow> if ts \<noteq> [] \<and> list_all (\<lambda>t. t \<noteq> []) ts \<and> distinct ts then Some ts else None)
      | _ \<Rightarrow> None)"

definition profile_requirement :: "yaml option \<Rightarrow> string option" where
  "profile_requirement v =
     (case v of
        Some (YStr s) \<Rightarrow> if s \<in> {''backward'', ''forward'', ''full''} then Some s else None
      | _ \<Rightarrow> None)"

definition read_profile_threshold :: "string \<Rightarrow> yaml \<times> yaml \<Rightarrow> policy_error + string \<times> string" where
  "read_profile_threshold name entry =
     (case read_threshold entry of Inl _ \<Rightarrow> Inl (BadProfileThreshold name) | Inr p \<Rightarrow> Inr p)"

definition read_profile :: "yaml \<times> yaml \<Rightarrow> policy_error + string \<times> compat_profile" where
  "read_profile entry =
     (case yaml_text (fst entry) of
        None \<Rightarrow> Inl BadProfileName
      | Some name \<Rightarrow>
          if name = [] then Inl BadProfileName
          else case snd entry of
              YMap raw \<Rightarrow>
                let unknown = other_keys [''targets'', ''requirement'', ''thresholds''] raw in
                if unknown \<noteq> [] then sbind (text_keys unknown) (\<lambda>ks. Inl (ProfileUnsupportedKeys name ks))
                else case profile_targets (map_of raw (YStr ''targets'')) of
                    None \<Rightarrow> Inl (BadProfileTargets name)
                  | Some targets \<Rightarrow>
                      (case profile_requirement (map_of raw (YStr ''requirement'')) of
                         None \<Rightarrow> Inl (BadProfileRequirement name)
                       | Some requirement \<Rightarrow>
                           sbind (case map_of raw (YStr ''thresholds'') of
                                    None \<Rightarrow> Inr []
                                  | Some (YMap kvs) \<Rightarrow> Inr kvs
                                  | Some _ \<Rightarrow> Inl (BadProfileThresholds name)) (\<lambda>kvs.
                           sbind (smap (read_profile_threshold name) kvs) (\<lambda>ps.
                           Inr (name, \<lparr>cp_name = name, cp_targets = sort targets, cp_requirement = requirement,
                                       cp_thresholds = dict_of ps\<rparr>))))
            | _ \<Rightarrow> Inl (ProfileNotMapping name))"

definition read_requirement :: "nat \<times> yaml \<Rightarrow> policy_error + facet_requirement" where
  "read_requirement entry =
     (case snd entry of
        YMap kvs \<Rightarrow>
          (case all_some (map (\<lambda>kv. yaml_text (fst kv)) kvs) of
             None \<Rightarrow> Inl (RequirementKeysNotText (fst entry))
           | Some ks \<Rightarrow>
               let unknown = sorted_diff ks [''identity'', ''value'', ''subject_kind''];
                   missing = sorted_diff [''identity'', ''value''] ks
               in if unknown \<noteq> [] \<or> missing \<noteq> [] then Inl (RequirementKeys (fst entry) missing unknown)
                  else case yaml_text (the (map_of kvs (YStr ''identity''))) of
                      None \<Rightarrow> Inl (RequirementIdentity (fst entry))
                    | Some identity \<Rightarrow>
                        sbind (case map_of kvs (YStr ''subject_kind'') of
                                 None \<Rightarrow> Inr None
                               | Some YNull \<Rightarrow> Inr None
                               | Some (YStr k) \<Rightarrow> Inr (Some k)
                               | Some _ \<Rightarrow> Inl (RequirementKind (fst entry))) (\<lambda>kind.
                        mk_facet_requirement (fst entry) identity kind (the (map_of kvs (YStr ''value'')))))
      | _ \<Rightarrow> Inl (RequirementNotMapping (fst entry)))"

definition load_policy :: "yaml \<Rightarrow> policy_error + compat_policy" where
  "load_policy document =
     (case (if falsy document then YMap [] else document) of
        YMap d \<Rightarrow>
          let unsupported = other_keys [''compatibility'', ''profiles'', ''facets''] d in
          if YStr ''lint'' \<in> set unsupported then Inl LintNotImplemented
          else if unsupported \<noteq> [] then sbind (text_keys unsupported) (\<lambda>ks. Inl (UnsupportedTopLevel ks))
          else sbind (sbind (section_of d ''compatibility'') read_thresholds) (\<lambda>thresholds.
               sbind (sbind (section_of d ''profiles'') (smap read_profile)) (\<lambda>profiles.
               sbind (case map_of d (YStr ''facets'') of
                        None \<Rightarrow> Inr []
                      | Some (YList xs) \<Rightarrow> Inr xs
                      | Some _ \<Rightarrow> Inl FacetsNotArray) (\<lambda>raw.
               sbind (smap read_requirement (enumerate 0 raw)) (\<lambda>requirements.
               Inr \<lparr>po_thresholds = thresholds, po_profiles = dict_of profiles,
                    po_facet_requirements = sort_key requirement_key requirements\<rparr>))))
      | _ \<Rightarrow> Inl NotYamlMapping)"

section \<open>Enforcement decides as the thresholds say\<close>

lemma blocking_findings_Inr:
  "blocking_findings r fs = Inr bs \<longleftrightarrow>
     (\<forall>f\<in>set fs. severity_rank (tf_severity f) \<noteq> None)
     \<and> bs = filter (\<lambda>f. r \<le> the (severity_rank (tf_severity f))) fs"
  by (induction fs arbitrary: bs) (auto split: option.splits)

lemma severity_rank_le: "severity_rank s = Some k \<Longrightarrow> k \<le> 3"
  by (auto simp: severity_rank_def severities_def upt_rec split: if_splits)

lemma severity_rank_breaking: "severity_rank ''breaking'' = Some 3"
  by (simp add: severity_rank_def severities_def upt_rec)

lemma severity_rank_default: "severity_rank default_threshold \<noteq> None"
  by (simp add: severity_rank_def severities_def default_threshold_def upt_rec)

definition target_allowed :: "target_report \<Rightarrow> compat_profile option \<Rightarrow> bool" where
  "target_allowed report profile \<longleftrightarrow> (\<forall>pr. profile = Some pr \<longrightarrow> tr_target report \<in> set (cp_targets pr))"

lemma enforce_Inr:
  "enforce p report profile = Inr e \<longleftrightarrow>
     target_allowed report profile
     \<and> (\<exists>r. severity_rank (enforced_threshold p (tr_target report) profile) = Some r
           \<and> (\<exists>bs. blocking_findings r (tr_findings report) = Inr bs
                 \<and> e = \<lparr>er_target = tr_target report,
                         er_threshold = enforced_threshold p (tr_target report) profile,
                         er_passed = (bs = []), er_blocking = bs\<rparr>))"
  by (auto simp: enforce_def Let_def raise_if_def target_allowed_def split: option.splits if_splits)

text \<open>
  A report passes a compatibility policy exactly when the severity of each finding ranks below
  the threshold of its target; the findings that block it are those that do not, in their order,
  and a breaking finding is always one of them.
\<close>

theorem enforcement_exact:
  assumes "enforce p report profile = Inr e"
  shows "(er_passed e \<longleftrightarrow>
            (\<forall>f\<in>set (tr_findings report).
               the (severity_rank (tf_severity f)) < the (severity_rank (er_threshold e))))
         \<and> er_blocking e =
             filter (\<lambda>f. the (severity_rank (er_threshold e)) \<le> the (severity_rank (tf_severity f)))
               (tr_findings report)
         \<and> (\<forall>f\<in>set (tr_findings report).
              tf_severity f = ''breaking'' \<longrightarrow> f \<in> set (er_blocking e) \<and> \<not> er_passed e)"
  using assms
proof -
  have "r \<le> the (severity_rank ''breaking'')" if "severity_rank t = Some r" for t r
    using severity_rank_le [OF that] by (simp add: severity_rank_breaking)
  with assms show ?thesis
    by (fastforce simp: enforce_Inr blocking_findings_Inr filter_empty_conv not_le)
qed

section \<open>A loaded policy always decides\<close>

abbreviation known_severity :: "string \<Rightarrow> bool" where
  "known_severity s \<equiv> severity_rank s \<noteq> None"

definition thresholds_known :: "(string, string) dict \<Rightarrow> bool" where
  "thresholds_known d \<longleftrightarrow> (\<forall>k t. map_of d k = Some t \<longrightarrow> known_severity t)"

definition policy_known :: "compat_policy \<Rightarrow> bool" where
  "policy_known p \<longleftrightarrow>
     thresholds_known (po_thresholds p)
     \<and> (\<forall>name pr. map_of (po_profiles p) name = Some pr \<longrightarrow> thresholds_known (cp_thresholds pr))"

lemma dict_of_mem: "(k, v) \<in> set (dict_of kvs) \<Longrightarrow> (k, v) \<in> set kvs"
  using map_of_is_SomeI [OF distinct_dict_of] by (force simp: map_of_dict_of dest: map_of_SomeD)

lemma read_threshold_known: "read_threshold entry = Inr (k, t) \<Longrightarrow> known_severity t"
  by (auto simp: read_threshold_def split: option.splits if_splits)

lemma read_profile_threshold_known: "read_profile_threshold name entry = Inr (k, t) \<Longrightarrow> known_severity t"
  using read_threshold_known by (auto simp: read_profile_threshold_def split: sum.splits)

lemma thresholds_known_dict_of:
  assumes "smap f entries = Inr ps"
    and "\<And>entry k t. f entry = Inr (k, t) \<Longrightarrow> known_severity t"
  shows "thresholds_known (dict_of ps)"
proof -
  have "known_severity t" if "(k, t) \<in> set (dict_of ps)" for k t
    using smap_mem [OF assms(1) dict_of_mem [OF that]] assms(2) by blast
  then show ?thesis by (auto simp: thresholds_known_def)
qed

lemma read_thresholds_known: "read_thresholds kvs = Inr d \<Longrightarrow> thresholds_known d"
  using thresholds_known_dict_of [of read_threshold] read_threshold_known
  by (fastforce simp: read_thresholds_def)

lemma read_profile_known: "read_profile entry = Inr (name, pr) \<Longrightarrow> thresholds_known (cp_thresholds pr)"
  using thresholds_known_dict_of [of "read_profile_threshold name"] read_profile_threshold_known
    thresholds_known_dict_of [of "read_profile_threshold name" "[]" "[]"]
  by (fastforce simp: read_profile_def Let_def split: option.splits if_splits yaml.splits)

lemma load_policy_Inr:
  "load_policy document = Inr p \<Longrightarrow>
     \<exists>ts ps raw. read_thresholds ts = Inr (po_thresholds p) \<and> smap read_profile raw = Inr ps
                 \<and> po_profiles p = dict_of ps"
  by (auto simp: load_policy_def Let_def split: yaml.splits if_splits option.splits)

lemma load_policy_known:
  assumes "load_policy document = Inr p"
  shows "policy_known p"
proof -
  obtain ts ps raw where parts: "read_thresholds ts = Inr (po_thresholds p)"
    "smap read_profile raw = Inr ps" "po_profiles p = dict_of ps"
    using load_policy_Inr [OF assms] by blast
  have "thresholds_known (cp_thresholds pr)" if "(name, pr) \<in> set (dict_of ps)" for name pr
    using smap_mem [OF parts(2) dict_of_mem [OF that]] read_profile_known by blast
  with parts show ?thesis by (auto simp: policy_known_def read_thresholds_known)
qed

definition profile_of :: "compat_policy \<Rightarrow> compat_profile option \<Rightarrow> bool" where
  "profile_of p profile \<longleftrightarrow> (\<forall>pr. profile = Some pr \<longrightarrow> (\<exists>name. profile_for p name = Inr pr))"

lemma enforced_threshold_known:
  assumes "policy_known p" and "profile_of p profile"
  shows "known_severity (enforced_threshold p target profile)"
proof -
  have default: "known_severity (threshold_for p target)" for target
    using assms(1) severity_rank_default
    by (auto simp: threshold_for_def policy_known_def thresholds_known_def split: option.splits)
  show ?thesis
    using assms default
    by (fastforce simp: enforced_threshold_def policy_known_def profile_of_def profile_for_def
        thresholds_known_def split: option.splits)
qed

text \<open>
  C31. A policy read from a document judges every report whose severities are the defined ones and,
  where a profile of the policy is asked for, whose target the profile names: it never stops at an
  invalid threshold, and a report with a breaking finding fails.
\<close>

theorem loaded_policy_decides:
  assumes "load_policy document = Inr p" and "profile_of p profile" and "target_allowed report profile"
    and "\<forall>f\<in>set (tr_findings report). tf_severity f \<in> set severities"
  shows "\<exists>e. enforce p report profile = Inr e
             \<and> (er_passed e \<longrightarrow> (\<forall>f\<in>set (tr_findings report). tf_severity f \<noteq> ''breaking''))"
proof -
  have all_known: "known_severity (tf_severity f)" if "f \<in> set (tr_findings report)" for f
    using assms(4) that by (auto simp: severity_rank_def severities_def upt_rec)
  obtain r where r: "severity_rank (enforced_threshold p (tr_target report) profile) = Some r"
    using enforced_threshold_known [OF load_policy_known [OF assms(1)] assms(2)] by blast
  have bs: "\<exists>bs. blocking_findings r (tr_findings report) = Inr bs"
    using all_known by (simp add: blocking_findings_Inr)
  with r assms(3) obtain e where e: "enforce p report profile = Inr e"
    by (auto simp: enforce_Inr)
  have "r \<le> the (severity_rank ''breaking'')"
    using severity_rank_le [OF r] by (simp add: severity_rank_breaking)
  with e r show ?thesis
    by (fastforce simp: enforce_Inr blocking_findings_Inr filter_empty_conv)
qed

section \<open>Facet requirements are met by known facets only\<close>

text \<open>
  The facet requirements that a policy reports are those that no facet interpreted as known
  meets, in the order of their identity, kind and value; a facet that is opaque or unknown changes
  nothing.
\<close>

theorem facet_requirements_exact:
  "set (evaluate_facets requirements facets) =
     {q \<in> set requirements. \<not> (\<exists>f\<in>set facets. fa_known f \<and> meets q f)}
   \<and> sorted (map requirement_key (evaluate_facets requirements facets))
   \<and> (\<not> fa_known f \<longrightarrow>
        evaluate_facets requirements (f # facets) = evaluate_facets requirements facets)"
  by (auto simp: evaluate_facets_def Let_def list_ex_iff intro: sorted_filter)

section \<open>A policy at work\<close>

definition sample_policy_document :: yaml where
  "sample_policy_document =
     YMap [(YStr ''compatibility'', YMap [(YStr ''proto'', YStr ''breaking'')]),
           (YStr ''profiles'', YMap [(YStr ''strict'',
              YMap [(YStr ''targets'', YList [YStr ''proto'']), (YStr ''requirement'', YStr ''full''),
                    (YStr ''thresholds'', YMap [(YStr ''proto'', YStr ''migration_required'')])])])]"

definition sample_report :: target_report where
  "sample_report =
     \<lparr>tr_target = ''proto'', tr_status = ''migration_required'', tr_severity = ''migration_required'',
      tr_findings = [\<lparr>tf_code = ''c'', tf_status = ''migration_required'', tf_ref = ''r'',
                       tf_message = ''m'', tf_axis = ''wire'', tf_severity = ''migration_required'',
                       tf_field = None, tf_index = None\<rparr>]\<rparr>"

definition sample_profile :: compat_profile where
  "sample_profile =
     \<lparr>cp_name = ''strict'', cp_targets = [''proto''], cp_requirement = ''full'',
      cp_thresholds = [(''proto'', ''migration_required'')]\<rparr>"

definition sample_policy :: compat_policy where
  "sample_policy = \<lparr>po_thresholds = [(''proto'', ''breaking'')],
     po_profiles = [(''strict'', sample_profile)], po_facet_requirements = []\<rparr>"

lemma sample_policy_loaded: "load_policy sample_policy_document = Inr sample_policy"
  by code_simp

lemma sample_profile_of: "profile_of sample_policy (Some sample_profile)"
  by (simp add: profile_of_def sample_policy_def profile_for_def exI [where x = "''strict''"])

lemma sample_enforced:
  "enforce sample_policy sample_report (Some sample_profile) =
     Inr \<lparr>er_target = ''proto'', er_threshold = ''migration_required'', er_passed = False,
          er_blocking = tr_findings sample_report\<rparr>"
  by code_simp

text \<open>The same report passes without the profile, whose threshold is the stricter one.\<close>

lemma sample_report_passes:
  "(case enforce sample_policy sample_report None of Inl _ \<Rightarrow> False | Inr e \<Rightarrow> er_passed e)"
  by code_simp

lemma enforcement_exact_witness:
  "\<not> (\<forall>f\<in>set (tr_findings sample_report).
        the (severity_rank (tf_severity f)) < the (severity_rank ''migration_required''))"
  using enforcement_exact [OF sample_enforced] by simp

lemma loaded_policy_decides_witness:
  "\<exists>e. enforce sample_policy sample_report (Some sample_profile) = Inr e
       \<and> (er_passed e \<longrightarrow> (\<forall>f\<in>set (tr_findings sample_report). tf_severity f \<noteq> ''breaking''))"
proof (rule loaded_policy_decides [OF sample_policy_loaded sample_profile_of])
  show "target_allowed sample_report (Some sample_profile)"
    by (simp add: target_allowed_def sample_profile_def sample_report_def)
  show "\<forall>f\<in>set (tr_findings sample_report). tf_severity f \<in> set severities"
    by (simp add: sample_report_def severities_def)
qed

end
