(* ===== verification/Semantic_Fields.thy ===== *)
theory Semantic_Fields
  imports Naming Wire Resolver "HOL-Library.Word"
begin

text \<open>
  The checks of single fields in \<^verbatim>\<open>cli/src/modelable/validation/semantic.py\<close>: members of enums, wire hints,
  classification levels, value constraints, default values and lengths. A diagnostic is where it was
  found (the text \<^verbatim>\<open>fqn\<close> and the label of the field) and a constructor with what the message is built from.
  Checks append to a list of diagnostics, so each is the list of those it appends.
\<close>

section \<open>Diagnostics\<close>

datatype wire_problem =
    WireConflict wire_conflict
  | UnknownWireTarget string
  | FieldCaseOnField
  | JsonNoEncoding
  | JsonEncoding string
  | RustTypeOnJson
  | JsonCaseOnNonEnum
  | JsonFieldType
  | JsonCollision string "string list"
  | RustHasEncoding
  | RustFieldType
  | RustCase string
  | RustOverridesOnNonEnum
  | RustUnknownMembers "string list"
  | ClickhouseNoEncoding
  | ClickhouseEncoding string

datatype field_problem =
    EmptyEnum
  | DuplicateMember string
  | InvalidLevel string
  | WireProblem wire_problem
  | UnknownConstraint string
  | ConstraintNeedsNumeric string
  | ConstraintNeedsString string
  | ConstraintNeedsArray string
  | ConstraintNotCount string
  | ConstraintNotNumeric string
  | ConstraintNotText string
  | ConstraintNotBoolean
  | DefaultOutOfRange int string int int
  | BinaryLength int
  | UngroupedAggregate string

type_synonym field_diag = "string \<times> string \<times> field_problem"

text \<open>The guarded \<^verbatim>\<open>diagnostics.append\<close>\<close>

abbreviation complain :: "bool \<Rightarrow> 'a \<Rightarrow> 'a list" where
  "complain b p \<equiv> (if b then [p] else [])"

section \<open>Members of enums\<close>

text \<open>The values seen before that come again, once each, in the order in which they come again.\<close>

fun repeated_values :: "string list \<Rightarrow> string list \<Rightarrow> string list \<Rightarrow> string list" where
  "repeated_values seen dups [] = dups"
| "repeated_values seen dups (v # vs) =
     repeated_values (v # seen) (if v \<in> set seen \<and> v \<notin> set dups then dups @ [v] else dups) vs"

definition enum_member_problems :: "string list \<Rightarrow> field_problem list" where
  "enum_member_problems vs =
     (if vs = [] then [EmptyEnum] else map DuplicateMember (repeated_values [] [] vs))"

fun validate_enum_members :: "string \<Rightarrow> string \<Rightarrow> field_type \<Rightarrow> field_diag list"
  and enum_field_problems :: "string \<Rightarrow> string \<Rightarrow> field_def \<Rightarrow> field_diag list"
  and enum_variant_problems :: "string \<Rightarrow> string \<Rightarrow> union_variant \<Rightarrow> field_diag list" where
  "validate_enum_members fqn label (EnumType vs) = map (\<lambda>p. (fqn, label, p)) (enum_member_problems vs)"
| "validate_enum_members fqn label (ArrayType t) = validate_enum_members fqn (label @ ''[]'') t"
| "validate_enum_members fqn label (MapType k t) = validate_enum_members fqn (label @ ''{}'') t"
| "validate_enum_members fqn label (ObjectType fs) = concat (map (enum_field_problems fqn label) fs)"
| "validate_enum_members fqn label (UnionType d vs) = concat (map (enum_variant_problems fqn label) vs)"
| "validate_enum_members fqn label _ = []"
| "enum_field_problems fqn label (FieldDef n t opt nul def anns cs) =
     validate_enum_members fqn (label @ ''.'' @ n) t"
| "enum_variant_problems fqn label (UnionVariant tag t) =
     validate_enum_members fqn (label @ ''.'' @ tag) t"

section \<open>Wire hints\<close>

definition valid_wire_targets :: "string list" where
  "valid_wire_targets = [''json'', ''rust'', ''clickhouse'']"

definition valid_json_encodings :: "string list" where
  "valid_json_encodings = [''string'']"

definition valid_clickhouse_encodings :: "string list" where
  "valid_clickhouse_encodings = [''uuid'', ''string'', ''u8'']"

definition valid_rust_case_values :: "string list" where
  "valid_rust_case_values =
     [''snake_case'', ''SCREAMING_SNAKE_CASE'', ''camelCase'', ''PascalCase'', ''kebab-case'', ''lowercase'',
      ''UPPERCASE'']"

text \<open>\<^verbatim>\<open>_wire_value\<close>: the text a member has on the wire.\<close>

definition json_wire_value :: "wire_target_hint \<Rightarrow> string \<Rightarrow> string" where
  "json_wire_value hint m =
     (case map_of (wh_overrides hint) m of
        Some v \<Rightarrow> v
      | None \<Rightarrow> (case wh_case hint of Some cs \<Rightarrow> apply_case_style m cs | None \<Rightarrow> m))"

definition json_wire_collisions :: "string list \<Rightarrow> wire_target_hint \<Rightarrow> wire_problem list" where
  "json_wire_collisions vs hint =
     map (\<lambda>(v, ms). JsonCollision v ms) (find_identifier_collisions vs (json_wire_value hint))"

fun enum_values_of :: "field_type option \<Rightarrow> string list option" where
  "enum_values_of (Some (EnumType vs)) = Some vs"
| "enum_values_of _ = None"

text \<open>An unknown type (\<^const>\<open>None\<close>) is not complained about.\<close>

fun json_encodable :: "field_type option \<Rightarrow> bool" where
  "json_encodable None = True"
| "json_encodable (Some (PrimitiveType KInt _)) = True"
| "json_encodable (Some (DecimalType _ _)) = True"
| "json_encodable (Some (EnumType _)) = True"
| "json_encodable _ = False"

definition has_spelling :: "wire_target_hint \<Rightarrow> bool" where
  "has_spelling hint \<longleftrightarrow> wh_case hint \<noteq> None \<or> wh_overrides hint \<noteq> []"

definition validate_json_wire_hint :: "wire_target_hint \<Rightarrow> field_type option \<Rightarrow> wire_problem list" where
  "validate_json_wire_hint hint t =
     (if wh_field_case hint \<noteq> None then [FieldCaseOnField]
      else case wh_encoding hint of
          None \<Rightarrow>
            (case enum_values_of t of
               Some vs \<Rightarrow> if has_spelling hint then json_wire_collisions vs hint else [JsonNoEncoding]
             | None \<Rightarrow> [JsonNoEncoding])
        | Some enc \<Rightarrow>
            if enc \<notin> set valid_json_encodings then [JsonEncoding enc]
            else if wh_type hint \<noteq> None then [RustTypeOnJson]
            else if has_spelling hint \<and> enum_values_of t = None then [JsonCaseOnNonEnum]
            else complain (\<not> json_encodable t) JsonFieldType)"

text \<open>The types that may be given another type in Rust.\<close>

fun rust_retypable :: "field_type option \<Rightarrow> bool" where
  "rust_retypable None = True"
| "rust_retypable (Some (PrimitiveType k _)) \<longleftrightarrow> k \<in> {KInt, KDate, KTime, KTimestamp, KDuration}"
| "rust_retypable _ = False"

definition validate_rust_wire_hint :: "wire_target_hint \<Rightarrow> field_type option \<Rightarrow> wire_problem list" where
  "validate_rust_wire_hint hint t =
     (if wh_encoding hint \<noteq> None then [RustHasEncoding]
      else complain (wh_type hint \<noteq> None \<and> \<not> rust_retypable t) RustFieldType
        @ (case wh_case hint of
             None \<Rightarrow> [] | Some cs \<Rightarrow> complain (cs \<notin> set valid_rust_case_values) (RustCase cs))
        @ (if wh_overrides hint = [] then []
           else case enum_values_of t of
               None \<Rightarrow> [RustOverridesOnNonEnum]
             | Some vs \<Rightarrow>
                 let invalid = sorted_diff (dict_keys (wh_overrides hint)) vs
                 in complain (invalid \<noteq> []) (RustUnknownMembers invalid)))"

definition validate_clickhouse_wire_hint :: "wire_target_hint \<Rightarrow> wire_problem list" where
  "validate_clickhouse_wire_hint hint =
     (case wh_encoding hint of
        None \<Rightarrow> [ClickhouseNoEncoding]
      | Some enc \<Rightarrow> complain (enc \<notin> set valid_clickhouse_encodings) (ClickhouseEncoding enc))"

definition validate_wire_hint :: "field_type option \<Rightarrow> string \<times> wire_target_hint \<Rightarrow> wire_problem list" where
  "validate_wire_hint t entry =
     (case entry of (target, hint) \<Rightarrow>
        if target \<notin> set valid_wire_targets then [UnknownWireTarget target]
        else if target = ''json'' then validate_json_wire_hint hint t
        else if target = ''rust'' then validate_rust_wire_hint hint t
        else validate_clickhouse_wire_hint hint)"

definition validate_wire_hints :: "field_type option \<Rightarrow> (string, wire_target_hint) dict \<Rightarrow> wire_problem list" where
  "validate_wire_hints t targets = concat (map (validate_wire_hint t) targets)"

section \<open>Annotations of fields\<close>

definition validate_classification_level :: "string \<Rightarrow> field_problem list" where
  "validate_classification_level level = complain (level \<notin> level_str ` set all_levels) (InvalidLevel level)"

fun annotation_problems :: "field_type option \<Rightarrow> annotation \<Rightarrow> field_problem list" where
  "annotation_problems t (AnnClassification level) = validate_classification_level level"
| "annotation_problems t (AnnWire targets) = map WireProblem (validate_wire_hints t targets)"
| "annotation_problems t _ = []"

text \<open>Conflicting hints end the check of a field, before its annotations and the fields inside it.\<close>

definition annotated :: "string \<Rightarrow> string list \<Rightarrow> annotation list \<Rightarrow> field_type option \<Rightarrow> field_diag list \<Rightarrow> field_diag list" where
  "annotated fqn path anns t below =
     (let label = join ''.'' path in
      case wire_targets_from_annotations anns of
        Inl e \<Rightarrow> [(fqn, label, WireProblem (WireConflict e))]
      | Inr _ \<Rightarrow> map (\<lambda>p. (fqn, label, p)) (concat (map (annotation_problems t) anns)) @ below)"

fun fields_below :: "string \<Rightarrow> string list \<Rightarrow> field_type \<Rightarrow> field_diag list"
  and field_below :: "string \<Rightarrow> string list \<Rightarrow> field_def \<Rightarrow> field_diag list" where
  "fields_below fqn path (ObjectType fs) = concat (map (field_below fqn path) fs)"
| "fields_below fqn path _ = []"
| "field_below fqn path (FieldDef n t opt nul def anns cs) =
     annotated fqn (path @ [n]) anns (Some t) (fields_below fqn (path @ [n]) t)"

definition validate_field_annotations ::
    "string \<Rightarrow> string list \<Rightarrow> annotation list \<Rightarrow> field_type option \<Rightarrow> field_diag list" where
  "validate_field_annotations fqn path anns t =
     annotated fqn path anns t (case t of None \<Rightarrow> [] | Some ft \<Rightarrow> fields_below fqn path ft)"

section \<open>Value constraints\<close>

fun numeric_type :: "field_type option \<Rightarrow> bool" where
  "numeric_type (Some (DecimalType _ _)) = True"
| "numeric_type (Some (PrimitiveType k _)) \<longleftrightarrow>
     k \<in> {KInt, KFloat, KU8, KU16, KU32, KU64, KU128, KI8, KI16, KI32, KI64, KI128}"
| "numeric_type _ = False"

fun string_type :: "field_type option \<Rightarrow> bool" where
  "string_type (Some (PrimitiveType KString _)) = True"
| "string_type _ = False"

fun array_type :: "field_type option \<Rightarrow> bool" where
  "array_type (Some (ArrayType _)) = True"
| "array_type _ = False"

definition known_constraints :: "string list" where
  "known_constraints =
     [''min'', ''max'', ''min_length'', ''max_length'', ''pattern'', ''format'', ''min_items'', ''max_items'',
      ''unique_items'']"

text \<open>\<^verbatim>\<open>isinstance(value, int) and value >= 0\<close>: a Boolean is an integer.\<close>

fun count_value :: "constraint_value \<Rightarrow> bool" where
  "count_value (CvInt i) \<longleftrightarrow> 0 \<le> i"
| "count_value (CvBool _) = True"
| "count_value _ = False"

fun numeric_value :: "constraint_value \<Rightarrow> bool" where
  "numeric_value (CvStr _) = False"
| "numeric_value _ = True"

fun text_value :: "constraint_value \<Rightarrow> bool" where
  "text_value (CvStr _) = True"
| "text_value _ = False"

fun boolean_value :: "constraint_value \<Rightarrow> bool" where
  "boolean_value (CvBool _) = True"
| "boolean_value _ = False"

definition constraint_problems :: "field_type option \<Rightarrow> value_constraint \<Rightarrow> field_problem list" where
  "constraint_problems t c =
     (let kind = vc_kind c; v = vc_value c in
      if kind \<notin> set known_constraints then [UnknownConstraint kind]
      else (if kind \<in> {''min'', ''max''} \<and> \<not> numeric_type t then [ConstraintNeedsNumeric kind]
            else if kind \<in> {''min_length'', ''max_length'', ''pattern''} \<and> \<not> string_type t
              then [ConstraintNeedsString kind]
            else if kind \<in> {''min_items'', ''max_items'', ''unique_items''} \<and> \<not> array_type t
              then [ConstraintNeedsArray kind]
            else [])
        @ complain (kind \<in> {''min_length'', ''max_length'', ''min_items'', ''max_items''} \<and> \<not> count_value v)
            (ConstraintNotCount kind)
        @ complain (kind \<in> {''min'', ''max''} \<and> \<not> numeric_value v) (ConstraintNotNumeric kind)
        @ complain (kind \<in> {''pattern'', ''format''} \<and> \<not> text_value v) (ConstraintNotText kind)
        @ complain (kind = ''unique_items'' \<and> \<not> boolean_value v) ConstraintNotBoolean)"

definition validate_value_constraints ::
    "string \<Rightarrow> string \<Rightarrow> value_constraint list \<Rightarrow> field_type option \<Rightarrow> field_diag list" where
  "validate_value_constraints fqn name cs t =
     map (\<lambda>p. (fqn, name, p)) (concat (map (constraint_problems t) cs))"

section \<open>Default values and lengths\<close>

fun integer_bounds :: "prim_kind \<Rightarrow> (int \<times> int) option" where
  "integer_bounds KU8 = Some (0, 2 ^ 8 - 1)"
| "integer_bounds KU16 = Some (0, 2 ^ 16 - 1)"
| "integer_bounds KU32 = Some (0, 2 ^ 32 - 1)"
| "integer_bounds KU64 = Some (0, 2 ^ 64 - 1)"
| "integer_bounds KU128 = Some (0, 2 ^ 128 - 1)"
| "integer_bounds KI8 = Some (- (2 ^ 7), 2 ^ 7 - 1)"
| "integer_bounds KI16 = Some (- (2 ^ 15), 2 ^ 15 - 1)"
| "integer_bounds KI32 = Some (- (2 ^ 31), 2 ^ 31 - 1)"
| "integer_bounds KI64 = Some (- (2 ^ 63), 2 ^ 63 - 1)"
| "integer_bounds KI128 = Some (- (2 ^ 127), 2 ^ 127 - 1)"
| "integer_bounds _ = None"

definition validate_default_value_range :: "string \<Rightarrow> field_def \<Rightarrow> field_diag list" where
  "validate_default_value_range fqn f =
     (case (fd_default f, fd_type f) of
        (Some text, PrimitiveType k _) \<Rightarrow>
          (case (integer_bounds k, py_int (strip text)) of
             (Some (low, high), Some v) \<Rightarrow>
               complain (\<not> (low \<le> v \<and> v \<le> high))
                 (fqn, fd_name f, DefaultOutOfRange v (prim_str k) low high)
           | _ \<Rightarrow> [])
      | _ \<Rightarrow> [])"

definition validate_fixed_binary_length :: "string \<Rightarrow> field_def \<Rightarrow> field_diag list" where
  "validate_fixed_binary_length fqn f =
     (case fd_type f of
        FixedBinaryType n \<Rightarrow> complain (\<not> (1 \<le> n \<and> n \<le> 4096)) (fqn, fd_name f, BinaryLength n)
      | _ \<Rightarrow> [])"

section \<open>Enums are checked wherever they occur\<close>

text \<open>The enums inside a type, apart from the keys of maps, which the source does not look at.\<close>

fun enums_within :: "field_type \<Rightarrow> string list list"
  and field_enums :: "field_def \<Rightarrow> string list list"
  and variant_enums :: "union_variant \<Rightarrow> string list list" where
  "enums_within (EnumType vs) = [vs]"
| "enums_within (ArrayType t) = enums_within t"
| "enums_within (MapType k t) = enums_within t"
| "enums_within (ObjectType fs) = concat (map field_enums fs)"
| "enums_within (UnionType d vs) = concat (map variant_enums vs)"
| "enums_within _ = []"
| "field_enums (FieldDef n t opt nul def anns cs) = enums_within t"
| "variant_enums (UnionVariant tag t) = enums_within t"

lemma repeated_values_Nil:
  "repeated_values seen dups vs = [] \<longleftrightarrow> dups = [] \<and> distinct vs \<and> set vs \<inter> set seen = {}"
  by (induction seen dups vs rule: repeated_values.induct) auto

lemma enum_member_problems_Nil: "enum_member_problems vs = [] \<longleftrightarrow> vs \<noteq> [] \<and> distinct vs"
  by (simp add: enum_member_problems_def repeated_values_Nil)

lemma enum_members_accepted:
  "validate_enum_members fqn label t = [] \<longleftrightarrow> list_all (\<lambda>vs. vs \<noteq> [] \<and> distinct vs) (enums_within t)"
  "enum_field_problems fqn label f = [] \<longleftrightarrow> list_all (\<lambda>vs. vs \<noteq> [] \<and> distinct vs) (field_enums f)"
  "enum_variant_problems fqn label v = [] \<longleftrightarrow> list_all (\<lambda>vs. vs \<noteq> [] \<and> distinct vs) (variant_enums v)"
  by (induction fqn label t and fqn label f and fqn label v
      rule: validate_enum_members_enum_field_problems_enum_variant_problems.induct)
    (auto simp: enum_member_problems_Nil list_all_iff)

text \<open>
  Members of enums: the members inside a type raise no diagnostic exactly when every enum inside
  it, under arrays, the values of maps, inline objects and the variants of unions, has a member and
  no member twice.
\<close>

theorem enum_members_accepted_iff:
  "validate_enum_members fqn label t = [] \<longleftrightarrow> list_all (\<lambda>vs. vs \<noteq> [] \<and> distinct vs) (enums_within t)"
  by (rule enum_members_accepted(1))

lemma enum_map_key_unchecked: "validate_enum_members fqn label (MapType (EnumType []) (PrimitiveType KInt 1)) = []"
  by simp

section \<open>Default values fit their machine type\<close>

text \<open>An integer is a value of the machine type that a kind names.\<close>

fun machine_value :: "prim_kind \<Rightarrow> int \<Rightarrow> bool" where
  "machine_value KU8 v \<longleftrightarrow> uint (word_of_int v :: 8 word) = v"
| "machine_value KU16 v \<longleftrightarrow> uint (word_of_int v :: 16 word) = v"
| "machine_value KU32 v \<longleftrightarrow> uint (word_of_int v :: 32 word) = v"
| "machine_value KU64 v \<longleftrightarrow> uint (word_of_int v :: 64 word) = v"
| "machine_value KU128 v \<longleftrightarrow> uint (word_of_int v :: 128 word) = v"
| "machine_value KI8 v \<longleftrightarrow> sint (word_of_int v :: 8 word) = v"
| "machine_value KI16 v \<longleftrightarrow> sint (word_of_int v :: 16 word) = v"
| "machine_value KI32 v \<longleftrightarrow> sint (word_of_int v :: 32 word) = v"
| "machine_value KI64 v \<longleftrightarrow> sint (word_of_int v :: 64 word) = v"
| "machine_value KI128 v \<longleftrightarrow> sint (word_of_int v :: 128 word) = v"
| "machine_value _ v = True"

lemma unsigned_fits: "uint (word_of_int v :: 'a::len word) = v \<longleftrightarrow> 0 \<le> v \<and> v < 2 ^ LENGTH('a)"
  by (auto simp: uint_word_of_int take_bit_int_eq_self_iff simp flip: take_bit_eq_mod)

lemma signed_fits:
  "sint (word_of_int v :: 'a::len word) = v \<longleftrightarrow> - (2 ^ (LENGTH('a) - 1)) \<le> v \<and> v < 2 ^ (LENGTH('a) - 1)"
  by (simp add: sint_sbintrunc' signed_take_bit_int_eq_self_iff)

lemma bounds_fit:
  "(case integer_bounds k of None \<Rightarrow> True | Some (low, high) \<Rightarrow> low \<le> v \<and> v \<le> high) \<longleftrightarrow> machine_value k v"
  by (cases k) (auto simp: unsigned_fits signed_fits)

lemma strip_end: "strip s = [] \<or> \<not> is_space (hd (strip s)) \<and> \<not> is_space (last (strip s))"
proof -
  let ?t = "dropWhile is_space s"
  let ?u = "dropWhile is_space (rev ?t)"
  have last: "?u = [] \<or> \<not> is_space (hd ?u)" using hd_dropWhile by blast
  have "\<not> is_space (last ?u)" if "?u \<noteq> []"
  proof -
    obtain w where w: "rev ?t = w @ ?u" by (metis takeWhile_dropWhile_id)
    with that have "last ?u = last (rev ?t)" by (metis last_appendR)
    moreover have "?t \<noteq> []" using that by (metis dropWhile.simps(1) rev.simps(1))
    ultimately show ?thesis using hd_dropWhile [of is_space s] by (simp add: last_rev)
  qed
  with last show ?thesis by (auto simp: strip_def hd_rev last_rev)
qed

lemma strip_strip: "strip (strip s) = strip s"
proof (cases "strip s")
  case (Cons c t)
  then have "\<not> is_space (hd (strip s))" "\<not> is_space (last (strip s))" using strip_end [of s] by auto
  then have "dropWhile is_space (strip s) = strip s" "dropWhile is_space (rev (strip s)) = rev (strip s)"
    using Cons by (simp_all add: dropWhile_eq_self_iff hd_rev del: rev.simps)
  then show ?thesis by (subst strip_def) simp
next
  case Nil
  then show ?thesis by (simp only: Nil) (simp add: strip_def)
qed

text \<open>The default of a field, where it is the text of an integer, is a value of the type.\<close>

definition default_fits :: "field_def \<Rightarrow> bool" where
  "default_fits f \<longleftrightarrow>
     (case (fd_type f, Option.bind (fd_default f) py_int) of
        (PrimitiveType k _, Some v) \<Rightarrow> machine_value k v
      | _ \<Rightarrow> True)"

lemma default_range:
  "validate_default_value_range fqn f = [] \<longleftrightarrow> default_fits f"
proof (cases "fd_default f")
  case (Some dflt)
  have "py_int (strip dflt) = py_int dflt" by (simp add: py_int_def strip_strip)
  with Some show ?thesis
    by (auto simp: validate_default_value_range_def default_fits_def bounds_fit [symmetric]
        simp del: machine_value.simps split: field_type.split option.split)
qed (simp add: validate_default_value_range_def default_fits_def split: field_type.split)

text \<open>
  C34. Bounds of defaults: the default of a field raises no diagnostic exactly when, read as a Python
  integer, it survives the conversion to the machine word of the type of the field, unsigned or in
  two's complement, at each of the widths 8 to 128; the types without a width take every integer.
\<close>

theorem default_range_exact:
  "validate_default_value_range fqn f = [] \<longleftrightarrow> default_fits f"
  by (rule default_range)

section \<open>Texts of members on the wire\<close>

lemma json_wire_collisions_Nil: "json_wire_collisions vs hint = [] \<longleftrightarrow> distinct (map (json_wire_value hint) vs)"
  by (simp add: json_wire_collisions_def no_collisions_iff)

text \<open>
  The text of a member on the wire, as a hint states it: an override of the member comes first, then the
  case of the hint, and a member that neither speaks of is written as it is.
\<close>

inductive spelled :: "wire_target_hint \<Rightarrow> string \<Rightarrow> string \<Rightarrow> bool" for hint where
  overridden: "map_of (wh_overrides hint) m = Some v \<Longrightarrow> spelled hint m v"
| in_case: "m \<notin> fst ` set (wh_overrides hint) \<Longrightarrow> wh_case hint = Some cs \<Longrightarrow> spelled hint m (apply_case_style m cs)"
| as_it_is: "m \<notin> fst ` set (wh_overrides hint) \<Longrightarrow> wh_case hint = None \<Longrightarrow> spelled hint m m"

lemma spelled_iff: "spelled hint m v \<longleftrightarrow> v = json_wire_value hint m"
proof
  show "v = json_wire_value hint m" if "spelled hint m v"
    using that
  proof cases
    case overridden
    then show ?thesis by (simp add: json_wire_value_def)
  next
    case (in_case cs)
    then have "map_of (wh_overrides hint) m = None" by (metis map_of_eq_None_iff)
    with in_case show ?thesis by (simp add: json_wire_value_def)
  next
    case as_it_is
    then have "map_of (wh_overrides hint) m = None" by (metis map_of_eq_None_iff)
    with as_it_is show ?thesis by (simp add: json_wire_value_def)
  qed
  show "spelled hint m v" if v: "v = json_wire_value hint m"
  proof (cases "map_of (wh_overrides hint) m")
    case (Some w)
    then show ?thesis using v by (simp add: json_wire_value_def overridden)
  next
    case None
    note unset = this
    from unset have absent: "m \<notin> fst ` set (wh_overrides hint)" by (metis map_of_eq_None_iff)
    show ?thesis
    proof (cases "wh_case hint")
      case None
      from as_it_is [OF absent this] show ?thesis using unset None v by (simp add: json_wire_value_def)
    next
      case (Some cs)
      from in_case [OF absent this] show ?thesis using unset Some v by (simp add: json_wire_value_def)
    qed
  qed
qed

text \<open>Each member is one of its kind, and some reader gets every member back from its text.\<close>

definition readable :: "wire_target_hint \<Rightarrow> string list \<Rightarrow> bool" where
  "readable hint vs \<longleftrightarrow> distinct vs \<and> (\<exists>read. list_all (\<lambda>m. \<exists>v. spelled hint m v \<and> read v = Some m) vs)"

lemma readable_apart:
  assumes "readable hint vs"
  shows "distinct (map (json_wire_value hint) vs)"
proof -
  obtain read where distinct: "distinct vs"
    and read: "list_all (\<lambda>m. \<exists>v. spelled hint m v \<and> read v = Some m) vs"
    using assms unfolding readable_def by (elim conjE exE)
  have told: "read (json_wire_value hint m) = Some m" if "m \<in> set vs" for m
    using bspec [OF read [unfolded list_all_iff] that] unfolding spelled_iff by simp
  have "inj_on (json_wire_value hint) (set vs)"
  proof (rule inj_onI)
    fix m n assume mn: "m \<in> set vs" "n \<in> set vs" "json_wire_value hint m = json_wire_value hint n"
    then have "Some m = Some n" unfolding told [OF mn(1), symmetric] told [OF mn(2), symmetric] by (simp only:)
    then show "m = n" by simp
  qed
  with distinct show ?thesis by (simp add: distinct_map)
qed

lemma apart_readable:
  assumes apart: "distinct (map (json_wire_value hint) vs)"
  shows "readable hint vs"
proof -
  let ?read = "map_of (map (\<lambda>m. (json_wire_value hint m, m)) vs)"
  have "?read (json_wire_value hint m) = Some m" if "m \<in> set vs" for m
    using imageI [OF that, of "\<lambda>m. (json_wire_value hint m, m)"] apart
    by (intro map_of_is_SomeI) (simp_all only: map_map comp_def fst_conv set_map)
  then have "\<forall>m \<in> set vs. spelled hint m (json_wire_value hint m) \<and> ?read (json_wire_value hint m) = Some m"
    unfolding spelled_iff by simp
  then have "\<forall>m \<in> set vs. \<exists>v. spelled hint m v \<and> ?read v = Some m" by blast
  moreover have "distinct vs" using apart by (simp add: distinct_map)
  ultimately show ?thesis unfolding readable_def list_all_iff by blast
qed

lemma readable_iff: "readable hint vs \<longleftrightarrow> distinct (map (json_wire_value hint) vs)"
  by (rule iffI [OF readable_apart apart_readable])

lemma json_enum_hint:
  "validate_json_wire_hint hint (Some (EnumType vs)) = [] \<longleftrightarrow>
     wh_field_case hint = None \<and>
     (case wh_encoding hint of
        None \<Rightarrow> (wh_case hint \<noteq> None \<or> wh_overrides hint \<noteq> []) \<and> readable hint vs
      | Some enc \<Rightarrow> enc = ''string'' \<and> wh_type hint = None)"
  by (auto simp: validate_json_wire_hint_def json_wire_collisions_Nil readable_iff has_spelling_def
      valid_json_encodings_def split: option.splits)


text \<open>With an encoding two members may share their text, and the check of each annotation on its own
  does not see a text shared across annotations.\<close>

lemma encoded_collision_accepted:
  "validate_json_wire_hint
     \<lparr>wh_encoding = Some ''string'', wh_type = None, wh_case = None,
      wh_overrides = [(''A'', ''x''), (''B'', ''x'')], wh_field_case = None\<rparr>
     (Some (EnumType [''A'', ''B''])) = []"
  by (simp add: validate_json_wire_hint_def valid_json_encodings_def)

definition override_one :: "string \<Rightarrow> string \<Rightarrow> annotation" where
  "override_one m v = AnnWire [(''json'', empty_hint\<lparr>wh_overrides := [(m, v)]\<rparr>)]"

lemma split_collision_accepted:
  "validate_field_annotations ''d.M@1'' [''f''] [override_one ''A'' ''x'', override_one ''B'' ''x'']
     (Some (EnumType [''A'', ''B''])) = []"
  "(case wire_targets_from_annotations [override_one ''A'' ''x'', override_one ''B'' ''x''] of
      Inl _ \<Rightarrow> False | Inr ts \<Rightarrow>
        json_wire_value (target_hint ts ''json'') ''A'' = json_wire_value (target_hint ts ''json'') ''B'')"
  by code_simp+

end
