(* ===== verification/Semantic_Models.thy ===== *)
theory Semantic_Models
  imports Semantic_Fields Change_Kind Dependency Projection_Diff
begin

text \<open>
  The checks of models and projections in \<^verbatim>\<open>cli/src/modelable/validation/semantic.py\<close>: versions, headers, keys, wire
  hints of declarations, fields, declared change kinds, aggregation without grouping, and the type of a projection
  field, which is looked up through other projections and may not return. The list of diagnostics of a
  projection is therefore optional: \<^const>\<open>None\<close> stands for the \<^verbatim>\<open>RecursionError\<close>.
\<close>

section \<open>Diagnostics\<close>

datatype declaration_wire_problem =
    DeclarationConflict wire_conflict
  | DeclarationTarget string
  | OnlyFieldCase
  | UnsupportedFieldCase string

datatype model_problem =
    VersionsNotAscending int int
  | NeedsVersionHeader model_kind
  | NeedsChangeKind model_kind
  | NeedsKey model_kind
  | UnexpectedKey model_kind
  | DeclarationWire declaration_wire_problem
  | ChangeKindProblem string

datatype model_diag = ModelDiag string model_problem | FieldDiag field_diag

section \<open>Wire hints of declarations\<close>

definition valid_ts_field_case_values :: "string list" where
  "valid_ts_field_case_values = [''snake_case'', ''SCREAMING_SNAKE_CASE'', ''camelCase'', ''PascalCase'']"

definition declaration_hint_problem :: "string \<times> wire_target_hint \<Rightarrow> declaration_wire_problem list" where
  "declaration_hint_problem entry =
     (case entry of (target, hint) \<Rightarrow>
        if target \<notin> set valid_wire_targets then [DeclarationTarget target]
        else if target \<noteq> ''json'' \<or> wh_encoding hint \<noteq> None \<or> wh_type hint \<noteq> None \<or> has_spelling hint
          then [OnlyFieldCase]
        else case wh_field_case hint of
            None \<Rightarrow> [OnlyFieldCase]
          | Some cs \<Rightarrow> complain (cs \<notin> set valid_ts_field_case_values) (UnsupportedFieldCase cs))"

definition validate_declaration_wire_annotations :: "annotation list \<Rightarrow> declaration_wire_problem list" where
  "validate_declaration_wire_annotations anns =
     (case wire_targets_from_annotations anns of
        Inl e \<Rightarrow> [DeclarationConflict e]
      | Inr _ \<Rightarrow> concat (map declaration_hint_problem (annotation_hints anns)))"

section \<open>Models\<close>

text \<open>\<^verbatim>\<open>versions[index - 1], versions[index]\<close> for each index from 1\<close>

definition adjacent :: "'a list \<Rightarrow> ('a \<times> 'a) list" where
  "adjacent xs = zip xs (tl xs)"

definition ascending_problems :: "string \<Rightarrow> model_version list \<Rightarrow> model_diag list" where
  "ascending_problems fqn vs =
     concat (map (\<lambda>(p, c). complain (c \<le> p) (ModelDiag fqn (VersionsNotAscending p c)))
       (adjacent (map mv_version vs)))"

definition versioned_kind :: "model_kind \<Rightarrow> bool" where
  "versioned_kind k \<longleftrightarrow> k \<in> {Entity, Aggregate, Event}"

definition keyed_kind :: "model_kind \<Rightarrow> bool" where
  "keyed_kind k \<longleftrightarrow> k \<in> {Entity, Aggregate}"

definition version_context :: "string \<Rightarrow> int \<Rightarrow> string" where
  "version_context fqn v = fqn @ ''@'' @ int_str v"

definition header_problems :: "string \<Rightarrow> model_version \<Rightarrow> model_diag list" where
  "header_problems fqn v =
     (if versioned_kind (mv_model_kind v) \<and> \<not> mv_has_version_header v
      then [ModelDiag fqn (NeedsVersionHeader (mv_model_kind v))]
      else complain (versioned_kind (mv_model_kind v) \<and> \<not> mv_has_change_kind v)
        (ModelDiag (version_context fqn (mv_version v)) (NeedsChangeKind (mv_model_kind v))))"

definition key_problems :: "string \<Rightarrow> model_version \<Rightarrow> model_diag list" where
  "key_problems ctx v =
     (let key_fields = filter fd_is_key (mv_fields v) in
      if keyed_kind (mv_model_kind v) then complain (key_fields = []) (ModelDiag ctx (NeedsKey (mv_model_kind v)))
      else complain (key_fields \<noteq> []) (ModelDiag ctx (UnexpectedKey (mv_model_kind v))))"

definition field_problems :: "string \<Rightarrow> field_def \<Rightarrow> field_diag list" where
  "field_problems ctx f =
     validate_field_annotations ctx [fd_name f] (fd_annotations f) (Some (fd_type f))
     @ validate_default_value_range ctx f
     @ validate_fixed_binary_length ctx f
     @ validate_value_constraints ctx (fd_name f) (fd_constraints f) (Some (fd_type f))
     @ validate_enum_members ctx (fd_name f) (fd_type f)"

definition version_problems :: "string \<Rightarrow> model_version \<Rightarrow> model_diag list" where
  "version_problems fqn v =
     (let ctx = version_context fqn (mv_version v) in
      header_problems fqn v
      @ map (\<lambda>p. ModelDiag ctx (DeclarationWire p)) (validate_declaration_wire_annotations (mv_annotations v))
      @ key_problems ctx v
      @ map FieldDiag (concat (map (field_problems ctx) (mv_fields v))))"

definition change_kind_problems :: "string \<Rightarrow> model_version \<times> model_version \<Rightarrow> model_diag list" where
  "change_kind_problems fqn pair =
     (case pair of (previous, current) \<Rightarrow>
        case validate_change_kind fqn previous current of
          None \<Rightarrow> [] | Some m \<Rightarrow> [ModelDiag (version_context fqn (mv_version current)) (ChangeKindProblem m)])"

definition model_problems :: "string \<Rightarrow> string \<times> model_version list \<Rightarrow> model_diag list" where
  "model_problems domain entry =
     (case entry of (name, vs) \<Rightarrow>
        let fqn = domain @ ''.'' @ name in
        ascending_problems fqn vs
        @ concat (map (version_problems fqn) vs)
        @ concat (map (change_kind_problems fqn) (adjacent vs)))"

definition validate_models :: "string \<Rightarrow> (string, model_version list) dict \<Rightarrow> model_diag list" where
  "validate_models domain models = concat (map (model_problems domain) models)"

section \<open>Aggregation\<close>

definition grouping_functions :: "string list" where
  "grouping_functions = [''count'', ''sum'', ''min'', ''max'', ''avg'']"

text \<open>\<^verbatim>\<open>\\w\<close> of a text with characters up to 255\<close>

definition is_word_char :: "char \<Rightarrow> bool" where
  "is_word_char c \<longleftrightarrow>
     is_word c \<or> code c \<in> {170, 178, 179, 181, 185, 186, 188, 189, 190}
     \<or> (192 \<le> code c \<and> code c \<noteq> 215 \<and> code c \<noteq> 247)"

text \<open>A match of \<^verbatim>\<open>_AGGREGATE_PATTERN\<close> at the start of the text, past the boundary: the name and what follows
  the parenthesis.\<close>

definition aggregate_here :: "string \<Rightarrow> (string \<times> string) option" where
  "aggregate_here s =
     (case List.find (\<lambda>fn. lower (take (length fn) s) = fn \<and>
              (case dropWhile is_space (drop (length fn) s) of [] \<Rightarrow> False | c # _ \<Rightarrow> c = CHR ''(''))
            grouping_functions of
        None \<Rightarrow> None
      | Some fn \<Rightarrow>
          Some (take (length fn) s, tl (dropWhile is_space (drop (length fn) s))))"

fun find_aggregate :: "bool \<Rightarrow> string \<Rightarrow> (string \<times> string) option" where
  "find_aggregate boundary [] = None"
| "find_aggregate boundary (c # s) =
     (case (if boundary then aggregate_here (c # s) else None) of
        Some m \<Rightarrow> Some m
      | None \<Rightarrow> find_aggregate (\<not> is_word_char c) s)"

text \<open>A comma at the outermost depth before the closing parenthesis\<close>

fun scalar_arguments :: "nat \<Rightarrow> string \<Rightarrow> bool" where
  "scalar_arguments depth [] = False"
| "scalar_arguments depth (c # s) =
     (if c = CHR ''('' then scalar_arguments (depth + 1) s
      else if c = CHR '')'' then (if depth = 1 then False else scalar_arguments (depth - 1) s)
      else if c = CHR '','' \<and> depth = 1 then True
      else scalar_arguments depth s)"

definition is_scalar_max_min :: "string \<times> string \<Rightarrow> bool" where
  "is_scalar_max_min m \<longleftrightarrow> lower (fst m) \<in> {''max'', ''min''} \<and> scalar_arguments 1 (snd m)"

definition aggregate_problems :: "string \<Rightarrow> projection_version \<Rightarrow> projection_field \<Rightarrow> field_diag list" where
  "aggregate_problems ctx pv f =
     (case pf_mapping f of
        DirectMapping _ _ \<Rightarrow> []
      | ComputedMapping e \<Rightarrow>
          (case find_aggregate True e of
             None \<Rightarrow> []
           | Some m \<Rightarrow>
               complain (pv_group_by pv = [] \<and> \<not> is_scalar_max_min m)
                 (ctx, pf_name f, UngroupedAggregate (fst m))))"

section \<open>The type of a projection field\<close>

text \<open>\<^verbatim>\<open>_resolve_field_type_from_version\<close>: the inner option is its result, the outer one says whether it returns.\<close>

partial_function (option) version_field_type ::
    "signature_fn \<Rightarrow> mdl_file \<Rightarrow> declaration_value \<Rightarrow> string \<Rightarrow> field_type option option" where
  "version_field_type sig mdl decl prop =
     (case decl of
        DModel m \<Rightarrow> Some (map_option fd_type (List.find (\<lambda>f. fd_name f = prop) (mv_fields m)))
      | DProjection p \<Rightarrow>
          (case List.find (\<lambda>g. pf_name g = prop) (pv_fields p) of
             None \<Rightarrow> Some None
           | Some g \<Rightarrow>
               (case pf_mapping g of
                  ComputedMapping _ \<Rightarrow> Some None
                | DirectMapping _ source_prop \<Rightarrow>
                    if CHR ''.'' \<notin> set (sr_model (pv_source p)) then Some None
                    else (case resolve_model_ref sig mdl (sr_model (pv_source p)) (SpecSel (sr_version (pv_source p))) of
                        Inl _ \<Rightarrow> Some None
                      | Inr r \<Rightarrow> version_field_type sig mdl (rd_declaration r) source_prop)))
      | _ \<Rightarrow> Some None)"

lemmas version_field_type_code [code] = version_field_type.simps

text \<open>The model and version that an alias of the projection stands for\<close>

definition aliased_source :: "projection_version \<Rightarrow> string \<Rightarrow> (string \<times> version_spec) option" where
  "aliased_source pv al =
     (if al = sr_alias (pv_source pv) then Some (sr_model (pv_source pv), sr_version (pv_source pv))
      else map_option (\<lambda>j. (jr_model j, jr_version j)) (List.find (\<lambda>j. jr_alias j = al) (pv_joins pv)))"

definition resolve_projection_field_type ::
    "signature_fn \<Rightarrow> mdl_file \<Rightarrow> projection_version \<Rightarrow> projection_field \<Rightarrow> field_type option option" where
  "resolve_projection_field_type sig mdl pv f =
     (case pf_mapping f of
        ComputedMapping _ \<Rightarrow> Some None
      | DirectMapping al prop \<Rightarrow>
          (case aliased_source pv al of
             None \<Rightarrow> Some None
           | Some (ref, ver) \<Rightarrow>
               if CHR ''.'' \<notin> set ref then Some None
               else (case resolve_model_ref sig mdl ref (SpecSel ver) of
                   Inl _ \<Rightarrow> Some None
                 | Inr r \<Rightarrow> version_field_type sig mdl (rd_declaration r) prop)))"

section \<open>Projections\<close>

definition projection_field_problems :: "string \<Rightarrow> projection_field \<Rightarrow> field_type option \<Rightarrow> field_diag list" where
  "projection_field_problems ctx f t =
     validate_field_annotations ctx [pf_name f] (pf_annotations f) t
     @ validate_value_constraints ctx (pf_name f) (pf_constraints f) t
     @ (case t of None \<Rightarrow> [] | Some ft \<Rightarrow> validate_enum_members ctx (pf_name f) ft)"

definition projection_version_problems ::
    "signature_fn \<Rightarrow> mdl_file \<Rightarrow> string \<Rightarrow> projection_version \<Rightarrow> model_diag list option" where
  "projection_version_problems sig mdl fqn pv =
     (let ctx = version_context fqn (pv_version pv) in
      Option.bind (omap (\<lambda>f. map_option (projection_field_problems ctx f)
          (resolve_projection_field_type sig mdl pv f)) (pv_fields pv)) (\<lambda>pss.
      Some (map (\<lambda>p. ModelDiag ctx (DeclarationWire p)) (validate_declaration_wire_annotations (pv_annotations pv))
        @ map FieldDiag (concat (map (aggregate_problems ctx pv) (pv_fields pv)))
        @ map FieldDiag (concat pss))))"

definition validate_projections ::
    "signature_fn \<Rightarrow> mdl_file \<Rightarrow> string \<Rightarrow> (string, projection_version list) dict \<Rightarrow> model_diag list option" where
  "validate_projections sig mdl domain projections =
     map_option concat (omap (\<lambda>(name, pvs).
       map_option concat (omap (projection_version_problems sig mdl (domain @ ''.'' @ name)) pvs)) projections)"

section \<open>What an accepted field is\<close>

fun fits_kind :: "string \<Rightarrow> field_type option \<Rightarrow> constraint_value \<Rightarrow> bool" where
  "fits_kind kind t v \<longleftrightarrow>
     (if kind \<in> {''min'', ''max''} then numeric_type t \<and> numeric_value v
      else if kind \<in> {''min_length'', ''max_length''} then string_type t \<and> count_value v
      else if kind = ''pattern'' then string_type t \<and> text_value v
      else if kind = ''format'' then text_value v
      else if kind \<in> {''min_items'', ''max_items''} then array_type t \<and> count_value v
      else if kind = ''unique_items'' then array_type t \<and> boolean_value v
      else False)"

lemma constraint_problems_Nil: "constraint_problems t c = [] \<longleftrightarrow> fits_kind (vc_kind c) t (vc_value c)"
  by (simp add: constraint_problems_def known_constraints_def Let_def)

text \<open>The fields of inline objects at any depth of objects\<close>

fun object_fields :: "field_type \<Rightarrow> field_def list"
  and fields_of_field :: "field_def \<Rightarrow> field_def list" where
  "object_fields (ObjectType fs) = fs @ concat (map fields_of_field fs)"
| "object_fields _ = []"
| "fields_of_field (FieldDef n t opt nul def anns cs) = object_fields t"

text \<open>
  What a wire hint of a field may say. JSON: a spelling of an enum that can be read back, or the string encoding of
  an integer, a decimal or an enum, with a spelling for an enum only; Rust: a type for an integer or a time, a
  known case, and overrides of members of the enum; ClickHouse: a known encoding. A type that is not known is
  not held against a hint.
\<close>

definition json_hint_fits :: "wire_target_hint \<Rightarrow> field_type option \<Rightarrow> bool" where
  "json_hint_fits hint t \<longleftrightarrow>
     wh_field_case hint = None \<and>
     (case (wh_encoding hint, t) of
        (None, Some (EnumType vs)) \<Rightarrow> (wh_case hint \<noteq> None \<or> wh_overrides hint \<noteq> []) \<and> readable hint vs
      | (None, _) \<Rightarrow> False
      | (Some enc, Some (EnumType vs)) \<Rightarrow> enc = ''string'' \<and> wh_type hint = None
      | (Some enc, _) \<Rightarrow> enc = ''string'' \<and> wh_type hint = None \<and> wh_case hint = None \<and> wh_overrides hint = []
          \<and> (case t of
               None \<Rightarrow> True
             | Some (PrimitiveType k _) \<Rightarrow> k = KInt
             | Some (DecimalType _ _) \<Rightarrow> True
             | _ \<Rightarrow> False))"

definition rust_hint_fits :: "wire_target_hint \<Rightarrow> field_type option \<Rightarrow> bool" where
  "rust_hint_fits hint t \<longleftrightarrow>
     wh_encoding hint = None
     \<and> (wh_type hint = None \<or>
         (case t of
            None \<Rightarrow> True
          | Some (PrimitiveType k _) \<Rightarrow> k \<in> {KInt, KDate, KTime, KTimestamp, KDuration}
          | _ \<Rightarrow> False))
     \<and> (case wh_case hint of
          None \<Rightarrow> True
        | Some cs \<Rightarrow> cs \<in> {''snake_case'', ''SCREAMING_SNAKE_CASE'', ''camelCase'', ''PascalCase'', ''kebab-case'',
            ''lowercase'', ''UPPERCASE''})
     \<and> (wh_overrides hint = [] \<or>
         (case t of Some (EnumType vs) \<Rightarrow> fst ` set (wh_overrides hint) \<subseteq> set vs | _ \<Rightarrow> False))"

definition hint_fits :: "field_type option \<Rightarrow> string \<times> wire_target_hint \<Rightarrow> bool" where
  "hint_fits t entry \<longleftrightarrow>
     (case entry of (target, hint) \<Rightarrow>
        target = ''json'' \<and> json_hint_fits hint t
        \<or> target = ''rust'' \<and> rust_hint_fits hint t
        \<or> target = ''clickhouse'' \<and> wh_encoding hint \<in> Some ` {''uuid'', ''string'', ''u8''})"

fun annotation_fits :: "field_type option \<Rightarrow> annotation \<Rightarrow> bool" where
  "annotation_fits t (AnnClassification level) \<longleftrightarrow> (\<exists>l. level = level_str l)"
| "annotation_fits t (AnnWire targets) \<longleftrightarrow> list_all (hint_fits t) targets"
| "annotation_fits t _ \<longleftrightarrow> True"

text \<open>No two hints of one target disagree, and each annotation fits by itself.\<close>

definition annotations_fit :: "annotation list \<Rightarrow> field_type option \<Rightarrow> bool" where
  "annotations_fit anns t \<longleftrightarrow> consistent (annotation_hints anns) \<and> list_all (annotation_fits t) anns"

lemma json_hint_Nil: "validate_json_wire_hint hint t = [] \<longleftrightarrow> json_hint_fits hint t"
proof (cases "\<exists>vs. t = Some (EnumType vs)")
  case True
  then obtain vs where t: "t = Some (EnumType vs)" by blast
  show ?thesis unfolding t json_enum_hint by (simp add: json_hint_fits_def split: option.split)
next
  case False
  then have none: "enum_values_of t = None" using False by (cases t rule: enum_values_of.cases) auto
  show ?thesis
  proof (cases "wh_encoding hint")
    case None
    then show ?thesis using False none
      by (auto simp: validate_json_wire_hint_def json_hint_fits_def split: option.splits field_type.splits)
  next
    case (Some enc)
    have encodable: "json_encodable t \<longleftrightarrow> (case t of None \<Rightarrow> True | Some (PrimitiveType k _) \<Rightarrow> k = KInt
        | Some (DecimalType _ _) \<Rightarrow> True | _ \<Rightarrow> False)"
      using False by (cases t rule: json_encodable.cases) auto
    have "json_hint_fits hint t \<longleftrightarrow> wh_field_case hint = None \<and> enc = ''string'' \<and> wh_type hint = None
        \<and> wh_case hint = None \<and> wh_overrides hint = [] \<and> json_encodable t"
      using False Some unfolding json_hint_fits_def encodable by (auto split: option.split field_type.split)
    then show ?thesis using Some none
      by (auto simp: validate_json_wire_hint_def has_spelling_def valid_json_encodings_def)
  qed
qed

lemma rust_hint_Nil: "validate_rust_wire_hint hint t = [] \<longleftrightarrow> rust_hint_fits hint t"
proof -
  have type: "rust_retypable t \<longleftrightarrow> (case t of None \<Rightarrow> True
      | Some (PrimitiveType k _) \<Rightarrow> k \<in> {KInt, KDate, KTime, KTimestamp, KDuration} | _ \<Rightarrow> False)"
    by (cases t rule: rust_retypable.cases) auto
  have members: "(case enum_values_of t of
             None \<Rightarrow> [RustOverridesOnNonEnum]
           | Some vs \<Rightarrow> let invalid = sorted_diff (dict_keys (wh_overrides hint)) vs
               in complain (invalid \<noteq> []) (RustUnknownMembers invalid)) = []
      \<longleftrightarrow> (case t of Some (EnumType vs) \<Rightarrow> fst ` set (wh_overrides hint) \<subseteq> set vs | _ \<Rightarrow> False)"
    by (cases t rule: enum_values_of.cases) (auto simp: Let_def)
  show ?thesis
    unfolding validate_rust_wire_hint_def rust_hint_fits_def type [symmetric] valid_rust_case_values_def
    using members by (auto split: option.split)
qed

lemma annotation_Nil: "annotation_problems t a = [] \<longleftrightarrow> annotation_fits t a"
proof -
  have hint: "validate_wire_hint t entry = [] \<longleftrightarrow> hint_fits t entry" for entry
    by (cases entry)
      (auto simp: validate_wire_hint_def hint_fits_def valid_wire_targets_def json_hint_Nil rust_hint_Nil
        validate_clickhouse_wire_hint_def valid_clickhouse_encodings_def split: option.splits)
  have "level \<in> level_str ` set all_levels \<longleftrightarrow> (\<exists>l. level = level_str l)" for level
  proof -
    have "l \<in> set all_levels" for l by (cases l) (simp_all add: all_levels_def)
    then show ?thesis by blast
  qed
  then show ?thesis
    by (cases a) (auto simp: validate_classification_level_def validate_wire_hints_def hint list_all_iff)
qed

text \<open>The overrides of each hint are a dictionary.\<close>

definition dict_hints :: "annotation list \<Rightarrow> bool" where
  "dict_hints anns \<longleftrightarrow> list_all (\<lambda>(t, h). hint_dict h) (annotation_hints anns)"

lemma conflict_free: "dict_hints anns \<Longrightarrow> \<not> isl (wire_targets_from_annotations anns) \<longleftrightarrow> consistent (annotation_hints anns)"
  using wire_merge [of anns] by (force simp: dict_hints_def list_all_iff split: sum.splits)

abbreviation own_annotations_fit :: "field_def \<Rightarrow> bool" where
  "own_annotations_fit f \<equiv> annotations_fit (fd_annotations f) (Some (fd_type f))"

abbreviation own_dict_hints :: "field_def \<Rightarrow> bool" where
  "own_dict_hints f \<equiv> dict_hints (fd_annotations f)"

lemma annotated_Nil:
  "dict_hints anns \<Longrightarrow> annotated fqn path anns t below = [] \<longleftrightarrow> annotations_fit anns t \<and> below = []"
  using conflict_free [of anns]
  by (auto simp: annotated_def annotations_fit_def Let_def list_all_iff annotation_Nil split: sum.splits)

lemma fields_below_Nil:
  "list_all own_dict_hints (object_fields t) \<Longrightarrow>
     fields_below fqn path t = [] \<longleftrightarrow> list_all own_annotations_fit (object_fields t)"
  "own_dict_hints f \<Longrightarrow> list_all own_dict_hints (fields_of_field f) \<Longrightarrow>
     field_below fqn path f = [] \<longleftrightarrow> own_annotations_fit f \<and> list_all own_annotations_fit (fields_of_field f)"
  by (induction fqn path t and fqn path f rule: fields_below_field_below.induct)
    (auto simp: annotated_Nil list_all_iff)

lemma field_annotations_Nil:
  "dict_hints anns \<Longrightarrow> list_all own_dict_hints (object_fields t) \<Longrightarrow>
   validate_field_annotations fqn path anns (Some t) = [] \<longleftrightarrow>
     annotations_fit anns (Some t) \<and> list_all own_annotations_fit (object_fields t)"
  by (simp add: validate_field_annotations_def annotated_Nil fields_below_Nil)

fun length_fits :: "field_type \<Rightarrow> bool" where
  "length_fits (FixedBinaryType n) \<longleftrightarrow> 1 \<le> n \<and> n \<le> 4096"
| "length_fits _ = True"

definition field_accepted :: "field_def \<Rightarrow> bool" where
  "field_accepted f \<longleftrightarrow>
     own_annotations_fit f \<and> list_all own_annotations_fit (object_fields (fd_type f))
     \<and> default_fits f \<and> length_fits (fd_type f)
     \<and> list_all (\<lambda>c. fits_kind (vc_kind c) (Some (fd_type f)) (vc_value c)) (fd_constraints f)
     \<and> list_all (\<lambda>vs. vs \<noteq> [] \<and> distinct vs) (enums_within (fd_type f))"

definition field_formed :: "field_def \<Rightarrow> bool" where
  "field_formed f \<longleftrightarrow> own_dict_hints f \<and> list_all own_dict_hints (object_fields (fd_type f))"

lemma field_problems_Nil: "field_formed f \<Longrightarrow> field_problems ctx f = [] \<longleftrightarrow> field_accepted f"
  by (auto simp: field_problems_def field_formed_def field_accepted_def field_annotations_Nil default_range
      validate_fixed_binary_length_def validate_value_constraints_def constraint_problems_Nil
      enum_members_accepted list_all_iff simp del: fits_kind.simps split: field_type.split)

section \<open>What an accepted model is\<close>

lemma adjacent_ascending: "list_all (\<lambda>(p, c). p < c) (adjacent xs) \<longleftrightarrow> sorted_wrt (<) (xs :: int list)"
proof (induction xs)
  case (Cons x xs)
  then show ?case by (cases xs) (fastforce simp: adjacent_def)+
qed (simp add: adjacent_def)

text \<open>A hint of a declaration names a case for the JSON names of the fields, and says nothing else.\<close>

definition declaration_hint_fits :: "string \<times> wire_target_hint \<Rightarrow> bool" where
  "declaration_hint_fits entry \<longleftrightarrow>
     (case entry of (target, hint) \<Rightarrow>
        target = ''json'' \<and> wh_encoding hint = None \<and> wh_type hint = None \<and> wh_case hint = None
        \<and> wh_overrides hint = []
        \<and> wh_field_case hint \<in> Some ` {''snake_case'', ''SCREAMING_SNAKE_CASE'', ''camelCase'', ''PascalCase''})"

definition declaration_annotations_fit :: "annotation list \<Rightarrow> bool" where
  "declaration_annotations_fit anns \<longleftrightarrow>
     consistent (annotation_hints anns) \<and> list_all declaration_hint_fits (annotation_hints anns)"

lemma declaration_wire_Nil:
  assumes "dict_hints anns"
  shows "validate_declaration_wire_annotations anns = [] \<longleftrightarrow> declaration_annotations_fit anns"
proof -
  have "declaration_hint_problem entry = [] \<longleftrightarrow> declaration_hint_fits entry" for entry
    by (cases entry)
      (auto simp: declaration_hint_problem_def declaration_hint_fits_def valid_wire_targets_def has_spelling_def
        valid_ts_field_case_values_def split: option.split)
  then show ?thesis using conflict_free [OF assms]
    by (auto simp: validate_declaration_wire_annotations_def declaration_annotations_fit_def list_all_iff split: sum.splits)
qed

definition version_accepted :: "model_version \<Rightarrow> bool" where
  "version_accepted v \<longleftrightarrow>
     (if versioned_kind (mv_model_kind v) then mv_has_version_header v \<and> mv_has_change_kind v else True)
     \<and> (keyed_kind (mv_model_kind v) \<longleftrightarrow> list_ex fd_is_key (mv_fields v))
     \<and> declaration_annotations_fit (mv_annotations v)
     \<and> list_all field_accepted (mv_fields v)"

text \<open>What the parser sees to: distinct field names, and hints whose overrides are dictionaries.\<close>

definition version_formed :: "model_version \<Rightarrow> bool" where
  "version_formed v \<longleftrightarrow> unique_fields v \<and> dict_hints (mv_annotations v) \<and> list_all field_formed (mv_fields v)"

lemma version_problems_Nil: "version_formed v \<Longrightarrow> version_problems fqn v = [] \<longleftrightarrow> version_accepted v"
  by (auto simp: version_problems_def version_formed_def version_accepted_def header_problems_def key_problems_def Let_def
      field_problems_Nil declaration_wire_Nil list_all_iff list_ex_iff filter_empty_conv)

text \<open>The contract of theory \<^verbatim>\<open>Diff_Contract\<close> is kept by additive versions and by no other.\<close>

definition declared_kind_right :: "model_version \<times> model_version \<Rightarrow> bool" where
  "declared_kind_right pair \<longleftrightarrow>
     (mv_change_kind (snd pair) = Additive \<longleftrightarrow>
        no_renames (fst pair) (snd pair) \<and> model_compatible (fst pair) (snd pair))"

lemma change_kind_problems_Nil:
  assumes "unique_fields (fst pair)" and "unique_fields (snd pair)"
  shows "change_kind_problems fqn pair = [] \<longleftrightarrow> declared_kind_right pair"
  using incompatible_changes_Nil [OF assms(2), of "fst pair"] model_compatible_iff [OF assms]
  by (cases "mv_change_kind (snd pair)")
    (auto simp: change_kind_problems_def declared_kind_right_def validate_change_kind_def Let_def case_prod_beta)

definition model_accepted :: "model_version list \<Rightarrow> bool" where
  "model_accepted vs \<longleftrightarrow>
     sorted_wrt (<) (map mv_version vs) \<and> list_all version_accepted vs
     \<and> list_all declared_kind_right (adjacent vs)"

lemma ascending_problems_Nil: "ascending_problems fqn vs = [] \<longleftrightarrow> sorted_wrt (<) (map mv_version vs)"
  unfolding adjacent_ascending [symmetric] ascending_problems_def
  by (auto simp: list_all_iff not_le split: if_splits)

lemma adjacent_members: "pair \<in> set (adjacent xs) \<Longrightarrow> fst pair \<in> set xs \<and> snd pair \<in> set xs"
  by (cases pair; cases xs) (auto simp: adjacent_def dest: set_zip_leftD set_zip_rightD)

lemma model_problems_Nil:
  assumes "list_all version_formed (snd entry)"
  shows "model_problems domain entry = [] \<longleftrightarrow> model_accepted (snd entry)"
proof -
  have formed: "version_formed v" if "v \<in> set (snd entry)" for v using assms that by (simp add: list_all_iff)
  then have kinds: "change_kind_problems fqn pair = [] \<longleftrightarrow> declared_kind_right pair"
    if "pair \<in> set (adjacent (snd entry))" for fqn pair
    using adjacent_members [OF that] by (intro change_kind_problems_Nil) (simp_all add: version_formed_def)
  show ?thesis
    using formed kinds
    by (auto simp: model_problems_def model_accepted_def Let_def list_all_iff case_prod_beta
        ascending_problems_Nil version_problems_Nil)
qed


text \<open>A model whose second version adds a required field and says that it is additive.\<close>

definition narrowed_order :: "string \<times> model_version list" where
  "narrowed_order =
     (''Order'',
      [version_of [field_n ''id'' [AnnKey] False],
       (version_of [field_n ''id'' [AnnKey] False, field_n ''note'' [] False])\<lparr>mv_version := 2\<rparr>])"


text \<open>A default out of range and a bad length pass inside an inline object.\<close>

lemma inner_fields_unchecked:
  "field_problems ctx (FieldDef ''f'' (ObjectType [FieldDef ''size'' (PrimitiveType KU8 4) False False (Some ''300'') [] [],
     FieldDef ''raw'' (FixedBinaryType 0) False False None [] [\<lparr>vc_kind = ''no'', vc_value = CvInt 1\<rparr>]])
     False False None [] []) = []"
  by code_simp

section \<open>Two gaps\<close>

text \<open>Only the first aggregate of an expression is looked at: behind a scalar \<^verbatim>\<open>max\<close> a sum goes unseen.\<close>

lemma aggregate_behind_scalar:
  "aggregate_problems ctx good_projection
     \<lparr>pf_name = ''x'', pf_mapping = ComputedMapping ''max(s.a, s.b) + sum(s.c)'', pf_annotations = [],
      pf_constraints = []\<rparr> = []"
  "aggregate_problems ctx good_projection
     \<lparr>pf_name = ''x'', pf_mapping = ComputedMapping ''sum(s.c)'', pf_annotations = [],
      pf_constraints = []\<rparr> = [(ctx, ''x'', UngroupedAggregate ''sum'')]"
proof -
  have "find_aggregate True ''max(s.a, s.b) + sum(s.c)'' = Some (''max'', ''s.a, s.b) + sum(s.c)'')"
    "is_scalar_max_min (''max'', ''s.a, s.b) + sum(s.c)'')"
    "find_aggregate True ''sum(s.c)'' = Some (''sum'', ''s.c)'')"
    "\<not> is_scalar_max_min (''sum'', ''s.c)'')"
    by code_simp+
  then show
    "aggregate_problems ctx good_projection
       \<lparr>pf_name = ''x'', pf_mapping = ComputedMapping ''max(s.a, s.b) + sum(s.c)'', pf_annotations = [],
        pf_constraints = []\<rparr> = []"
    "aggregate_problems ctx good_projection
       \<lparr>pf_name = ''x'', pf_mapping = ComputedMapping ''sum(s.c)'', pf_annotations = [],
        pf_constraints = []\<rparr> = [(ctx, ''x'', UngroupedAggregate ''sum'')]"
    by (simp_all add: aggregate_problems_def good_projection_def plain_projection_def)
qed

text \<open>
  A field that an intermediate projection takes from a join is looked up in its source all the same: here
  it gets the type of a field of that name in the wrong model. The lookup of theory \<^verbatim>\<open>Dependency\<close>
  follows the alias.
\<close>

definition model_with :: "field_type \<Rightarrow> model_version" where
  "model_with t = (sample_model 1 Additive)\<lparr>mv_fields := [FieldDef ''y'' t False False None [] []]\<rparr>"

definition joining :: projection_version where
  "joining = (plain_projection (VersionExact 1) ''shop.A'' (DirectMapping ''b'' ''y''))
     \<lparr>pv_joins := [\<lparr>jr_model = ''shop.B'', jr_version = VersionExact 1, jr_alias = ''b'', jr_on = [],
        jr_join_kind = ''inner'', jr_cardinality = None, jr_annotations = []\<rparr>]\<rparr>"

definition reading :: projection_version where
  "reading = plain_projection (VersionExact 1) ''shop.P'' (DirectMapping ''s'' ''x'')"

definition joined_workspace :: mdl_file where
  "joined_workspace = sample_workspace\<lparr>mf_domains := [sample_shop\<lparr>
     dm_models := [(''A'', [model_with (PrimitiveType KString 0)]), (''B'', [model_with (PrimitiveType KInt 0)])],
     dm_projections := [(''P'', [joining]), (''Q'', [reading])]\<rparr>]\<rparr>"

lemmas projection_field_type_code [code] = projection_field_type.simps

lemma nested_join_mistyped:
  "resolve_projection_field_type no_signature joined_workspace reading (hd (pv_fields reading))
     = Some (Some (PrimitiveType KString 0))"
  "projection_field_type no_signature joined_workspace reading (hd (pv_fields reading))
     = Some (Some (PrimitiveType KInt 0), Some False)"
  by code_simp+

section \<open>When the check of projections returns\<close>

lemma omap_returns: "(\<And>x. x \<in> set xs \<Longrightarrow> f x \<noteq> None) \<Longrightarrow> omap f xs \<noteq> None"
  by (induction xs) (auto simp: Option.bind_eq_None_conv)

text \<open>The projection that the source of a projection resolves to\<close>

definition reads_projection :: "signature_fn \<Rightarrow> mdl_file \<Rightarrow> (projection_version \<times> projection_version) set" where
  "reads_projection sig mdl =
     {(q, p). \<exists>r. resolve_model_ref sig mdl (sr_model (pv_source p)) (SpecSel (sr_version (pv_source p))) = Inr r
        \<and> rd_declaration r = DProjection q}"

lemma version_field_type_projection:
  assumes "wf (reads_projection sig mdl)"
  shows "\<exists>t. version_field_type sig mdl (DProjection p) n = Some t"
  using assms
proof (induction p arbitrary: n rule: wf_induct_rule)
  case (less p)
  have "\<exists>t. version_field_type sig mdl (rd_declaration r) q = Some t"
    if "resolve_model_ref sig mdl (sr_model (pv_source p)) (SpecSel (sr_version (pv_source p))) = Inr r" for r q
  proof (cases "rd_declaration r")
    case (DProjection p')
    with that have "(p', p) \<in> reads_projection sig mdl" by (auto simp: reads_projection_def)
    from less [OF this] DProjection show ?thesis by simp
  qed (simp_all add: version_field_type.simps)
  then show ?case
    by (subst version_field_type.simps) (auto split: option.split projection_mapping.split sum.split)
qed

lemma version_field_type_returns:
  assumes "wf (reads_projection sig mdl)"
  shows "version_field_type sig mdl decl prop \<noteq> None"
  using version_field_type_projection [OF assms]
  by (cases decl) (auto simp: version_field_type.simps [of _ _ "DModel _"]
      version_field_type.simps [of _ _ "DSemantic _"] version_field_type.simps [of _ _ "DEnum _"])

text \<open>
  Projections are checked in the end: where the sources of projections do not lead round in a
  circle, the check of the projections of every domain returns its diagnostics.
\<close>

theorem projections_checked:
  assumes "wf (reads_projection sig mdl)"
  shows "\<exists>ds. validate_projections sig mdl domain projections = Some ds"
proof -
  have field: "resolve_projection_field_type sig mdl pv f \<noteq> None" for pv f
    using version_field_type_returns [OF assms]
    by (auto simp: resolve_projection_field_type_def split: option.split projection_mapping.split sum.split)
  have version: "projection_version_problems sig mdl fqn pv \<noteq> None" for fqn pv
    using field by (simp add: projection_version_problems_def Let_def Option.bind_eq_None_conv omap_returns del: not_None_eq)
  then have "omap (projection_version_problems sig mdl fqn) pvs \<noteq> None" for fqn pvs
    by (rule omap_returns)
  then have "validate_projections sig mdl domain projections \<noteq> None"
    unfolding validate_projections_def option.map_disc_iff
    by (intro omap_returns) (simp add: option.map_disc_iff case_prod_beta del: not_None_eq)
  then show ?thesis by blast
qed

text \<open>The projection of the sample workspace reads a model only.\<close>

lemma good_reads: "wf (reads_projection no_signature (projection_workspace good_projection))"
proof (rule wf_subset [OF wf_measure])
  let ?mdl = "projection_workspace good_projection"
  have candidates: "cd_declaration ` set (declaration_candidates ?mdl) =
      {DModel (sample_model 1 Additive), DModel (sample_model 2 Additive), DModel (sample_model 3 Breaking),
       DProjection good_projection, DSemantic sample_money}"
    by (auto simp: declaration_candidates_def domain_candidates_def projection_workspace_def sample_shop_def
        sample_workspace_def mk_candidate_def)
  have good: "resolve_model_ref no_signature ?mdl (sr_model (pv_source good_projection))
      (SpecSel (sr_version (pv_source good_projection)))
      = Inr (resolved_of (mk_candidate sample_shop ''Order'' (DModel (sample_model 2 Additive))))"
    by code_simp
  show "reads_projection no_signature ?mdl \<subseteq> measure (\<lambda>p. if p = good_projection then 0 else 1)"
  proof (rule subrelI)
    fix q p
    assume "(q, p) \<in> reads_projection no_signature ?mdl"
    then obtain r where r: "resolve_model_ref no_signature ?mdl (sr_model (pv_source p))
        (SpecSel (sr_version (pv_source p))) = Inr r" "rd_declaration r = DProjection q"
      by (auto simp: reads_projection_def)
    from r(1) obtain c where "c \<in> set (declaration_candidates ?mdl)" "r = resolved_of c"
      by (rule resolve_model_ref_sound) (auto simp: newest_match_def model_candidates_def)
    moreover from this(1) have "cd_declaration c \<in> cd_declaration ` set (declaration_candidates ?mdl)" by simp
    ultimately have "q = good_projection" using r(2) unfolding candidates by auto
    moreover have "p \<noteq> good_projection"
      using r good by (auto simp: resolved_of_def mk_candidate_def)
    ultimately show "(q, p) \<in> measure (\<lambda>p. if p = good_projection then 0 else 1)" by simp
  qed
qed

lemma projections_checked_witness:
  "\<exists>ds. validate_projections no_signature (projection_workspace good_projection) ''shop''
     [(''P'', [good_projection])] = Some ds"
  by (rule projections_checked [OF good_reads])

end
