(* ===== verification/Semantic_Types.thy ===== *)
theory Semantic_Types
  imports Semantic_Models Py_Equal Workspace_Types
begin

text \<open>
  The checks of semantic types in \<^verbatim>\<open>cli/src/modelable/validation/semantic.py\<close>: each declaration on its own,
  the evolution of an enum from version to version, and the chain of names below a type that is
  declared as another one. The chain is accepted exactly when it ends.
\<close>

section \<open>Equality of dumped types\<close>

definition same_dump :: "field_type \<Rightarrow> field_type \<Rightarrow> bool" where
  "same_dump s t = py_equal (type_json s) (type_json t)"

section \<open>Declarations\<close>

datatype type_problem =
    TypeTwice int
  | TypeVersionNotPositive
  | TypeKindWithoutVersion
  | TypeNamesModel
  | TypeNamesProjection
  | UnsupportedUnderlying field_type
  | TypeEmptyEnum
  | TypeDuplicateMember string
  | AdditiveRemovesValues int "string list"
  | AdditiveChangesType int
  | UnknownUnderlying lookup_error
  | UnderlyingCycle "string list"
  | ChainTooDeep

type_synonym type_diag = "string \<times> string \<times> type_problem"

fun supported_underlying :: "field_type \<Rightarrow> bool" where
  "supported_underlying (PrimitiveType _ _) = True"
| "supported_underlying (DecimalType _ _) = True"
| "supported_underlying (FixedBinaryType _) = True"
| "supported_underlying (EnumType _) = True"
| "supported_underlying (NamedType _) = True"
| "supported_underlying (EnumRefType _ _) = True"
| "supported_underlying _ = False"

definition same_declaration :: "semantic_type_decl \<Rightarrow> semantic_type_decl \<Rightarrow> bool" where
  "same_declaration s t \<longleftrightarrow> st_name s = st_name t \<and> st_version s = st_version t"

definition type_decl_problems :: "domain_def \<Rightarrow> semantic_type_decl \<Rightarrow> type_problem list" where
  "type_decl_problems d s =
     complain (1 < length (filter (same_declaration s) (dm_semantic_types d))) (TypeTwice (st_version s))
     @ complain (st_has_version_header s \<and> st_version s < 1) TypeVersionNotPositive
     @ complain (st_has_change_kind s \<and> \<not> st_has_version_header s) TypeKindWithoutVersion
     @ complain (st_name s \<in> set (dict_keys (dm_models d))) TypeNamesModel
     @ complain (st_name s \<in> set (dict_keys (dm_projections d))) TypeNamesProjection
     @ complain (\<not> supported_underlying (st_underlying s)) (UnsupportedUnderlying (st_underlying s))
     @ (case st_underlying s of
          EnumType vs \<Rightarrow>
            complain (vs = []) TypeEmptyEnum
            @ map TypeDuplicateMember (sorted_set (filter (\<lambda>v. 1 < count_list vs v) vs))
        | _ \<Rightarrow> [])"

section \<open>Versions\<close>

definition evolution_problems :: "semantic_type_decl \<times> semantic_type_decl \<Rightarrow> type_problem list" where
  "evolution_problems pair =
     (case pair of (previous, current) \<Rightarrow>
        if st_change_kind current \<noteq> Additive then []
        else (case st_underlying previous of
            EnumType old \<Rightarrow>
              (case st_underlying current of
                 EnumType new \<Rightarrow>
                   let removed = sorted_diff old new
                   in complain (removed \<noteq> []) (AdditiveRemovesValues (st_version current) removed)
               | _ \<Rightarrow> [])
          | _ \<Rightarrow>
              complain (\<not> same_dump (st_underlying previous) (st_underlying current))
                (AdditiveChangesType (st_version current))))"

definition type_versions :: "domain_def \<Rightarrow> string \<Rightarrow> semantic_type_decl list" where
  "type_versions d name = sort_key st_version (filter (\<lambda>s. st_name s = name) (dm_semantic_types d))"

section \<open>The chain below a name\<close>

definition chain_depth_limit :: nat where
  "chain_depth_limit = 32"

text \<open>The declaration a name stands for, with the domain it is found in\<close>

definition next_type :: "signature_fn \<Rightarrow> mdl_file \<Rightarrow> string \<Rightarrow> string \<Rightarrow> lookup_error + string \<times> semantic_type_decl" where
  "next_type sig mdl domain name =
     sbind (resolve_named_declaration sig mdl domain name None False) (\<lambda>r.
       case as_semantic (rd_declaration r) of
         None \<Rightarrow> Inl (UnknownSemanticType name)
       | Some s \<Rightarrow> Inr (rd_domain_name r, s))"

definition type_path :: "string \<Rightarrow> semantic_type_decl \<Rightarrow> string" where
  "type_path domain s = domain @ ''.'' @ st_name s"

function chain_problem ::
    "signature_fn \<Rightarrow> mdl_file \<Rightarrow> string list \<Rightarrow> string \<Rightarrow> string \<Rightarrow> type_problem option" where
  "chain_problem sig mdl visited domain name =
     (case next_type sig mdl domain name of
        Inl e \<Rightarrow> Some (UnknownUnderlying e)
      | Inr (next_domain, s) \<Rightarrow>
          if type_path next_domain s \<in> set visited
          then Some (UnderlyingCycle (visited @ [type_path next_domain s]))
          else if chain_depth_limit \<le> length visited then Some ChainTooDeep
          else (case st_underlying s of
              NamedType n \<Rightarrow> chain_problem sig mdl (visited @ [type_path next_domain s]) next_domain n
            | _ \<Rightarrow> None))"
  by pat_completeness auto
termination
  by (relation "measure (\<lambda>(_, _, visited, _, _). chain_depth_limit - length visited)") auto

declare chain_problem.simps [simp del]

definition chain_problems :: "signature_fn \<Rightarrow> mdl_file \<Rightarrow> string \<Rightarrow> semantic_type_decl \<Rightarrow> type_problem list" where
  "chain_problems sig mdl domain s =
     (case st_underlying s of
        NamedType n \<Rightarrow>
          (case chain_problem sig mdl [type_path domain s] domain n of None \<Rightarrow> [] | Some p \<Rightarrow> [p])
      | _ \<Rightarrow> [])"

definition validate_semantic_types :: "signature_fn \<Rightarrow> mdl_file \<Rightarrow> domain_def \<Rightarrow> type_diag list" where
  "validate_semantic_types sig mdl d =
     concat (map (\<lambda>s. map (\<lambda>p. (dm_name d, st_name s, p)) (type_decl_problems d s)) (dm_semantic_types d))
     @ concat (map (\<lambda>name. map (\<lambda>p. (dm_name d, name, p))
           (concat (map evolution_problems (adjacent (type_versions d name)))))
         (sorted_set (map st_name (dm_semantic_types d))))
     @ concat (map (\<lambda>s. map (\<lambda>p. (dm_name d, st_name s, p)) (chain_problems sig mdl (dm_name d) s))
         (dm_semantic_types d))"

section \<open>A chain is accepted when it ends\<close>

text \<open>The names on the way from a type to one that is not declared as another.\<close>

inductive named_chain :: "signature_fn \<Rightarrow> mdl_file \<Rightarrow> string \<Rightarrow> field_type \<Rightarrow> string list \<Rightarrow> bool"
  for sig mdl where
  chain_end: "(\<And>n. t \<noteq> NamedType n) \<Longrightarrow> named_chain sig mdl domain t []"
| chain_step: "next_type sig mdl domain n = Inr (next_domain, s) \<Longrightarrow>
    named_chain sig mdl next_domain (st_underlying s) qs \<Longrightarrow>
    named_chain sig mdl domain (NamedType n) (type_path next_domain s # qs)"

inductive_simps named_chain_named: "named_chain sig mdl domain (NamedType n) qs"

inductive_simps named_chain_Nil: "named_chain sig mdl domain t []"

lemma named_chain_other: "(\<And>n. t \<noteq> NamedType n) \<Longrightarrow> named_chain sig mdl domain t qs \<longleftrightarrow> qs = []"
  by (auto elim: named_chain.cases intro: chain_end)

lemma ex_named_chain:
  "(\<exists>qs. named_chain sig mdl domain (NamedType n) qs \<and> P qs) \<longleftrightarrow>
     (\<exists>d s qs. next_type sig mdl domain n = Inr (d, s) \<and> named_chain sig mdl d (st_underlying s) qs
        \<and> P (type_path d s # qs))"
  unfolding named_chain_named by blast

lemma chain_problem_None:
  "chain_problem sig mdl visited domain n = None \<longleftrightarrow>
     (\<exists>qs. named_chain sig mdl domain (NamedType n) qs \<and> distinct qs \<and> set qs \<inter> set visited = {}
           \<and> length visited + length qs \<le> chain_depth_limit)"
proof (induction sig mdl visited domain n rule: chain_problem.induct)
  case (1 sig mdl visited domain n)
  show ?case
  proof (cases "next_type sig mdl domain n")
    case (Inl e)
    then show ?thesis by (simp add: chain_problem.simps [of sig mdl visited] named_chain_named)
  next
    case (Inr res)
    obtain d s where step: "next_type sig mdl domain n = Inr (d, s)" using Inr by (cases res) auto
    let ?q = "type_path d s"
    show ?thesis
    proof (cases "?q \<in> set visited \<or> chain_depth_limit \<le> length visited")
      case True
      then show ?thesis
        by (auto simp: chain_problem.simps [of sig mdl visited] step named_chain_named)
    next
      case False
      show ?thesis
      proof (cases "\<exists>m. st_underlying s = NamedType m")
        case True
        then obtain m where m: "st_underlying s = NamedType m" by blast
        have IH: "chain_problem sig mdl (visited @ [?q]) d m = None \<longleftrightarrow>
            (\<exists>qs. named_chain sig mdl d (NamedType m) qs \<and> distinct qs \<and> set qs \<inter> set (visited @ [?q]) = {}
              \<and> length (visited @ [?q]) + length qs \<le> chain_depth_limit)"
          using 1 [OF step refl _ _ m] False by auto
        show ?thesis
          using False by (auto simp: chain_problem.simps [of sig mdl visited] step m IH ex_named_chain [of _ _ domain])
      next
        case other: False
        then have "(case st_underlying s of NamedType k \<Rightarrow> x k | _ \<Rightarrow> None) = None" for x :: "string \<Rightarrow> type_problem option"
          by (cases "st_underlying s") auto
        then show ?thesis
          using False other
          by (auto simp: chain_problem.simps [of sig mdl visited] step named_chain_named [of _ _ domain] named_chain_other)
      qed
    qed
  qed
qed

section \<open>What accepted semantic types are\<close>

definition chain_ends :: "signature_fn \<Rightarrow> mdl_file \<Rightarrow> string \<Rightarrow> semantic_type_decl \<Rightarrow> bool" where
  "chain_ends sig mdl domain s \<longleftrightarrow>
     (\<exists>qs. named_chain sig mdl domain (st_underlying s) qs
        \<and> distinct (if qs = [] then [] else type_path domain s # qs) \<and> length qs < chain_depth_limit)"

lemma chain_problems_Nil: "chain_problems sig mdl domain s = [] \<longleftrightarrow> chain_ends sig mdl domain s"
proof (cases "\<exists>n. st_underlying s = NamedType n")
  case True
  then obtain n where n: "st_underlying s = NamedType n" by blast
  have "chain_problems sig mdl domain s = [] \<longleftrightarrow> chain_problem sig mdl [type_path domain s] domain n = None"
    by (simp add: chain_problems_def n split: option.split)
  also have "... \<longleftrightarrow> chain_ends sig mdl domain s"
    unfolding chain_ends_def n chain_problem_None ex_named_chain by (simp add: less_eq_Suc_le) blast
  finally show ?thesis .
next
  case False
  then have "chain_problems sig mdl domain s = []"
    by (cases "st_underlying s") (auto simp: chain_problems_def)
  with False show ?thesis
    by (simp add: chain_ends_def named_chain_other chain_depth_limit_def)
qed

definition declaration_accepted :: "domain_def \<Rightarrow> semantic_type_decl \<Rightarrow> bool" where
  "declaration_accepted d s \<longleftrightarrow>
     length (filter (same_declaration s) (dm_semantic_types d)) = 1
     \<and> (if st_has_version_header s then 1 \<le> st_version s else \<not> st_has_change_kind s)
     \<and> map_of (dm_models d) (st_name s) = None \<and> map_of (dm_projections d) (st_name s) = None
     \<and> supported_underlying (st_underlying s)
     \<and> list_all (\<lambda>vs. vs \<noteq> [] \<and> distinct vs) (enums_within (st_underlying s))"

lemma repeated_Nil: "sorted_set (filter (\<lambda>v. Suc 0 < count_list vs v) vs) = [] \<longleftrightarrow> distinct vs"
  using repeated_distinct [of vs] by simp

lemma type_decl_problems_Nil:
  assumes "s \<in> set (dm_semantic_types d)"
  shows "type_decl_problems d s = [] \<longleftrightarrow> declaration_accepted d s"
proof -
  have "filter (same_declaration s) (dm_semantic_types d) \<noteq> []"
    using assms by (auto simp: filter_empty_conv same_declaration_def)
  then have "\<not> 1 < length (filter (same_declaration s) (dm_semantic_types d)) \<longleftrightarrow>
      length (filter (same_declaration s) (dm_semantic_types d)) = 1"
    by (cases "filter (same_declaration s) (dm_semantic_types d)") auto
  then show ?thesis
    by (cases "st_underlying s")
      (auto simp: type_decl_problems_def declaration_accepted_def map_of_eq_None_iff repeated_Nil not_le
        simp del: sorted_set_Nil)
qed

text \<open>What an additive version owes to the one before it: an enum keeps its members, another type stays.\<close>

definition type_extends :: "semantic_type_decl \<times> semantic_type_decl \<Rightarrow> bool" where
  "type_extends pair \<longleftrightarrow>
     (case (st_underlying (fst pair), st_underlying (snd pair)) of
        (EnumType old, EnumType new) \<Rightarrow> set old \<subseteq> set new
      | (EnumType old, _) \<Rightarrow> False
      | (s, t) \<Rightarrow> same_dump s t)"

text \<open>What the check lets pass besides: an enum that becomes a type of another sort.\<close>

definition enum_given_up :: "semantic_type_decl \<times> semantic_type_decl \<Rightarrow> bool" where
  "enum_given_up pair \<longleftrightarrow>
     (case (st_underlying (fst pair), st_underlying (snd pair)) of
        (EnumType old, EnumType new) \<Rightarrow> False
      | (EnumType old, _) \<Rightarrow> True
      | _ \<Rightarrow> False)"

definition evolution_accepted :: "semantic_type_decl \<times> semantic_type_decl \<Rightarrow> bool" where
  "evolution_accepted pair \<longleftrightarrow>
     st_change_kind (snd pair) = Breaking \<or> type_extends pair \<or> enum_given_up pair"

lemma evolution_problems_Nil: "evolution_problems pair = [] \<longleftrightarrow> evolution_accepted pair"
  by (cases pair; cases "st_change_kind (snd pair)"; cases "st_underlying (fst pair)"; cases "st_underlying (snd pair)")
    (auto simp: evolution_problems_def evolution_accepted_def type_extends_def enum_given_up_def)


text \<open>An additive version may turn an enum into any other type.\<close>

lemma additive_enum_replaced:
  "evolution_problems (sample_money\<lparr>st_underlying := EnumType vs\<rparr>, sample_money) = []"
  by (simp add: evolution_problems_def sample_money_def)

text \<open>The versions of a name need not ascend: version 2 may be declared before version 1.\<close>

lemma descending_types_accepted:
  "validate_semantic_types no_signature sample_workspace (sample_shop\<lparr>dm_semantic_types :=
     [sample_money\<lparr>st_version := 2, st_change_kind := Breaking, st_has_version_header := True, st_has_change_kind := True\<rparr>,
      sample_money\<lparr>st_version := 1, st_has_version_header := True, st_has_change_kind := True\<rparr>]\<rparr>) = []"
  by code_simp

text \<open>The names on the way are compared without versions: a chain that comes back to a later version of a
  type and ends there is reported as a cycle.\<close>

definition money_type :: "int \<Rightarrow> string \<Rightarrow> field_type \<Rightarrow> semantic_type_decl" where
  "money_type v name t = sample_money\<lparr>st_name := name, st_version := v, st_change_kind := Breaking, st_underlying := t\<rparr>"

definition money_workspace :: mdl_file where
  "money_workspace = sample_workspace\<lparr>mf_domains := [sample_shop\<lparr>dm_semantic_types :=
     [money_type 1 ''Money'' (NamedType ''Amount''), money_type 2 ''Money'' (DecimalType 10 2),
      money_type 1 ''Amount'' (NamedType ''Money'')]\<rparr>]\<rparr>"

lemma ending_chain_called_cycle:
  "named_chain no_signature money_workspace ''shop'' (NamedType ''Amount'') [''shop.Amount'', ''shop.Money'']"
  "chain_problems no_signature money_workspace ''shop'' (money_type 1 ''Money'' (NamedType ''Amount'')) =
     [UnderlyingCycle [''shop.Money'', ''shop.Amount'', ''shop.Money'']]"
proof -
  have "next_type no_signature money_workspace ''shop'' ''Amount''
      = Inr (''shop'', money_type 1 ''Amount'' (NamedType ''Money''))"
    "next_type no_signature money_workspace ''shop'' ''Money''
      = Inr (''shop'', money_type 2 ''Money'' (DecimalType 10 2))"
    by code_simp+
  then have "named_chain no_signature money_workspace ''shop'' (NamedType ''Amount'')
      [type_path ''shop'' (money_type 1 ''Amount'' (NamedType ''Money'')),
       type_path ''shop'' (money_type 2 ''Money'' (DecimalType 10 2))]"
    by (auto simp: named_chain_named named_chain_other money_type_def)
  then show "named_chain no_signature money_workspace ''shop'' (NamedType ''Amount'')
      [''shop.Amount'', ''shop.Money'']"
    by (simp add: type_path_def money_type_def)
qed code_simp

end
