(* ===== verification/Semantic_Decls.thy ===== *)
theory Semantic_Decls
  imports Semantic_Types Evolution_Delta
begin

text \<open>
  The checks of indexes, APIs and references in \<^verbatim>\<open>cli/src/modelable/validation/semantic.py\<close>, and the order in
  which \<^verbatim>\<open>validate_diagnostics\<close> runs all checks of a file. A path template is accepted exactly when it is
  built of characters and named parameters, and its parameters are read off as they stand.
\<close>

section \<open>Path templates\<close>

text \<open>What follows the first slash in \<^verbatim>\<open>_API_PATH_RE\<close>\<close>

function template_rest :: "string \<Rightarrow> bool" where
  "template_rest [] = True"
| "template_rest (c # s) =
     (if c = CHR ''{'' then
        (case dropWhile is_word s of
           [] \<Rightarrow> False
         | e # rest \<Rightarrow> e = CHR ''}'' \<and> is_identifier (takeWhile is_word s) \<and> template_rest rest)
      else c \<noteq> CHR ''}'' \<and> template_rest s)"
  by pat_completeness auto
termination
proof (relation "measure length")
  fix c e :: char and s rest
  assume "dropWhile is_word s = e # rest"
  then have "length (e # rest) \<le> length s" by (metis length_dropWhile_le)
  then show "(rest, c # s) \<in> measure length" by simp
qed auto

definition path_valid :: "string \<Rightarrow> bool" where
  "path_valid p = (case p of [] \<Rightarrow> False | c # s \<Rightarrow> c = CHR ''/'' \<and> template_rest s)"

definition no_brace :: "char \<Rightarrow> bool" where
  "no_brace c \<longleftrightarrow> c \<noteq> CHR ''{'' \<and> c \<noteq> CHR ''}''"

text \<open>\<^verbatim>\<open>_API_PATH_PARAMETER_RE.findall\<close>\<close>

function template_parameters :: "string \<Rightarrow> string list" where
  "template_parameters [] = []"
| "template_parameters (c # s) =
     (if c = CHR ''{'' \<and> takeWhile no_brace s \<noteq> [] then
        (case dropWhile no_brace s of
           e # rest \<Rightarrow> if e = CHR ''}'' then takeWhile no_brace s # template_parameters rest else template_parameters s
         | [] \<Rightarrow> template_parameters s)
      else template_parameters s)"
  by pat_completeness auto
termination
proof (relation "measure length")
  fix c e :: char and s rest
  assume "dropWhile no_brace s = e # rest"
  then have "length (e # rest) \<le> length s" by (metis length_dropWhile_le)
  then show "(rest, c # s) \<in> measure length" by simp
qed auto

datatype path_part = Literal char | Parameter string

fun render_part :: "path_part \<Rightarrow> string" where
  "render_part (Literal c) = [c]"
| "render_part (Parameter n) = CHR ''{'' # n @ [CHR ''}'']"

fun part_ok :: "path_part \<Rightarrow> bool" where
  "part_ok (Literal c) = no_brace c"
| "part_ok (Parameter n) = is_identifier n"

fun parameter_names :: "path_part list \<Rightarrow> string list" where
  "parameter_names [] = []"
| "parameter_names (Literal c # ps) = parameter_names ps"
| "parameter_names (Parameter n # ps) = n # parameter_names ps"

lemma word_no_brace: "is_word c \<Longrightarrow> no_brace c"
  by (auto simp: is_word_def is_name_start_def is_decimal_def no_brace_def)

lemma brace_not_word: "\<not> is_word (CHR ''}'')" "\<not> no_brace (CHR ''}'')"
  by (simp_all add: is_word_def is_name_start_def is_decimal_def no_brace_def)

lemma identifier_spans:
  assumes "is_identifier n"
  shows "takeWhile is_word (n @ CHR ''}'' # s) = n" "dropWhile is_word (n @ CHR ''}'' # s) = CHR ''}'' # s"
    "takeWhile no_brace (n @ CHR ''}'' # s) = n" "dropWhile no_brace (n @ CHR ''}'' # s) = CHR ''}'' # s"
    "n \<noteq> []"
  using identifier_word [OF assms] word_no_brace assms
  by (auto simp: brace_not_word takeWhile_append dropWhile_append is_identifier_def split: list.splits)

lemma rendered_template:
  assumes "list_all part_ok ps"
  shows "template_rest (concat (map render_part ps))"
    and "template_parameters (concat (map render_part ps)) = parameter_names ps"
proof -
  have "template_rest (concat (map render_part ps))
      \<and> template_parameters (concat (map render_part ps)) = parameter_names ps"
    using assms
  proof (induction ps)
    case (Cons p ps)
    then show ?case by (cases p) (auto simp: no_brace_def identifier_spans)
  qed simp
  then show "template_rest (concat (map render_part ps))"
    "template_parameters (concat (map render_part ps)) = parameter_names ps" by auto
qed

lemma template_parts: "template_rest s \<Longrightarrow> \<exists>ps. list_all part_ok ps \<and> s = concat (map render_part ps)"
proof (induction s rule: template_rest.induct)
  case (2 c s)
  show ?case
  proof (cases "c = CHR ''{''")
    case True
    with 2(3) obtain rest where rest: "dropWhile is_word s = CHR ''}'' # rest"
      "is_identifier (takeWhile is_word s)" "template_rest rest"
      by (auto split: list.splits)
    from 2(1) [OF True rest(1)] rest obtain ps where ps: "list_all part_ok ps" "rest = concat (map render_part ps)"
      by auto
    have "s = takeWhile is_word s @ CHR ''}'' # rest" using rest(1) by (metis takeWhile_dropWhile_id)
    with ps rest(2) True show ?thesis
      by (intro exI [where x = "Parameter (takeWhile is_word s) # ps"]) simp
  next
    case False
    with 2 obtain ps where "list_all part_ok ps" "s = concat (map render_part ps)" by auto
    with False 2(3) show ?thesis
      by (intro exI [where x = "Literal c # ps"]) (simp add: no_brace_def)
  qed
qed (auto intro: exI [where x = "[]"])

lemma path_template:
  "path_valid p \<and> template_parameters p = ns \<longleftrightarrow>
     (\<exists>ps. list_all part_ok ps \<and> p = CHR ''/'' # concat (map render_part ps) \<and> ns = parameter_names ps)"
proof (cases p)
  case (Cons c s)
  show ?thesis
  proof
    assume a: "path_valid p \<and> template_parameters p = ns"
    then have c: "c = CHR ''/''" and "template_rest s" by (auto simp: path_valid_def Cons)
    from template_parts [OF this(2)] obtain ps where "list_all part_ok ps" "s = concat (map render_part ps)" by blast
    with a c show "\<exists>ps. list_all part_ok ps \<and> p = CHR ''/'' # concat (map render_part ps) \<and> ns = parameter_names ps"
      by (auto simp: Cons rendered_template)
  qed (auto simp: path_valid_def rendered_template)
qed (simp add: path_valid_def)

text \<open>
  C38. Path templates: a path of an API operation is accepted exactly when it is a slash followed by
  characters other than braces and by names in braces, and the parameters read from it are these
  names in their order.
\<close>

theorem path_template_exact:
  "path_valid p \<and> template_parameters p = ns \<longleftrightarrow>
     (\<exists>ps. list_all part_ok ps \<and> p = CHR ''/'' # concat (map render_part ps) \<and> ns = parameter_names ps)"
  by (rule path_template)

section \<open>API declarations\<close>

datatype operation_problem =
    OperationTwice
  | RouteTwice
  | InvalidPath
  | ParameterTwice
  | UnknownParameters "string list"
  | NoResponses
  | ResponseTwice
  | InvalidStatus int

datatype api_problem =
    ApiTwice
  | NoBoundModel
  | BoundModelNotKeyed
  | OperationProblem string operation_problem

type_synonym api_diag = "string \<times> api_problem"

definition bound_version :: "domain_def \<Rightarrow> string \<Rightarrow> int \<Rightarrow> model_version option" where
  "bound_version d name v =
     (case map_of (dm_models d) name of
        None \<Rightarrow> None | Some vs \<Rightarrow> List.find (\<lambda>m. mv_version m = v) vs)"

definition bound_keys :: "model_version option \<Rightarrow> string list" where
  "bound_keys m = (case m of None \<Rightarrow> [] | Some v \<Rightarrow> map fd_name (filter fd_is_key (mv_fields v)))"

definition operation_problems ::
    "string list \<Rightarrow> string list \<Rightarrow> (http_method \<times> string) list \<Rightarrow> api_operation \<Rightarrow> operation_problem list" where
  "operation_problems keys seen_names seen_routes a =
     (let parameters = template_parameters (ao_path a); unknown = sorted_diff parameters keys;
          codes = map ar_status_code (ao_responses a) in
      complain (ao_name a \<in> set seen_names) OperationTwice
      @ complain ((ao_method a, ao_path a) \<in> set seen_routes) RouteTwice
      @ complain (\<not> path_valid (ao_path a)) InvalidPath
      @ complain (length parameters \<noteq> card (set parameters)) ParameterTwice
      @ complain (unknown \<noteq> []) (UnknownParameters unknown)
      @ complain (codes = []) NoResponses
      @ complain (length codes \<noteq> card (set codes)) ResponseTwice
      @ concat (map (\<lambda>c. complain (\<not> (100 \<le> c \<and> c \<le> 599)) (InvalidStatus c)) codes))"

fun operations_problems ::
    "string list \<Rightarrow> string list \<Rightarrow> (http_method \<times> string) list \<Rightarrow> api_operation list
     \<Rightarrow> (string \<times> operation_problem) list" where
  "operations_problems keys seen_names seen_routes [] = []"
| "operations_problems keys seen_names seen_routes (a # as) =
     map (Pair (ao_name a)) (operation_problems keys seen_names seen_routes a)
     @ operations_problems keys (ao_name a # seen_names) ((ao_method a, ao_path a) # seen_routes) as"

definition api_problems :: "domain_def \<Rightarrow> (string \<times> int) list \<Rightarrow> api_decl \<Rightarrow> api_problem list" where
  "api_problems d seen a =
     (let model = bound_version d (ad_model a) (ad_version a) in
      complain ((ad_model a, ad_version a) \<in> set seen) ApiTwice
      @ (case model of
           None \<Rightarrow> [NoBoundModel]
         | Some m \<Rightarrow> complain (\<not> keyed_kind (mv_model_kind m)) BoundModelNotKeyed)
      @ map (\<lambda>(n, p). OperationProblem n p) (operations_problems (bound_keys model) [] [] (ad_operations a)))"

fun apis_problems :: "domain_def \<Rightarrow> (string \<times> int) list \<Rightarrow> api_decl list \<Rightarrow> api_diag list" where
  "apis_problems d seen [] = []"
| "apis_problems d seen (a # as) =
     map (Pair (version_context (dm_name d @ ''.'' @ ad_model a) (ad_version a))) (api_problems d seen a)
     @ apis_problems d ((ad_model a, ad_version a) # seen) as"

definition validate_api_declarations :: "domain_def \<Rightarrow> api_diag list" where
  "validate_api_declarations d = apis_problems d [] (dm_apis d)"

section \<open>Index declarations\<close>

datatype index_problem =
    IndexTwice
  | IndexUnknownModel string
  | IndexNoVersion
  | IndexNotKeyed model_kind
  | PrimaryMismatch "string list" "string list"
  | SecondaryTwice string
  | SecondaryKeyUnknown string string
  | SecondarySortUnknown string string

type_synonym index_diag = "string \<times> index_problem"

fun secondary_problems :: "string list \<Rightarrow> string list \<Rightarrow> secondary_index list \<Rightarrow> index_problem list" where
  "secondary_problems names seen [] = []"
| "secondary_problems names seen (s # ss) =
     complain (si_name s \<in> set seen) (SecondaryTwice (si_name s))
     @ map (SecondaryKeyUnknown (si_name s)) (filter (\<lambda>n. n \<notin> set names) (si_key s))
     @ map (SecondarySortUnknown (si_name s)) (filter (\<lambda>n. n \<notin> set names) (map sf_field (si_sort s)))
     @ secondary_problems names (si_name s # seen) ss"

definition index_against_version :: "index_decl \<Rightarrow> model_version \<Rightarrow> index_problem list" where
  "index_against_version i m =
     (if \<not> keyed_kind (mv_model_kind m) then [IndexNotKeyed (mv_model_kind m)]
      else complain (ix_primary i \<noteq> bound_keys (Some m)) (PrimaryMismatch (ix_primary i) (bound_keys (Some m)))
        @ secondary_problems (map fd_name (mv_fields m)) [] (ix_secondary i))"

definition is_evolved :: "domain_def \<Rightarrow> index_decl \<Rightarrow> bool" where
  "is_evolved d i \<longleftrightarrow> list_ex (\<lambda>e. ev_name e = ix_model i \<and> ev_version e = ix_version i) (dm_model_evolutions d)"

definition index_problems :: "domain_def \<Rightarrow> (string \<times> int) list \<Rightarrow> index_decl \<Rightarrow> index_problem list" where
  "index_problems d seen i =
     complain ((ix_model i, ix_version i) \<in> set seen) IndexTwice
     @ (case bound_version d (ix_model i) (ix_version i) of
          Some m \<Rightarrow> index_against_version i m
        | None \<Rightarrow>
            if is_evolved d i then []
            else if map_of (dm_models d) (ix_model i) = None then [IndexUnknownModel (ix_model i)]
            else [IndexNoVersion])"

definition index_context :: "domain_def \<Rightarrow> index_decl \<Rightarrow> string" where
  "index_context d i = version_context (dm_name d @ ''.'' @ ix_model i) (ix_version i)"

fun indexes_problems :: "domain_def \<Rightarrow> (string \<times> int) list \<Rightarrow> index_decl list \<Rightarrow> index_diag list" where
  "indexes_problems d seen [] = []"
| "indexes_problems d seen (i # is) =
     map (Pair (index_context d i)) (index_problems d seen i)
     @ indexes_problems d ((ix_model i, ix_version i) # seen) is"

definition validate_index_decls :: "domain_def \<Rightarrow> index_diag list" where
  "validate_index_decls d = indexes_problems d [] (dm_index_decls d)"

text \<open>The second pass, once the evolved versions have been expanded\<close>

definition evolved_index_problems :: "domain_def \<Rightarrow> index_decl \<Rightarrow> index_diag list" where
  "evolved_index_problems d i =
     (if \<not> is_evolved d i then []
      else case bound_version d (ix_model i) (ix_version i) of
          None \<Rightarrow> []
        | Some m \<Rightarrow> map (Pair (index_context d i)) (index_against_version i m))"

definition validate_evolved_indexes :: "domain_def \<Rightarrow> index_diag list" where
  "validate_evolved_indexes d = concat (map (evolved_index_problems d) (dm_index_decls d))"

section \<open>References of fields\<close>

fun iter_ref_types :: "field_type \<Rightarrow> (string \<times> version_spec option) list"
  and field_ref_types :: "field_def \<Rightarrow> (string \<times> version_spec option) list" where
  "iter_ref_types (RefType target v) = [(target, v)]"
| "iter_ref_types (ArrayType t) = iter_ref_types t"
| "iter_ref_types (MapType k t) = iter_ref_types t"
| "iter_ref_types (ObjectType fs) = concat (map field_ref_types fs)"
| "iter_ref_types _ = []"
| "field_ref_types (FieldDef n t opt nul def anns cs) = iter_ref_types t"

datatype ref_problem =
    UnresolvableRef string string lookup_error
  | RefWithoutKey string string
  | UnversionedRef string string int

text \<open>A value model without a key cannot be referred to.\<close>

fun lacks_identity :: "declaration_value \<Rightarrow> bool" where
  "lacks_identity (DModel m) \<longleftrightarrow> mv_model_kind m = ValueKind \<and> \<not> list_ex fd_is_key (mv_fields m)"
| "lacks_identity _ = False"

text \<open>The errors and the warnings that one reference adds\<close>

definition ref_problems ::
    "signature_fn \<Rightarrow> mdl_file \<Rightarrow> string \<Rightarrow> string \<times> version_spec option \<Rightarrow> ref_problem list \<times> ref_problem list" where
  "ref_problems sig mdl name ref =
     (case ref of (target, v) \<Rightarrow>
        if CHR ''.'' \<notin> set target then ([], [])
        else case resolve_ref_type sig target v mdl of
            Inl e \<Rightarrow> ([UnresolvableRef name target e], [])
          | Inr r \<Rightarrow>
              if lacks_identity (rd_declaration r) then ([RefWithoutKey name target], [])
              else ([], complain (v = None) (UnversionedRef name target (decl_version (rd_declaration r)))))"

definition validate_ref_type_field :: "signature_fn \<Rightarrow> mdl_file \<Rightarrow> field_def \<Rightarrow> ref_problem list \<times> ref_problem list" where
  "validate_ref_type_field sig mdl f =
     (let ps = map (ref_problems sig mdl (fd_name f)) (iter_ref_types (fd_type f))
      in (concat (map fst ps), concat (map snd ps)))"

section \<open>A file\<close>

datatype diagnostic =
    NoOwner string
  | InModel model_diag
  | InType type_diag
  | InIndex index_diag
  | InApi api_diag

definition owner_problems :: "domain_def \<Rightarrow> diagnostic list" where
  "owner_problems d = complain (dm_owner d = None \<or> dm_owner d = Some []) (NoOwner (dm_name d))"

definition domain_diagnostics :: "signature_fn \<Rightarrow> mdl_file \<Rightarrow> domain_def \<Rightarrow> diagnostic list option" where
  "domain_diagnostics sig mdl d =
     map_option (\<lambda>ps.
       owner_problems d
       @ map InModel (validate_models (dm_name d) (dm_models d))
       @ map InModel ps
       @ map InType (validate_semantic_types sig mdl d)
       @ map InIndex (validate_index_decls d)
       @ map InApi (validate_api_declarations d))
       (validate_projections sig mdl (dm_name d) (dm_projections d))"

definition validate_diagnostics :: "signature_fn \<Rightarrow> mdl_file \<Rightarrow> diagnostic list option" where
  "validate_diagnostics sig mdl = map_option concat (omap (domain_diagnostics sig mdl) (mf_domains mdl))"

section \<open>What accepted APIs are\<close>

definition operation_accepted :: "string list \<Rightarrow> api_operation \<Rightarrow> bool" where
  "operation_accepted keys a \<longleftrightarrow>
     (\<exists>ps. list_all part_ok ps \<and> ao_path a = CHR ''/'' # concat (map render_part ps)
        \<and> distinct (parameter_names ps) \<and> set (parameter_names ps) \<subseteq> set keys)
     \<and> ao_responses a \<noteq> [] \<and> distinct (map ar_status_code (ao_responses a))
     \<and> list_all (\<lambda>r. 100 \<le> ar_status_code r \<and> ar_status_code r \<le> 599) (ao_responses a)"

definition api_accepted :: "domain_def \<Rightarrow> api_decl \<Rightarrow> bool" where
  "api_accepted d a \<longleftrightarrow>
     (\<exists>m. bound_version d (ad_model a) (ad_version a) = Some m \<and> keyed_kind (mv_model_kind m)
        \<and> distinct (map ao_name (ad_operations a))
        \<and> distinct (map (\<lambda>op. (ao_method op, ao_path op)) (ad_operations a))
        \<and> list_all (operation_accepted (bound_keys (Some m))) (ad_operations a))"

lemma length_card: "length xs = card (set xs) \<longleftrightarrow> distinct xs"
  by (metis card_distinct distinct_card)

lemma operation_problems_Nil:
  "operation_problems keys names routes a = [] \<longleftrightarrow>
     ao_name a \<notin> set names \<and> (ao_method a, ao_path a) \<notin> set routes \<and> operation_accepted keys a"
proof -
  have parts: "(\<exists>ps. list_all part_ok ps \<and> p = CHR ''/'' # concat (map render_part ps) \<and> Q (parameter_names ps)) \<longleftrightarrow>
      path_valid p \<and> Q (template_parameters p)" for p Q
    using path_template [of p] by metis
  have "operation_accepted keys a \<longleftrightarrow>
      path_valid (ao_path a) \<and> distinct (template_parameters (ao_path a)) \<and> set (template_parameters (ao_path a)) \<subseteq> set keys
      \<and> ao_responses a \<noteq> [] \<and> distinct (map ar_status_code (ao_responses a))
      \<and> list_all (\<lambda>r. 100 \<le> ar_status_code r \<and> ar_status_code r \<le> 599) (ao_responses a)"
    using parts [of "ao_path a" "\<lambda>ns. distinct ns \<and> set ns \<subseteq> set keys"]
    by (simp only: operation_accepted_def conj_assoc)
  then show ?thesis
    by (auto simp: operation_problems_def Let_def length_card list_all_iff)
qed

lemma operations_problems_Nil:
  "operations_problems keys names routes as = [] \<longleftrightarrow>
     distinct (map ao_name as) \<and> ao_name ` set as \<inter> set names = {}
     \<and> distinct (map (\<lambda>op. (ao_method op, ao_path op)) as) \<and> (\<lambda>op. (ao_method op, ao_path op)) ` set as \<inter> set routes = {}
     \<and> list_all (operation_accepted keys) as"
  by (induction as arbitrary: names routes) (auto simp: operation_problems_Nil)

lemma api_problems_Nil:
  "api_problems d seen a = [] \<longleftrightarrow> (ad_model a, ad_version a) \<notin> set seen \<and> api_accepted d a"
  by (auto simp: api_problems_def api_accepted_def Let_def operations_problems_Nil split: option.splits)

lemma apis_problems_Nil:
  "apis_problems d seen as = [] \<longleftrightarrow>
     distinct (map (\<lambda>a. (ad_model a, ad_version a)) as)
     \<and> (\<lambda>a. (ad_model a, ad_version a)) ` set as \<inter> set seen = {} \<and> list_all (api_accepted d) as"
  by (induction as arbitrary: seen) (auto simp: api_problems_Nil)

text \<open>
  C37. APIs: the API declarations of a domain raise no diagnostic exactly when no model version has two
  of them and each is bound to a version of an entity or aggregate, with operations of distinct names
  and distinct routes whose paths are well-formed templates over distinct key fields of the model and
  which answer with at least one status code, distinct ones between 100 and 599.
\<close>

theorem apis_accepted_iff:
  "validate_api_declarations d = [] \<longleftrightarrow>
     distinct (map (\<lambda>a. (ad_model a, ad_version a)) (dm_apis d)) \<and> list_all (api_accepted d) (dm_apis d)"
  by (simp add: validate_api_declarations_def apis_problems_Nil)

section \<open>What accepted indexes are\<close>

definition index_fits :: "index_decl \<Rightarrow> model_version \<Rightarrow> bool" where
  "index_fits i m \<longleftrightarrow>
     keyed_kind (mv_model_kind m) \<and> ix_primary i = bound_keys (Some m)
     \<and> distinct (map si_name (ix_secondary i))
     \<and> list_all (\<lambda>s. set (si_key s) \<union> sf_field ` set (si_sort s) \<subseteq> fd_name ` set (mv_fields m)) (ix_secondary i)"

lemma secondary_problems_Nil:
  "secondary_problems names seen ss = [] \<longleftrightarrow>
     distinct (map si_name ss) \<and> si_name ` set ss \<inter> set seen = {}
     \<and> list_all (\<lambda>s. set (si_key s) \<union> sf_field ` set (si_sort s) \<subseteq> set names) ss"
  by (induction ss arbitrary: seen) (auto simp: filter_empty_conv)

lemma index_against_version_Nil: "index_against_version i m = [] \<longleftrightarrow> index_fits i m"
  by (auto simp: index_against_version_def index_fits_def secondary_problems_Nil)

lemma index_problems_Nil:
  "index_problems d seen i = [] \<longleftrightarrow>
     (ix_model i, ix_version i) \<notin> set seen
     \<and> (case bound_version d (ix_model i) (ix_version i) of Some m \<Rightarrow> index_fits i m | None \<Rightarrow> is_evolved d i)"
  by (auto simp: index_problems_def index_against_version_Nil split: option.split)

lemma indexes_problems_Nil:
  "indexes_problems d seen is = [] \<longleftrightarrow>
     distinct (map (\<lambda>i. (ix_model i, ix_version i)) is)
     \<and> (\<lambda>i. (ix_model i, ix_version i)) ` set is \<inter> set seen = {}
     \<and> list_all (\<lambda>i. case bound_version d (ix_model i) (ix_version i) of
                   Some m \<Rightarrow> index_fits i m | None \<Rightarrow> is_evolved d i) is"
  by (induction "is" arbitrary: seen) (auto simp: index_problems_Nil)

section \<open>Indexes of evolved versions\<close>

lemma evolved_indexes_fit:
  assumes "validate_evolved_indexes d = []" and "i \<in> set (dm_index_decls d)" and "is_evolved d i"
    and "bound_version d (ix_model i) (ix_version i) = Some m"
  shows "index_fits i m"
proof -
  from assms(1,2) have "evolved_index_problems d i = []" by (simp add: validate_evolved_indexes_def)
  with assms(3,4) show ?thesis by (simp add: evolved_index_problems_def index_against_version_Nil)
qed

lemma bound_version_versions: "bound_version d n v = List.find (\<lambda>m. mv_version m = v) (versions_of (dm_models d) n)"
  by (simp add: bound_version_def versions_of_def split: option.split)

lemma find_prefix: "prefix xs ys \<Longrightarrow> List.find p xs = Some x \<Longrightarrow> List.find p ys = Some x"
  by (induction xs arbitrary: ys) (auto simp: prefix_Cons prefix_def split: if_splits)

lemma evolution_errors_grow:
  "\<exists>more. snd (foldl (evolution_step d) (models, errors) evs) = errors @ more"
proof (induction evs arbitrary: models errors)
  case (Cons ev evs)
  obtain models' errors' where step: "evolution_step d (models, errors) ev = (models', errors')"
    by (cases "evolution_step d (models, errors) ev")
  then have "\<exists>more. errors' = errors @ more"
    by (auto simp: evolution_step_def split: sum.splits)
  with Cons.IH [of models' errors'] step show ?case by auto
qed simp

lemma evolved_versions_exist:
  assumes "foldl (evolution_step d) (models, []) evs = (models', [])" and "ev \<in> set evs"
  shows "\<exists>v \<in> set (versions_of models' (ev_name ev)). mv_version v = ev_version ev"
  using assms
proof (induction evs arbitrary: models)
  case (Cons e evs)
  obtain models1 errors1 where step: "evolution_step d (models, []) e = (models1, errors1)"
    by (cases "evolution_step d (models, []) e")
  with Cons.prems(1) have rest: "foldl (evolution_step d) (models1, errors1) evs = (models', [])" by simp
  with evolution_errors_grow [of d models1 errors1 evs] have none: "errors1 = []" by auto
  show ?case
  proof (cases "ev = e")
    case True
    from step none obtain v where v: "expand_evolution (versions_of models (ev_name e)) e = Inr v"
      and models1: "models1 = dict_put (ev_name e) (versions_of models (ev_name e) @ [v]) models"
      by (auto simp: evolution_step_def split: sum.splits)
    have "v \<in> set (versions_of models1 (ev_name e))" "mv_version v = ev_version e"
      using v by (auto simp: models1 versions_of_def update_conv' expand_evolution_Inr expanded_version_def)
    moreover have "prefix (versions_of models1 (ev_name e)) (versions_of models' (ev_name e))"
      using evolution_loop_keeps [of models1 d errors1 evs] rest by (simp add: versions_kept_def)
    ultimately show ?thesis using True by (meson set_mono_prefix subsetD)
  next
    case False
    with Cons rest none show ?thesis by auto
  qed
qed simp

text \<open>
  Indexes: the first pass accepts the indexes of a domain exactly when no model version has two of
  them and each either fits the declared version (an entity or aggregate whose key fields are the
  primary index in their order, with distinct secondary indexes over fields of the version) or names
  a version that an evolution will add.
\<close>

theorem indexes_accepted_iff:
  "validate_index_decls d = [] \<longleftrightarrow>
     distinct (map (\<lambda>i. (ix_model i, ix_version i)) (dm_index_decls d))
     \<and> list_all (\<lambda>i. case bound_version d (ix_model i) (ix_version i) of
                   Some m \<Rightarrow> index_fits i m | None \<Rightarrow> is_evolved d i) (dm_index_decls d)"
  by (simp add: validate_index_decls_def indexes_problems_Nil)

text \<open>
  C35. Every index is checked in the end: where the first pass accepts the indexes of a domain, the
  evolutions expand without an error and the second pass accepts the expanded domain, each index
  fits the version it names, declared or evolved.
\<close>

theorem indexes_checked_in_the_end:
  assumes "validate_index_decls d = []" and "expand_domain d = (d', [])" and "validate_evolved_indexes d' = []"
  shows "list_all (\<lambda>i. \<exists>m. bound_version d' (ix_model i) (ix_version i) = Some m \<and> index_fits i m)
    (dm_index_decls d)"
proof -
  from assms(2) obtain models' where loop: "foldl (evolution_step (dm_name d)) (dm_models d, []) (dm_model_evolutions d) = (models', [])"
    and d': "d' = d\<lparr>dm_models := models'\<rparr>"
    by (auto simp: expand_domain_def split: prod.splits)
  have kept: "prefix (versions_of (dm_models d) n) (versions_of models' n)" for n
    using evolution_loop_keeps [of "dm_models d" "dm_name d" "[]" "dm_model_evolutions d"] loop
    by (simp add: versions_kept_def)
  have "\<exists>m. bound_version d' (ix_model i) (ix_version i) = Some m \<and> index_fits i m" if i: "i \<in> set (dm_index_decls d)" for i
  proof (cases "bound_version d (ix_model i) (ix_version i)")
    case (Some m)
    then have "bound_version d' (ix_model i) (ix_version i) = Some m"
      using find_prefix [OF kept] by (auto simp: bound_version_versions d')
    with Some i assms(1) show ?thesis
      by (auto simp: validate_index_decls_def indexes_problems_Nil list_all_iff split: option.splits)
  next
    case None
    with i assms(1) have evolved: "is_evolved d i"
      by (auto simp: validate_index_decls_def indexes_problems_Nil list_all_iff split: option.splits)
    then obtain ev where "ev \<in> set (dm_model_evolutions d)" "ev_name ev = ix_model i" "ev_version ev = ix_version i"
      by (auto simp: is_evolved_def list_ex_iff)
    with evolved_versions_exist [OF loop, of ev] obtain v where
      "v \<in> set (versions_of models' (ix_model i))" "mv_version v = ix_version i" by auto
    then have "bound_version d' (ix_model i) (ix_version i) \<noteq> None"
      by (auto simp: bound_version_versions d' find_None_iff simp del: not_None_eq)
    then obtain m where m: "bound_version d' (ix_model i) (ix_version i) = Some m" by blast
    have "is_evolved d' i" using evolved by (simp add: is_evolved_def d')
    with evolved_indexes_fit [OF assms(3) _ _ m] i have "index_fits i m" by (simp add: d')
    with m show ?thesis by blast
  qed
  then show ?thesis by (simp add: list_all_iff)
qed

text \<open>An index on a version that exists only by an evolution\<close>

definition indexed_shop :: domain_def where
  "indexed_shop = sample_shop\<lparr>dm_models := [(''Order'', [order_one])],
     dm_model_evolutions := [order_evolution\<lparr>ev_change_kind := Breaking\<rparr>],
     dm_index_decls := [\<lparr>ix_model = ''Order'', ix_version = 2, ix_primary = [''id''],
       ix_secondary = [\<lparr>si_name = ''by_price'', si_key = [''price''], si_sort = [], si_unique = False\<rparr>]\<rparr>]\<rparr>"

lemma indexed_shop_passes: "validate_index_decls indexed_shop = []"
  by code_simp

lemma indexed_shop_expands:
  "snd (expand_domain indexed_shop) = [] \<and> validate_evolved_indexes (fst (expand_domain indexed_shop)) = []"
  by code_simp

lemma indexes_checked_in_the_end_witness:
  "list_all (\<lambda>i. \<exists>m. bound_version (fst (expand_domain indexed_shop)) (ix_model i) (ix_version i) = Some m
     \<and> index_fits i m) (dm_index_decls indexed_shop)"
  by (rule indexes_checked_in_the_end [OF indexed_shop_passes _ indexed_shop_expands [THEN conjunct2]])
    (metis indexed_shop_expands prod.collapse)

text \<open>An API on such a version is an error of the first pass, and there is no second one.\<close>

lemma evolved_api_rejected:
  "validate_api_declarations (indexed_shop\<lparr>dm_apis := [\<lparr>ad_model = ''Order'', ad_version = 2, ad_operations = []\<rparr>]\<rparr>)
     = [(''shop.Order@2'', NoBoundModel)]"
  by code_simp

section \<open>References\<close>

definition reference_accepted :: "signature_fn \<Rightarrow> mdl_file \<Rightarrow> string \<times> version_spec option \<Rightarrow> bool" where
  "reference_accepted sig mdl ref \<longleftrightarrow>
     (CHR ''.'' \<in> set (fst ref) \<longrightarrow>
        (\<exists>r. resolve_ref_type sig (fst ref) (snd ref) mdl = Inr r \<and> \<not> lacks_identity (rd_declaration r)))"

definition reference_warned :: "signature_fn \<Rightarrow> mdl_file \<Rightarrow> string \<times> version_spec option \<Rightarrow> bool" where
  "reference_warned sig mdl ref \<longleftrightarrow>
     snd ref = None \<and> CHR ''.'' \<in> set (fst ref)
     \<and> (case resolve_ref_type sig (fst ref) None mdl of
          Inl _ \<Rightarrow> False | Inr r \<Rightarrow> \<not> lacks_identity (rd_declaration r))"

lemma ref_problems_Nil:
  "fst (ref_problems sig mdl n ref) = [] \<longleftrightarrow> reference_accepted sig mdl ref"
  "snd (ref_problems sig mdl n ref) = [] \<longleftrightarrow> \<not> reference_warned sig mdl ref"
proof -
  obtain t v where ref: "ref = (t, v)" by (cases ref)
  show "fst (ref_problems sig mdl n ref) = [] \<longleftrightarrow> reference_accepted sig mdl ref"
    by (cases "resolve_ref_type sig t v mdl") (simp_all add: ref ref_problems_def reference_accepted_def)
  show "snd (ref_problems sig mdl n ref) = [] \<longleftrightarrow> \<not> reference_warned sig mdl ref"
  proof (cases v)
    case None
    then show ?thesis
      by (cases "resolve_ref_type sig t None mdl") (simp_all add: ref ref_problems_def reference_warned_def)
  next
    case (Some w)
    then show ?thesis
      by (cases "resolve_ref_type sig t (Some w) mdl") (simp_all add: ref ref_problems_def reference_warned_def)
  qed
qed

text \<open>
  References of fields: a field has no error exactly when every reference inside its type, under
  arrays, the values of maps and inline objects, either names no domain or resolves to a declaration
  that has an identity; it has no warning exactly when none of the resolved ones leaves its version open.
\<close>

theorem field_references_exact:
  "(fst (validate_ref_type_field sig mdl f) = [] \<longleftrightarrow>
      list_all (reference_accepted sig mdl) (iter_ref_types (fd_type f)))
   \<and> (snd (validate_ref_type_field sig mdl f) = [] \<longleftrightarrow>
      \<not> list_ex (reference_warned sig mdl) (iter_ref_types (fd_type f)))"
  by (simp add: validate_ref_type_field_def Let_def ref_problems_Nil list_all_iff list_ex_iff)

text \<open>References inside the variants of a union are not looked at.\<close>

lemma union_references_unchecked:
  "validate_ref_type_field sig mdl
     (FieldDef ''f'' (UnionType ''k'' [UnionVariant ''a'' (RefType ''no.Where'' None),
        UnionVariant ''b'' (ObjectType [])]) False False None [] []) = ([], [])"
  by (simp add: validate_ref_type_field_def)

section \<open>A file without diagnostics\<close>

text \<open>
  A file is valid exactly when every domain of it has an owner, accepted models, semantic types,
  indexes and APIs, and projections whose check returns without a diagnostic: no check hides the
  result of another.
\<close>

theorem file_accepted_iff:
  "validate_diagnostics sig mdl = Some [] \<longleftrightarrow>
     list_all (\<lambda>d. dm_owner d \<notin> {None, Some []}
       \<and> validate_models (dm_name d) (dm_models d) = []
       \<and> validate_projections sig mdl (dm_name d) (dm_projections d) = Some []
       \<and> validate_semantic_types sig mdl d = []
       \<and> validate_index_decls d = []
       \<and> validate_api_declarations d = []) (mf_domains mdl)"
proof -
  have "domain_diagnostics sig mdl d = Some [] \<longleftrightarrow>
      dm_owner d \<notin> {None, Some []} \<and> validate_models (dm_name d) (dm_models d) = []
      \<and> validate_projections sig mdl (dm_name d) (dm_projections d) = Some []
      \<and> validate_semantic_types sig mdl d = [] \<and> validate_index_decls d = []
      \<and> validate_api_declarations d = []" for d
    by (auto simp: domain_diagnostics_def owner_problems_def)
  moreover have "validate_diagnostics sig mdl = Some [] \<longleftrightarrow>
      list_all (\<lambda>d. domain_diagnostics sig mdl d = Some []) (mf_domains mdl)"
  proof -
    have "map_option concat (omap f ds) = Some [] \<longleftrightarrow> list_all (\<lambda>d. f d = Some []) ds"
      for f :: "domain_def \<Rightarrow> diagnostic list option" and ds
      by (induction ds) (auto simp: Option.bind_eq_Some_conv)
    then show ?thesis by (simp add: validate_diagnostics_def)
  qed
  ultimately show ?thesis by simp
qed

end
