(* ===== verification/Spec2Isabelle.thy ===== *)
theory Spec2Isabelle
  imports Identity Ir Type_Signature Cel_Check Cel_Total Lifecycle Enum_Numbers Migration Resolver
    Dependency Enum_Compat Diff_Contract Projection_Contract Checker_Contract Lock_Protocol File_Recovery
    Evolution_Delta Workspace_Types Facet_Propagation Naming Policy
    Semantic_Decls
begin

text \<open>
  Modelable describes data models (\<^verbatim>\<open>.mdl\<close> files: domains with versioned entities, aggregates, events and
  values, projections that read them, enums, APIs and indexes), compares their versions, and compiles them to
  many targets. This library models its compiler core, \<^verbatim>\<open>cli/src/modelable\<close>, in the order in which the code
  depends on it; paths below are relative to that directory.

  \<^bold>\<open>The parts and their theories.\<close>

  \<^item> \<^verbatim>\<open>Prelude\<close>, \<^verbatim>\<open>Py_String\<close>, \<^verbatim>\<open>Json\<close>: what the code uses of Python. Errors are values of a sum type with
    \<open>sbind\<close>, \<open>raise_if\<close> and \<open>smap\<close>; dictionaries are association lists in insertion order (\<open>dict\<close>,
    \<open>dict_put\<close>), since their order shows in reports; strings, \<^verbatim>\<open>int()\<close>, \<^verbatim>\<open>split\<close>, \<^verbatim>\<open>strip\<close>; JSON
    values with the canonical \<^verbatim>\<open>json.dumps\<close>. Python integers are \<open>int\<close>.
  \<^item> \<^verbatim>\<open>Identity\<close> (\<^verbatim>\<open>identity.py\<close>): identities of declarations, exact references and semantic paths, with their
    parsers and renderers. Parsing accepts exactly what rendering produces.
  \<^item> \<^verbatim>\<open>Ir\<close> (\<^verbatim>\<open>parser/ir.py\<close>): one record or datatype per class of the intermediate representation, the
    validators of the classes and the latest-version selectors.
  \<^item> \<^verbatim>\<open>Type_Signature\<close> (\<^verbatim>\<open>compat/diff.py\<close>, \<^verbatim>\<open>_type_signature\<close>): the text that stands for a type in a
    comparison; \<open>type_signature_separates\<close> shows what two equal texts mean.
  \<^item> \<^verbatim>\<open>Wire\<close> (\<^verbatim>\<open>parser/wire.py\<close>): merging wire hints.
  \<^item> \<^verbatim>\<open>Cel_Lexer\<close>, \<^verbatim>\<open>Cel_Parser\<close>, \<^verbatim>\<open>Cel_Total\<close>, \<^verbatim>\<open>Cel_Check\<close> (\<^verbatim>\<open>expressions/cel.py\<close>): tokens, recursive
    descent, the proof that the parser returns on every text, and the validator with type inference and lineage.
  \<^item> \<^verbatim>\<open>Lifecycle\<close> (\<^verbatim>\<open>lifecycle.py\<close>): the document of lifecycle states, the transition rule as a step relation,
    and the findings on references to declarations that are no longer live.
  \<^item> \<^verbatim>\<open>Enum_Numbers\<close> (\<^verbatim>\<open>registry/enum_numbers.py\<close>): the ledger of Protobuf numbers; the lock
    file it is kept in, and the run of a compilation that reads and overwrites it. Over runs that all declare an enum
    none of its numbers changes hands; a run that does not declare it loses them.
  \<^item> \<^verbatim>\<open>Graph\<close>, \<^verbatim>\<open>Migration\<close> (\<^verbatim>\<open>migration.py\<close>): depth-first cycle search and reachability, the validation of
    migration documents and their lineage edges.
  \<^item> \<^verbatim>\<open>Resolver\<close> (\<^verbatim>\<open>registry/resolver.py\<close>): resolution of references with exact versions, ranges and change
    kinds; bare names, dependents and the reference check of a workspace.
  \<^item> \<^verbatim>\<open>Dependency\<close> (\<^verbatim>\<open>dependency_graph.py\<close>, \<^verbatim>\<open>compat/projection_fields.py\<close>): the aliases of a projection and the
    properties it reads; the type of a projection field, followed through direct mappings.
  \<^item> \<^verbatim>\<open>Enum_Compat\<close>, \<^verbatim>\<open>Diff\<close>, \<^verbatim>\<open>Projection_Diff\<close> (\<^verbatim>\<open>compat/enums.py\<close>, \<^verbatim>\<open>compat/diff.py\<close>): comparison of enums,
    of model versions (renames, fields, keys, governance), of index declarations and of projection versions in five
    dimensions. \<^verbatim>\<open>Diff_Contract\<close> and \<^verbatim>\<open>Projection_Contract\<close> hold the contracts they implement.
  \<^item> \<^verbatim>\<open>Checker\<close>, \<^verbatim>\<open>Checker_Contract\<close> (\<^verbatim>\<open>compat/checker.py\<close>): the reports on models, projections and APIs, the
    refinement of enum bumps, the impact of a model change on projections, and what each status means.
  \<^item> \<^verbatim>\<open>Change_Kind\<close> (\<^verbatim>\<open>validation/semantic.py\<close>, \<^verbatim>\<open>_validate_change_kind\<close>): a version declared additive is accepted
    exactly on the contract of \<^verbatim>\<open>Diff_Contract\<close>.
  \<^item> \<^verbatim>\<open>Semantic_Fields\<close>, \<^verbatim>\<open>Semantic_Models\<close>, \<^verbatim>\<open>Semantic_Types\<close>, \<^verbatim>\<open>Semantic_Decls\<close>
    (\<^verbatim>\<open>validation/semantic.py\<close>): all other checks of a file. Each check is the list of the diagnostics it appends;
    the theorems say for which declarations it is empty. The check of projections may not return.
  \<^item> \<^verbatim>\<open>Evolution\<close>, \<^verbatim>\<open>Evolution_Delta\<close> (\<^verbatim>\<open>compiler/workspace.py\<close>, \<^verbatim>\<open>compiler/version_delta.py\<close>,
    \<^verbatim>\<open>refactor/compact_version.py\<close>): \<^verbatim>\<open>evolves\<close> declarations, their expansion over a workspace, and the delta between
    two versions, which expands to the version it was made from, up to the \<^verbatim>\<open>==\<close> of Python on fields.
  \<^item> \<^verbatim>\<open>Py_Equal\<close>: that \<^verbatim>\<open>==\<close>, on JSON values, fields and types, wherever the code compares with it values that
    may hold numbers (\<^verbatim>\<open>1 == 1.0 == True\<close>).
  \<^item> \<^verbatim>\<open>Workspace_Types\<close> (\<^verbatim>\<open>compiler/workspace.py\<close>): the members of enum projections and the check of named types.
  \<^item> \<^verbatim>\<open>Transition\<close>, \<^verbatim>\<open>Lock_Protocol\<close>, \<^verbatim>\<open>File_Transaction\<close>, \<^verbatim>\<open>File_Invariant\<close>, \<^verbatim>\<open>File_Atomicity\<close>, \<^verbatim>\<open>File_Recovery\<close>
    (\<^verbatim>\<open>operations/file_transaction.py\<close>): the workspace lock and the promotion of staged files as step relations
    over calls to the operating system, with roll-back, commit, and recovery after a crash. The journal is opened,
    written and renamed in three steps; a roll-back from between them leaves its temporary file.
  \<^item> \<^verbatim>\<open>Py_Number\<close>, \<^verbatim>\<open>Facet_Schema\<close>, \<^verbatim>\<open>Facet_Conformance\<close>, \<^verbatim>\<open>Facets\<close>, \<^verbatim>\<open>Facet_Propagation\<close>
    (\<^verbatim>\<open>facets.py\<close>): identities, subjects and value schemas of facets (facts that external tools attach to
    declarations and fields), what a value conforming to a schema is, the sidecar document and its registry, and the
    inheritance and projection of facets over a workspace. Floats are compared as the doubles nearest to
    their decimal text.
  \<^item> \<^verbatim>\<open>Policy\<close> (\<^verbatim>\<open>compat/policy.py\<close>, with the severities and reports of \<^verbatim>\<open>compat/targets.py\<close>): compatibility
    policies, their reading and their enforcement.
  \<^item> \<^verbatim>\<open>Naming\<close> (\<^verbatim>\<open>emitters/naming.py\<close>): case styles and collisions of emitted identifiers.

  \<^bold>\<open>How they interact.\<close> The checker calls the comparison, which compares type signatures and wire texts, and
  resolves enums, sources and dependents through the resolver; the resolver and the dependency graph
  read the intermediate representation, and the dependency graph parses the computed mappings with the CEL
  parser. Compilation numbers the enums and writes its outputs through file transactions.

  \<^bold>\<open>What the lemmas show.\<close> Parsers: acceptance if and only if the text is a rendering, and totality. Comparisons: a
  report is compatible if and only if a contract stated on the fields alone holds, so no breaking change is missed
  and none invented. Ledgers and documents: invariants over runs, canonical forms as fixed points. Resolution:
  the result is the newest admissible version, and an error means that there is none. Transactions: atomicity
  in every reachable state, by an invariant over the phases that every step keeps.

  \<^bold>\<open>Bounds and fuel.\<close> The CEL parser is given fuel by its number of tokens, and \<open>parse_cel_total\<close> shows that this
  never runs out. Looking up projection fields, comparing and validating projections may run forever where projections
  read each other in a circle, so they are partial functions: \<open>None\<close> means that the code does not return (in
  Python: \<^verbatim>\<open>RecursionError\<close>), and the theorems state when they do. All other loops are structural or have
  a measure. File contents are copied in chunks of any size; a crash may come between any two calls, and a
  recovery may crash any number of times.

  \<^bold>\<open>Parameters.\<close> The content signature of a model version (\<open>signature_fn\<close>) is an argument of the resolver, and the
  file hash (\<open>hash\<close>) one of the transaction; the regular expressions of facet schemas (\<open>patterns\<close>: which
  texts compile, which match where) are another. Nothing is assumed of them.

  \<^bold>\<open>Not modelled.\<close> Reading and writing files outside transactions, the Lark grammar and its transformer, the
  pydantic coercion of raw input, and message texts that no other code reads (they are constructors or
  built as the code builds them where a test or another component compares them). Not yet modelled: the
  loading and merging of workspaces (\<^verbatim>\<open>compiler/\<close>), the
  comparators of target compatibility (\<^verbatim>\<open>compat/targets.py\<close>), the planner, registry snapshots and usage,
  overlays, packages, and the language services. Limits of the interpreter (recursion depth, the 4300 digits of
  \<^verbatim>\<open>int()\<close>) are left out where no theorem mentions them, as are a short \<^verbatim>\<open>os.write\<close> of the journal, a call of the
  recovery or of the lock that raises and is ignored, and values of YAML that JSON does not have. The emitters, the conversation and retrieval
  components, the commands and the editor protocol are glue around these.
\<close>

end
